(* ===== verification/Prelude.thy ===== *)
theory Prelude
  imports Main "HOL-Library.AList" "HOL-Library.Char_ord" "HOL-Library.List_Lexorder"
    "HOL-Library.Sublist" "HOL-Library.Multiset" "HOL-Library.Word"
begin

text \<open>
  Shared vocabulary of the development.

  \<^item> Time: a Go \<open>time.Time\<close> is an integer number of nanoseconds since the zero time
    (so \<open>t.IsZero()\<close> is \<open>t = 0\<close>), a \<open>time.Duration\<close> an integer number of
    nanoseconds; \<open>UTC()\<close> does not change the instant and is dropped.
  \<^item> Strings: a Go string is a list of bytes (\<^typ>\<open>string\<close>), ordered byte-wise by the
    lexicographic order of the library. \<open>ToLower\<close>, \<open>TrimSpace\<close> and \<open>EqualFold\<close> are
    their ASCII parts: bytes above 127 are neither letters nor blanks.
  \<^item> Maps: a Go map is an association list with distinct keys (\<open>gm_ok\<close>). The order of
    the list stands for the order a \<open>range\<close> loop happens to visit the keys in, which Go
    leaves open: a theorem about every such list covers every iteration order.
  \<^item> Errors: a call that may fail returns \<open>'e + 'a\<close>, with \<open>Inl\<close> for the error.
\<close>

subsection \<open>Collections of facts\<close>

named_theorems gm_simps "look-ups in updated Go maps"
named_theorems str_simps "the string functions of the Go library"

subsection \<open>Time\<close>

type_synonym time = int
type_synonym duration = int

abbreviation (input) zero_time :: time where "zero_time \<equiv> 0"

definition second :: duration where "second = 1000000000"
definition minute :: duration where "minute = 60 * second"
definition hour :: duration where "hour = 60 * minute"

text \<open>Seconds between the zero time and the Unix epoch; \<open>t.Unix()\<close> rounds down.\<close>

definition unix_of :: "time \<Rightarrow> int" where
  "unix_of t = t div second - 62135596800"

definition of_unix :: "int \<Rightarrow> time" where
  "of_unix s = (s + 62135596800) * second"

lemma second_pos: "0 < second"
  by (simp add: second_def)

lemma unix_of_unix: "unix_of (of_unix s) = s"
  using second_pos by (simp add: unix_of_def of_unix_def)

lemma unix_of_mono: "t \<le> u \<Longrightarrow> unix_of t \<le> unix_of u"
  using second_pos by (simp add: unix_of_def zdiv_mono1)

subsection \<open>Strings\<close>

definition is_space :: "char \<Rightarrow> bool" where
  "is_space c \<longleftrightarrow> (let n = (of_char c :: nat) in n = 32 \<or> (9 \<le> n \<and> n \<le> 13))"

definition lower_char :: "char \<Rightarrow> char" where
  "lower_char c = (let n = (of_char c :: nat) in
     if 65 \<le> n \<and> n \<le> 90 then char_of (n + 32) else c)"

definition to_lower :: "string \<Rightarrow> string" where
  "to_lower s = map lower_char s"

definition trim_space :: "string \<Rightarrow> string" where
  "trim_space s = rev (dropWhile is_space (rev (dropWhile is_space s)))"

definition equal_fold :: "string \<Rightarrow> string \<Rightarrow> bool" where
  "equal_fold s t \<longleftrightarrow> to_lower s = to_lower t"

text \<open>\<open>strings.Fields\<close>: the maximal runs of non-blank bytes.\<close>

function fields :: "string \<Rightarrow> string list" where
  "fields s = (case dropWhile is_space s of
       [] \<Rightarrow> []
     | c # cs \<Rightarrow> takeWhile (\<lambda>d. \<not> is_space d) (c # cs) #
                 fields (dropWhile (\<lambda>d. \<not> is_space d) (c # cs)))"
  by pat_completeness auto
termination
proof (relation "measure length", simp)
  fix s :: string and c cs
  assume eq: "dropWhile is_space s = c # cs"
  then have "\<not> is_space c"
    by (metis hd_dropWhile list.distinct(1) list.sel(1))
  then have "length (dropWhile (\<lambda>d. \<not> is_space d) (c # cs)) \<le> length cs"
    by (simp add: length_dropWhile_le)
  moreover have "Suc (length cs) \<le> length s"
    using length_dropWhile_le [of is_space s] eq by simp
  ultimately show "(dropWhile (\<lambda>d. \<not> is_space d) (c # cs), s) \<in> measure length"
    by simp
qed

declare fields.simps [simp del]

text \<open>\<open>strings.Split(s, sep)\<close> for a one-byte separator.\<close>

fun split_on :: "char \<Rightarrow> string \<Rightarrow> string list" where
  "split_on d [] = [[]]"
| "split_on d (c # cs) =
     (if c = d then [] # split_on d cs
      else case split_on d cs of [] \<Rightarrow> [[c]] | w # ws \<Rightarrow> (c # w) # ws)"

fun join_with :: "string \<Rightarrow> string list \<Rightarrow> string" where
  "join_with sep [] = []"
| "join_with sep [w] = w"
| "join_with sep (w # v # ws) = w @ sep @ join_with sep (v # ws)"

lemma lower_char_idem [simp]: "lower_char (lower_char c) = lower_char c"
  by (auto simp: lower_char_def Let_def)

lemma to_lower_idem [simp]: "to_lower (to_lower s) = to_lower s"
  by (simp add: to_lower_def)

lemma is_space_lower [simp]: "is_space (lower_char c) = is_space c"
  by (auto simp: lower_char_def is_space_def Let_def)

lemma dropWhile_to_lower: "dropWhile is_space (to_lower s) = to_lower (dropWhile is_space s)"
  by (simp add: to_lower_def dropWhile_map comp_def)

lemma rev_to_lower: "rev (to_lower s) = to_lower (rev s)"
  by (simp add: to_lower_def rev_map)

lemma trim_to_lower: "trim_space (to_lower s) = to_lower (trim_space s)"
  by (simp add: trim_space_def dropWhile_to_lower rev_to_lower)

lemma to_lower_Nil [simp]: "to_lower [] = []" and trim_space_Nil [simp]: "trim_space [] = []"
  by (simp_all add: to_lower_def trim_space_def)

lemma to_lower_eq_Nil [simp]: "to_lower s = [] \<longleftrightarrow> s = []"
  by (simp add: to_lower_def)

lemma dropWhile_hd: "s \<noteq> [] \<Longrightarrow> \<not> P (hd s) \<Longrightarrow> dropWhile P s = s"
  by (cases s) auto

lemma trim_space_id:
  assumes "s = [] \<or> (\<not> is_space (hd s) \<and> \<not> is_space (last s))"
  shows "trim_space s = s"
proof (cases "s = []")
  case False
  with assms have "dropWhile is_space s = s" and "dropWhile is_space (rev s) = rev s"
    by (simp_all add: dropWhile_hd hd_rev)
  then show ?thesis by (simp add: trim_space_def)
qed simp

lemma last_dropWhile: "dropWhile P xs \<noteq> [] \<Longrightarrow> last (dropWhile P xs) = last xs"
  by (induction xs) auto

lemma trim_space_ends:
  assumes "trim_space s \<noteq> []"
  shows "\<not> is_space (hd (trim_space s))" and "\<not> is_space (last (trim_space s))"
proof -
  let ?d = "dropWhile is_space s"
  let ?e = "dropWhile is_space (rev ?d)"
  have e: "?e \<noteq> []" using assms by (simp add: trim_space_def)
  have "\<not> is_space (hd ?e)" using e by (rule hd_dropWhile)
  then show "\<not> is_space (last (trim_space s))"
    using e by (simp add: trim_space_def last_rev)
  have d: "?d \<noteq> []" using e by (metis dropWhile.simps(1) rev.simps(1))
  have "last ?e = last (rev ?d)" using e by (rule last_dropWhile)
  also have "\<dots> = hd ?d" using d by (simp add: last_rev)
  finally have "hd (trim_space s) = hd ?d"
    using e by (simp add: trim_space_def hd_rev)
  then show "\<not> is_space (hd (trim_space s))"
    using hd_dropWhile [OF d] by simp
qed

lemma trim_space_idem [simp]: "trim_space (trim_space s) = trim_space s"
  using trim_space_ends by (intro trim_space_id) blast

lemma equal_fold_refl [simp]: "equal_fold s s"
  by (simp add: equal_fold_def)

lemma equal_fold_sym: "equal_fold s t \<longleftrightarrow> equal_fold t s"
  by (auto simp: equal_fold_def)

lemma split_on_nonempty [simp]: "split_on d s \<noteq> []"
  by (induction d s rule: split_on.induct) (auto split: list.splits)

lemma join_with_Cons_Cons: "join_with sep ((c # w) # ws) = c # join_with sep (w # ws)"
  by (cases ws) auto

lemma join_with_Nil_Cons: "ws \<noteq> [] \<Longrightarrow> join_with sep ([] # ws) = sep @ join_with sep ws"
  by (cases ws) auto

lemma join_split: "join_with [d] (split_on d s) = s"
  by (induction d s rule: split_on.induct)
    (auto split: list.splits simp: join_with_Cons_Cons join_with_Nil_Cons)

subsection \<open>Go maps\<close>

type_synonym ('k, 'v) gomap = "('k \<times> 'v) list"

abbreviation gm_ok :: "('k, 'v) gomap \<Rightarrow> bool" where
  "gm_ok m \<equiv> distinct (map fst m)"

abbreviation gm_get :: "('k, 'v) gomap \<Rightarrow> 'k \<Rightarrow> 'v option" where
  "gm_get \<equiv> map_of"

abbreviation gm_set :: "('k, 'v) gomap \<Rightarrow> 'k \<Rightarrow> 'v \<Rightarrow> ('k, 'v) gomap" where
  "gm_set m k v \<equiv> AList.update k v m"

abbreviation gm_del :: "('k, 'v) gomap \<Rightarrow> 'k \<Rightarrow> ('k, 'v) gomap" where
  "gm_del m k \<equiv> AList.delete k m"

abbreviation gm_has :: "('k, 'v) gomap \<Rightarrow> 'k \<Rightarrow> bool" where
  "gm_has m k \<equiv> map_of m k \<noteq> None"

text \<open>Reading a missing key gives the zero value of the element type.\<close>

definition gm_get0 :: "'v \<Rightarrow> ('k, 'v) gomap \<Rightarrow> 'k \<Rightarrow> 'v" where
  "gm_get0 z m k = (case map_of m k of None \<Rightarrow> z | Some v \<Rightarrow> v)"

definition gm_filter :: "('k \<Rightarrow> 'v \<Rightarrow> bool) \<Rightarrow> ('k, 'v) gomap \<Rightarrow> ('k, 'v) gomap" where
  "gm_filter P m = filter (\<lambda>(k, v). P k v) m"

lemma gm_get_set [gm_simps]: "gm_get (gm_set m k v) k' = (if k' = k then Some v else gm_get m k')"
  by (simp add: update_conv')

lemma gm_get_del [gm_simps]: "gm_get (gm_del m k) k' = (if k' = k then None else gm_get m k')"
  by (simp add: delete_conv')

lemma gm_ok_set [simp]: "gm_ok m \<Longrightarrow> gm_ok (gm_set m k v)"
  by (rule distinct_update)

lemma gm_ok_del [simp]: "gm_ok m \<Longrightarrow> gm_ok (gm_del m k)"
  by (rule distinct_delete)

lemma gm_ok_filter [simp]: "gm_ok m \<Longrightarrow> gm_ok (gm_filter P m)"
  by (induction m) (auto simp: gm_filter_def)

lemma gm_get_filter [gm_simps]:
  "gm_ok m \<Longrightarrow> gm_get (gm_filter P m) k =
     (case gm_get m k of None \<Rightarrow> None | Some v \<Rightarrow> if P k v then Some v else None)"
  by (induction m) (auto simp: gm_filter_def map_of_eq_None_iff image_iff split: option.splits)

lemma gm_in_iff: "gm_ok m \<Longrightarrow> (k, v) \<in> set m \<longleftrightarrow> gm_get m k = Some v"
  by simp

lemma gm_ex_entry:
  assumes "gm_ok m"
  shows "(\<exists>v. (k, v) \<in> set m \<and> P v) \<longleftrightarrow> (case gm_get m k of None \<Rightarrow> False | Some v \<Rightarrow> P v)"
proof -
  have "(\<exists>v. (k, v) \<in> set m \<and> P v) \<longleftrightarrow> (\<exists>v. gm_get m k = Some v \<and> P v)"
    using assms by simp
  then show ?thesis by (cases "gm_get m k") simp_all
qed

lemma gm_set_absorb: "gm_get m k = Some v \<Longrightarrow> gm_set m k v = m"
  by (induction m) auto

lemma gm_dom: "set (map fst m) = {k. gm_has m k}"
  by (induction m) auto

lemma gm_length_filter_le: "length (gm_filter P m) \<le> length m"
  by (simp add: gm_filter_def)

lemma gm_length_del_le: "length (gm_del m k) \<le> length m"
  by (rule length_delete_le)

lemma gm_set_subset: "set (gm_set m k v) \<subseteq> insert (k, v) (set m)"
  by (induction m) auto

text \<open>Two lists with the same entries are the same map, whatever order they list them in.\<close>

definition gm_eq :: "('k, 'v) gomap \<Rightarrow> ('k, 'v) gomap \<Rightarrow> bool" where
  "gm_eq m m' \<longleftrightarrow> gm_ok m \<and> gm_ok m' \<and> set m = set m'"

lemma gm_eq_get: "gm_eq m m' \<Longrightarrow> gm_get m = gm_get m'"
  by (simp add: gm_eq_def map_of_inject_set)

subsection \<open>Lists\<close>

text \<open>\<open>replace_first P x xs\<close> overwrites the first element that satisfies \<open>P\<close>.\<close>

fun find_index :: "('a \<Rightarrow> bool) \<Rightarrow> 'a list \<Rightarrow> nat option" where
  "find_index P [] = None"
| "find_index P (x # xs) = (if P x then Some 0 else map_option Suc (find_index P xs))"

fun update_first :: "('a \<Rightarrow> bool) \<Rightarrow> ('a \<Rightarrow> 'a) \<Rightarrow> 'a list \<Rightarrow> 'a list" where
  "update_first P f [] = []"
| "update_first P f (x # xs) = (if P x then f x # xs else x # update_first P f xs)"

fun remove_first :: "('a \<Rightarrow> bool) \<Rightarrow> 'a list \<Rightarrow> 'a list" where
  "remove_first P [] = []"
| "remove_first P (x # xs) = (if P x then xs else x # remove_first P xs)"

lemma length_update_first [simp]: "length (update_first P f xs) = length xs"
  by (induction xs) auto

lemma update_first_none: "(\<And>x. x \<in> set xs \<Longrightarrow> \<not> P x) \<Longrightarrow> update_first P f xs = xs"
  by (induction xs) auto

lemma map_update_first:
  "(\<And>x. P x \<Longrightarrow> g (f x) = g x) \<Longrightarrow> map g (update_first P f xs) = map g xs"
  by (induction xs) auto

lemma find_update_first:
  "(\<And>x. P x \<Longrightarrow> P (f x)) \<Longrightarrow> find P (update_first P f xs) = map_option f (find P xs)"
  by (induction xs) auto

lemma find_update_first_other:
  assumes "\<And>x. P x \<Longrightarrow> \<not> Q x" and "\<And>x. P x \<Longrightarrow> \<not> Q (f x)"
  shows "find Q (update_first P f xs) = find Q xs"
  using assms by (induction xs) auto

subsection \<open>Binary search\<close>

text \<open>
  \<open>sort.Search\<close> of the Go library over the half-open range \<open>[i, j)\<close>: with a predicate that
  stays true once it is true it finds the first index where it holds, or the end of the range.
\<close>

function bin_search :: "(nat \<Rightarrow> bool) \<Rightarrow> nat \<Rightarrow> nat \<Rightarrow> nat" where
  "bin_search f i j =
     (if i < j then
        let h = (i + j) div 2 in
        if \<not> f h then bin_search f (h + 1) j else bin_search f i h
      else i)"
  by pat_completeness auto
termination
  by (relation "measure (\<lambda>(f, i, j). j - i)") auto

declare bin_search.simps [simp del]

definition search_strings :: "string list \<Rightarrow> string \<Rightarrow> nat" where
  "search_strings xs x = bin_search (\<lambda>i. x \<le> xs ! i) 0 (length xs)"

lemma bin_search_spec:
  assumes "i \<le> j" and "\<And>a b. a \<le> b \<Longrightarrow> b < j \<Longrightarrow> f a \<Longrightarrow> f b"
  shows "i \<le> bin_search f i j \<and> bin_search f i j \<le> j \<and>
    (\<forall>k. i \<le> k \<and> k < bin_search f i j \<longrightarrow> \<not> f k) \<and>
    (\<forall>k. bin_search f i j \<le> k \<and> k < j \<longrightarrow> f k)"
  using assms
proof (induction f i j rule: bin_search.induct)
  case (1 f i j)
  let ?h = "(i + j) div 2"
  show ?case
  proof (cases "i < j")
    case False
    then have "bin_search f i j = i" by (simp add: bin_search.simps [of f i j])
    with "1.prems" False show ?thesis by auto
  next
    case lt: True
    then have h: "i \<le> ?h" "?h < j" by auto
    show ?thesis
    proof (cases "f ?h")
      case True
      have "\<And>a b. a \<le> b \<Longrightarrow> b < ?h \<Longrightarrow> f a \<Longrightarrow> f b"
        using "1.prems"(2) h by auto
      with "1.IH"(2) [OF lt refl _ h(1)] True
      have IH: "i \<le> bin_search f i ?h" "bin_search f i ?h \<le> ?h"
        "\<forall>k. i \<le> k \<and> k < bin_search f i ?h \<longrightarrow> \<not> f k"
        "\<forall>k. bin_search f i ?h \<le> k \<and> k < ?h \<longrightarrow> f k"
        by auto
      have eq: "bin_search f i j = bin_search f i ?h"
        using lt True by (simp add: bin_search.simps [of f i j])
      have high: "f k" if "?h \<le> k" "k < j" for k
        using "1.prems"(2) True that by blast
      have "f k" if "bin_search f i ?h \<le> k" "k < j" for k
        using high [of k] IH(4) that by (cases "?h \<le> k") auto
      with IH(1-3) h show ?thesis unfolding eq by auto
    next
      case False
      from "1.IH"(1) [OF lt refl False _ "1.prems"(2)] h
      have IH: "?h + 1 \<le> bin_search f (?h + 1) j" "bin_search f (?h + 1) j \<le> j"
        "\<forall>k. ?h + 1 \<le> k \<and> k < bin_search f (?h + 1) j \<longrightarrow> \<not> f k"
        "\<forall>k. bin_search f (?h + 1) j \<le> k \<and> k < j \<longrightarrow> f k"
        by auto
      have eq: "bin_search f i j = bin_search f (?h + 1) j"
        using lt False by (simp add: bin_search.simps [of f i j])
      have low: "\<not> f k" if "k \<le> ?h" for k
        using "1.prems"(2) False h that by blast
      have "\<not> f k" if "k < bin_search f (?h + 1) j" for k
        using low [of k] IH(3) that by (cases "k \<le> ?h") auto
      with IH(1,2,4) h show ?thesis unfolding eq by auto
    qed
  qed
qed

lemma search_strings_takeWhile:
  assumes "sorted xs"
  shows "search_strings xs x = length (takeWhile (\<lambda>s. s < x) xs)"
proof -
  let ?r = "search_strings xs x"
  have mono: "x \<le> xs ! b" if "a \<le> b" "b < length xs" "x \<le> xs ! a" for a b
    using that assms sorted_nth_mono order_trans by blast
  have spec: "0 \<le> ?r \<and> ?r \<le> length xs \<and> (\<forall>k. 0 \<le> k \<and> k < ?r \<longrightarrow> \<not> x \<le> xs ! k) \<and>
      (\<forall>k. ?r \<le> k \<and> k < length xs \<longrightarrow> x \<le> xs ! k)"
    unfolding search_strings_def by (rule bin_search_spec [OF le0 mono])
  then have r: "?r \<le> length xs" "\<And>k. k < ?r \<Longrightarrow> xs ! k < x"
      "\<And>k. ?r \<le> k \<Longrightarrow> k < length xs \<Longrightarrow> \<not> xs ! k < x"
    by (simp_all add: not_le not_less)
  have "takeWhile (\<lambda>s. s < x) xs = take ?r xs"
    by (rule takeWhile_eq_take_P_nth) (use r in blast)+
  with r(1) show ?thesis by simp
qed

definition insert_at :: "nat \<Rightarrow> 'a \<Rightarrow> 'a list \<Rightarrow> 'a list" where
  "insert_at i x xs = take i xs @ x # drop i xs"

lemma insort_takeWhile: "insort x xs = takeWhile (\<lambda>s. s < x) xs @ x # dropWhile (\<lambda>s. s < x) xs"
  by (induction xs) auto

lemma insert_at_search:
  assumes "sorted xs"
  shows "insert_at (search_strings xs x) x xs = insort x xs"
proof -
  have "take (length (takeWhile (\<lambda>s. s < x) xs)) xs = takeWhile (\<lambda>s. s < x) xs"
    by (rule takeWhile_eq_take [symmetric])
  moreover have "drop (length (takeWhile (\<lambda>s. s < x) xs)) xs = dropWhile (\<lambda>s. s < x) xs"
    by (rule dropWhile_eq_drop [symmetric])
  ultimately show ?thesis
    unfolding insert_at_def search_strings_takeWhile [OF assms] insort_takeWhile by (rule arg_cong2)
qed

subsection \<open>Loops that return early\<close>

fun first_some :: "('a \<Rightarrow> 'b option) \<Rightarrow> 'a list \<Rightarrow> 'b option" where
  "first_some f [] = None"
| "first_some f (x # xs) = (case f x of None \<Rightarrow> first_some f xs | Some y \<Rightarrow> Some y)"

lemma first_some_cong [fundef_cong]:
  "xs = ys \<Longrightarrow> (\<And>x. x \<in> set ys \<Longrightarrow> f x = g x) \<Longrightarrow> first_some f xs = first_some g ys"
  by (induction xs arbitrary: ys) (auto split: option.split)

lemma first_some_None: "first_some f xs = None \<longleftrightarrow> (\<forall>x \<in> set xs. f x = None)"
  by (induction xs) (auto split: option.split)

subsection \<open>Values of interface type\<close>

text \<open>
  What a decoded JSON payload (or a Go caller) may put behind an \<^verbatim>\<open>interface{}\<close>; a float64 is
  kept as its bit pattern, no arithmetic is done on it.
\<close>

datatype go_value =
    VNil
  | VBool bool
  | VInt int
  | VFloat "64 word"
  | VStr string
  | VStrs "string list"
  | VList "go_value list"
  | VMap "(string \<times> go_value) list"
  | VMaps "(string \<times> go_value) list list"

text \<open>A map that may be nil.\<close>

type_synonym content = "(string, go_value) gomap option"

end
