(* ===== verification/Text_Utils.thy ===== *)
theory Text_Utils
  imports Prelude
begin

text \<open>
  The text helpers of \<open>pkg/utils/text.go\<close>: severity normalisation and ranking, the scanner
  that cuts the first JSON object out of a model's answer, and the one-line renderer.
  The scanner is shown to accept exactly the balanced objects of a grammar of its own.
\<close>

subsection \<open>Severities\<close>

definition NormalizeSeverity :: "string \<Rightarrow> string" where
  "NormalizeSeverity s =
     (let t = to_lower (trim_space s) in
      if t \<in> {''critical'', ''high'', ''medium'', ''low''} then t else ''medium'')"

definition SeverityRank :: "string \<Rightarrow> nat" where
  "SeverityRank s =
     (let t = to_lower (trim_space s) in
      if t = ''critical'' then 4
      else if t = ''high'' then 3
      else if t = ''medium'' then 2
      else if t = ''low'' then 1
      else 0)"

text \<open>The canonical severities are their own normal form.\<close>

lemma canonical_fixed:
  assumes "t \<in> {''critical'', ''high'', ''medium'', ''low''}"
  shows "to_lower (trim_space t) = t"
proof -
  have "trim_space t = t"
    using assms by (intro trim_space_id) (auto simp: is_space_def)
  moreover have "to_lower t = t"
    using assms by (auto simp: to_lower_def lower_char_def)
  ultimately show ?thesis by simp
qed

lemma NormalizeSeverity_canonical:
  "NormalizeSeverity s \<in> {''critical'', ''high'', ''medium'', ''low''}"
  by (simp add: NormalizeSeverity_def Let_def)

lemma NormalizeSeverity_nonempty [simp]: "NormalizeSeverity s \<noteq> []"
  using NormalizeSeverity_canonical [of s] by auto

lemma NormalizeSeverity_idem [simp]:
  "NormalizeSeverity (NormalizeSeverity s) = NormalizeSeverity s"
  using NormalizeSeverity_canonical [of s] canonical_fixed [of "NormalizeSeverity s"]
  by (simp add: NormalizeSeverity_def [of "NormalizeSeverity s"])

lemma SeverityRank_Normalize:
  "SeverityRank (NormalizeSeverity s) = (if SeverityRank s = 0 then 2 else SeverityRank s)"
proof -
  have "to_lower (trim_space (NormalizeSeverity s)) = NormalizeSeverity s"
    using NormalizeSeverity_canonical by (rule canonical_fixed)
  then show ?thesis
    by (auto simp: SeverityRank_def NormalizeSeverity_def Let_def)
qed

lemma SeverityRank_le_4: "SeverityRank s \<le> 4"
  by (simp add: SeverityRank_def Let_def)

lemma SeverityRank_Normalize_pos [simp]: "0 < SeverityRank (NormalizeSeverity s)"
  by (simp add: SeverityRank_Normalize)

lemma SeverityRank_le_Normalize: "SeverityRank s \<le> SeverityRank (NormalizeSeverity s)"
  by (simp add: SeverityRank_Normalize)

lemma SeverityRank_Nil [simp]: "SeverityRank [] = 0"
  by (simp add: SeverityRank_def)

text \<open>On normalised severities the rank loses nothing.\<close>

lemma SeverityRank_inj:
  assumes "NormalizeSeverity s = s" "NormalizeSeverity t = t" "SeverityRank s = SeverityRank t"
  shows "s = t"
proof -
  have "to_lower (trim_space s) = s" "to_lower (trim_space t) = t"
    using assms(1,2) NormalizeSeverity_canonical canonical_fixed by metis+
  moreover have "s \<in> {''critical'', ''high'', ''medium'', ''low''}"
    and "t \<in> {''critical'', ''high'', ''medium'', ''low''}"
    using assms(1,2) NormalizeSeverity_canonical by metis+
  ultimately show ?thesis using assms(3)
    by (auto simp: SeverityRank_def Let_def)
qed

subsection \<open>The first JSON object of a text\<close>

abbreviation c_open :: char where "c_open \<equiv> CHR ''{''"
abbreviation c_close :: char where "c_close \<equiv> CHR ''}''"
abbreviation c_quote :: char where "c_quote \<equiv> CHR 0x22"
abbreviation c_back :: char where "c_back \<equiv> CHR 0x5C"

text \<open>
  The loop of \<open>ExtractJSONObject\<close> from the first brace on: the arguments are \<open>depth\<close>,
  \<open>inStr\<close> and \<open>esc\<close>, the result is the number of bytes up to and including the brace that
  brings the depth back to zero, or \<open>None\<close> when the text ends first.
\<close>

fun json_scan :: "int \<Rightarrow> bool \<Rightarrow> bool \<Rightarrow> string \<Rightarrow> nat option" where
  "json_scan depth inStr esc [] = None"
| "json_scan depth inStr esc (c # cs) =
     (if inStr then
        map_option Suc
          (if esc then json_scan depth True False cs
           else if c = c_back then json_scan depth True True cs
           else if c = c_quote then json_scan depth False False cs
           else json_scan depth True False cs)
      else if c = c_quote then map_option Suc (json_scan depth True esc cs)
      else if c = c_open then map_option Suc (json_scan (depth + 1) False esc cs)
      else if c = c_close then
        (if depth - 1 = 0 then Some 1
         else map_option Suc (json_scan (depth - 1) False esc cs))
      else map_option Suc (json_scan depth False esc cs))"

definition ExtractJSONObject :: "string \<Rightarrow> string" where
  "ExtractJSONObject s =
     (let t = dropWhile (\<lambda>c. c \<noteq> c_open) s in
      if t = [] then []
      else case json_scan 0 False False t of
             None \<Rightarrow> []
           | Some n \<Rightarrow> take n t)"

text \<open>The grammar: an object is a brace, any items, and the closing brace.\<close>

inductive json_string_rest :: "string \<Rightarrow> bool" where
  end_quote: "json_string_rest [c_quote]"
| escaped: "json_string_rest s \<Longrightarrow> json_string_rest (c_back # c # s)"
| plain: "c \<noteq> c_quote \<Longrightarrow> c \<noteq> c_back \<Longrightarrow> json_string_rest s \<Longrightarrow> json_string_rest (c # s)"

inductive json_rest :: "string \<Rightarrow> bool" where
  close: "json_rest [c_close]"
| item_char: "c \<notin> {c_quote, c_open, c_close} \<Longrightarrow> json_rest s \<Longrightarrow> json_rest (c # s)"
| item_string: "json_string_rest t \<Longrightarrow> json_rest s \<Longrightarrow> json_rest (c_quote # t @ s)"
| item_object: "json_rest t \<Longrightarrow> json_rest s \<Longrightarrow> json_rest (c_open # t @ s)"

text \<open>\<open>json_rest\<close> is what may follow an opening brace, so an object is\<close>

definition json_object :: "string \<Rightarrow> bool" where
  "json_object s \<longleftrightarrow> (\<exists>t. s = c_open # t \<and> json_rest t)"

lemma scan_string_rest:
  "json_string_rest t \<Longrightarrow>
     json_scan d True False (t @ u) = map_option (\<lambda>n. length t + n) (json_scan d False False u)"
  by (induction rule: json_string_rest.induct) (auto simp: option.map_comp comp_def)

lemma scan_rest:
  "json_rest t \<Longrightarrow> 0 < d \<Longrightarrow>
     json_scan d False False (t @ u) =
       (if d = 1 then Some (length t)
        else map_option (\<lambda>n. length t + n) (json_scan (d - 1) False False u))"
  by (induction arbitrary: d u rule: json_rest.induct)
    (auto simp: scan_string_rest map_option_case split: option.splits)

lemma scan_in_string_split:
  "json_scan d True e u = Some n \<Longrightarrow>
     \<exists>t v m. u = t @ v \<and> json_string_rest (if e then c_back # t else t) \<and>
       n = length t + m \<and> json_scan d False False v = Some m"
proof (induction u arbitrary: e n)
  case (Cons c cs)
  show ?case
  proof (cases "\<not> e \<and> c = c_quote")
    case True
    with Cons.prems obtain m where "json_scan d False False cs = Some m" "n = Suc m"
      by auto
    with True show ?thesis
      by (intro exI [of _ "[c]"] exI [of _ cs] exI [of _ m]) (auto intro: json_string_rest.intros)
  next
    case False
    let ?e = "\<not> e \<and> c = c_back"
    from Cons.prems False obtain n' where n': "n = Suc n'" "json_scan d True ?e cs = Some n'"
      by (auto split: if_splits)
    from Cons.IH [OF n'(2)] obtain t v m where
      t: "cs = t @ v" "json_string_rest (if ?e then c_back # t else t)"
         "n' = length t + m" "json_scan d False False v = Some m"
      by blast
    have "json_string_rest (if e then c_back # c # t else c # t)"
      using False t(2) by (auto intro: json_string_rest.intros split: if_splits)
    with t n'(1) show ?thesis
      by (intro exI [of _ "c # t"] exI [of _ v] exI [of _ m]) auto
  qed
qed simp

text \<open>
  From depth \<open>d\<close> the scanner has still \<open>d\<close> objects to close: what it consumes is a chain of
  \<open>d\<close> object tails.
\<close>

fun json_tails :: "nat \<Rightarrow> string \<Rightarrow> bool" where
  "json_tails 0 s \<longleftrightarrow> s = []"
| "json_tails (Suc k) s \<longleftrightarrow> (\<exists>t u. s = t @ u \<and> json_rest t \<and> json_tails k u)"

lemma json_tails_item:
  assumes "json_tails (Suc k) s" and "\<And>t. json_rest t \<Longrightarrow> json_rest (p @ t)"
  shows "json_tails (Suc k) (p @ s)"
  using assms by (metis append.assoc json_tails.simps(2))

lemma json_tails_step: "json_rest t \<Longrightarrow> json_tails k u \<Longrightarrow> json_tails (Suc k) (t @ u)"
  by auto

lemma scan_sound:
  "json_scan (int (Suc k)) False False s = Some n \<Longrightarrow> n \<le> length s \<and> json_tails (Suc k) (take n s)"
proof (induction "length s" arbitrary: s k n rule: less_induct)
  case less
  then obtain c cs where s: "s = c # cs" by (cases s) auto
  consider (quote) "c = c_quote" | (lbrace) "c = c_open" | (rbrace) "c = c_close"
    | (other) "c \<notin> {c_quote, c_open, c_close}" by blast
  then show ?case
  proof cases
    case quote
    with less.prems s obtain n' where n: "n = Suc n'"
      "json_scan (int (Suc k)) True False cs = Some n'" by auto
    then obtain t v m where t: "cs = t @ v" "json_string_rest t" "n' = length t + m"
      "json_scan (int (Suc k)) False False v = Some m"
      using scan_in_string_split [OF n(2)] by auto
    with less.hyps [OF _ t(4)] s have "m \<le> length v" "json_tails (Suc k) (take m v)" by auto
    moreover have "json_tails (Suc k) ((c_quote # t) @ take m v)"
      using calculation(2) t(2) by (intro json_tails_item) (auto intro: json_rest.item_string)
    ultimately show ?thesis using s quote n(1) t by simp
  next
    case lbrace
    with less.prems s obtain n' where n: "n = Suc n'"
      "json_scan (int (Suc (Suc k))) False False cs = Some n'"
      by (auto simp: algebra_simps)
    then have "n' \<le> length cs" "json_tails (Suc (Suc k)) (take n' cs)"
      using less.hyps [OF _ n(2)] s by auto
    moreover from this(2) obtain t u v where "take n' cs = t @ u @ v" "json_rest t" "json_rest u"
      "json_tails k v" by auto
    ultimately show ?thesis
      using s lbrace n(1) json_tails_step [OF json_rest.item_object [of t u], of k v] by simp
  next
    case rbrace
    show ?thesis
    proof (cases k)
      case 0
      with rbrace less.prems s show ?thesis by (auto intro: json_rest.close)
    next
      case (Suc j)
      with rbrace less.prems s obtain n' where n: "n = Suc n'"
        "json_scan (int (Suc j)) False False cs = Some n'" by (auto split: if_splits)
      then have "n' \<le> length cs" "json_tails (Suc j) (take n' cs)"
        using less.hyps [OF _ n(2)] s by auto
      then show ?thesis
        using s rbrace n(1) Suc
        using json_tails_step [OF json_rest.close, of "Suc j" "take n' cs"] by simp
    qed
  next
    case other
    with less.prems s obtain n' where n: "n = Suc n'"
      "json_scan (int (Suc k)) False False cs = Some n'" by auto
    then have "n' \<le> length cs" "json_tails (Suc k) (take n' cs)"
      using less.hyps [OF _ n(2)] s by auto
    moreover have "json_tails (Suc k) ([c] @ take n' cs)"
      using calculation(2) other by (intro json_tails_item) (auto intro: json_rest.item_char)
    ultimately show ?thesis using s n(1) by simp
  qed
qed

lemma Extract_object:
  assumes "c_open \<notin> set p" and "json_object b"
  shows "ExtractJSONObject (p @ b @ q) = b"
proof -
  from assms(2) obtain t where b: "b = c_open # t" "json_rest t" by (auto simp: json_object_def)
  have "dropWhile (\<lambda>c. c \<noteq> c_open) (p @ b @ q) = b @ q"
    using assms(1) b(1) by (subst dropWhile_append2) auto
  moreover have "json_scan 0 False False (b @ q) = Some (length b)"
    using scan_rest [OF b(2), of 1 q] b(1) by simp
  ultimately show ?thesis using b(1) by (simp add: ExtractJSONObject_def)
qed

lemma Extract_nonempty:
  assumes "ExtractJSONObject s \<noteq> []"
  shows "\<exists>p q. s = p @ ExtractJSONObject s @ q \<and> c_open \<notin> set p \<and> json_object (ExtractJSONObject s)"
proof -
  let ?t = "dropWhile (\<lambda>c. c \<noteq> c_open) s"
  let ?p = "takeWhile (\<lambda>c. c \<noteq> c_open) s"
  have t: "?t \<noteq> []" using assms by (auto simp: ExtractJSONObject_def Let_def split: if_splits)
  then have "hd ?t = c_open" using hd_dropWhile [OF t] by simp
  then obtain u where u: "?t = c_open # u" using t by (cases ?t) auto
  from assms u obtain n where n: "json_scan 1 False False u = Some n"
    and e: "ExtractJSONObject s = c_open # take n u"
    by (auto simp: ExtractJSONObject_def Let_def split: option.splits)
  have "json_tails (Suc 0) (take n u)" using scan_sound [of 0 u n] n by simp
  then have "json_object (ExtractJSONObject s)" using e by (auto simp: json_object_def)
  moreover have "s = ?p @ (c_open # take n u) @ drop n u" using u by (metis append_Cons append_take_drop_id takeWhile_dropWhile_id)
  moreover have "c_open \<notin> set ?p" by (auto dest: set_takeWhileD)
  ultimately show ?thesis using e by metis
qed

subsection \<open>One-line rendering\<close>

text \<open>The ellipsis is one code point, three bytes of UTF-8.\<close>

definition ellipsis :: string where
  "ellipsis = [CHR 0xE2, CHR 0x80, CHR 0xA6]"

definition OneLine :: "string \<Rightarrow> int \<Rightarrow> string" where
  "OneLine s maxLen =
     (let t = map (\<lambda>c. if c = CHR 0x0A then CHR 0x20 else c) s;
          u = map (\<lambda>c. if c = CHR 0x0D then CHR 0x20 else c) t
      in if 0 < maxLen \<and> maxLen < int (length u) then take (nat maxLen) u @ ellipsis else u)"

lemma OneLine_no_newline: "CHR 0x0A \<notin> set (OneLine s n)" "CHR 0x0D \<notin> set (OneLine s n)"
  by (auto simp: OneLine_def Let_def ellipsis_def dest!: in_set_takeD split: if_splits)

lemma OneLine_length: "0 < n \<Longrightarrow> int (length (OneLine s n)) \<le> n + 3"
  by (auto simp: OneLine_def Let_def ellipsis_def)

subsection \<open>Property\<close>

text \<open>
  C10: \<open>ExtractJSONObject\<close> returns a text exactly when it is the balanced object (braces nested,
  braces inside string literals not counted, escapes skipped) that starts at the first opening
  brace of the input; otherwise it returns the empty string.
\<close>

theorem ExtractJSONObject_iff:
  "ExtractJSONObject s = b \<and> b \<noteq> [] \<longleftrightarrow>
     (\<exists>p q. s = p @ b @ q \<and> c_open \<notin> set p \<and> json_object b)"
proof
  assume "ExtractJSONObject s = b \<and> b \<noteq> []"
  then show "\<exists>p q. s = p @ b @ q \<and> c_open \<notin> set p \<and> json_object b"
    using Extract_nonempty [of s] by auto
next
  assume "\<exists>p q. s = p @ b @ q \<and> c_open \<notin> set p \<and> json_object b"
  then show "ExtractJSONObject s = b \<and> b \<noteq> []"
    using Extract_object by (auto simp: json_object_def)
qed

end
