(* ===== verification/Alert_Payload.thy ===== *)
theory Alert_Payload
  imports Prelude
begin

text \<open>
  The case-folded view of an alert payload (\<open>pkg/utils/alert_payload.go\<close>): the fold index
  \<open>FoldedPayload\<close> builds, the key resolution on top of it, and the extractors of service,
  severity, title, source and pattern id. The lazily filled caches of the struct are the values
  of pure functions of the payload, which is never written to, and are recomputed here.

  The index is shown to compute a simple reference (the exact spelling, else the smallest
  accepted one), and every extractor to be independent of the order in which Go iterates the
  payload's maps, at every level of nesting.
\<close>

subsection \<open>Key sets\<close>

definition serviceKeys :: "string list" where
  "serviceKeys = [''ServiceName'', ''Service'', ''service'', ''service_name'', ''servicename'',
     ''app'', ''component'']"

definition severityKeys :: "string list" where
  "severityKeys = [''Severity'', ''severity'', ''level'', ''priority'']"

definition titleKeys :: "string list" where
  "titleKeys = [''title'', ''alertname'', ''alarmname'', ''summary'', ''subject'', ''name'']"

definition sourceKeys :: "string list" where
  "sourceKeys = [''source'']"

definition patternKeys :: "string list" where
  "patternKeys = [''patternid'', ''pattern_id'', ''key'']"

definition labelParents :: "string list" where
  "labelParents = [''labels'', ''commonLabels'']"

definition cloudWatchServiceDimensions :: "string list" where
  "cloudWatchServiceDimensions = [''ServiceName'', ''service'', ''FunctionName'',
     ''DBInstanceIdentifier'', ''DBClusterIdentifier'', ''TableName'', ''QueueName'',
     ''TopicName'', ''ApiName'', ''ClusterName'', ''TargetGroup'', ''LoadBalancer'',
     ''AutoScalingGroupName'', ''InstanceId'']"

definition cloudWatchSeverityDimensions :: "string list" where
  "cloudWatchSeverityDimensions = [''Severity'', ''severity'', ''level'', ''priority'']"

subsection \<open>Accepting predicates\<close>

fun isNonEmptyString :: "go_value \<Rightarrow> bool" where
  "isNonEmptyString (VStr s) = (trim_space s \<noteq> [])"
| "isNonEmptyString _ = False"

fun isMap :: "go_value \<Rightarrow> bool" where
  "isMap (VMap m) = True"
| "isMap _ = False"

definition isAnyValue :: "go_value \<Rightarrow> bool" where
  "isAnyValue v = True"

text \<open>The string behind a type assertion, with Go's zero value when it fails.\<close>

fun as_string :: "go_value \<Rightarrow> string" where
  "as_string (VStr s) = s"
| "as_string _ = []"

subsection \<open>The fold index\<close>

text \<open>
  One step of the loop of \<open>ensureFolded\<close>: the index maps a lowercased key to the spelling that
  wins, and, only when there is more than one spelling, to the ordered list of all of them.
\<close>

type_synonym fold_index = "(string, string) gomap \<times> (string, string list) gomap"

definition fold_step :: "string \<Rightarrow> fold_index \<Rightarrow> fold_index" where
  "fold_step k idx =
     (let (folded, dupes) = idx; lowered = to_lower k in
      case gm_get folded lowered of
        None \<Rightarrow> (gm_set folded lowered k, dupes)
      | Some won \<Rightarrow>
          (let spellings = (case gm_get dupes lowered of None \<Rightarrow> [won] | Some sp \<Rightarrow> sp);
               spellings' = insert_at (search_strings spellings k) k spellings
           in (gm_set folded lowered (hd spellings'), gm_set dupes lowered spellings')))"

definition ensureFolded :: "(string, go_value) gomap \<Rightarrow> fold_index" where
  "ensureFolded m = fold fold_step (map fst m) ([], [])"

definition fp_key :: "content \<Rightarrow> string \<Rightarrow> (go_value \<Rightarrow> bool) \<Rightarrow> string option" where
  "fp_key content name accept =
     (case content of
        None \<Rightarrow> None
      | Some m \<Rightarrow>
          (if gm_has m name \<and> accept (gm_get0 VNil m name) then Some name
           else
             let (folded, dupes) = ensureFolded m; lowered = to_lower name in
             case gm_get dupes lowered of
               Some spellings \<Rightarrow> find (\<lambda>ck. accept (gm_get0 VNil m ck)) spellings
             | None \<Rightarrow>
                 (case gm_get folded lowered of
                    None \<Rightarrow> None
                  | Some ck \<Rightarrow> if accept (gm_get0 VNil m ck) then Some ck else None)))"

subsection \<open>Extractors\<close>

definition foldedString :: "content \<Rightarrow> string list \<Rightarrow> string" where
  "foldedString content keys =
     (case first_some (\<lambda>k. fp_key content k isNonEmptyString) keys of
        None \<Rightarrow> []
      | Some ck \<Rightarrow>
          (case content of None \<Rightarrow> [] | Some m \<Rightarrow> trim_space (as_string (gm_get0 VNil m ck))))"

definition fp_String :: "content \<Rightarrow> string list \<Rightarrow> string" where
  "fp_String content keys =
     (case content of
        None \<Rightarrow> []
      | Some m \<Rightarrow>
          (case find (\<lambda>k. gm_has m k \<and> isNonEmptyString (gm_get0 VNil m k)) keys of
             Some k \<Rightarrow> trim_space (as_string (gm_get0 VNil m k))
           | None \<Rightarrow> foldedString content keys))"

fun as_map :: "go_value \<Rightarrow> content" where
  "as_map (VMap m) = Some m"
| "as_map _ = None"

text \<open>\<open>child\<close> returns the nested payload, if there is one.\<close>

definition fp_child :: "content \<Rightarrow> string \<Rightarrow> content option" where
  "fp_child content name =
     (case fp_key content name isMap of
        None \<Rightarrow> None
      | Some ck \<Rightarrow>
          (case content of None \<Rightarrow> None | Some m \<Rightarrow> Some (as_map (gm_get0 VNil m ck))))"

definition nestedString :: "content \<Rightarrow> string list \<Rightarrow> string list \<Rightarrow> string" where
  "nestedString content parents keys =
     (case first_some (\<lambda>parent. case fp_child content parent of
                          None \<Rightarrow> None
                        | Some nested \<Rightarrow>
                            (let s = fp_String nested keys in if s \<noteq> [] then Some s else None))
             parents of
        None \<Rightarrow> []
      | Some s \<Rightarrow> s)"

text \<open>
  \<open>dimensionField\<close> scans the two-key entry directly: the exact spelling, else the smallest
  spelling that folds to the key and carries a non-empty string.
\<close>

definition dimension_scan ::
  "string \<Rightarrow> string \<times> go_value \<Rightarrow> string option \<Rightarrow> string option" where
  "dimension_scan key entry best =
     (let (ck, cv) = entry in
      if \<not> equal_fold ck key \<or> \<not> isNonEmptyString cv then best
      else case best of None \<Rightarrow> Some ck | Some b \<Rightarrow> if ck < b then Some ck else best)"

definition dimensionField :: "(string, go_value) gomap \<Rightarrow> string \<Rightarrow> string" where
  "dimensionField m key =
     (let s = as_string (gm_get0 VNil m key) in
      if trim_space s \<noteq> [] then trim_space s
      else case fold (dimension_scan key) m None of
             None \<Rightarrow> []
           | Some best \<Rightarrow> trim_space (as_string (gm_get0 VNil m best)))"

definition collect_dimension ::
  "(string, go_value) gomap \<Rightarrow> (string, string) gomap \<Rightarrow> (string, string) gomap" where
  "collect_dimension m dims =
     (let name = dimensionField m ''name''; value = dimensionField m ''value'' in
      if name = [] \<or> value = [] then dims
      else let key = to_lower name in
           if gm_has dims key then dims else gm_set dims key value)"

fun dimension_entries :: "go_value \<Rightarrow> (string, go_value) gomap list" where
  "dimension_entries (VList items) =
     List.map_filter (\<lambda>item. as_map item) items"
| "dimension_entries (VMaps ms) = ms"
| "dimension_entries _ = []"

definition fp_dimensions :: "content \<Rightarrow> (string, string) gomap" where
  "fp_dimensions content =
     (case fp_child content ''Trigger'' of
        None \<Rightarrow> []
      | Some trigger \<Rightarrow>
          (let raw = (case fp_key trigger ''Dimensions'' isAnyValue of
                        None \<Rightarrow> VNil
                      | Some k \<Rightarrow>
                          (case trigger of None \<Rightarrow> VNil | Some m \<Rightarrow> gm_get0 VNil m k))
           in fold collect_dimension (dimension_entries raw) []))"

definition fp_dimension :: "content \<Rightarrow> string list \<Rightarrow> string" where
  "fp_dimension content names =
     (let dims = fp_dimensions content in
      case find (\<lambda>want. gm_get0 [] dims (to_lower want) \<noteq> []) names of
        None \<Rightarrow> []
      | Some want \<Rightarrow> gm_get0 [] dims (to_lower want))"

definition ExtractService :: "content \<Rightarrow> string" where
  "ExtractService content =
     (let s = fp_String content serviceKeys in
      if s \<noteq> [] then s
      else let s = nestedString content labelParents serviceKeys in
      if s \<noteq> [] then s
      else fp_dimension content cloudWatchServiceDimensions)"

definition ExtractSeverity :: "content \<Rightarrow> string" where
  "ExtractSeverity content =
     (let s = fp_String content severityKeys in
      if s \<noteq> [] then s
      else let s = nestedString content labelParents severityKeys in
      if s \<noteq> [] then s
      else fp_dimension content cloudWatchSeverityDimensions)"

definition ExtractTitle :: "content \<Rightarrow> string" where
  "ExtractTitle content =
     (let s = foldedString content titleKeys in
      if s \<noteq> [] then s
      else case first_some (\<lambda>parent. case fp_child content parent of
                             None \<Rightarrow> None
                           | Some nested \<Rightarrow>
                               (let s = foldedString nested titleKeys in
                                if s \<noteq> [] then Some s else None))
                  labelParents of
             None \<Rightarrow> []
           | Some s \<Rightarrow> s)"

definition ExtractSource :: "content \<Rightarrow> string" where
  "ExtractSource content = foldedString content sourceKeys"

definition ExtractPatternID :: "content \<Rightarrow> string" where
  "ExtractPatternID content = foldedString content patternKeys"

subsection \<open>The index computes the reference\<close>

text \<open>The reference: the exact spelling if it is accepted, else the smallest accepted spelling.\<close>

definition spellings_of :: "string list \<Rightarrow> string \<Rightarrow> string list" where
  "spellings_of ks l = sort (filter (\<lambda>k. to_lower k = l) ks)"

definition ref_key :: "(string, go_value) gomap \<Rightarrow> string \<Rightarrow> (go_value \<Rightarrow> bool) \<Rightarrow> string option" where
  "ref_key m name accept =
     (if gm_has m name \<and> accept (gm_get0 VNil m name) then Some name
      else find (\<lambda>ck. accept (gm_get0 VNil m ck)) (spellings_of (map fst m) (to_lower name)))"

lemma sort_mset_cong: "mset xs = mset ys \<Longrightarrow> sort xs = sort ys"
  by (metis sorted_list_of_multiset_mset)

lemma spellings_snoc:
  "spellings_of (ks @ [k]) l =
     (if to_lower k = l then insort k (spellings_of ks l) else spellings_of ks l)"
proof (cases "to_lower k = l")
  case True
  then have "spellings_of (ks @ [k]) l = sort (k # filter (\<lambda>k. to_lower k = l) ks)"
    unfolding spellings_of_def by (intro sort_mset_cong) simp
  with True show ?thesis by (simp add: spellings_of_def)
qed (simp add: spellings_of_def)

definition fold_inv :: "string list \<Rightarrow> fold_index \<Rightarrow> bool" where
  "fold_inv ks idx \<longleftrightarrow>
     (\<forall>l. gm_get (fst idx) l = (case spellings_of ks l of [] \<Rightarrow> None | k # _ \<Rightarrow> Some k) \<and>
          gm_get (snd idx) l =
            (if 2 \<le> length (spellings_of ks l) then Some (spellings_of ks l) else None))"

lemma length_insort_2: "xs \<noteq> [] \<Longrightarrow> 2 \<le> length (insort x xs)"
  by (cases xs) auto

lemma fold_step_inv:
  assumes "fold_inv ks idx"
  shows "fold_inv (ks @ [k]) (fold_step k idx)"
proof -
  obtain f d where idx: "idx = (f, d)" by (cases idx)
  let ?l = "to_lower k"
  let ?S = "spellings_of ks ?l"
  have f: "gm_get f ?l = (case ?S of [] \<Rightarrow> None | k # _ \<Rightarrow> Some k)"
    and d: "gm_get d ?l = (if 2 \<le> length ?S then Some ?S else None)"
    using assms idx by (simp_all add: fold_inv_def)
  have other: "l \<noteq> ?l \<Longrightarrow> spellings_of (ks @ [k]) l = spellings_of ks l" for l
    by (auto simp: spellings_snoc)
  have S: "sorted ?S" by (simp add: spellings_of_def)
  show ?thesis
  proof (cases ?S)
    case Nil
    with f d assms idx other show ?thesis
      by (auto simp: fold_inv_def fold_step_def gm_simps spellings_snoc)
  next
    case (Cons w ws)
    then have sp: "(case gm_get d ?l of None \<Rightarrow> [w] | Some sp \<Rightarrow> sp) = ?S"
      using d by (cases ws) auto
    have ins: "insert_at (search_strings ?S k) k ?S = insort k ?S"
      by (rule insert_at_search [OF S])
    have step: "fold_step k idx = (gm_set f ?l (hd (insort k ?S)), gm_set d ?l (insort k ?S))"
      using f Cons sp ins by (simp add: fold_step_def idx Let_def)
    have len: "2 \<le> length (insort k ?S)" using Cons by (intro length_insort_2) simp
    then obtain a b where ab: "insort k ?S = a # b" by (cases "insort k ?S") auto
    have new: "spellings_of (ks @ [k]) ?l = a # b" using ab by (simp add: spellings_snoc)
    have "gm_get (fst (fold_step k idx)) l =
        (case spellings_of (ks @ [k]) l of [] \<Rightarrow> None | k # _ \<Rightarrow> Some k)" for l
      using assms new ab other [of l] by (cases "l = ?l") (auto simp: step [unfolded idx] idx gm_simps fold_inv_def)
    moreover have "gm_get (snd (fold_step k idx)) l =
        (if 2 \<le> length (spellings_of (ks @ [k]) l) then Some (spellings_of (ks @ [k]) l) else None)" for l
      using assms new ab len other [of l]
      by (cases "l = ?l") (auto simp: step [unfolded idx] idx gm_simps fold_inv_def)
    ultimately show ?thesis by (simp add: fold_inv_def)
  qed
qed

lemma fold_steps_inv: "fold_inv ks idx \<Longrightarrow> fold_inv (ks @ js) (fold fold_step js idx)"
proof (induction js arbitrary: ks idx)
  case (Cons j js)
  from Cons.IH [OF fold_step_inv [OF Cons.prems], of j] show ?case by simp
qed simp

lemma ensureFolded_inv: "fold_inv (map fst m) (ensureFolded m)"
proof -
  have "fold_inv [] ([], [])" by (simp add: fold_inv_def spellings_of_def)
  from fold_steps_inv [OF this, of "map fst m"] show ?thesis by (simp add: ensureFolded_def)
qed

lemma fp_key_reference: "fp_key (Some m) name accept = ref_key m name accept"
proof -
  obtain f d where idx: "ensureFolded m = (f, d)" by (cases "ensureFolded m")
  let ?l = "to_lower name"
  let ?S = "spellings_of (map fst m) ?l"
  have "gm_get f ?l = (case ?S of [] \<Rightarrow> None | k # _ \<Rightarrow> Some k)"
    and "gm_get d ?l = (if 2 \<le> length ?S then Some ?S else None)"
    using ensureFolded_inv [of m] by (simp_all add: fold_inv_def idx)
  then show ?thesis
    by (cases ?S rule: list.exhaust [case_product list.exhaust [of "tl ?S"]])
      (auto simp: fp_key_def ref_key_def idx Let_def)
qed

lemma fp_key_None [simp]: "fp_key None name accept = None"
  by (simp add: fp_key_def)

subsection \<open>Independence of the iteration order\<close>

text \<open>
  \<open>gv_sim\<close> relates two values that differ only in the order in which their maps, at any depth,
  list their entries; maps have distinct keys on both sides.
\<close>

inductive gv_sim :: "go_value \<Rightarrow> go_value \<Rightarrow> bool" where
  "gv_sim VNil VNil"
| "gv_sim (VBool b) (VBool b)"
| "gv_sim (VInt i) (VInt i)"
| "gv_sim (VFloat f) (VFloat f)"
| "gv_sim (VStr s) (VStr s)"
| "gv_sim (VStrs ss) (VStrs ss)"
| "list_all2 gv_sim xs ys \<Longrightarrow> gv_sim (VList xs) (VList ys)"
| "gm_ok m \<Longrightarrow> gm_ok m' \<Longrightarrow> \<forall>k. rel_option gv_sim (gm_get m k) (gm_get m' k) \<Longrightarrow>
     gv_sim (VMap m) (VMap m')"
| "list_all2 (\<lambda>m m'. gm_ok m \<and> gm_ok m' \<and> (\<forall>k. rel_option gv_sim (gm_get m k) (gm_get m' k))) ms ms' \<Longrightarrow>
     gv_sim (VMaps ms) (VMaps ms')"

definition map_sim :: "(string, go_value) gomap \<Rightarrow> (string, go_value) gomap \<Rightarrow> bool" where
  "map_sim m m' \<longleftrightarrow> gm_ok m \<and> gm_ok m' \<and> (\<forall>k. rel_option gv_sim (gm_get m k) (gm_get m' k))"

definition content_sim :: "content \<Rightarrow> content \<Rightarrow> bool" where
  "content_sim = rel_option map_sim"

lemma content_sim_None [simp]: "content_sim None c \<longleftrightarrow> c = None" "content_sim c None \<longleftrightarrow> c = None"
  by (auto simp: content_sim_def)

lemma content_sim_Some: "content_sim (Some m) c \<longleftrightarrow> (\<exists>m'. c = Some m' \<and> map_sim m m')"
  by (simp add: content_sim_def option_rel_Some1)

inductive_simps gv_sim_simps [simp]:
  "gv_sim VNil v" "gv_sim (VBool b) v" "gv_sim (VInt i) v" "gv_sim (VFloat f) v"
  "gv_sim (VStr s) v" "gv_sim (VStrs ss) v" "gv_sim (VList xs) v" "gv_sim (VMap m) v"
  "gv_sim (VMaps ms) v"

lemma sim_NonEmpty: "gv_sim v v' \<Longrightarrow> isNonEmptyString v = isNonEmptyString v'"
  by (cases v) auto

lemma sim_isMap: "gv_sim v v' \<Longrightarrow> isMap v = isMap v'"
  by (cases v) auto

lemma sim_as_string: "gv_sim v v' \<Longrightarrow> as_string v = as_string v'"
  by (cases v) auto

lemma sim_as_map: "gv_sim v v' \<Longrightarrow> content_sim (as_map v) (as_map v')"
  by (cases v) (auto simp: content_sim_def map_sim_def)

lemmas sim_accept = sim_NonEmpty sim_isMap

lemma map_sim_rel: "map_sim m m' \<Longrightarrow> rel_option gv_sim (gm_get m k) (gm_get m' k)"
  by (simp add: map_sim_def)

lemma map_sim_None: "map_sim m m' \<Longrightarrow> gm_get m k = None \<longleftrightarrow> gm_get m' k = None"
  using map_sim_rel [of m m' k] by (cases "gm_get m k"; cases "gm_get m' k") auto

lemma map_sim_get0: "map_sim m m' \<Longrightarrow> gv_sim (gm_get0 VNil m k) (gm_get0 VNil m' k)"
  using map_sim_rel [of m m' k]
  by (cases "gm_get m k"; cases "gm_get m' k") (auto simp: gm_get0_def)

lemma map_sim_keys:
  assumes "map_sim m m'"
  shows "mset (map fst m) = mset (map fst m')"
proof -
  from assms have "distinct (map fst m)" "distinct (map fst m')" by (simp_all add: map_sim_def)
  moreover have "set (map fst m) = set (map fst m')"
    unfolding gm_dom by (simp only: map_sim_None [OF assms])
  ultimately show ?thesis by (simp only: set_eq_iff_mset_eq_distinct)
qed

lemma spellings_sim: "map_sim m m' \<Longrightarrow> spellings_of (map fst m) l = spellings_of (map fst m') l"
  unfolding spellings_of_def by (intro sort_mset_cong) (metis mset_filter map_sim_keys)

lemma fp_key_sim:
  assumes "content_sim c c'" and acc: "\<And>v v'. gv_sim v v' \<Longrightarrow> accept v = accept v'"
  shows "fp_key c name accept = fp_key c' name accept"
proof (cases c)
  case (Some m)
  with assms(1) obtain m' where m': "c' = Some m'" "map_sim m m'" by (auto simp: content_sim_Some)
  have "accept (gm_get0 VNil m k) = accept (gm_get0 VNil m' k)" for k
    using m'(2) by (intro acc map_sim_get0)
  with m' map_sim_None [OF m'(2), of name] show ?thesis
    by (simp only: Some fp_key_reference ref_key_def spellings_sim [OF m'(2)])
qed (use assms in simp)
lemma foldedString_sim:
  assumes "content_sim c c'"
  shows "foldedString c keys = foldedString c' keys"
proof (cases c)
  case (Some m)
  with assms obtain m' where m': "c' = Some m'" "map_sim m m'" by (auto simp: content_sim_Some)
  have "fp_key c k isNonEmptyString = fp_key c' k isNonEmptyString" for k
    using assms sim_NonEmpty by (rule fp_key_sim)
  moreover have "as_string (gm_get0 VNil m k) = as_string (gm_get0 VNil m' k)" for k
    using m'(2) by (intro sim_as_string map_sim_get0)
  ultimately show ?thesis by (simp add: foldedString_def Some m'(1) split: option.split)
qed (use assms in simp)

lemma fp_String_sim:
  assumes "content_sim c c'"
  shows "fp_String c keys = fp_String c' keys"
proof (cases c)
  case (Some m)
  with assms obtain m' where m': "c' = Some m'" "map_sim m m'" by (auto simp: content_sim_Some)
  have get0: "gv_sim (gm_get0 VNil m k) (gm_get0 VNil m' k)" for k
    using m'(2) by (rule map_sim_get0)
  have "find (\<lambda>k. gm_has m k \<and> isNonEmptyString (gm_get0 VNil m k)) keys =
      find (\<lambda>k. gm_has m' k \<and> isNonEmptyString (gm_get0 VNil m' k)) keys"
    by (simp only: map_sim_None [OF m'(2)] sim_NonEmpty [OF get0])
  then show ?thesis
    by (simp only: fp_String_def Some m'(1) option.case sim_as_string [OF get0]
        foldedString_sim [OF assms [unfolded Some m'(1)]])
qed (use assms in simp)

lemma fp_child_sim:
  assumes "content_sim c c'"
  shows "rel_option content_sim (fp_child c name) (fp_child c' name)"
proof (cases c)
  case (Some m)
  with assms obtain m' where m': "c' = Some m'" "map_sim m m'" by (auto simp: content_sim_Some)
  have "fp_key c name isMap = fp_key c' name isMap"
    using assms sim_isMap by (rule fp_key_sim)
  moreover have "content_sim (as_map (gm_get0 VNil m k)) (as_map (gm_get0 VNil m' k))" for k
    using m'(2) by (intro sim_as_map map_sim_get0)
  ultimately show ?thesis
    by (simp add: fp_child_def Some m'(1) split: option.split)
qed (use assms in \<open>simp add: fp_child_def\<close>)

text \<open>A loop over the label parents sees the same strings on both sides.\<close>

lemma parents_sim:
  assumes "content_sim c c'" and f: "\<And>n n'. content_sim n n' \<Longrightarrow> f n = f n'"
  shows "first_some (\<lambda>p. case fp_child c p of None \<Rightarrow> None | Some n \<Rightarrow> f n) ps =
    first_some (\<lambda>p. case fp_child c' p of None \<Rightarrow> None | Some n \<Rightarrow> f n) ps"
proof (rule first_some_cong [OF refl])
  fix p assume "p \<in> set ps"
  show "(case fp_child c p of None \<Rightarrow> None | Some n \<Rightarrow> f n) =
      (case fp_child c' p of None \<Rightarrow> None | Some n \<Rightarrow> f n)"
    using fp_child_sim [OF assms(1), of p] by (auto split: option.splits intro: f)
qed

lemma nestedString_sim:
  assumes "content_sim c c'"
  shows "nestedString c ps keys = nestedString c' ps keys"
  unfolding nestedString_def
  by (subst parents_sim [OF assms]) (simp_all only: fp_String_sim)

text \<open>The scan of a dimension entry finds the smallest spelling.\<close>

lemma dimension_scan_min:
  "fold (dimension_scan key) es b =
     (let S = {ck. \<exists>cv. (ck, cv) \<in> set es \<and> equal_fold ck key \<and> isNonEmptyString cv} \<union> set_option b
      in if S = {} then None else Some (Min S))"
proof (induction es arbitrary: b)
  case Nil
  then show ?case by (cases b) auto
next
  case (Cons e es)
  obtain ck cv where e: "e = (ck, cv)" by (cases e)
  define T where "T = {ck. \<exists>cv. (ck, cv) \<in> set es \<and> equal_fold ck key \<and> isNonEmptyString cv}"
  have fin: "finite T"
    unfolding T_def by (rule finite_subset [of _ "fst ` set es"]) force+
  show ?case
  proof (cases "equal_fold ck key \<and> isNonEmptyString cv")
    case False
    then have "{k. \<exists>v. (k, v) \<in> set (e # es) \<and> equal_fold k key \<and> isNonEmptyString v} = T"
      using e by (auto simp: T_def)
    moreover have "dimension_scan key e b = b" using False e by (auto simp: dimension_scan_def)
    ultimately show ?thesis using Cons.IH [of b] by (simp add: T_def [symmetric])
  next
    case True
    then have S: "{k. \<exists>v. (k, v) \<in> set (e # es) \<and> equal_fold k key \<and> isNonEmptyString v} = insert ck T"
      using e by (auto simp: T_def)
    have d: "dimension_scan key e b =
        Some (case b of None \<Rightarrow> ck | Some x \<Rightarrow> min ck x)"
      using True e by (auto simp: dimension_scan_def min_def split: option.splits)
    show ?thesis
      unfolding fold_simps(2) d Cons.IH S T_def [symmetric]
      using fin by (cases b; cases "T = {}") (simp_all add: Let_def ac_simps)
  qed
qed

lemma dimensionField_sim:
  assumes "map_sim m m'"
  shows "dimensionField m key = dimensionField m' key"
proof -
  have get0: "gv_sim (gm_get0 VNil m k) (gm_get0 VNil m' k)" for k
    using assms by (rule map_sim_get0)
  have "(\<exists>cv. (ck, cv) \<in> set m \<and> isNonEmptyString cv) \<longleftrightarrow>
      (\<exists>cv. (ck, cv) \<in> set m' \<and> isNonEmptyString cv)" for ck
  proof -
    have "gm_ok m" "gm_ok m'" using assms by (simp_all add: map_sim_def)
    then show ?thesis
      using map_sim_rel [OF assms, of ck] sim_NonEmpty
      by (simp add: gm_ex_entry split: option.split) (auto simp: option.rel_sel)
  qed
  then have "{ck. \<exists>cv. (ck, cv) \<in> set m \<and> equal_fold ck key \<and> isNonEmptyString cv} =
      {ck. \<exists>cv. (ck, cv) \<in> set m' \<and> equal_fold ck key \<and> isNonEmptyString cv}"
    by blast
  then have "fold (dimension_scan key) m None = fold (dimension_scan key) m' None"
    by (simp only: dimension_scan_min)
  then show ?thesis by (simp only: dimensionField_def sim_as_string [OF get0])
qed

lemma collect_dimension_sim: "map_sim m m' \<Longrightarrow> collect_dimension m = collect_dimension m'"
  by (simp add: collect_dimension_def fun_eq_iff dimensionField_sim)

lemma dimension_entries_sim:
  "gv_sim v v' \<Longrightarrow> list_all2 map_sim (dimension_entries v) (dimension_entries v')"
proof (induction v rule: dimension_entries.induct)
  case (1 items)
  then obtain items' where v': "v' = VList items'" and sim: "list_all2 gv_sim items items'" by auto
  from sim have "list_all2 map_sim (List.map_filter as_map items) (List.map_filter as_map items')"
  proof (induction rule: list_all2_induct)
    case (Cons x xs y ys)
    then have "content_sim (as_map x) (as_map y)" by (intro sim_as_map)
    with Cons.IH show ?case
      by (cases "as_map x"; cases "as_map y")
        (auto simp: content_sim_Some)
  qed simp
  with v' show ?case by simp
next
  case (2 ms)
  then show ?case by (auto simp: map_sim_def [abs_def])
qed auto

lemma fold_collect_sim:
  "list_all2 map_sim ms ms' \<Longrightarrow> fold collect_dimension ms d = fold collect_dimension ms' d"
  by (induction arbitrary: d rule: list_all2_induct) (auto dest: collect_dimension_sim)

lemma fp_dimensions_sim:
  assumes "content_sim c c'"
  shows "fp_dimensions c = fp_dimensions c'"
proof (cases "fp_child c ''Trigger''")
  case None
  with fp_child_sim [OF assms, of "''Trigger''"] show ?thesis by (simp add: fp_dimensions_def)
next
  case (Some t)
  with fp_child_sim [OF assms, of "''Trigger''"] obtain t' where
    t': "fp_child c' ''Trigger'' = Some t'" "content_sim t t'" by (auto simp: option_rel_Some1)
  have key: "fp_key t ''Dimensions'' isAnyValue = fp_key t' ''Dimensions'' isAnyValue"
    using t'(2) by (rule fp_key_sim) (simp add: isAnyValue_def)
  have "gv_sim (case t of None \<Rightarrow> VNil | Some m \<Rightarrow> gm_get0 VNil m k)
      (case t' of None \<Rightarrow> VNil | Some m \<Rightarrow> gm_get0 VNil m k)" for k
    using t'(2) by (auto simp: content_sim_Some map_sim_get0 split: option.split)
  then show ?thesis
    unfolding fp_dimensions_def Some t'(1) option.case key Let_def
    by (intro fold_collect_sim dimension_entries_sim) (simp split: option.split)
qed

lemma fp_dimension_sim: "content_sim c c' \<Longrightarrow> fp_dimension c = fp_dimension c'"
  by (simp add: fp_dimension_def fun_eq_iff fp_dimensions_sim)

lemma ExtractService_sim:
  assumes "content_sim c c'"
  shows "ExtractService c = ExtractService c'"
  by (simp only: ExtractService_def fp_String_sim [OF assms] nestedString_sim [OF assms]
      fp_dimension_sim [OF assms])

lemma ExtractSeverity_sim:
  assumes "content_sim c c'"
  shows "ExtractSeverity c = ExtractSeverity c'"
  by (simp only: ExtractSeverity_def fp_String_sim [OF assms] nestedString_sim [OF assms]
      fp_dimension_sim [OF assms])

lemma ExtractTitle_sim:
  assumes "content_sim c c'"
  shows "ExtractTitle c = ExtractTitle c'"
  unfolding ExtractTitle_def foldedString_sim [OF assms]
  by (subst parents_sim [OF assms]) (simp_all only: foldedString_sim)

lemma ExtractSource_sim: "content_sim c c' \<Longrightarrow> ExtractSource c = ExtractSource c'"
  by (simp add: ExtractSource_def foldedString_sim)

lemma ExtractPatternID_sim: "content_sim c c' \<Longrightarrow> ExtractPatternID c = ExtractPatternID c'"
  by (simp add: ExtractPatternID_def foldedString_sim)

lemmas Extract_sim = ExtractService_sim ExtractSeverity_sim ExtractTitle_sim ExtractSource_sim
  ExtractPatternID_sim

subsection \<open>Properties\<close>

text \<open>
  C11: The fold index of a payload resolves a key like the plain rule does: the exact spelling if
  its value is accepted, else the smallest spelling of the same folded key whose value is.
\<close>

theorem fp_key_is_reference:
  "fp_key (Some m) name accept =
     (if gm_has m name \<and> accept (gm_get0 VNil m name) then Some name
      else find (\<lambda>k. accept (gm_get0 VNil m k)) (sort (filter (\<lambda>k. to_lower k = to_lower name) (map fst m))))"
  unfolding fp_key_reference ref_key_def spellings_of_def by (rule refl)

text \<open>
  What the extractors read from a payload does not depend on the order in which Go iterates its
  maps, at any level of nesting: two payloads with the same contents have the same service,
  severity, title, source and pattern id.
\<close>

theorem extractors_order_independent:
  assumes "content_sim c c'"
  shows "ExtractService c = ExtractService c' \<and> ExtractSeverity c = ExtractSeverity c' \<and>
    ExtractTitle c = ExtractTitle c' \<and> ExtractSource c = ExtractSource c' \<and>
    ExtractPatternID c = ExtractPatternID c'"
  using Extract_sim [OF assms] by simp

theorem extractors_order_independent_witness:
  "ExtractSeverity (Some [(''LEVEL'', VStr ''high''), (''Level'', VStr ''low'')]) =
   ExtractSeverity (Some [(''Level'', VStr ''low''), (''LEVEL'', VStr ''high'')])"
proof -
  have "content_sim (Some [(''LEVEL'', VStr ''high''), (''Level'', VStr ''low'')])
      (Some [(''Level'', VStr ''low''), (''LEVEL'', VStr ''high'')])"
    by (auto simp: content_sim_Some map_sim_def)
  from extractors_order_independent [OF this] show ?thesis by blast
qed

end
