(* ===== verification/Tenancy.thy ===== *)
theory Tenancy
  imports Prelude
begin

text \<open>
  Organization scopes (\<open>pkg/tenancy/scope.go\<close>): the write organization and the ordered,
  duplicate-free read organizations, and the fail-closed choice of a scope for a write.
  A source that may implement \<open>ScopeSource\<close> is an optional scope.
\<close>

definition DefaultOrgID :: string where
  "DefaultOrgID = ''default''"

record OrgScope =
  scope_Write :: string
  scope_Read :: "string list"

definition NormalizeOrgID :: "string \<Rightarrow> string" where
  "NormalizeOrgID orgID = (if orgID = [] then DefaultOrgID else orgID)"

text \<open>
  The closure \<open>add\<close> of \<open>NewOrgScope\<close>: \<open>seen\<close> and \<open>orgs\<close> hold the same organizations, so one
  list carries both.
\<close>

definition add_org :: "string \<Rightarrow> string list \<Rightarrow> string list" where
  "add_org orgID orgs =
     (let org = NormalizeOrgID orgID in if org \<in> set orgs then orgs else orgs @ [org])"

definition NewOrgScope :: "string \<Rightarrow> string list \<Rightarrow> OrgScope" where
  "NewOrgScope write read =
     (let w = NormalizeOrgID write in
      \<lparr>scope_Write = w, scope_Read = fold add_org read (add_org w [])\<rparr>)"

definition DefaultOrgScope :: OrgScope where
  "DefaultOrgScope = NewOrgScope DefaultOrgID []"

definition Normalized :: "OrgScope \<Rightarrow> OrgScope" where
  "Normalized s = NewOrgScope (scope_Write s) (scope_Read s)"

definition OrgIDs :: "OrgScope \<Rightarrow> string list" where
  "OrgIDs s = scope_Read (Normalized s)"

definition scope_Contains :: "OrgScope \<Rightarrow> string \<Rightarrow> bool" where
  "scope_Contains s orgID =
     (find (\<lambda>c. c = NormalizeOrgID orgID) (scope_Read (Normalized s)) \<noteq> None)"

definition ScopeForWrite :: "OrgScope option \<Rightarrow> string \<Rightarrow> OrgScope" where
  "ScopeForWrite source writeOrg =
     (let fallback = NewOrgScope writeOrg [] in
      case source of
        None \<Rightarrow> fallback
      | Some scoped \<Rightarrow>
          (let candidate = Normalized scoped in
           if scope_Write candidate \<noteq> scope_Write fallback then fallback else candidate))"

text \<open>A scope is well formed when its reads start with the write organization, without repeats.\<close>

definition scope_ok :: "OrgScope \<Rightarrow> bool" where
  "scope_ok s \<longleftrightarrow> scope_Read s \<noteq> [] \<and> hd (scope_Read s) = scope_Write s \<and>
     distinct (scope_Read s) \<and> [] \<notin> set (scope_Read s)"

lemma NormalizeOrgID_nonempty [simp]: "NormalizeOrgID s \<noteq> []"
  by (simp add: NormalizeOrgID_def DefaultOrgID_def)

lemma NormalizeOrgID_idem [simp]: "NormalizeOrgID (NormalizeOrgID s) = NormalizeOrgID s"
  by (simp add: NormalizeOrgID_def DefaultOrgID_def)

lemma NormalizeOrgID_id [simp]: "s \<noteq> [] \<Longrightarrow> NormalizeOrgID s = s"
  by (simp add: NormalizeOrgID_def)

lemma fold_add_org_set: "set (fold add_org read orgs) = set orgs \<union> NormalizeOrgID ` set read"
  by (induction read arbitrary: orgs) (auto simp: add_org_def Let_def)

lemma fold_add_org_distinct: "distinct orgs \<Longrightarrow> distinct (fold add_org read orgs)"
  by (induction read arbitrary: orgs) (auto simp: add_org_def Let_def)

lemma fold_add_org_prefix: "prefix orgs (fold add_org read orgs)"
proof (induction read arbitrary: orgs)
  case (Cons r read)
  have "prefix orgs (add_org r orgs)" by (simp add: add_org_def Let_def)
  with Cons.IH [of "add_org r orgs"] show ?case using prefix_order.trans by fastforce
qed simp

lemma add_org_first [simp]: "add_org (NormalizeOrgID w) [] = [NormalizeOrgID w]"
  by (simp add: add_org_def)

lemma NewOrgScope_Write [simp]: "scope_Write (NewOrgScope w r) = NormalizeOrgID w"
  by (simp add: NewOrgScope_def Let_def)

lemma NewOrgScope_Read_set:
  "set (scope_Read (NewOrgScope w r)) = insert (NormalizeOrgID w) (NormalizeOrgID ` set r)"
  by (simp add: NewOrgScope_def Let_def fold_add_org_set)

lemma NewOrgScope_ok: "scope_ok (NewOrgScope w r)"
proof -
  let ?n = "NormalizeOrgID w"
  have "prefix [?n] (fold add_org r [?n])" by (rule fold_add_org_prefix)
  then have "fold add_org r [?n] \<noteq> []" "hd (fold add_org r [?n]) = ?n"
    by (auto simp: prefix_def)
  moreover have "distinct (fold add_org r [?n])" by (intro fold_add_org_distinct) simp
  moreover have "[] \<notin> set (fold add_org r [?n])"
    unfolding fold_add_org_set by (auto dest: sym)
  ultimately show ?thesis by (simp add: scope_ok_def NewOrgScope_def Let_def)
qed

text \<open>On a list without repeats the loop just appends, so normalising is idempotent.\<close>

lemma fold_add_org_fresh:
  assumes "distinct (orgs @ read)" and "[] \<notin> set read"
  shows "fold add_org read orgs = orgs @ read"
  using assms
proof (induction read arbitrary: orgs)
  case (Cons r read)
  then have "add_org r orgs = orgs @ [r]" by (auto simp: add_org_def NormalizeOrgID_def)
  with Cons.IH [of "orgs @ [r]"] Cons.prems show ?case by simp
qed simp

lemma Normalized_ok:
  assumes "scope_ok s"
  shows "Normalized s = s"
proof -
  obtain w rs where s: "s = \<lparr>scope_Write = w, scope_Read = w # rs\<rparr>"
    using assms by (cases s; cases "scope_Read s") (auto simp: scope_ok_def)
  with assms have "w \<noteq> []" "distinct (w # rs)" "[] \<notin> set rs" by (auto simp: scope_ok_def)
  then have "fold add_org (w # rs) [w] = w # rs"
    using fold_add_org_fresh [of "[w]" rs] by (simp add: add_org_def)
  with \<open>w \<noteq> []\<close> show ?thesis by (simp add: s Normalized_def NewOrgScope_def Let_def add_org_def)
qed

lemma Normalized_idem: "Normalized (Normalized s) = Normalized s"
  by (rule Normalized_ok) (simp add: Normalized_def NewOrgScope_ok)

lemma ScopeForWrite_ok: "scope_ok (ScopeForWrite source w)"
  by (simp add: ScopeForWrite_def Let_def Normalized_def NewOrgScope_ok split: option.split)

lemma ScopeForWrite_Write: "scope_Write (ScopeForWrite source w) = NormalizeOrgID w"
  by (simp add: ScopeForWrite_def Let_def split: option.split)

lemma ScopeForWrite_mismatch:
  assumes "case source of None \<Rightarrow> True | Some s \<Rightarrow> NormalizeOrgID (scope_Write s) \<noteq> NormalizeOrgID w"
  shows "scope_Read (ScopeForWrite source w) = [NormalizeOrgID w]"
  using assms
  by (auto simp: ScopeForWrite_def Let_def Normalized_def NewOrgScope_def split: option.splits)

lemma scope_Contains_iff:
  "scope_Contains s org \<longleftrightarrow> NormalizeOrgID org \<in> insert (NormalizeOrgID (scope_Write s)) (NormalizeOrgID ` set (scope_Read s))"
  by (auto simp: scope_Contains_def find_None_iff Normalized_def NewOrgScope_Read_set
      simp del: not_None_eq)

subsection \<open>Property\<close>

text \<open>
  The scope derived for a write is well formed and closed: it writes to the requested
  organisation and lists it first, without blanks or repeats, it is stable under normalisation,
  and a source that is missing or pinned to another organisation gives a scope that reads the
  requested organisation only.
\<close>

theorem ScopeForWrite_fails_closed:
  "scope_ok (ScopeForWrite source w) \<and> scope_Write (ScopeForWrite source w) = NormalizeOrgID w \<and>
   Normalized (ScopeForWrite source w) = ScopeForWrite source w \<and>
   scope_Contains (ScopeForWrite source w) org =
     (NormalizeOrgID org = NormalizeOrgID w \<or>
      (\<exists>s. source = Some s \<and> NormalizeOrgID (scope_Write s) = NormalizeOrgID w \<and>
           NormalizeOrgID org \<in> NormalizeOrgID ` set (scope_Read s)))"
proof -
  have "scope_Contains (ScopeForWrite source w) org =
     (NormalizeOrgID org = NormalizeOrgID w \<or>
      (\<exists>s. source = Some s \<and> NormalizeOrgID (scope_Write s) = NormalizeOrgID w \<and>
           NormalizeOrgID org \<in> NormalizeOrgID ` set (scope_Read s)))"
    by (cases source)
      (auto simp: scope_Contains_iff ScopeForWrite_def Let_def Normalized_def NewOrgScope_Read_set
        image_iff NewOrgScope_def [of w])
  then show ?thesis by (simp add: ScopeForWrite_ok ScopeForWrite_Write Normalized_ok)
qed

end
