(* ===== verification/Records.thy ===== *)
theory Records
  imports Text_Utils Alert_Payload Tenancy
begin

text \<open>
  The durable records and their pure operations: \<open>IncidentRecord\<close> and \<open>AnalysisRecord\<close> of
  \<open>pkg/storage/storage.go\<close> with their cloning, classification, merge and status counts, and the
  detection types and helpers of \<open>pkg/storage/detection_episode.go\<close>.

  Pointers to times are optional times; copies of slices and maps are the same value. Counters
  are unbounded integers (the code's \<open>int64\<close> and \<open>int\<close> are not driven near their limits).
\<close>

subsection \<open>Detection types\<close>

definition DefaultDetectionEpisodeQuietPeriod :: duration where
  "DefaultDetectionEpisodeQuietPeriod = 10 * minute"

definition DefaultDetectionNotificationLease :: duration where
  "DefaultDetectionNotificationLease = minute"

definition MaxClosedDetectionEpisodesDefault :: int where
  "MaxClosedDetectionEpisodesDefault = 1000"

record DetectionIdentity =
  id_Version :: string
  id_AgentKind :: string
  id_Source :: string
  id_Service :: string
  id_SignalKind :: string
  id_ConditionKey :: string

record DetectionOccurrence =
  oc_Identity :: DetectionIdentity
  oc_Frequency :: int
  oc_Severity :: string
  oc_ReceivedAt :: time
  oc_QuietPeriod :: duration
  oc_ClaimOwner :: string
  oc_ClaimLease :: duration
  oc_ExistingOnly :: bool

text \<open>The zero value of an action or kind is the empty string.\<close>

datatype DetectionEpisodeAction =
  NoAction | DetectionEpisodeOpened | DetectionEpisodeCoalesced | DetectionEpisodeEscalated
  | DetectionEpisodeReopened

datatype DetectionNotificationKind =
  NoKind | DetectionNotificationInitial | DetectionNotificationEscalation

record DetectionEpisodeDecision =
  dd_Fingerprint :: string
  dd_EpisodeID :: string
  dd_IncidentID :: string
  dd_OccurrenceDelta :: int
  dd_OccurrenceCount :: int
  dd_FirstSeen :: time
  dd_LastSeen :: time
  dd_HighestObservedSeverity :: string
  dd_HighestNotifiedSeverity :: string
  dd_Action :: DetectionEpisodeAction
  dd_NotificationClaimed :: bool
  dd_NotificationKind :: DetectionNotificationKind
  dd_ClaimToken :: string
  dd_ClaimExpiresAt :: time

record DetectionNotificationCompletion =
  dc_EpisodeID :: string
  dc_ClaimToken :: string
  dc_Outcome :: string
  dc_CompletedAt :: time

record DetectionNotificationRenewal =
  dr_EpisodeID :: string
  dr_ClaimToken :: string
  dr_ClaimLease :: duration
  dr_RenewedAt :: time

definition normalizeDetectionIdentity :: "DetectionIdentity \<Rightarrow> DetectionIdentity" where
  "normalizeDetectionIdentity i =
     \<lparr>id_Version = (if trim_space (id_Version i) = [] then ''v1'' else trim_space (id_Version i)),
      id_AgentKind = to_lower (trim_space (id_AgentKind i)),
      id_Source = to_lower (trim_space (id_Source i)),
      id_Service = to_lower (trim_space (id_Service i)),
      id_SignalKind = to_lower (trim_space (id_SignalKind i)),
      id_ConditionKey = trim_space (id_ConditionKey i)\<rparr>"

text \<open>
  \<open>DetectionIdentityFingerprint\<close>: \<open>digest\<close> stands for the hexadecimal SHA-256 of the identity's
  JSON encoding.
\<close>

definition DetectionIdentityFingerprint ::
  "(DetectionIdentity \<Rightarrow> string) \<Rightarrow> DetectionIdentity \<Rightarrow> string option" where
  "DetectionIdentityFingerprint digest identity =
     (let i = normalizeDetectionIdentity identity in
      if id_AgentKind i = [] \<or> id_Source i = [] \<or> id_Service i = [] \<or> id_SignalKind i = [] \<or>
         id_ConditionKey i = []
      then None
      else Some (digest i))"

definition canonicalDetectionSeverity :: "string \<Rightarrow> string" where
  "canonicalDetectionSeverity severity = NormalizeSeverity severity"

definition detectionSeverityHigher :: "string \<Rightarrow> string \<Rightarrow> bool" where
  "detectionSeverityHigher candidate current \<longleftrightarrow> SeverityRank candidate > SeverityRank current"

definition canonicalDetectionIncidentSeverity :: "string \<Rightarrow> string \<Rightarrow> string" where
  "canonicalDetectionIncidentSeverity observed notified =
     (let severity = canonicalDetectionSeverity observed in
      if detectionSeverityHigher notified severity then canonicalDetectionSeverity notified
      else severity)"

definition detectionNotificationDelivered :: "string \<Rightarrow> bool" where
  "detectionNotificationDelivered outcome \<longleftrightarrow> outcome \<in> {''sent'', ''partial'', ''diverted''}"

definition detectionNotificationTerminal :: "string \<Rightarrow> bool" where
  "detectionNotificationTerminal outcome \<longleftrightarrow>
     outcome \<in> {''sent'', ''partial'', ''suppressed'', ''grouped'', ''diverted''}"

subsection \<open>Incident records\<close>

record IncidentRecord =
  ir_ID :: string
  ir_OrgID :: string
  ir_TeamID :: string
  ir_Title :: string
  ir_Source :: string
  ir_Service :: string
  ir_Origin :: string
  ir_Resolved :: bool
  ir_ChannelsEnabled :: "string list"
  ir_ChannelsNotified :: "string list"
  ir_OnCallTriggered :: bool
  ir_OnCallError :: string
  ir_NotifyStatus :: string
  ir_NotifyError :: string
  ir_CreatedAt :: time
  ir_AckedAt :: "time option"
  ir_ResolvedAt :: "time option"
  ir_DetectionFingerprint :: string
  ir_DetectionEpisodeID :: string
  ir_OccurrenceCount :: int
  ir_DetectionFirstSeen :: "time option"
  ir_DetectionLastSeen :: "time option"
  ir_HighestObservedSeverity :: string
  ir_HighestNotifiedSeverity :: string
  ir_Content :: content
  ir_AssignedTeamID :: string
  ir_AssignedMemberIDs :: "string list"

definition OriginAIDetect :: string where "OriginAIDetect = ''ai_detect''"
definition OriginWebhook :: string where "OriginWebhook = ''webhook''"

definition OriginFromSource :: "string \<Rightarrow> string" where
  "OriginFromSource source =
     (let s = trim_space source in
      if s = ''agent'' \<or> prefix ''agent:'' s then OriginAIDetect else OriginWebhook)"

definition EffectiveOrigin :: "IncidentRecord \<Rightarrow> string" where
  "EffectiveOrigin r = (if ir_Origin r \<noteq> [] then ir_Origin r else OriginFromSource (ir_Source r))"

definition ServiceLabel :: "IncidentRecord \<Rightarrow> string" where
  "ServiceLabel r = (if ir_Service r \<noteq> [] then ir_Service r else ExtractService (ir_Content r))"

text \<open>
  The deep copy of a payload rebuilds every nested map and list of interfaces; other values are
  returned as they are.
\<close>

fun cloneIncidentValue :: "go_value \<Rightarrow> go_value" where
  "cloneIncidentValue (VMap m) = VMap (map (\<lambda>(k, v). (k, cloneIncidentValue v)) m)"
| "cloneIncidentValue (VList items) = VList (map cloneIncidentValue items)"
| "cloneIncidentValue (VStrs ss) = VStrs ([] @ ss)"
| "cloneIncidentValue v = v"

definition cloneIncidentContent :: "content \<Rightarrow> content" where
  "cloneIncidentContent content =
     map_option (map (\<lambda>(k, v). (k, cloneIncidentValue v))) content"

definition CloneIncidentRecord :: "IncidentRecord \<Rightarrow> IncidentRecord" where
  "CloneIncidentRecord rec = rec\<lparr>ir_Content := cloneIncidentContent (ir_Content rec)\<rparr>"

lemma cloneIncidentValue_id [simp]: "cloneIncidentValue v = v"
proof (induction v)
  case (VMap m)
  then have "map (\<lambda>(k, v). (k, cloneIncidentValue v)) m = map id m"
    by (intro map_cong) (auto simp: snds.simps)
  then show ?case by simp
next
  case (VList items)
  then show ?case by (simp add: map_idI)
qed simp_all

lemma cloneIncidentContent_id [simp]: "cloneIncidentContent c = c"
  by (cases c) (simp_all add: cloneIncidentContent_def)

lemma CloneIncidentRecord_id [simp]: "CloneIncidentRecord r = r"
  by (simp add: CloneIncidentRecord_def)

text \<open>A write to a payload creates the map when it is nil.\<close>

definition content_map :: "content \<Rightarrow> (string, go_value) gomap" where
  "content_map c = (case c of None \<Rightarrow> [] | Some m \<Rightarrow> m)"

definition content_set :: "content \<Rightarrow> string \<Rightarrow> go_value \<Rightarrow> content" where
  "content_set c k v = Some (gm_set (content_map c) k v)"

definition content_get :: "content \<Rightarrow> string \<Rightarrow> go_value option" where
  "content_get c k = gm_get (content_map c) k"

lemma content_get_set [gm_simps]:
  "content_get (content_set c k v) k' = (if k' = k then Some v else content_get c k')"
  by (simp add: content_get_def content_set_def content_map_def gm_simps)

definition applyDetectionEpisodeDecision ::
  "IncidentRecord \<Rightarrow> DetectionEpisodeDecision \<Rightarrow> IncidentRecord" where
  "applyDetectionEpisodeDecision incident d =
     (let severity = canonicalDetectionIncidentSeverity
            (dd_HighestObservedSeverity d) (dd_HighestNotifiedSeverity d);
          c = content_set (ir_Content incident) ''Frequency'' (VInt (dd_OccurrenceCount d));
          c' = (if severity \<noteq> [] then content_set c ''Severity'' (VStr severity) else c)
      in incident\<lparr>
        ir_DetectionFingerprint := dd_Fingerprint d,
        ir_DetectionEpisodeID := dd_EpisodeID d,
        ir_OccurrenceCount := dd_OccurrenceCount d,
        ir_DetectionFirstSeen := Some (dd_FirstSeen d),
        ir_DetectionLastSeen := Some (dd_LastSeen d),
        ir_HighestObservedSeverity := dd_HighestObservedSeverity d,
        ir_HighestNotifiedSeverity := dd_HighestNotifiedSeverity d,
        ir_Content := c'\<rparr>)"

subsection \<open>Merging detection progress\<close>

definition same_episode :: "IncidentRecord \<Rightarrow> IncidentRecord \<Rightarrow> bool" where
  "same_episode existing incoming \<longleftrightarrow>
     ir_DetectionEpisodeID incoming \<noteq> [] \<and>
     ir_DetectionEpisodeID existing = ir_DetectionEpisodeID incoming"

definition mergeDetectionProgress :: "IncidentRecord \<Rightarrow> IncidentRecord \<Rightarrow> IncidentRecord" where
  "mergeDetectionProgress existing incoming =
     (if \<not> same_episode existing incoming then incoming
      else
        let count = (if ir_OccurrenceCount existing > ir_OccurrenceCount incoming
                     then ir_OccurrenceCount existing else ir_OccurrenceCount incoming);
            first = (case (ir_DetectionFirstSeen incoming, ir_DetectionFirstSeen existing) of
                       (None, e) \<Rightarrow> e
                     | (Some i, None) \<Rightarrow> Some i
                     | (Some i, Some e) \<Rightarrow> if e < i then Some e else Some i);
            last = (case (ir_DetectionLastSeen incoming, ir_DetectionLastSeen existing) of
                      (None, e) \<Rightarrow> e
                    | (Some i, None) \<Rightarrow> Some i
                    | (Some i, Some e) \<Rightarrow> if e > i then Some e else Some i);
            observed = (if SeverityRank (ir_HighestObservedSeverity existing) >
                           SeverityRank (ir_HighestObservedSeverity incoming)
                        then ir_HighestObservedSeverity existing
                        else ir_HighestObservedSeverity incoming);
            notified = (if SeverityRank (ir_HighestNotifiedSeverity existing) >
                           SeverityRank (ir_HighestNotifiedSeverity incoming)
                        then ir_HighestNotifiedSeverity existing
                        else ir_HighestNotifiedSeverity incoming)
        in incoming\<lparr>
          ir_OccurrenceCount := count,
          ir_DetectionFirstSeen := first,
          ir_DetectionLastSeen := last,
          ir_HighestObservedSeverity := observed,
          ir_HighestNotifiedSeverity := notified,
          ir_Content := content_set (ir_Content incoming) ''Frequency'' (VInt count)\<rparr>)"

definition mergeDetectionIncident :: "IncidentRecord \<Rightarrow> IncidentRecord \<Rightarrow> IncidentRecord" where
  "mergeDetectionIncident existing incoming =
     (if \<not> same_episode existing incoming then incoming
      else
        let kept = incoming\<lparr>
              ir_Title := ir_Title existing,
              ir_Source := ir_Source existing,
              ir_Service := ir_Service existing,
              ir_Origin := ir_Origin existing,
              ir_ChannelsEnabled := ir_ChannelsEnabled existing,
              ir_ChannelsNotified := ir_ChannelsNotified existing,
              ir_OnCallTriggered := ir_OnCallTriggered existing,
              ir_OnCallError := ir_OnCallError existing,
              ir_NotifyStatus := ir_NotifyStatus existing,
              ir_NotifyError := ir_NotifyError existing\<rparr>;
            merged = mergeDetectionProgress existing kept
        in merged\<lparr>ir_Content := content_set (cloneIncidentContent (ir_Content existing))
             ''Frequency'' (VInt (ir_OccurrenceCount merged))\<rparr>)"

text \<open>
  \<open>detectionIncidentUpdate\<close> starts from the stored record, so that what an operator set on it
  (status, acknowledgement, assignment) survives; delivery fields are taken over only with a
  notification status.
\<close>

definition detection_update_base :: "IncidentRecord \<Rightarrow> IncidentRecord \<Rightarrow> IncidentRecord" where
  "detection_update_base existing incoming =
     (let updated = (CloneIncidentRecord existing)\<lparr>
            ir_Title := ir_Title incoming,
            ir_Source := ir_Source incoming,
            ir_Service := ir_Service incoming,
            ir_Origin := ir_Origin incoming\<rparr>;
          updated = (if ir_NotifyStatus incoming \<noteq> [] then
              updated\<lparr>
                ir_ChannelsEnabled := ir_ChannelsEnabled incoming,
                ir_ChannelsNotified := ir_ChannelsNotified incoming,
                ir_OnCallTriggered := ir_OnCallTriggered incoming,
                ir_OnCallError := ir_OnCallError incoming,
                ir_NotifyStatus := ir_NotifyStatus incoming,
                ir_NotifyError := ir_NotifyError incoming\<rparr>
            else updated)
      in updated\<lparr>
            ir_DetectionFingerprint := ir_DetectionFingerprint incoming,
            ir_DetectionEpisodeID := ir_DetectionEpisodeID incoming,
            ir_OccurrenceCount := ir_OccurrenceCount incoming,
            ir_DetectionFirstSeen := ir_DetectionFirstSeen incoming,
            ir_DetectionLastSeen := ir_DetectionLastSeen incoming,
            ir_HighestObservedSeverity := ir_HighestObservedSeverity incoming,
            ir_HighestNotifiedSeverity := ir_HighestNotifiedSeverity incoming,
            ir_Content := Some (fold (\<lambda>(k, v) m. gm_set m k (cloneIncidentValue v))
               (content_map (ir_Content incoming)) (content_map (ir_Content existing)))\<rparr>)"

definition detectionIncidentUpdate ::
  "IncidentRecord option \<Rightarrow> IncidentRecord \<Rightarrow> IncidentRecord" where
  "detectionIncidentUpdate existing_opt incoming =
     (case existing_opt of
        None \<Rightarrow> CloneIncidentRecord incoming
      | Some existing \<Rightarrow>
          (let updated = mergeDetectionProgress existing (detection_update_base existing incoming);
               severity = canonicalDetectionIncidentSeverity
                 (ir_HighestObservedSeverity updated) (ir_HighestNotifiedSeverity updated)
           in if severity \<noteq> []
              then updated\<lparr>ir_Content := content_set (ir_Content updated) ''Severity'' (VStr severity)\<rparr>
              else updated))"

text \<open>
  Progress is ordered: the count, the first and the last sighting and the two severities of the
  stored record never move backwards. A missing time is no information, below every time.
\<close>

definition opt_first_le :: "time option \<Rightarrow> time option \<Rightarrow> bool" where
  "opt_first_le b a \<longleftrightarrow> (case a of None \<Rightarrow> True | Some x \<Rightarrow> (\<exists>y. b = Some y \<and> y \<le> x))"

definition opt_last_le :: "time option \<Rightarrow> time option \<Rightarrow> bool" where
  "opt_last_le a b \<longleftrightarrow> (case a of None \<Rightarrow> True | Some x \<Rightarrow> (\<exists>y. b = Some y \<and> x \<le> y))"

definition progress_le :: "IncidentRecord \<Rightarrow> IncidentRecord \<Rightarrow> bool" where
  "progress_le a b \<longleftrightarrow>
     ir_OccurrenceCount a \<le> ir_OccurrenceCount b \<and>
     opt_first_le (ir_DetectionFirstSeen b) (ir_DetectionFirstSeen a) \<and>
     opt_last_le (ir_DetectionLastSeen a) (ir_DetectionLastSeen b) \<and>
     SeverityRank (ir_HighestObservedSeverity a) \<le> SeverityRank (ir_HighestObservedSeverity b) \<and>
     SeverityRank (ir_HighestNotifiedSeverity a) \<le> SeverityRank (ir_HighestNotifiedSeverity b)"

lemma mergeProgress_upper:
  assumes "same_episode existing incoming"
  shows "progress_le existing (mergeDetectionProgress existing incoming)"
    and "progress_le incoming (mergeDetectionProgress existing incoming)"
  using assms
  by (auto simp: progress_le_def mergeDetectionProgress_def Let_def opt_first_le_def opt_last_le_def
      split: option.splits prod.splits)

lemma progress_le_cong:
  assumes "ir_OccurrenceCount b = ir_OccurrenceCount b'"
    and "ir_DetectionFirstSeen b = ir_DetectionFirstSeen b'"
    and "ir_DetectionLastSeen b = ir_DetectionLastSeen b'"
    and "ir_HighestObservedSeverity b = ir_HighestObservedSeverity b'"
    and "ir_HighestNotifiedSeverity b = ir_HighestNotifiedSeverity b'"
  shows "progress_le a b \<longleftrightarrow> progress_le a b'" and "progress_le b a \<longleftrightarrow> progress_le b' a"
  using assms by (simp_all add: progress_le_def)

lemma mergeProgress_keeps:
  "ir_ID (mergeDetectionProgress e i) = ir_ID i"
  "ir_OrgID (mergeDetectionProgress e i) = ir_OrgID i"
  "ir_TeamID (mergeDetectionProgress e i) = ir_TeamID i"
  "ir_Resolved (mergeDetectionProgress e i) = ir_Resolved i"
  "ir_AckedAt (mergeDetectionProgress e i) = ir_AckedAt i"
  "ir_ResolvedAt (mergeDetectionProgress e i) = ir_ResolvedAt i"
  "ir_CreatedAt (mergeDetectionProgress e i) = ir_CreatedAt i"
  "ir_AssignedTeamID (mergeDetectionProgress e i) = ir_AssignedTeamID i"
  "ir_AssignedMemberIDs (mergeDetectionProgress e i) = ir_AssignedMemberIDs i"
  "ir_NotifyStatus (mergeDetectionProgress e i) = ir_NotifyStatus i"
  "ir_ChannelsNotified (mergeDetectionProgress e i) = ir_ChannelsNotified i"
  "ir_DetectionEpisodeID (mergeDetectionProgress e i) = ir_DetectionEpisodeID i"
  by (simp_all add: mergeDetectionProgress_def Let_def)

lemma mergeDetectionIncident_ID [simp]: "ir_ID (mergeDetectionIncident e i) = ir_ID i"
  by (simp add: mergeDetectionIncident_def Let_def mergeProgress_keeps)

lemma detection_update_base_simps [simp]:
  "ir_OccurrenceCount (detection_update_base e i) = ir_OccurrenceCount i"
  "ir_DetectionFirstSeen (detection_update_base e i) = ir_DetectionFirstSeen i"
  "ir_DetectionLastSeen (detection_update_base e i) = ir_DetectionLastSeen i"
  "ir_HighestObservedSeverity (detection_update_base e i) = ir_HighestObservedSeverity i"
  "ir_HighestNotifiedSeverity (detection_update_base e i) = ir_HighestNotifiedSeverity i"
  "ir_DetectionEpisodeID (detection_update_base e i) = ir_DetectionEpisodeID i"
  "ir_ID (detection_update_base e i) = ir_ID e"
  "ir_OrgID (detection_update_base e i) = ir_OrgID e"
  "ir_TeamID (detection_update_base e i) = ir_TeamID e"
  "ir_Resolved (detection_update_base e i) = ir_Resolved e"
  "ir_AckedAt (detection_update_base e i) = ir_AckedAt e"
  "ir_ResolvedAt (detection_update_base e i) = ir_ResolvedAt e"
  "ir_CreatedAt (detection_update_base e i) = ir_CreatedAt e"
  "ir_AssignedTeamID (detection_update_base e i) = ir_AssignedTeamID e"
  "ir_AssignedMemberIDs (detection_update_base e i) = ir_AssignedMemberIDs e"
  "ir_NotifyStatus (detection_update_base e i) =
     (if ir_NotifyStatus i \<noteq> [] then ir_NotifyStatus i else ir_NotifyStatus e)"
  by (simp_all add: detection_update_base_def Let_def)

lemma detectionIncidentUpdate_keeps:
  "ir_ID (detectionIncidentUpdate (Some e) i) = ir_ID e"
  "ir_OrgID (detectionIncidentUpdate (Some e) i) = ir_OrgID e"
  "ir_TeamID (detectionIncidentUpdate (Some e) i) = ir_TeamID e"
  "ir_Resolved (detectionIncidentUpdate (Some e) i) = ir_Resolved e"
  "ir_AckedAt (detectionIncidentUpdate (Some e) i) = ir_AckedAt e"
  "ir_ResolvedAt (detectionIncidentUpdate (Some e) i) = ir_ResolvedAt e"
  "ir_CreatedAt (detectionIncidentUpdate (Some e) i) = ir_CreatedAt e"
  "ir_AssignedTeamID (detectionIncidentUpdate (Some e) i) = ir_AssignedTeamID e"
  "ir_AssignedMemberIDs (detectionIncidentUpdate (Some e) i) = ir_AssignedMemberIDs e"
  "ir_DetectionEpisodeID (detectionIncidentUpdate (Some e) i) = ir_DetectionEpisodeID i"
  by (simp_all add: detectionIncidentUpdate_def Let_def mergeProgress_keeps)

lemma mergeDetectionIncident_progress:
  assumes "same_episode existing incoming"
  shows "progress_le existing (mergeDetectionIncident existing incoming)"
    and "progress_le incoming (mergeDetectionIncident existing incoming)"
proof -
  let ?kept = "incoming\<lparr>
              ir_Title := ir_Title existing, ir_Source := ir_Source existing,
              ir_Service := ir_Service existing, ir_Origin := ir_Origin existing,
              ir_ChannelsEnabled := ir_ChannelsEnabled existing,
              ir_ChannelsNotified := ir_ChannelsNotified existing,
              ir_OnCallTriggered := ir_OnCallTriggered existing,
              ir_OnCallError := ir_OnCallError existing,
              ir_NotifyStatus := ir_NotifyStatus existing,
              ir_NotifyError := ir_NotifyError existing\<rparr>"
  have same: "same_episode existing ?kept" using assms by (simp add: same_episode_def)
  note up = mergeProgress_upper [OF same]
  show "progress_le existing (mergeDetectionIncident existing incoming)"
    using up(1) assms by (simp add: mergeDetectionIncident_def Let_def progress_le_def)
  show "progress_le incoming (mergeDetectionIncident existing incoming)"
    using up(2) assms by (simp add: mergeDetectionIncident_def Let_def progress_le_def)
qed

lemma detectionIncidentUpdate_progress:
  assumes "same_episode existing incoming"
  shows "progress_le existing (detectionIncidentUpdate (Some existing) incoming)"
    and "progress_le incoming (detectionIncidentUpdate (Some existing) incoming)"
proof -
  let ?u = "detection_update_base existing incoming"
  have same: "same_episode existing ?u" using assms by (simp add: same_episode_def)
  note up = mergeProgress_upper [OF same]
  show "progress_le existing (detectionIncidentUpdate (Some existing) incoming)"
    using up(1) by (simp add: detectionIncidentUpdate_def Let_def progress_le_def)
  show "progress_le incoming (detectionIncidentUpdate (Some existing) incoming)"
    using up(2) by (simp add: detectionIncidentUpdate_def Let_def progress_le_def)
qed

subsection \<open>Status counts\<close>

record StatusCounts =
  sc_Open :: int
  sc_Acked :: int
  sc_Resolved :: int
  sc_Total :: int

record IncidentStatusCounts =
  is_AIDetect :: StatusCounts
  is_Webhook :: StatusCounts
  is_Total :: StatusCounts

definition zero_counts :: StatusCounts where
  "zero_counts = \<lparr>sc_Open = 0, sc_Acked = 0, sc_Resolved = 0, sc_Total = 0\<rparr>"

definition bump_status :: "IncidentRecord \<Rightarrow> StatusCounts \<Rightarrow> StatusCounts" where
  "bump_status rec c =
     (let c' = (if ir_Resolved rec then c\<lparr>sc_Resolved := sc_Resolved c + 1\<rparr>
                else if ir_AckedAt rec \<noteq> None then c\<lparr>sc_Acked := sc_Acked c + 1\<rparr>
                else c\<lparr>sc_Open := sc_Open c + 1\<rparr>)
      in c'\<lparr>sc_Total := sc_Total c' + 1\<rparr>)"

definition count_status :: "IncidentRecord \<Rightarrow> IncidentStatusCounts \<Rightarrow> IncidentStatusCounts" where
  "count_status rec out =
     (let out' = (if EffectiveOrigin rec = OriginAIDetect
                  then out\<lparr>is_AIDetect := bump_status rec (is_AIDetect out)\<rparr>
                  else out\<lparr>is_Webhook := bump_status rec (is_Webhook out)\<rparr>)
      in out'\<lparr>is_Total := bump_status rec (is_Total out')\<rparr>)"

definition StatusCountsOf :: "IncidentRecord list \<Rightarrow> IncidentStatusCounts" where
  "StatusCountsOf recs = fold count_status recs
     \<lparr>is_AIDetect = zero_counts, is_Webhook = zero_counts, is_Total = zero_counts\<rparr>"

definition StatusCountsSince :: "IncidentRecord list \<Rightarrow> time \<Rightarrow> IncidentStatusCounts" where
  "StatusCountsSince recs since =
     (if since = zero_time then StatusCountsOf recs
      else StatusCountsOf (filter (\<lambda>rec. \<not> ir_CreatedAt rec < since) recs))"

definition AssembleStatusCounts :: "StatusCounts \<Rightarrow> StatusCounts \<Rightarrow> IncidentStatusCounts" where
  "AssembleStatusCounts tot ai =
     \<lparr>is_AIDetect = ai,
      is_Webhook = \<lparr>sc_Open = sc_Open tot - sc_Open ai, sc_Acked = sc_Acked tot - sc_Acked ai,
        sc_Resolved = sc_Resolved tot - sc_Resolved ai, sc_Total = sc_Total tot - sc_Total ai\<rparr>,
      is_Total = tot\<rparr>"

text \<open>The reference tally of a set of records, by filtering.\<close>

definition tally :: "IncidentRecord list \<Rightarrow> StatusCounts" where
  "tally recs =
     \<lparr>sc_Open = int (length (filter (\<lambda>r. \<not> ir_Resolved r \<and> ir_AckedAt r = None) recs)),
      sc_Acked = int (length (filter (\<lambda>r. \<not> ir_Resolved r \<and> ir_AckedAt r \<noteq> None) recs)),
      sc_Resolved = int (length (filter ir_Resolved recs)),
      sc_Total = int (length recs)\<rparr>"

definition is_ai :: "IncidentRecord \<Rightarrow> bool" where
  "is_ai r \<longleftrightarrow> EffectiveOrigin r = OriginAIDetect"

lemma tally_snoc: "tally (recs @ [r]) = bump_status r (tally recs)"
  by (auto simp: tally_def bump_status_def Let_def)

lemma StatusCountsOf_tally:
  "StatusCountsOf recs =
     \<lparr>is_AIDetect = tally (filter is_ai recs), is_Webhook = tally (filter (\<lambda>r. \<not> is_ai r) recs),
      is_Total = tally recs\<rparr>"
proof (induction recs rule: rev_induct)
  case Nil
  then show ?case by (simp add: StatusCountsOf_def tally_def zero_counts_def)
next
  case (snoc r recs)
  have "StatusCountsOf (recs @ [r]) = count_status r (StatusCountsOf recs)"
    by (simp add: StatusCountsOf_def)
  then show ?case
    unfolding snoc.IH by (simp add: count_status_def Let_def is_ai_def [abs_def] tally_snoc)
qed

lemma tally_split:
  "AssembleStatusCounts (tally recs) (tally (filter P recs)) =
     \<lparr>is_AIDetect = tally (filter P recs), is_Webhook = tally (filter (\<lambda>r. \<not> P r) recs),
      is_Total = tally recs\<rparr>"
  by (induction recs) (auto simp: AssembleStatusCounts_def tally_def)

lemma StatusCountsOf_assemble:
  "StatusCountsOf recs = AssembleStatusCounts (tally recs) (tally (filter is_ai recs))"
  by (simp add: StatusCountsOf_tally tally_split)

lemma tally_total: "sc_Total (tally recs) = sc_Open (tally recs) + sc_Acked (tally recs) + sc_Resolved (tally recs)"
  by (induction recs) (auto simp: tally_def)

subsection \<open>Analysis records\<close>

record RootCauseHypothesis =
  rh_Hypothesis :: string
  rh_Confidence :: "64 word"
  rh_Rationale :: string

record EvidenceItem =
  ev_Source :: string
  ev_Summary :: string
  ev_Detail :: string

record AIFinding =
  fi_Title :: string
  fi_Summary :: string
  fi_Severity :: string
  fi_Category :: string
  fi_Confidence :: "64 word"
  fi_Suggestions :: "string list"
  fi_SampleIDs :: "string list"
  fi_RootCauseHypotheses :: "RootCauseHypothesis list"
  fi_Evidence :: "EvidenceItem list"
  fi_RelatedPatternIDs :: "string list"
  fi_NextSteps :: "string list"

record AnalysisToolCall =
  tc_Name :: string
  tc_Args :: string
  tc_Output :: string
  tc_DurationMs :: int
  tc_Error :: string

record AnalysisRecord =
  an_ID :: string
  an_OrgID :: string
  an_IncidentID :: string
  an_RequestedAt :: time
  an_RequestedBy :: string
  an_DurationMs :: int
  an_Model :: string
  an_ToolCalls :: "AnalysisToolCall list"
  an_Finding :: "AIFinding option"
  an_RawResponse :: string
  an_Status :: string
  an_Error :: string

text \<open>The detached copy: every slice is appended to an empty one, so its value is kept.\<close>

definition CloneAnalysisRecord :: "AnalysisRecord option \<Rightarrow> AnalysisRecord option" where
  "CloneAnalysisRecord r =
     (case r of None \<Rightarrow> None
      | Some rec \<Rightarrow>
          Some (rec\<lparr>
            an_ToolCalls := map (\<lambda>t. t\<lparr>tc_Args := [] @ tc_Args t, tc_Output := [] @ tc_Output t\<rparr>)
              (an_ToolCalls rec),
            an_Finding := map_option (\<lambda>f. f\<lparr>
                fi_Suggestions := [] @ fi_Suggestions f,
                fi_SampleIDs := [] @ fi_SampleIDs f,
                fi_RootCauseHypotheses := [] @ fi_RootCauseHypotheses f,
                fi_Evidence := [] @ fi_Evidence f,
                fi_RelatedPatternIDs := [] @ fi_RelatedPatternIDs f,
                fi_NextSteps := [] @ fi_NextSteps f\<rparr>) (an_Finding rec)\<rparr>))"

lemma CloneAnalysisRecord_id [simp]: "CloneAnalysisRecord r = r"
  by (cases r) (simp_all add: CloneAnalysisRecord_def option.map_ident)

subsection \<open>Property\<close>

text \<open>
  Counting the records in one pass and assembling the split from two grouped counts (all
  records, and those detected by the agent) give the same status counts.
\<close>

theorem StatusCountsOf_is_assembled:
  "StatusCountsOf recs =
     AssembleStatusCounts (tally recs) (tally (filter (\<lambda>r. EffectiveOrigin r = OriginAIDetect) recs))"
  using StatusCountsOf_assemble [of recs] by (simp add: is_ai_def [abs_def])

text \<open>
  The severity an incident shows is canonical, and the higher of what was observed (an unknown
  severity counting as medium) and what was notified.
\<close>

theorem incident_severity_is_maximum:
  "NormalizeSeverity (canonicalDetectionIncidentSeverity observed notified) =
     canonicalDetectionIncidentSeverity observed notified \<and>
   SeverityRank (canonicalDetectionIncidentSeverity observed notified) =
     max (SeverityRank (NormalizeSeverity observed)) (SeverityRank notified)"
  by (auto simp: canonicalDetectionIncidentSeverity_def canonicalDetectionSeverity_def
      detectionSeverityHigher_def Let_def SeverityRank_Normalize)

end
