(* ===== verification/Blob_Interfaces.thy ===== *)
theory Blob_Interfaces
  imports Prelude
begin

text \<open>
  The blob contracts the rest of the program is written against (\<open>Provider\<close>, \<open>BlobCreator\<close>,
  \<open>BlobCAS\<close> and \<open>Lifecycle\<close> of \<open>pkg/storage/storage.go\<close>), as locales over an abstract store:
  what a read returns after each write, and that a refused write changes nothing. The lemmas here
  are what the clients (rate limiter, acknowledgement key, model store) rely on.
\<close>

locale blob_store =
  fixes invar :: "'s \<Rightarrow> bool"
    and rd :: "'s \<Rightarrow> string \<Rightarrow> string option"
    and wr :: "time \<Rightarrow> string \<Rightarrow> string \<Rightarrow> 's \<Rightarrow> 's"
  assumes write_invar: "invar s \<Longrightarrow> invar (wr t n d s)"
    and read_write: "invar s \<Longrightarrow> rd (wr t n d s) n' = (if n' = n then Some d else rd s n')"
begin

text \<open>A sequence of writes: the last one to a name is what a read finds.\<close>

lemma fold_write_invar: "invar s \<Longrightarrow> invar (fold (\<lambda>(t, n, d). wr t n d) ws s)"
  by (induction ws arbitrary: s) (auto simp: write_invar)

lemma read_fold_write:
  "invar s \<Longrightarrow> rd (fold (\<lambda>(t, n, d). wr t n d) ws s) n =
     (case find (\<lambda>(t, n', d). n' = n) (rev ws) of None \<Rightarrow> rd s n | Some (t, n', d) \<Rightarrow> Some d)"
proof (induction ws rule: rev_induct)
  case (snoc w ws)
  then show ?case by (cases w) (auto simp: read_write fold_write_invar)
qed simp

end

text \<open>Create-once: the first creator of a name wins, every other one leaves the store alone.\<close>

locale blob_creator = blob_store +
  fixes create :: "time \<Rightarrow> string \<Rightarrow> string \<Rightarrow> 's \<Rightarrow> bool \<times> 's"
  assumes create_invar: "invar s \<Longrightarrow> invar (snd (create t n d s))"
    and create_won: "invar s \<Longrightarrow> fst (create t n d s) \<longleftrightarrow> rd s n = None"
    and read_create: "invar s \<Longrightarrow> rd (snd (create t n d s)) n' =
      (if n' = n \<and> rd s n = None then Some d else rd s n')"
begin

lemma create_read_same: "invar s \<Longrightarrow> rd (snd (create t n d s)) n =
    Some (case rd s n of None \<Rightarrow> d | Some d0 \<Rightarrow> d0)"
  by (cases "rd s n") (simp_all add: read_create)

lemma fold_create_invar: "invar s \<Longrightarrow> invar (fold (\<lambda>(t, d) s. snd (create t n d s)) cs s)"
  by (induction cs arbitrary: s) (auto simp: create_invar)

lemma fold_create_survivor:
  "invar s \<Longrightarrow> rd s n = Some d0 \<Longrightarrow> rd (fold (\<lambda>(t, d) s. snd (create t n d s)) cs s) n = Some d0"
  by (induction cs arbitrary: s) (auto simp: create_invar read_create)

end

text \<open>Compare-and-swap: it succeeds exactly on the expected contents, and a failure changes nothing.\<close>

locale blob_cas = blob_store +
  fixes cas :: "time \<Rightarrow> string \<Rightarrow> string option \<Rightarrow> string option \<Rightarrow> 's \<Rightarrow> bool \<times> 's"
  assumes cas_invar: "invar s \<Longrightarrow> invar (snd (cas t n e r s))"
    and cas_won: "invar s \<Longrightarrow> fst (cas t n e r s) \<longleftrightarrow> rd s n = e \<and> \<not> (e = None \<and> r = None)"
    and cas_lost: "invar s \<Longrightarrow> \<not> fst (cas t n e r s) \<Longrightarrow> snd (cas t n e r s) = s"
    and read_cas: "invar s \<Longrightarrow> fst (cas t n e r s) \<Longrightarrow>
      rd (snd (cas t n e r s)) n' = (if n' = n then r else rd s n')"
begin

lemma cas_other: "invar s \<Longrightarrow> n' \<noteq> n \<Longrightarrow> rd (snd (cas t n e r s)) n' = rd s n'"
  by (cases "fst (cas t n e r s)") (simp_all add: read_cas cas_lost)

lemma cas_same: "invar s \<Longrightarrow> rd (snd (cas t n e r s)) n = (if fst (cas t n e r s) then r else rd s n)"
  by (cases "fst (cas t n e r s)") (simp_all add: read_cas cas_lost)

text \<open>
  Optimistic updates: whatever the interleaving, a property of the contents that every proposed
  replacement inherits from the contents it expects is kept, and a measure that every proposal
  increases by one counts the proposals that went through.
\<close>

lemma cas_keeps:
  assumes "invar s" and "Q (rd s n)" and "\<And>c. Q c \<Longrightarrow> c = e \<Longrightarrow> Q r"
  shows "Q (rd (snd (cas t n e r s)) n)"
  using assms by (cases "fst (cas t n e r s)") (auto simp: cas_same cas_won cas_lost)

lemma cas_counts:
  fixes f :: "string option \<Rightarrow> int"
  assumes "invar s" and "f r = f e + 1"
  shows "f (rd (snd (cas t n e r s)) n) = f (rd s n) + of_bool (fst (cas t n e r s))"
  using assms by (cases "fst (cas t n e r s)") (auto simp: cas_same cas_won cas_lost)

text \<open>The same exchange cannot go through twice: of two swaps from the same contents one loses.\<close>

lemma cas_twice:
  assumes "invar s" and "fst (cas t n e r s)" and "r \<noteq> e"
  shows "\<not> fst (cas t' n e r' (snd (cas t n e r s)))"
  using assms by (simp add: cas_won cas_invar cas_same)

end

text \<open>Listing by prefix and deletion by exact name.\<close>

locale blob_lister = blob_store +
  fixes list :: "'s \<Rightarrow> string \<Rightarrow> (string \<times> string) list"
    and delete :: "string \<Rightarrow> 's \<Rightarrow> 's"
  assumes list_keys: "invar s \<Longrightarrow> distinct (map fst (list s p))"
    and list_iff: "invar s \<Longrightarrow> (n, d) \<in> set (list s p) \<longleftrightarrow> prefix p n \<and> rd s n = Some d"
    and delete_invar: "invar s \<Longrightarrow> invar (delete n s)"
    and read_delete: "invar s \<Longrightarrow> rd (delete n s) n' = (if n' = n then None else rd s n')"
begin

lemma list_other:
  assumes "invar s" "invar s'" "\<And>n. prefix p n \<Longrightarrow> rd s n = rd s' n"
  shows "set (list s p) = set (list s' p)"
  using assms by (auto simp: list_iff)

lemma write_outside: "invar s \<Longrightarrow> \<not> prefix p n \<Longrightarrow> set (list (wr t n d s) p) = set (list s p)"
  by (rule list_other) (auto simp: write_invar read_write)

lemma delete_outside: "invar s \<Longrightarrow> \<not> prefix p n \<Longrightarrow> set (list (delete n s) p) = set (list s p)"
  by (rule list_other) (auto simp: delete_invar read_delete)

end

end
