(* ===== verification/Memory_State.thy ===== *)
theory Memory_State
  imports Records Blob_Interfaces
begin

text \<open>
  The state of the in-memory storage provider (\<open>pkg/storage/memory.go\<close>) and its blob half:
  reads, writes, creation, compare-and-swap, listing and the bounded keyset pages.

  The provider serialises every call under its mutex, so a call is a function from state to
  state. \<open>time.Now()\<close> is an argument. A byte slice is a string; where nil differs from an
  empty slice it is an option.
\<close>

subsection \<open>State\<close>

record memoryDetectionEpisode =
  ep_Identity :: DetectionIdentity
  ep_Fingerprint :: string
  ep_EpisodeID :: string
  ep_IncidentID :: string
  ep_OccurrenceCount :: int
  ep_FirstSeen :: time
  ep_LastSeen :: time
  ep_HighestObservedSeverity :: string
  ep_HighestHandledSeverity :: string
  ep_HighestNotifiedSeverity :: string
  ep_ClosedAt :: "time option"
  ep_PendingKind :: DetectionNotificationKind
  ep_PendingSeverity :: string
  ep_PendingToken :: string
  ep_PendingOwner :: string
  ep_PendingExpiresAt :: time
  ep_LastCompletedToken :: string
  ep_LastNotificationOutcome :: string

record memoryProvider =
  mp_blobs :: "(string, string) gomap"
  mp_blobNames :: "string list"
  mp_blobAt :: "(string, time) gomap"
  mp_incidents :: "IncidentRecord list"
  mp_analyses :: "AnalysisRecord list"
  mp_episodes :: "(string, memoryDetectionEpisode) gomap"
  mp_activeEpisodes :: "(string, string) gomap"
  mp_maxClosedEpisodes :: int

definition NewMemory :: memoryProvider where
  "NewMemory = \<lparr>mp_blobs = [], mp_blobNames = [], mp_blobAt = [], mp_incidents = [],
     mp_analyses = [], mp_episodes = [], mp_activeEpisodes = [],
     mp_maxClosedEpisodes = MaxClosedDetectionEpisodesDefault\<rparr>"

datatype storage_error =
  ErrNotFound | ErrUnknownDomain | ErrUnsupported | ErrInvalidModelKey
  | ErrInvalidDetectionOccurrence | ErrDetectionClaimLost | ErrCanceled | ErrDecode

subsection \<open>The sorted index of blob names\<close>

definition addBlobName :: "string \<Rightarrow> string list \<Rightarrow> string list" where
  "addBlobName name names =
     (let index = search_strings names name in
      if index < length names \<and> names ! index = name then names
      else insert_at index name names)"

definition removeBlobName :: "string \<Rightarrow> string list \<Rightarrow> string list" where
  "removeBlobName name names =
     (let index = search_strings names name in
      if index \<ge> length names \<or> names ! index \<noteq> name then names
      else take index names @ drop (index + 1) names)"

lemma takeWhile_less_sorted:
  fixes x :: "'a::linorder"
  assumes "sorted xs"
  shows "length (takeWhile (\<lambda>s. s < x) xs) < length xs \<and> xs ! length (takeWhile (\<lambda>s. s < x) xs) = x
    \<longleftrightarrow> x \<in> set xs"
  using assms
proof (induction xs)
  case (Cons y ys)
  then show ?case by (cases "y < x") auto
qed simp

lemma addBlobName_sorted:
  assumes "sorted names" "distinct names"
  shows "addBlobName name names = (if name \<in> set names then names else insort name names)"
  using takeWhile_less_sorted [OF assms(1)] assms(1)
  by (simp add: addBlobName_def Let_def insert_at_search search_strings_takeWhile [symmetric])

lemma removeBlobName_sorted:
  assumes "sorted names" "distinct names"
  shows "removeBlobName name names = remove1 name names"
proof (cases "name \<in> set names")
  case False
  then show ?thesis
    using takeWhile_less_sorted [OF assms(1), of name]
    by (auto simp: removeBlobName_def Let_def search_strings_takeWhile [OF assms(1)] remove1_idem)
next
  case True
  have "take (length (takeWhile (\<lambda>s. s < name) names)) names @
      drop (length (takeWhile (\<lambda>s. s < name) names) + 1) names = remove1 name names"
    using True assms by (induction names) auto
  then show ?thesis
    using True takeWhile_less_sorted [OF assms(1), of name]
    by (simp add: removeBlobName_def Let_def search_strings_takeWhile [OF assms(1)])
qed

subsection \<open>Operations\<close>

definition ReadBlob :: "memoryProvider \<Rightarrow> string \<Rightarrow> string option" where
  "ReadBlob m name = gm_get (mp_blobs m) name"

definition put_blob :: "time \<Rightarrow> string \<Rightarrow> string \<Rightarrow> memoryProvider \<Rightarrow> memoryProvider" where
  "put_blob now name data m =
     m\<lparr>mp_blobs := gm_set (mp_blobs m) name data, mp_blobAt := gm_set (mp_blobAt m) name now\<rparr>"

definition drop_blob :: "string \<Rightarrow> memoryProvider \<Rightarrow> memoryProvider" where
  "drop_blob name m =
     m\<lparr>mp_blobs := gm_del (mp_blobs m) name, mp_blobAt := gm_del (mp_blobAt m) name,
       mp_blobNames := removeBlobName name (mp_blobNames m)\<rparr>"

definition WriteBlob :: "time \<Rightarrow> string \<Rightarrow> string \<Rightarrow> memoryProvider \<Rightarrow> memoryProvider" where
  "WriteBlob now name data m =
     (let m = (if \<not> gm_has (mp_blobs m) name
               then m\<lparr>mp_blobNames := addBlobName name (mp_blobNames m)\<rparr> else m)
      in put_blob now name data m)"

definition CreateBlobIfAbsent ::
  "time \<Rightarrow> string \<Rightarrow> string \<Rightarrow> memoryProvider \<Rightarrow> bool \<times> memoryProvider" where
  "CreateBlobIfAbsent now name data m =
     (if gm_has (mp_blobs m) name then (False, m)
      else (True, put_blob now name data (m\<lparr>mp_blobNames := addBlobName name (mp_blobNames m)\<rparr>)))"

definition CompareAndSwapBlob ::
  "time \<Rightarrow> string \<Rightarrow> string option \<Rightarrow> string option \<Rightarrow> memoryProvider \<Rightarrow> bool \<times> memoryProvider" where
  "CompareAndSwapBlob now name expected replacement m =
     (let current = gm_get (mp_blobs m) name in
      if (case expected of None \<Rightarrow> current \<noteq> None | Some e \<Rightarrow> current \<noteq> Some e) then (False, m)
      else case replacement of
        None \<Rightarrow> if current = None then (False, m) else (True, drop_blob name m)
      | Some r \<Rightarrow>
          (True, put_blob now name r
             (if current = None then m\<lparr>mp_blobNames := addBlobName name (mp_blobNames m)\<rparr> else m)))"

definition ListBlobs :: "memoryProvider \<Rightarrow> string \<Rightarrow> (string \<times> string) list" where
  "ListBlobs m pre = filter (\<lambda>(name, data). prefix pre name) (mp_blobs m)"

record BlobPage =
  bp_Blobs :: "(string \<times> string) list"
  bp_Next :: string
  bp_Scanned :: int
  bp_Bytes :: int
  bp_Done :: bool

definition empty_page :: BlobPage where
  "empty_page = \<lparr>bp_Blobs = [], bp_Next = [], bp_Scanned = 0, bp_Bytes = 0, bp_Done = False\<rparr>"

text \<open>The two index loops of a page: skip the names up to the cursor, collect those of the prefix.\<close>

fun skip_to_cursor :: "string \<Rightarrow> string list \<Rightarrow> string list" where
  "skip_to_cursor cursor [] = []"
| "skip_to_cursor cursor (n # ns) =
     (if n \<le> cursor then skip_to_cursor cursor ns else n # ns)"

fun page_names :: "string \<Rightarrow> nat \<Rightarrow> string list \<Rightarrow> string list" where
  "page_names pre 0 ns = []"
| "page_names pre (Suc k) [] = []"
| "page_names pre (Suc k) (n # ns) =
     (if n < pre then page_names pre (Suc k) ns
      else if \<not> prefix pre n then []
      else n # page_names pre k ns)"

text \<open>
  The reads check the context before each blob; \<open>ctx i\<close> tells whether the \<open>i\<close>-th check of the
  call finds it done (check 0 is the one on entry).
\<close>

fun read_page ::
  "(nat \<Rightarrow> bool) \<Rightarrow> nat \<Rightarrow> memoryProvider \<Rightarrow> string list \<Rightarrow> (string \<times> string) list \<Rightarrow> int \<Rightarrow>
   ((string \<times> string) list \<times> int) option" where
  "read_page ctx i m [] out bytes = Some (out, bytes)"
| "read_page ctx i m (n # ns) out bytes =
     (if ctx i then None
      else let data = gm_get0 [] (mp_blobs m) n in
           read_page ctx (i + 1) m ns (out @ [(n, data)]) (bytes + int (length data)))"

definition ListBlobsPageBounded ::
  "(nat \<Rightarrow> bool) \<Rightarrow> memoryProvider \<Rightarrow> string \<Rightarrow> string \<Rightarrow> int \<Rightarrow> storage_error + BlobPage" where
  "ListBlobsPageBounded ctx m pre cursor limit =
     (if ctx 0 then Inl ErrCanceled
      else if limit \<le> 0 then Inr (empty_page\<lparr>bp_Done := True\<rparr>)
      else
        let start = search_strings (mp_blobNames m) cursor;
            names = page_names pre (nat limit) (skip_to_cursor cursor (drop start (mp_blobNames m)))
        in case read_page ctx 1 m names [] 0 of
             None \<Rightarrow> Inl ErrCanceled
           | Some (out, bytes) \<Rightarrow>
               Inr \<lparr>bp_Blobs = out, bp_Next = (if names = [] then cursor else last names),
                    bp_Scanned = int (length names), bp_Bytes = bytes,
                    bp_Done = (int (length names) < limit)\<rparr>)"

definition ListBlobsPage ::
  "(nat \<Rightarrow> bool) \<Rightarrow> memoryProvider \<Rightarrow> string \<Rightarrow> string \<Rightarrow> int \<Rightarrow> storage_error + (string \<times> string) list" where
  "ListBlobsPage ctx m pre cursor limit =
     map_sum id bp_Blobs (ListBlobsPageBounded ctx m pre cursor limit)"

text \<open>The blob branches of \<open>PurgeOlderThan\<close> and \<open>DeleteByID\<close>.\<close>

fun purge_blobs :: "time \<Rightarrow> (string, time) gomap \<Rightarrow> memoryProvider \<Rightarrow> int \<times> memoryProvider" where
  "purge_blobs cutoff [] m = (0, m)"
| "purge_blobs cutoff ((name, at) # rest) m =
     (if at < cutoff
      then let (n, m') = purge_blobs cutoff rest (drop_blob name m) in (n + 1, m')
      else purge_blobs cutoff rest m)"

definition delete_blob_by_id :: "string \<Rightarrow> memoryProvider \<Rightarrow> storage_error + memoryProvider" where
  "delete_blob_by_id name m =
     (if \<not> gm_has (mp_blobs m) name then Inl ErrNotFound else Inr (drop_blob name m))"

subsection \<open>Invariant and effect of every operation\<close>

definition blobs_ok :: "memoryProvider \<Rightarrow> bool" where
  "blobs_ok m \<longleftrightarrow>
     gm_ok (mp_blobs m) \<and> gm_ok (mp_blobAt m) \<and>
     sorted (mp_blobNames m) \<and> distinct (mp_blobNames m) \<and>
     set (mp_blobNames m) = dom (gm_get (mp_blobs m)) \<and>
     dom (gm_get (mp_blobAt m)) = dom (gm_get (mp_blobs m))"

lemma blobs_ok_names: "blobs_ok m \<Longrightarrow> name \<in> set (mp_blobNames m) \<longleftrightarrow> gm_get (mp_blobs m) name \<noteq> None"
  by (auto simp: blobs_ok_def)

lemma blobs_ok_names_eq: "blobs_ok m \<Longrightarrow> mp_blobNames m = sorted_list_of_set (dom (gm_get (mp_blobs m)))"
  by (metis blobs_ok_def sorted_list_of_set.idem_if_sorted_distinct)

lemma dom_gm_set: "dom (gm_get (gm_set m k v)) = insert k (dom (gm_get m))"
  by (auto simp: gm_simps dom_def)

lemma dom_gm_del: "dom (gm_get (gm_del m k)) = dom (gm_get m) - {k}"
  by (auto simp: gm_simps dom_def split: if_splits)

lemma blobs_ok_New: "blobs_ok NewMemory"
  by (simp add: blobs_ok_def NewMemory_def)

lemma blobs_ok_add:
  assumes "blobs_ok m"
  shows "blobs_ok (put_blob now name data (m\<lparr>mp_blobNames := addBlobName name (mp_blobNames m)\<rparr>))"
proof -
  have "sorted (mp_blobNames m)" "distinct (mp_blobNames m)" using assms by (simp_all add: blobs_ok_def)
  note add = addBlobName_sorted [OF this]
  show ?thesis
    using assms
    by (auto simp: blobs_ok_def put_blob_def add dom_gm_set sorted_insort set_insort_key distinct_insort
        simp del: map_of_eq_None_iff)
qed

lemma blobs_ok_put:
  assumes "blobs_ok m" "gm_get (mp_blobs m) name \<noteq> None"
  shows "blobs_ok (put_blob now name data m)"
  using assms by (auto simp: blobs_ok_def put_blob_def dom_gm_set)

lemma blobs_ok_drop:
  assumes "blobs_ok m"
  shows "blobs_ok (drop_blob name m)"
proof -
  have "sorted (mp_blobNames m)" "distinct (mp_blobNames m)" using assms by (simp_all add: blobs_ok_def)
  note rem = removeBlobName_sorted [OF this]
  show ?thesis
    using assms
    by (auto simp: blobs_ok_def drop_blob_def rem dom_gm_del sorted_remove1)
qed

lemma ReadBlob_put [gm_simps]:
  "ReadBlob (put_blob now name data m) n = (if n = name then Some data else ReadBlob m n)"
  by (simp add: ReadBlob_def put_blob_def gm_simps)

lemma ReadBlob_drop [gm_simps]: "ReadBlob (drop_blob name m) n = (if n = name then None else ReadBlob m n)"
  by (simp add: ReadBlob_def drop_blob_def gm_simps)

lemma ReadBlob_names [simp]: "ReadBlob (m\<lparr>mp_blobNames := ns\<rparr>) n = ReadBlob m n"
  by (simp add: ReadBlob_def)

lemma blobs_ok_Write: "blobs_ok m \<Longrightarrow> blobs_ok (WriteBlob now name data m)"
  by (simp add: WriteBlob_def blobs_ok_add blobs_ok_put)

lemma ReadBlob_Write [gm_simps]:
  "ReadBlob (WriteBlob now name data m) n = (if n = name then Some data else ReadBlob m n)"
  by (simp add: WriteBlob_def gm_simps)

lemma blobs_ok_Create: "blobs_ok m \<Longrightarrow> blobs_ok (snd (CreateBlobIfAbsent now name data m))"
  by (simp add: CreateBlobIfAbsent_def blobs_ok_add)

lemma Create_spec:
  "fst (CreateBlobIfAbsent now name data m) \<longleftrightarrow> ReadBlob m name = None"
  "ReadBlob (snd (CreateBlobIfAbsent now name data m)) n =
     (if n = name \<and> ReadBlob m name = None then Some data else ReadBlob m n)"
  by (auto simp: CreateBlobIfAbsent_def gm_simps) (simp_all add: ReadBlob_def)

lemma blobs_ok_CAS: "blobs_ok m \<Longrightarrow> blobs_ok (snd (CompareAndSwapBlob now name e r m))"
  by (auto simp: CompareAndSwapBlob_def Let_def blobs_ok_add blobs_ok_put blobs_ok_drop split: option.split)

lemma CAS_success:
  "fst (CompareAndSwapBlob now name e r m) \<longleftrightarrow> ReadBlob m name = e \<and> \<not> (e = None \<and> r = None)"
  by (auto simp: CompareAndSwapBlob_def ReadBlob_def Let_def split: option.splits)

lemma CAS_fail: "\<not> fst (CompareAndSwapBlob now name e r m) \<Longrightarrow> snd (CompareAndSwapBlob now name e r m) = m"
  by (auto simp: CompareAndSwapBlob_def Let_def split: option.splits if_splits)

lemma ReadBlob_CAS:
  "fst (CompareAndSwapBlob now name e r m) \<Longrightarrow>
   ReadBlob (snd (CompareAndSwapBlob now name e r m)) n = (if n = name then r else ReadBlob m n)"
  by (auto simp: CompareAndSwapBlob_def Let_def gm_simps split: option.splits if_splits)

subsection \<open>Pages, purges and deletions\<close>

lemma skip_to_cursor_sorted: "sorted ns \<Longrightarrow> skip_to_cursor c ns = filter (\<lambda>n. c < n) ns"
  by (induction ns) (auto simp: not_le intro!: filter_True [symmetric] intro: order_less_le_trans)

lemma drop_search_sorted:
  assumes "sorted ns"
  shows "filter (\<lambda>n. c < n) (drop (search_strings ns c) ns) = filter (\<lambda>n. c < n) ns"
proof -
  have "filter (\<lambda>n. c < n) ns =
      filter (\<lambda>n. c < n) (takeWhile (\<lambda>n. n < c) ns) @ filter (\<lambda>n. c < n) (dropWhile (\<lambda>n. n < c) ns)"
    by (metis filter_append takeWhile_dropWhile_id)
  moreover have "filter (\<lambda>n. c < n) (takeWhile (\<lambda>n. n < c) ns) = []"
    by (auto simp: filter_empty_conv dest: set_takeWhileD)
  ultimately show ?thesis
    by (simp add: search_strings_takeWhile [OF assms] dropWhile_eq_drop)
qed

lemma prefix_imp_le: "prefix p n \<Longrightarrow> p \<le> (n::string)"
proof (induction p arbitrary: n)
  case (Cons x p)
  then show ?case by (cases n) auto
qed simp

text \<open>The names with a given prefix stand together in the sorted order.\<close>

lemma prefix_convex:
  fixes p a b :: string
  assumes "p \<le> a" "\<not> prefix p a" "a \<le> b"
  shows "\<not> prefix p b"
  using assms
proof (induction p arbitrary: a b)
  case (Cons x p)
  then show ?case by (cases a; cases b) (auto split: if_splits)
qed simp

lemma page_names_sorted:
  "sorted ns \<Longrightarrow> page_names pre k ns = take k (filter (prefix pre) ns)"
proof (induction pre k ns rule: page_names.induct)
  case (3 pre k n ns)
  then show ?case
    using prefix_imp_le [of pre n] prefix_convex [of pre n]
    by (auto simp: filter_empty_conv not_less)
qed simp_all

lemma read_page_ok:
  assumes "\<And>j. i \<le> j \<Longrightarrow> j < i + length ns \<Longrightarrow> \<not> ctx j"
  shows "read_page ctx i m ns out bytes =
    Some (out @ map (\<lambda>n. (n, gm_get0 [] (mp_blobs m) n)) ns,
          bytes + sum_list (map (\<lambda>n. int (length (gm_get0 [] (mp_blobs m) n))) ns))"
  using assms by (induction ns arbitrary: i out bytes) (auto simp: Let_def)

lemma ListBlobsPageBounded_spec:
  assumes "blobs_ok m" and "0 < limit" and "\<And>i. \<not> ctx i"
  shows "ListBlobsPageBounded ctx m pre cursor limit =
    (let after = filter (\<lambda>n. cursor < n \<and> prefix pre n) (sorted_list_of_set (dom (ReadBlob m)));
         names = take (nat limit) after
     in Inr \<lparr>bp_Blobs = map (\<lambda>n. (n, the (ReadBlob m n))) names,
             bp_Next = (if names = [] then cursor else last names),
             bp_Scanned = int (length names),
             bp_Bytes = sum_list (map (\<lambda>n. int (length (the (ReadBlob m n)))) names),
             bp_Done = (length after < nat limit)\<rparr>)"
proof -
  let ?ns = "mp_blobNames m"
  have srt: "sorted ?ns" using assms(1) by (simp add: blobs_ok_def)
  have eq: "sorted_list_of_set (dom (ReadBlob m)) = ?ns"
    using blobs_ok_names_eq [OF assms(1)] by (simp add: ReadBlob_def [abs_def])
  have names: "page_names pre (nat limit) (skip_to_cursor cursor (drop (search_strings ?ns cursor) ?ns)) =
      take (nat limit) (filter (\<lambda>n. cursor < n \<and> prefix pre n) ?ns)"
    using srt by (simp add: skip_to_cursor_sorted sorted_wrt_drop drop_search_sorted
        page_names_sorted sorted_wrt_filter conj_commute)
  have get: "gm_get0 [] (mp_blobs m) n = the (ReadBlob m n)" if "n \<in> set ?ns" for n
    using that blobs_ok_names [OF assms(1)] by (auto simp: gm_get0_def ReadBlob_def split: option.split)
  have sub: "set (take (nat limit) (filter (\<lambda>n. cursor < n \<and> prefix pre n) ?ns)) \<subseteq> set ?ns"
    by (meson filter_is_subset set_take_subset subset_trans)
  define after where "after = filter (\<lambda>n. cursor < n \<and> prefix pre n) ?ns"
  define names where "names = take (nat limit) after"
  have names_eq: "page_names pre (nat limit) (skip_to_cursor cursor (drop (search_strings ?ns cursor) ?ns)) =
      names"
    using names by (simp add: names_def after_def)
  have get': "gm_get0 [] (mp_blobs m) n = the (ReadBlob m n)" if "n \<in> set names" for n
    using that sub get by (auto simp: names_def after_def)
  have pairs: "map (\<lambda>n. (n, gm_get0 [] (mp_blobs m) n)) names = map (\<lambda>n. (n, the (ReadBlob m n))) names"
    and sizes: "map (\<lambda>n. int (length (gm_get0 [] (mp_blobs m) n))) names =
      map (\<lambda>n. int (length (the (ReadBlob m n)))) names"
    using get' by simp_all
  have read: "read_page ctx 1 m names [] 0 =
      Some (map (\<lambda>n. (n, the (ReadBlob m n))) names,
        sum_list (map (\<lambda>n. int (length (the (ReadBlob m n)))) names))"
    using assms(3) by (simp add: read_page_ok pairs sizes del: map_eq_conv)
  have fin: "int (length names) < limit \<longleftrightarrow> length after < nat limit"
    using assms(2) by (auto simp: names_def)
  show ?thesis
    unfolding ListBlobsPageBounded_def eq Let_def names_eq read after_def [symmetric] names_def [symmetric]
    using assms(2,3) fin by simp
qed

lemma purge_blobs_fold:
  "purge_blobs cutoff ats m =
     (let old = map fst (filter (\<lambda>(n, at). at < cutoff) ats)
      in (int (length old), fold drop_blob old m))"
  by (induction cutoff ats m rule: purge_blobs.induct) (simp_all add: Let_def)

lemma blobs_ok_fold_drop: "blobs_ok m \<Longrightarrow> blobs_ok (fold drop_blob ns m)"
  by (induction ns arbitrary: m) (simp_all add: blobs_ok_drop)

lemma ReadBlob_fold_drop:
  "ReadBlob (fold drop_blob ns m) n = (if n \<in> set ns then None else ReadBlob m n)"
  by (induction ns arbitrary: m) (simp_all add: gm_simps)

lemma blobs_ok_purge: "blobs_ok m \<Longrightarrow> blobs_ok (snd (purge_blobs cutoff ats m))"
  by (simp add: purge_blobs_fold Let_def blobs_ok_fold_drop)

lemma purge_blobs_spec:
  assumes "gm_ok ats"
  shows "fst (purge_blobs cutoff ats m) = int (length (filter (\<lambda>(n, at). at < cutoff) ats))"
    and "ReadBlob (snd (purge_blobs cutoff ats m)) n =
      (case gm_get ats n of None \<Rightarrow> ReadBlob m n | Some at \<Rightarrow> if at < cutoff then None else ReadBlob m n)"
proof -
  show "fst (purge_blobs cutoff ats m) = int (length (filter (\<lambda>(n, at). at < cutoff) ats))"
    by (simp add: purge_blobs_fold Let_def)
  have "n \<in> set (map fst (filter (\<lambda>(n, at). at < cutoff) ats)) \<longleftrightarrow> (\<exists>at. (n, at) \<in> set ats \<and> at < cutoff)"
    by force
  also have "\<dots> \<longleftrightarrow> (case gm_get ats n of None \<Rightarrow> False | Some at \<Rightarrow> at < cutoff)"
    using assms by (rule gm_ex_entry)
  finally show "ReadBlob (snd (purge_blobs cutoff ats m)) n =
      (case gm_get ats n of None \<Rightarrow> ReadBlob m n | Some at \<Rightarrow> if at < cutoff then None else ReadBlob m n)"
    by (simp add: purge_blobs_fold Let_def ReadBlob_fold_drop split: option.splits)
qed

subsection \<open>The provider meets the blob contracts\<close>

lemma ListBlobs_iff:
  assumes "blobs_ok m"
  shows "(n, d) \<in> set (ListBlobs m pre) \<longleftrightarrow> prefix pre n \<and> ReadBlob m n = Some d"
  using assms by (auto simp: ListBlobs_def ReadBlob_def blobs_ok_def)

lemma ListBlobs_keys: "blobs_ok m \<Longrightarrow> distinct (map fst (ListBlobs m pre))"
  using gm_ok_filter [of "mp_blobs m" "\<lambda>name data. prefix pre name"]
  by (simp add: ListBlobs_def gm_filter_def blobs_ok_def)

interpretation mem: blob_store blobs_ok ReadBlob WriteBlob
  by unfold_locales (simp_all add: blobs_ok_Write gm_simps)

interpretation mem_create: blob_creator blobs_ok ReadBlob WriteBlob CreateBlobIfAbsent
  by unfold_locales (simp_all add: blobs_ok_Create Create_spec)

interpretation mem_cas: blob_cas blobs_ok ReadBlob WriteBlob CompareAndSwapBlob
  by unfold_locales (simp_all add: blobs_ok_CAS CAS_success CAS_fail ReadBlob_CAS)

interpretation mem_list: blob_lister blobs_ok ReadBlob WriteBlob ListBlobs drop_blob
  by unfold_locales (simp_all add: ListBlobs_iff ListBlobs_keys blobs_ok_drop gm_simps)

subsection \<open>Walking all pages\<close>

text \<open>A reader that asks for page after page, each from the cursor the last one returned.\<close>

fun walk_pages ::
  "nat \<Rightarrow> memoryProvider \<Rightarrow> string \<Rightarrow> string \<Rightarrow> int \<Rightarrow> (string \<times> string) list option" where
  "walk_pages 0 m pre cursor limit = None"
| "walk_pages (Suc fuel) m pre cursor limit =
     (case ListBlobsPageBounded (\<lambda>i. False) m pre cursor limit of
        Inl _ \<Rightarrow> None
      | Inr page \<Rightarrow>
          if bp_Done page then Some (bp_Blobs page)
          else map_option (\<lambda>rest. bp_Blobs page @ rest)
                 (walk_pages fuel m pre (bp_Next page) limit))"

lemma filter_after_take:
  fixes xs :: "string list"
  assumes "sorted xs" "distinct xs" "0 < k" "k \<le> length xs"
  shows "filter (\<lambda>n. last (take k xs) < n) xs = drop k xs"
proof -
  let ?a = "last (take k xs)"
  have "?a \<in> set (take k xs)" using assms(3,4) by (intro last_in_set) auto
  have st: "sorted (take k xs @ drop k xs)" "distinct (take k xs @ drop k xs)" using assms by simp_all
  have "filter (\<lambda>n. ?a < n) (take k xs) = []"
  proof -
    have "n \<le> ?a" if "n \<in> set (take k xs)" for n
    proof -
      have "take k xs \<noteq> []" using that by (metis empty_iff list.set(1))
      then have "take k xs = butlast (take k xs) @ [?a]" by simp
      moreover have "sorted (take k xs)" using st(1) by (simp only: sorted_append)
      ultimately have "\<forall>x \<in> set (butlast (take k xs)). x \<le> ?a"
        by (metis sorted_append list.set_intros(1))
      then show ?thesis
        using that \<open>take k xs = butlast (take k xs) @ [?a]\<close>
        by (metis Un_iff empty_iff insert_iff list.set(1) list.set(2) order_refl set_append)
    qed
    then show ?thesis by (simp add: filter_empty_conv not_less)
  qed
  moreover have "filter (\<lambda>n. ?a < n) (drop k xs) = drop k xs"
  proof (rule filter_True)
    show "\<forall>n \<in> set (drop k xs). ?a < n"
    proof
      fix n assume n: "n \<in> set (drop k xs)"
      have "?a \<le> n" using st(1) n \<open>?a \<in> set (take k xs)\<close> by (auto simp only: sorted_append)
      moreover have "?a \<noteq> n" using st(2) n \<open>?a \<in> set (take k xs)\<close> by (auto simp only: distinct_append)
      ultimately show "?a < n" by (rule le_neq_trans)
    qed
  qed
  ultimately show ?thesis by (metis append_Nil append_take_drop_id filter_append)
qed

lemma walk_pages_after:
  assumes "blobs_ok m" and "0 < limit"
    and "length (filter (\<lambda>n. cursor < n \<and> prefix pre n) (mp_blobNames m)) < fuel"
  shows "walk_pages fuel m pre cursor limit =
    Some (map (\<lambda>n. (n, the (ReadBlob m n))) (filter (\<lambda>n. cursor < n \<and> prefix pre n) (mp_blobNames m)))"
  using assms(3)
proof (induction fuel arbitrary: cursor)
  case (Suc fuel)
  let ?after = "filter (\<lambda>n. cursor < n \<and> prefix pre n) (mp_blobNames m)"
  let ?names = "take (nat limit) ?after"
  have eq: "sorted_list_of_set (dom (ReadBlob m)) = mp_blobNames m"
    using blobs_ok_names_eq [OF assms(1)] by (simp add: ReadBlob_def [abs_def])
  note page = ListBlobsPageBounded_spec [OF assms(1,2), of "\<lambda>i. False" pre cursor, unfolded eq Let_def]
  show ?case
  proof (cases "length ?after < nat limit")
    case True
    then show ?thesis by (simp add: page)
  next
    case False
    then have "?names \<noteq> []" using assms(2) by (auto simp del: filter_empty_conv)
    then have "last ?names \<in> set ?after" by (meson in_set_takeD last_in_set)
    then have "cursor < last ?names" by simp
    then have "filter (\<lambda>n. last ?names < n \<and> prefix pre n) (mp_blobNames m) =
        filter (\<lambda>n. last ?names < n) ?after"
      by (auto intro!: filter_cong intro: order.strict_trans)
    also have "\<dots> = drop (nat limit) ?after"
      using False assms(1,2) by (intro filter_after_take) (auto simp: blobs_ok_def sorted_wrt_filter)
    finally have rest: "filter (\<lambda>n. last ?names < n \<and> prefix pre n) (mp_blobNames m) =
        drop (nat limit) ?after" .
    have "length (drop (nat limit) ?after) < fuel"
      unfolding length_drop using Suc.prems False assms(2) by linarith
    then have "walk_pages fuel m pre (last ?names) limit =
        Some (map (\<lambda>n. (n, the (ReadBlob m n))) (drop (nat limit) ?after))"
      using Suc.IH [of "last ?names"] by (simp only: rest)
    then show ?thesis
      using False \<open>?names \<noteq> []\<close>
      by (simp add: page map_append [symmetric] del: map_append filter_empty_conv take_eq_Nil)
  qed
qed simp

subsection \<open>Properties\<close>

text \<open>
  C8: A compare-and-swap goes through exactly when the blob still has the expected contents (and
  the call does not ask to delete a missing blob); a lost exchange leaves the provider as it was,
  a won one changes this blob alone, and the index of names stays the sorted key set either way.
\<close>

theorem CompareAndSwapBlob_correct:
  assumes "blobs_ok m"
  shows "case CompareAndSwapBlob now name expected replacement m of (won, m') \<Rightarrow>
    blobs_ok m' \<and>
    won = (ReadBlob m name = expected \<and> \<not> (expected = None \<and> replacement = None)) \<and>
    (if won then (\<forall>n. ReadBlob m' n = (if n = name then replacement else ReadBlob m n)) else m' = m)"
proof -
  obtain won m' where c: "CompareAndSwapBlob now name expected replacement m = (won, m')"
    by fastforce
  show ?thesis
    using mem_cas.cas_invar [OF assms, of now name expected replacement]
      mem_cas.cas_won [OF assms, of now name expected replacement]
      mem_cas.cas_lost [OF assms, of now name expected replacement]
      mem_cas.read_cas [OF assms, of now name expected replacement]
    by (simp add: c)
qed

theorem CompareAndSwapBlob_correct_witness:
  "let m = WriteBlob 5 ''b'' ''x'' (WriteBlob 4 ''a'' ''y'' NewMemory) in
   case CompareAndSwapBlob 6 ''a'' (Some ''y'') None m of (won, m') \<Rightarrow>
     won \<and> ReadBlob m' ''a'' = None \<and> ReadBlob m' ''b'' = Some ''x'' \<and> mp_blobNames m' = [''b'']"
proof -
  let ?m = "WriteBlob 5 ''b'' ''x'' (WriteBlob 4 ''a'' ''y'' NewMemory)"
  have ok: "blobs_ok ?m" by (intro blobs_ok_Write blobs_ok_New)
  obtain won m' where c: "CompareAndSwapBlob 6 ''a'' (Some ''y'') None ?m = (won, m')"
    by fastforce
  have "mp_blobNames (snd (CompareAndSwapBlob 6 ''a'' (Some ''y'') None ?m)) = [''b'']"
    by code_simp
  then show ?thesis
    using CompareAndSwapBlob_correct [OF ok, where now=6 and name="''a''" and expected="Some ''y''"
        and replacement=None]
    by (simp add: c gm_simps)
qed

text \<open>
  C9: A reader that walks the pages of a prefix from the empty cursor, with any positive page
  size, ends, and has then seen every blob of the prefix once, in the order of the names: what
  \<open>ListBlobs\<close> returns. (The empty cursor stands before every name but the empty one.)
\<close>

theorem walk_pages_complete:
  assumes "blobs_ok m" and "ReadBlob m [] = None" and "0 < limit" and "length (mp_blobs m) < fuel"
  shows "\<exists>page. walk_pages fuel m pre [] limit = Some page \<and>
    map fst page = filter (prefix pre) (mp_blobNames m) \<and> set page = set (ListBlobs m pre)"
proof -
  let ?names = "filter (\<lambda>n. [] < n \<and> prefix pre n) (mp_blobNames m)"
  have ne: "[] < n" if "n \<in> set (mp_blobNames m)" for n
  proof -
    have "n \<noteq> []" using that assms(2) blobs_ok_names [OF assms(1), of n] by (auto simp: ReadBlob_def)
    then show ?thesis by (cases n) simp_all
  qed
  have eq: "?names = filter (prefix pre) (mp_blobNames m)"
    using ne by (intro filter_cong) auto
  have "card (set (mp_blobNames m)) = card (set (map fst (mp_blobs m)))"
    using assms(1) by (simp add: blobs_ok_def dom_map_of_conv_image_fst)
  then have "length (mp_blobNames m) = length (mp_blobs m)"
    using assms(1) by (metis blobs_ok_def distinct_card length_map)
  then have "length ?names < fuel"
    using assms(4) by (metis le_less_trans length_filter_le)
  then have walk: "walk_pages fuel m pre [] limit = Some (map (\<lambda>n. (n, the (ReadBlob m n))) ?names)"
    using assms(1,3) by (rule walk_pages_after [rotated 2])
  moreover have "set (map (\<lambda>n. (n, the (ReadBlob m n))) ?names) = set (ListBlobs m pre)"
    using ListBlobs_iff [OF assms(1)] blobs_ok_names [OF assms(1)]
    unfolding eq by (auto simp: ReadBlob_def)
  ultimately show ?thesis by (simp add: eq comp_def)
qed

theorem walk_pages_complete_witness:
  "let m = WriteBlob 6 ''p/b'' ''x'' (WriteBlob 5 ''q'' ''z'' (WriteBlob 4 ''p/a'' ''y'' NewMemory)) in
   walk_pages 4 m ''p/'' [] 1 = Some [(''p/a'', ''y''), (''p/b'', ''x'')]"
proof -
  let ?m = "WriteBlob 6 ''p/b'' ''x'' (WriteBlob 5 ''q'' ''z'' (WriteBlob 4 ''p/a'' ''y'' NewMemory))"
  have ok: "blobs_ok ?m" by (intro blobs_ok_Write blobs_ok_New)
  have "ReadBlob ?m [] = None" by code_simp
  moreover have "length (mp_blobs ?m) < 4" by code_simp
  ultimately obtain page where page: "walk_pages 4 ?m ''p/'' [] 1 = Some page"
      "map fst page = filter (prefix ''p/'') (mp_blobNames ?m)" "set page = set (ListBlobs ?m ''p/'')"
    using walk_pages_complete [OF ok, of 1 4 "''p/''"] by auto
  have "walk_pages 4 ?m ''p/'' [] 1 = Some [(''p/a'', ''y''), (''p/b'', ''x'')]" by code_simp
  then show ?thesis using page by simp
qed

end
