(* ===== verification/History_Store.thy ===== *)
theory History_Store
  imports Memory_State
begin

text \<open>
  The incident and analysis history of the in-memory provider (\<open>pkg/storage/memory.go\<close>): saving
  with merge, acknowledgement, look-ups, newest-first lists and pages, counts, and the purge and
  delete operations of the \<open>Lifecycle\<close> capability.

  The slices \<open>incidents\<close> and \<open>analyses\<close> are lists, oldest first. Records handed out are copies,
  which are the same value; a nil record is \<open>None\<close>.
\<close>

lemma map_CloneIncidentRecord [simp]: "map CloneIncidentRecord xs = xs"
  by (simp add: map_idI)

subsection \<open>Loops over the history\<close>

fun list_loop :: "int \<Rightarrow> ('a \<Rightarrow> bool) \<Rightarrow> 'a list \<Rightarrow> 'a list \<Rightarrow> 'a list" where
  "list_loop limit keep [] out = out"
| "list_loop limit keep (x # xs) out =
     (if \<not> keep x then list_loop limit keep xs out
      else if limit > 0 \<and> int (length (out @ [x])) \<ge> limit then out @ [x]
      else list_loop limit keep xs (out @ [x]))"

fun page_loop :: "int \<Rightarrow> int \<Rightarrow> ('a \<Rightarrow> bool) \<Rightarrow> int \<Rightarrow> 'a list \<Rightarrow> 'a list \<Rightarrow> 'a list" where
  "page_loop offset limit keep skipped [] out = out"
| "page_loop offset limit keep skipped (x # xs) out =
     (if \<not> keep x then page_loop offset limit keep skipped xs out
      else if skipped < offset then page_loop offset limit keep (skipped + 1) xs out
      else if int (length (out @ [x])) \<ge> limit then out @ [x]
      else page_loop offset limit keep skipped xs (out @ [x]))"

definition clip :: "int \<Rightarrow> 'a list \<Rightarrow> 'a list" where
  "clip limit xs = (if limit > 0 then take (nat limit) xs else xs)"

lemma list_loop_clip:
  "limit > 0 \<Longrightarrow> int (length out) < limit \<Longrightarrow>
   list_loop limit keep xs out = out @ take (nat limit - length out) (filter keep xs)"
proof (induction limit keep xs out rule: list_loop.induct)
  case (2 limit keep x xs out)
  then have "nat limit - length out = Suc (nat limit - Suc (length out))" by auto
  with 2 show ?case by (auto simp: take_Cons')
qed simp

lemma list_loop_all: "\<not> limit > 0 \<Longrightarrow> list_loop limit keep xs out = out @ filter keep xs"
  by (induction limit keep xs out rule: list_loop.induct) auto

lemma list_loop_spec: "list_loop limit keep xs [] = clip limit (filter keep xs)"
  using list_loop_clip [of limit "[]" keep xs] list_loop_all [of limit keep xs "[]"]
  by (auto simp: clip_def)

lemma page_loop_take:
  "0 < limit \<Longrightarrow> int (length out) < limit \<Longrightarrow> skipped \<ge> offset \<Longrightarrow>
   page_loop offset limit keep skipped xs out = out @ take (nat limit - length out) (filter keep xs)"
proof (induction offset limit keep skipped xs out rule: page_loop.induct)
  case (2 offset limit keep skipped x xs out)
  then have "nat limit - length out = Suc (nat limit - Suc (length out))" by auto
  with 2 show ?case by (auto simp: take_Cons')
qed simp

lemma page_loop_skip:
  "0 < limit \<Longrightarrow> skipped \<le> offset \<Longrightarrow>
   page_loop offset limit keep skipped xs [] =
     take (nat limit) (drop (nat (offset - skipped)) (filter keep xs))"
proof (induction xs arbitrary: skipped)
  case (Cons x xs)
  show ?case
  proof (cases "keep x \<and> skipped < offset")
    case True
    then have "nat (offset - skipped) = Suc (nat (offset - (skipped + 1)))" by auto
    with True Cons show ?thesis by simp
  next
    case False
    then show ?thesis
      using Cons page_loop_take [of limit "[]" offset skipped keep "x # xs"] by auto
  qed
qed simp

lemma page_loop_spec:
  "0 < limit \<Longrightarrow> 0 \<le> offset \<Longrightarrow>
   page_loop offset limit keep 0 xs [] = take (nat limit) (drop (nat offset) (filter keep xs))"
  by (simp add: page_loop_skip)

subsection \<open>Incidents\<close>

definition DefaultIncidentPageSize :: int where "DefaultIncidentPageSize = 1000"
definition DefaultAnalysisPageSize :: int where "DefaultAnalysisPageSize = 1000"

text \<open>The loop over the slice replaces the first record with the id, or appends a new one.\<close>

definition save_by ::
  "('a \<Rightarrow> bool) \<Rightarrow> ('a \<Rightarrow> 'a) \<Rightarrow> 'a \<Rightarrow> 'a list \<Rightarrow> 'a list" where
  "save_by same merge fresh xs =
     (if find same xs = None then xs @ [fresh] else update_first same merge xs)"

definition SaveIncident :: "IncidentRecord \<Rightarrow> memoryProvider \<Rightarrow> memoryProvider" where
  "SaveIncident rec m =
     (let rec = rec\<lparr>ir_OrgID := NormalizeOrgID (ir_OrgID rec)\<rparr>;
          stored = CloneIncidentRecord rec
      in m\<lparr>mp_incidents := save_by (\<lambda>e. ir_ID e = ir_ID rec)
             (\<lambda>existing. mergeDetectionIncident existing stored) stored (mp_incidents m)\<rparr>)"

definition SaveDetectionIncident ::
  "IncidentRecord option \<Rightarrow> memoryProvider \<Rightarrow> storage_error + memoryProvider" where
  "SaveDetectionIncident rec_opt m =
     (case rec_opt of
        None \<Rightarrow> Inl ErrInvalidDetectionOccurrence
      | Some rec \<Rightarrow>
          if ir_ID rec = [] then Inl ErrInvalidDetectionOccurrence
          else
            let rec = rec\<lparr>ir_OrgID := NormalizeOrgID (ir_OrgID rec)\<rparr>
            in Inr (m\<lparr>mp_incidents := save_by (\<lambda>e. ir_ID e = ir_ID rec)
                 (\<lambda>existing. detectionIncidentUpdate (Some existing) rec)
                 (CloneIncidentRecord rec) (mp_incidents m)\<rparr>))"

definition UpdateIncidentAck ::
  "string \<Rightarrow> time \<Rightarrow> memoryProvider \<Rightarrow> storage_error + memoryProvider" where
  "UpdateIncidentAck i ackedAt m =
     (if find (\<lambda>r. ir_ID r = i) (mp_incidents m) = None then Inl ErrNotFound
      else Inr (m\<lparr>mp_incidents :=
        update_first (\<lambda>r. ir_ID r = i) (\<lambda>r. r\<lparr>ir_AckedAt := Some ackedAt\<rparr>) (mp_incidents m)\<rparr>))"

definition GetIncident :: "memoryProvider \<Rightarrow> string \<Rightarrow> storage_error + IncidentRecord" where
  "GetIncident m i =
     (case find (\<lambda>r. ir_ID r = i) (mp_incidents m) of
        None \<Rightarrow> Inl ErrNotFound
      | Some r \<Rightarrow> Inr (CloneIncidentRecord r))"

definition ListIncidents :: "memoryProvider \<Rightarrow> int \<Rightarrow> IncidentRecord list" where
  "ListIncidents m limit =
     (if mp_incidents m = [] then []
      else map CloneIncidentRecord (list_loop limit (\<lambda>r. True) (rev (mp_incidents m)) []))"

definition ListIncidentsPage :: "memoryProvider \<Rightarrow> string \<Rightarrow> int \<Rightarrow> int \<Rightarrow> IncidentRecord list" where
  "ListIncidentsPage m origin offset limit =
     (let limit = (if limit \<le> 0 then DefaultIncidentPageSize else limit);
          offset = (if offset < 0 then 0 else offset);
          filtered = (origin = OriginAIDetect \<or> origin = OriginWebhook)
      in map CloneIncidentRecord
           (page_loop offset limit (\<lambda>r. \<not> (filtered \<and> EffectiveOrigin r \<noteq> origin)) 0
             (rev (mp_incidents m)) []))"

record IncidentCounts =
  co_AIDetect :: int
  co_Webhook :: int
  co_Total :: int

definition CountIncidents :: "memoryProvider \<Rightarrow> IncidentCounts" where
  "CountIncidents m =
     (let c = fold (\<lambda>r c.
            if ir_Resolved r then c
            else if EffectiveOrigin r = OriginAIDetect then c\<lparr>co_AIDetect := co_AIDetect c + 1\<rparr>
            else c\<lparr>co_Webhook := co_Webhook c + 1\<rparr>) (mp_incidents m)
            \<lparr>co_AIDetect = 0, co_Webhook = 0, co_Total = 0\<rparr>
      in c\<lparr>co_Total := co_AIDetect c + co_Webhook c\<rparr>)"

definition CountIncidentsByStatus :: "memoryProvider \<Rightarrow> IncidentStatusCounts" where
  "CountIncidentsByStatus m = StatusCountsOf (mp_incidents m)"

definition CountIncidentsByStatusSince :: "memoryProvider \<Rightarrow> time \<Rightarrow> IncidentStatusCounts" where
  "CountIncidentsByStatusSince m since = StatusCountsSince (mp_incidents m) since"

definition of_service :: "string \<Rightarrow> string \<Rightarrow> time \<Rightarrow> IncidentRecord \<Rightarrow> bool" where
  "of_service orgID service since r \<longleftrightarrow>
     \<not> (NormalizeOrgID (ir_OrgID r) \<noteq> NormalizeOrgID orgID \<or> ServiceLabel r \<noteq> service \<or>
        ir_CreatedAt r < since)"

definition CountIncidentsByServiceSince ::
  "memoryProvider \<Rightarrow> string \<Rightarrow> string \<Rightarrow> time \<Rightarrow> int \<times> (string, int) gomap" where
  "CountIncidentsByServiceSince m orgID service since =
     fold (\<lambda>r (count, severities).
        if \<not> of_service orgID service since r then (count, severities)
        else let s = ExtractSeverity (ir_Content r)
             in (count + 1, gm_set severities s (gm_get0 0 severities s + 1)))
       (mp_incidents m) (0, [])"

definition ListIncidentsByServiceSince ::
  "memoryProvider \<Rightarrow> string \<Rightarrow> string \<Rightarrow> time \<Rightarrow> int \<Rightarrow> IncidentRecord list" where
  "ListIncidentsByServiceSince m orgID service since limit =
     (let out = map CloneIncidentRecord (filter (of_service orgID service since) (mp_incidents m));
          out = sort_key (\<lambda>r. - ir_CreatedAt r) out
      in if limit > 0 \<and> int (length out) > limit then take (nat limit) out else out)"

subsection \<open>Analyses\<close>

definition SaveAnalysis ::
  "AnalysisRecord option \<Rightarrow> memoryProvider \<Rightarrow> storage_error + memoryProvider" where
  "SaveAnalysis rec_opt m =
     (case CloneAnalysisRecord rec_opt of
        None \<Rightarrow> Inl ErrNotFound
      | Some rec \<Rightarrow>
          if an_ID rec = [] then Inl ErrNotFound
          else let stored = rec\<lparr>an_OrgID := NormalizeOrgID (an_OrgID rec)\<rparr>
               in Inr (m\<lparr>mp_analyses :=
                    save_by (\<lambda>e. an_ID e = an_ID rec) (\<lambda>e. stored) stored (mp_analyses m)\<rparr>))"

definition GetAnalysis :: "memoryProvider \<Rightarrow> string \<Rightarrow> storage_error + AnalysisRecord" where
  "GetAnalysis m i =
     (case find (\<lambda>r. an_ID r = i) (mp_analyses m) of None \<Rightarrow> Inl ErrNotFound | Some r \<Rightarrow> Inr r)"

definition ListAnalysesByIncident :: "memoryProvider \<Rightarrow> string \<Rightarrow> int \<Rightarrow> AnalysisRecord list" where
  "ListAnalysesByIncident m incidentID limit =
     (if mp_analyses m = [] then []
      else list_loop limit (\<lambda>r. an_IncidentID r = incidentID) (rev (mp_analyses m)) [])"

definition ListAnalyses :: "memoryProvider \<Rightarrow> int \<Rightarrow> AnalysisRecord list" where
  "ListAnalyses m limit =
     (if mp_analyses m = [] then [] else list_loop limit (\<lambda>r. True) (rev (mp_analyses m)) [])"

definition CountAnalyses :: "memoryProvider \<Rightarrow> int" where
  "CountAnalyses m = int (length (mp_analyses m))"

definition ListAnalysesPage :: "memoryProvider \<Rightarrow> int \<Rightarrow> int \<Rightarrow> AnalysisRecord list" where
  "ListAnalysesPage m offset limit =
     (let limit = (if limit \<le> 0 then DefaultAnalysisPageSize else limit);
          offset = (if offset < 0 then 0 else offset)
      in page_loop offset limit (\<lambda>r. True) 0 (rev (mp_analyses m)) [])"

definition DeleteAnalysis :: "string \<Rightarrow> memoryProvider \<Rightarrow> storage_error + memoryProvider" where
  "DeleteAnalysis i m =
     (if find (\<lambda>r. an_ID r = i) (mp_analyses m) = None then Inl ErrNotFound
      else Inr (m\<lparr>mp_analyses := remove_first (\<lambda>r. an_ID r = i) (mp_analyses m)\<rparr>))"

subsection \<open>Lifecycle\<close>

definition DomainIncidents :: string where "DomainIncidents = ''incidents''"
definition DomainAnalyses :: string where "DomainAnalyses = ''analyses''"
definition DomainBlobs :: string where "DomainBlobs = ''blobs''"

definition PurgeOlderThan ::
  "string \<Rightarrow> time \<Rightarrow> memoryProvider \<Rightarrow> storage_error + (int \<times> memoryProvider)" where
  "PurgeOlderThan domain cutoff m =
     (if domain = DomainIncidents then
        Inr (int (length (filter (\<lambda>r. ir_CreatedAt r < cutoff) (mp_incidents m))),
             m\<lparr>mp_incidents := filter (\<lambda>r. \<not> ir_CreatedAt r < cutoff) (mp_incidents m)\<rparr>)
      else if domain = DomainAnalyses then
        Inr (int (length (filter (\<lambda>r. an_RequestedAt r < cutoff) (mp_analyses m))),
             m\<lparr>mp_analyses := filter (\<lambda>r. \<not> an_RequestedAt r < cutoff) (mp_analyses m)\<rparr>)
      else if domain = DomainBlobs then Inr (purge_blobs cutoff (mp_blobAt m) m)
      else Inl ErrUnknownDomain)"

definition DeleteByID :: "string \<Rightarrow> string \<Rightarrow> memoryProvider \<Rightarrow> storage_error + memoryProvider" where
  "DeleteByID domain i m =
     (if domain = DomainIncidents then
        if find (\<lambda>r. ir_ID r = i) (mp_incidents m) = None then Inl ErrNotFound
        else Inr (m\<lparr>mp_incidents := remove_first (\<lambda>r. ir_ID r = i) (mp_incidents m)\<rparr>)
      else if domain = DomainAnalyses then DeleteAnalysis i m
      else if domain = DomainBlobs then delete_blob_by_id i m
      else Inl ErrUnknownDomain)"

subsection \<open>Saving and looking up\<close>

lemma find_save_by:
  assumes "\<And>x. same x \<Longrightarrow> same (merge x)" and "same fresh"
  shows "find same (save_by same merge fresh xs) =
    Some (case find same xs of None \<Rightarrow> fresh | Some x \<Rightarrow> merge x)"
proof (cases "find same xs")
  case None
  then have "find same (xs @ [fresh]) = Some fresh" using assms(2) by (induction xs) (auto split: if_splits)
  with None show ?thesis by (simp add: save_by_def)
next
  case (Some x)
  then show ?thesis using assms(1) by (simp add: save_by_def find_update_first)
qed

lemma find_append_other: "\<not> P y \<Longrightarrow> find P (xs @ [y]) = find P xs"
  by (induction xs) auto

lemma find_save_by_other:
  assumes "\<And>x. same x \<Longrightarrow> \<not> other x" "\<And>x. same x \<Longrightarrow> same (merge x)" "same fresh"
  shows "find other (save_by same merge fresh xs) = find other xs"
  using assms by (auto simp: save_by_def find_append_other find_update_first_other)

lemma map_save_by:
  assumes "\<And>x. same x \<Longrightarrow> key (merge x) = key x"
  shows "map key (save_by same merge fresh xs) =
    (if find same xs = None then map key xs @ [key fresh] else map key xs)"
  using assms by (simp add: save_by_def map_update_first)

lemma set_update_first: "set (update_first P f xs) \<subseteq> set xs \<union> f ` {x \<in> set xs. P x}"
  by (induction xs) auto

lemma set_save_by: "set (save_by same merge fresh xs) \<subseteq> set xs \<union> merge ` {x \<in> set xs. same x} \<union> {fresh}"
  using set_update_first [of same merge xs] by (auto simp: save_by_def)

lemma find_by_key:
  assumes "distinct (map key xs)" and "x \<in> set xs"
  shows "find (\<lambda>y. key y = key x) xs = Some x"
  using assms by (induction xs) auto

lemma find_in: "find P xs = Some x \<Longrightarrow> x \<in> set xs \<and> P x"
  by (induction xs) (auto split: if_splits)

lemma remove_first_filter:
  "distinct (map key xs) \<Longrightarrow> remove_first (\<lambda>x. key x = k) xs = filter (\<lambda>x. key x \<noteq> k) xs"
proof (induction xs)
  case (Cons x xs)
  show ?case
  proof (cases "key x = k")
    case True
    then have "\<forall>y \<in> set xs. key y \<noteq> k" using Cons.prems by (auto simp: image_iff)
    then show ?thesis using True by simp
  qed (use Cons in simp)
qed simp

lemma ball_update_first:
  "\<forall>x \<in> set xs. Q x \<Longrightarrow> (\<And>x. Q x \<Longrightarrow> Q (f x)) \<Longrightarrow> \<forall>x \<in> set (update_first P f xs). Q x"
  by (induction xs) auto

text \<open>The history invariant: ids are unique and every incident belongs to an organisation.\<close>

definition history_ok :: "memoryProvider \<Rightarrow> bool" where
  "history_ok m \<longleftrightarrow>
     distinct (map ir_ID (mp_incidents m)) \<and> (\<forall>r \<in> set (mp_incidents m). ir_OrgID r \<noteq> []) \<and>
     distinct (map an_ID (mp_analyses m)) \<and> (\<forall>r \<in> set (mp_analyses m). an_OrgID r \<noteq> [])"

lemma history_ok_New: "history_ok NewMemory"
  by (simp add: history_ok_def NewMemory_def)

lemma mergeDetectionIncident_OrgID [simp]: "ir_OrgID (mergeDetectionIncident e i) = ir_OrgID i"
  by (simp add: mergeDetectionIncident_def Let_def mergeProgress_keeps)

lemma GetIncident_iff:
  assumes "history_ok m"
  shows "GetIncident m i = Inr r \<longleftrightarrow> r \<in> set (mp_incidents m) \<and> ir_ID r = i"
  using assms find_by_key [of ir_ID "mp_incidents m" r]
  by (auto simp: GetIncident_def history_ok_def dest: find_in split: option.splits)

lemma GetIncident_None: "GetIncident m i = Inl ErrNotFound \<longleftrightarrow> i \<notin> ir_ID ` set (mp_incidents m)"
  by (auto simp: GetIncident_def find_None_iff split: option.splits dest: find_in)

lemma distinct_save_by:
  assumes "\<And>x. key x = key fresh \<Longrightarrow> key (merge x) = key x" and "distinct (map key xs)"
  shows "distinct (map key (save_by (\<lambda>x. key x = key fresh) merge fresh xs))"
  using assms(2) map_save_by [of "\<lambda>x. key x = key fresh" key merge fresh xs, OF assms(1)]
  by (auto simp: find_None_iff)

lemma ball_save_by:
  assumes "\<And>x. x \<in> set xs \<Longrightarrow> Q x" and "\<And>x. x \<in> set xs \<Longrightarrow> same x \<Longrightarrow> Q (merge x)" and "Q fresh"
  shows "\<forall>x \<in> set (save_by same merge fresh xs). Q x"
proof
  fix x assume "x \<in> set (save_by same merge fresh xs)"
  with set_save_by [of same merge fresh xs]
  have "x \<in> set xs \<or> x \<in> merge ` {x \<in> set xs. same x} \<or> x = fresh" by blast
  then show "Q x" using assms by auto
qed

text \<open>Saving under the record's own id keeps the ids unique and the organisations set.\<close>

lemma save_incident_ok:
  assumes "history_ok m" and "ir_OrgID s \<noteq> []"
    and "\<And>e. e \<in> set (mp_incidents m) \<Longrightarrow> ir_ID (f e) = ir_ID e \<or> ir_ID (f e) = ir_ID s"
    and "\<And>e. ir_ID e = ir_ID s \<Longrightarrow> ir_ID (f e) = ir_ID e"
    and "\<And>e. ir_OrgID e \<noteq> [] \<Longrightarrow> ir_OrgID (f e) \<noteq> []"
  shows "history_ok (m\<lparr>mp_incidents := save_by (\<lambda>e. ir_ID e = ir_ID s) f s (mp_incidents m)\<rparr>)"
proof -
  have "distinct (map ir_ID (save_by (\<lambda>e. ir_ID e = ir_ID s) f s (mp_incidents m)))"
    using assms(1) by (intro distinct_save_by assms(4)) (simp_all add: history_ok_def)
  moreover have "\<forall>r \<in> set (save_by (\<lambda>e. ir_ID e = ir_ID s) f s (mp_incidents m)). ir_OrgID r \<noteq> []"
    using assms(1) by (intro ball_save_by assms(5) assms(2)) (simp_all add: history_ok_def)
  ultimately show ?thesis using assms(1) by (simp add: history_ok_def)
qed

lemma history_ok_SaveIncident: "history_ok m \<Longrightarrow> history_ok (SaveIncident rec m)"
  unfolding SaveIncident_def Let_def CloneIncidentRecord_id
  by (rule save_incident_ok) simp_all

lemma history_ok_SaveDetectionIncident:
  assumes "history_ok m" and "SaveDetectionIncident rec_opt m = Inr m'"
  shows "history_ok m'"
proof -
  obtain rec where rec: "rec_opt = Some rec" using assms(2) by (auto simp: SaveDetectionIncident_def split: option.splits)
  let ?s = "rec\<lparr>ir_OrgID := NormalizeOrgID (ir_OrgID rec)\<rparr>"
  have "m' = m\<lparr>mp_incidents := save_by (\<lambda>e. ir_ID e = ir_ID ?s)
      (\<lambda>existing. detectionIncidentUpdate (Some existing) ?s) ?s (mp_incidents m)\<rparr>"
    using assms(2) by (simp add: SaveDetectionIncident_def rec Let_def split: if_splits)
  also have "history_ok \<dots>"
    using assms(1) by (rule save_incident_ok) (simp_all add: detectionIncidentUpdate_keeps)
  finally show ?thesis .
qed

lemma history_ok_Ack:
  assumes "history_ok m" and "UpdateIncidentAck i t m = Inr m'"
  shows "history_ok m'"
proof -
  let ?f = "\<lambda>r. r\<lparr>ir_AckedAt := Some t\<rparr>"
  let ?xs = "update_first (\<lambda>r. ir_ID r = i) ?f (mp_incidents m)"
  have "map ir_ID ?xs = map ir_ID (mp_incidents m)"
    by (simp add: map_update_first)
  moreover have "\<forall>r \<in> set ?xs. ir_OrgID r \<noteq> []"
    using assms(1) by (intro ball_update_first) (simp_all add: history_ok_def)
  moreover have "m' = m\<lparr>mp_incidents := ?xs\<rparr>"
    using assms(2) by (simp add: UpdateIncidentAck_def split: if_splits)
  ultimately show ?thesis using assms(1) by (simp add: history_ok_def)
qed

lemma history_ok_SaveAnalysis:
  assumes "history_ok m" and "SaveAnalysis rec_opt m = Inr m'"
  shows "history_ok m'"
proof -
  obtain rec where rec: "rec_opt = Some rec" using assms(2) by (auto simp: SaveAnalysis_def split: option.splits)
  define s where "s = rec\<lparr>an_OrgID := NormalizeOrgID (an_OrgID rec)\<rparr>"
  have s: "an_ID s = an_ID rec" "an_OrgID s \<noteq> []" by (simp_all add: s_def)
  have m': "m' = m\<lparr>mp_analyses := save_by (\<lambda>e. an_ID e = an_ID s) (\<lambda>e. s) s (mp_analyses m)\<rparr>"
    using assms(2) by (simp add: SaveAnalysis_def rec Let_def s_def split: if_splits)
  have "distinct (map an_ID (save_by (\<lambda>e. an_ID e = an_ID s) (\<lambda>e. s) s (mp_analyses m)))"
    using assms(1) by (intro distinct_save_by) (simp_all add: history_ok_def)
  moreover have "\<forall>r \<in> set (save_by (\<lambda>e. an_ID e = an_ID s) (\<lambda>e. s) s (mp_analyses m)). an_OrgID r \<noteq> []"
    using assms(1) s(2) by (intro ball_save_by) (simp_all add: history_ok_def)
  ultimately show ?thesis using assms(1) by (simp add: m' history_ok_def)
qed

lemma history_ok_Delete: "history_ok m \<Longrightarrow> DeleteByID d i m = Inr m' \<Longrightarrow> history_ok m'"
  by (auto simp: DeleteByID_def DeleteAnalysis_def delete_blob_by_id_def drop_blob_def history_ok_def
      remove_first_filter distinct_map_filter split: if_splits)

lemma purge_blobs_history:
  "mp_incidents (snd (purge_blobs c ats m)) = mp_incidents m"
  "mp_analyses (snd (purge_blobs c ats m)) = mp_analyses m"
proof -
  have "mp_incidents (fold drop_blob ns m) = mp_incidents m \<and> mp_analyses (fold drop_blob ns m) = mp_analyses m"
    for ns by (induction ns arbitrary: m) (simp_all add: drop_blob_def)
  then show "mp_incidents (snd (purge_blobs c ats m)) = mp_incidents m"
    and "mp_analyses (snd (purge_blobs c ats m)) = mp_analyses m"
    by (simp_all add: purge_blobs_fold Let_def)
qed

lemma history_ok_Purge: "history_ok m \<Longrightarrow> PurgeOlderThan d c m = Inr (n, m') \<Longrightarrow> history_ok m'"
  using purge_blobs_history [of c "mp_blobAt m" m]
  by (auto simp: PurgeOlderThan_def history_ok_def distinct_map_filter split: if_splits)

lemma Get_SaveIncident:
  assumes "history_ok m"
  shows "GetIncident (SaveIncident rec m) i =
    (let s = rec\<lparr>ir_OrgID := NormalizeOrgID (ir_OrgID rec)\<rparr> in
     if i = ir_ID rec
     then Inr (case GetIncident m i of Inl _ \<Rightarrow> s | Inr old \<Rightarrow> mergeDetectionIncident old s)
     else GetIncident m i)"
proof (cases "i = ir_ID rec")
  case True
  then show ?thesis
    by (auto simp: GetIncident_def SaveIncident_def Let_def find_save_by split: option.split)
next
  case False
  then have "find (\<lambda>r. ir_ID r = i) (mp_incidents (SaveIncident rec m)) = find (\<lambda>r. ir_ID r = i) (mp_incidents m)"
    by (simp add: SaveIncident_def Let_def find_save_by_other)
  with False show ?thesis by (simp add: GetIncident_def)
qed

lemma Get_SaveDetectionIncident:
  assumes "history_ok m" and "ir_ID rec \<noteq> []"
  shows "\<exists>m'. SaveDetectionIncident (Some rec) m = Inr m' \<and> GetIncident m' i =
    (let s = rec\<lparr>ir_OrgID := NormalizeOrgID (ir_OrgID rec)\<rparr> in
     if i = ir_ID rec
     then Inr (case GetIncident m i of Inl _ \<Rightarrow> s | Inr old \<Rightarrow> detectionIncidentUpdate (Some old) s)
     else GetIncident m i)"
proof -
  let ?s = "rec\<lparr>ir_OrgID := NormalizeOrgID (ir_OrgID rec)\<rparr>"
  let ?l = "save_by (\<lambda>e. ir_ID e = ir_ID rec) (\<lambda>e. detectionIncidentUpdate (Some e) ?s) ?s (mp_incidents m)"
  have m': "SaveDetectionIncident (Some rec) m = Inr (m\<lparr>mp_incidents := ?l\<rparr>)"
    using assms(2) by (simp add: SaveDetectionIncident_def Let_def)
  show ?thesis
  proof (cases "i = ir_ID rec")
    case True
    then have "find (\<lambda>r. ir_ID r = i) ?l = Some (case find (\<lambda>r. ir_ID r = i) (mp_incidents m) of
        None \<Rightarrow> ?s | Some e \<Rightarrow> detectionIncidentUpdate (Some e) ?s)"
      by (simp add: find_save_by detectionIncidentUpdate_keeps)
    then show ?thesis using True m' by (auto simp: GetIncident_def Let_def split: option.split)
  next
    case False
    then have "find (\<lambda>r. ir_ID r = i) ?l = find (\<lambda>r. ir_ID r = i) (mp_incidents m)"
      by (simp add: find_save_by_other detectionIncidentUpdate_keeps)
    then show ?thesis using False m' by (simp add: GetIncident_def)
  qed
qed

lemma ListIncidentsPage_spec:
  assumes "0 < limit" "0 \<le> offset"
  shows "ListIncidentsPage m origin offset limit =
    take (nat limit) (drop (nat offset)
      (filter (\<lambda>r. origin \<in> {OriginAIDetect, OriginWebhook} \<longrightarrow> EffectiveOrigin r = origin)
        (rev (mp_incidents m))))"
  using assms by (simp add: ListIncidentsPage_def Let_def page_loop_spec)

lemma take_drop_tiles:
  "concat (map (\<lambda>k. take n (drop (k * n) xs)) [0..<p]) = take (p * n) xs"
  by (induction p) (simp_all add: take_add [symmetric] add.commute)

lemma length_filter_conj:
  "length (filter P xs) = length (filter (\<lambda>x. P x \<and> Q x) xs) + length (filter (\<lambda>x. P x \<and> \<not> Q x) xs)"
  by (induction xs) auto

lemma CountIncidents_spec:
  "CountIncidents m =
     \<lparr>co_AIDetect = int (length (filter (\<lambda>r. \<not> ir_Resolved r \<and> is_ai r) (mp_incidents m))),
      co_Webhook = int (length (filter (\<lambda>r. \<not> ir_Resolved r \<and> \<not> is_ai r) (mp_incidents m))),
      co_Total = int (length (filter (\<lambda>r. \<not> ir_Resolved r) (mp_incidents m)))\<rparr>"
proof -
  let ?f = "\<lambda>r c. if ir_Resolved r then c
            else if EffectiveOrigin r = OriginAIDetect then c\<lparr>co_AIDetect := co_AIDetect c + 1\<rparr>
            else c\<lparr>co_Webhook := co_Webhook c + 1\<rparr>"
  have "fold ?f xs \<lparr>co_AIDetect = 0, co_Webhook = 0, co_Total = 0\<rparr> =
     \<lparr>co_AIDetect = int (length (filter (\<lambda>r. \<not> ir_Resolved r \<and> is_ai r) xs)),
      co_Webhook = int (length (filter (\<lambda>r. \<not> ir_Resolved r \<and> \<not> is_ai r) xs)), co_Total = 0\<rparr>" for xs
    by (induction xs rule: rev_induct) (auto simp: is_ai_def)
  then show ?thesis
    using length_filter_conj [of "\<lambda>r. \<not> ir_Resolved r" "mp_incidents m" is_ai]
    by (simp add: CountIncidents_def Let_def)
qed

lemma same_episode_org [simp]: "same_episode e (r\<lparr>ir_OrgID := o'\<rparr>) = same_episode e r"
  by (simp add: same_episode_def)

lemma progress_org [simp]: "progress_le (r\<lparr>ir_OrgID := o'\<rparr>) x = progress_le r x"
  by (simp add: progress_le_def)

lemma find_remove_first:
  assumes "distinct (map key xs)"
  shows "find (\<lambda>x. key x = j) (remove_first (\<lambda>x. key x = i) xs) =
    (if j = i then None else find (\<lambda>x. key x = j) xs)"
proof -
  have "find (\<lambda>x. key x = j) (filter (\<lambda>x. key x \<noteq> i) xs) = (if j = i then None else find (\<lambda>x. key x = j) xs)"
    by (induction xs) auto
  then show ?thesis using assms by (simp add: remove_first_filter)
qed

lemma find_filter_key:
  assumes "distinct (map key xs)"
  shows "find (\<lambda>x. key x = i) (filter P xs) =
    (case find (\<lambda>x. key x = i) xs of None \<Rightarrow> None | Some x \<Rightarrow> if P x then Some x else None)"
  using assms
proof (induction xs)
  case (Cons x xs)
  then have "key x = i \<Longrightarrow> find (\<lambda>x. key x = i) xs = None"
    by (auto simp: find_None_iff image_iff)
  with Cons show ?case by auto
qed simp

lemma drop_blob_fields [simp]:
  "mp_incidents (drop_blob n m) = mp_incidents m" "mp_analyses (drop_blob n m) = mp_analyses m"
  by (simp_all add: drop_blob_def)

lemma blobs_ok_upd [simp]:
  "blobs_ok (m\<lparr>mp_incidents := x\<rparr>) = blobs_ok m" "blobs_ok (m\<lparr>mp_analyses := y\<rparr>) = blobs_ok m"
  by (simp_all add: blobs_ok_def)

lemma ReadBlob_upd [simp]:
  "ReadBlob (m\<lparr>mp_incidents := x\<rparr>) n = ReadBlob m n" "ReadBlob (m\<lparr>mp_analyses := y\<rparr>) n = ReadBlob m n"
  by (simp_all add: ReadBlob_def)

lemma domains_distinct [simp]:
  "DomainIncidents \<noteq> DomainAnalyses" "DomainIncidents \<noteq> DomainBlobs" "DomainAnalyses \<noteq> DomainBlobs"
  "DomainAnalyses \<noteq> DomainIncidents" "DomainBlobs \<noteq> DomainIncidents" "DomainBlobs \<noteq> DomainAnalyses"
  by (simp_all add: DomainIncidents_def DomainAnalyses_def DomainBlobs_def)

lemma DeleteByID_domains:
  "DeleteByID DomainIncidents i m = Inr m' \<longleftrightarrow> find (\<lambda>r. ir_ID r = i) (mp_incidents m) \<noteq> None \<and>
     m' = m\<lparr>mp_incidents := remove_first (\<lambda>r. ir_ID r = i) (mp_incidents m)\<rparr>"
  "DeleteByID DomainAnalyses i m = Inr m' \<longleftrightarrow> find (\<lambda>r. an_ID r = i) (mp_analyses m) \<noteq> None \<and>
     m' = m\<lparr>mp_analyses := remove_first (\<lambda>r. an_ID r = i) (mp_analyses m)\<rparr>"
  "DeleteByID DomainBlobs i m = Inr m' \<longleftrightarrow> ReadBlob m i \<noteq> None \<and> m' = drop_blob i m"
  by (auto simp: DeleteByID_def DeleteAnalysis_def delete_blob_by_id_def ReadBlob_def)

subsection \<open>Properties\<close>

text \<open>An incident used by the examples below.\<close>

definition sample_incident :: IncidentRecord where
  "sample_incident = \<lparr>ir_ID = ''i1'', ir_OrgID = [], ir_TeamID = [], ir_Title = ''t'',
     ir_Source = ''agent:es'', ir_Service = ''api'', ir_Origin = [], ir_Resolved = False,
     ir_ChannelsEnabled = [], ir_ChannelsNotified = [''slack''], ir_OnCallTriggered = False,
     ir_OnCallError = [], ir_NotifyStatus = ''sent'', ir_NotifyError = [], ir_CreatedAt = 100,
     ir_AckedAt = None, ir_ResolvedAt = None, ir_DetectionFingerprint = ''f'',
     ir_DetectionEpisodeID = ''e1'', ir_OccurrenceCount = 7, ir_DetectionFirstSeen = Some 90,
     ir_DetectionLastSeen = Some 99, ir_HighestObservedSeverity = ''high'',
     ir_HighestNotifiedSeverity = ''high'', ir_Content = None, ir_AssignedTeamID = [],
     ir_AssignedMemberIDs = []\<rparr>"

text \<open>
  C5: Saving a record for an episode the stored incident already belongs to never loses detection
  progress: the count, the first and last sighting and both severities end at least as far as in
  the stored and in the new record, the delivery outcome already stored is kept, and no other
  incident changes.
\<close>

theorem SaveIncident_keeps_progress:
  assumes "history_ok m" and "GetIncident m (ir_ID rec) = Inr old" and "same_episode old rec"
  shows "\<exists>new. GetIncident (SaveIncident rec m) (ir_ID rec) = Inr new \<and>
      progress_le old new \<and> progress_le rec new \<and>
      ir_NotifyStatus new = ir_NotifyStatus old \<and>
      ir_ChannelsNotified new = ir_ChannelsNotified old \<and>
      content_get (ir_Content new) ''Frequency'' = Some (VInt (ir_OccurrenceCount new)) \<and>
      (\<forall>i. i \<noteq> ir_ID rec \<longrightarrow> GetIncident (SaveIncident rec m) i = GetIncident m i)"
proof -
  let ?s = "rec\<lparr>ir_OrgID := NormalizeOrgID (ir_OrgID rec)\<rparr>"
  have same: "same_episode old ?s" using assms(3) by simp
  have "GetIncident (SaveIncident rec m) (ir_ID rec) = Inr (mergeDetectionIncident old ?s)"
    using assms(1,2) by (simp add: Get_SaveIncident)
  moreover have "GetIncident (SaveIncident rec m) i = GetIncident m i" if "i \<noteq> ir_ID rec" for i
    using that assms(1) by (simp add: Get_SaveIncident)
  moreover have "ir_NotifyStatus (mergeDetectionIncident old ?s) = ir_NotifyStatus old"
    "ir_ChannelsNotified (mergeDetectionIncident old ?s) = ir_ChannelsNotified old"
    "content_get (ir_Content (mergeDetectionIncident old ?s)) ''Frequency'' =
      Some (VInt (ir_OccurrenceCount (mergeDetectionIncident old ?s)))"
    using same by (simp_all add: mergeDetectionIncident_def Let_def mergeProgress_keeps gm_simps)
  ultimately show ?thesis
    using mergeDetectionIncident_progress [OF same] by auto
qed

theorem SaveIncident_keeps_progress_witness:
  "\<exists>new. GetIncident (SaveIncident (sample_incident\<lparr>ir_OccurrenceCount := 3, ir_NotifyStatus := []\<rparr>)
       (SaveIncident sample_incident NewMemory)) ''i1'' = Inr new \<and>
     7 \<le> ir_OccurrenceCount new \<and> ir_NotifyStatus new = ''sent''"
proof -
  let ?m = "SaveIncident sample_incident NewMemory"
  let ?rec = "sample_incident\<lparr>ir_OccurrenceCount := 3, ir_NotifyStatus := []\<rparr>"
  let ?old = "sample_incident\<lparr>ir_OrgID := ''default''\<rparr>"
  have "history_ok ?m" by (intro history_ok_SaveIncident history_ok_New)
  moreover have "GetIncident ?m (ir_ID ?rec) = Inr ?old" by code_simp
  moreover have "same_episode ?old ?rec" by code_simp
  ultimately obtain new where "GetIncident (SaveIncident ?rec ?m) (ir_ID ?rec) = Inr new"
      "progress_le ?old new" "ir_NotifyStatus new = ir_NotifyStatus ?old"
    using SaveIncident_keeps_progress [of ?m ?rec ?old] by blast
  then show ?thesis by (auto simp: progress_le_def sample_incident_def)
qed

text \<open>
  C6: The detection path updates an incident without touching what an operator did to it: its
  status, acknowledgement, assignment, creation time and organisation are the stored ones, while
  the detection progress of the same episode only grows. A record without an id is refused.
\<close>

theorem SaveDetectionIncident_keeps_operator_state:
  assumes "history_ok m" and "GetIncident m (ir_ID rec) = Inr old" and "ir_ID rec \<noteq> []"
  shows "\<exists>m' new. SaveDetectionIncident (Some rec) m = Inr m' \<and> history_ok m' \<and>
      GetIncident m' (ir_ID rec) = Inr new \<and>
      ir_Resolved new = ir_Resolved old \<and> ir_AckedAt new = ir_AckedAt old \<and>
      ir_ResolvedAt new = ir_ResolvedAt old \<and> ir_CreatedAt new = ir_CreatedAt old \<and>
      ir_OrgID new = ir_OrgID old \<and> ir_AssignedTeamID new = ir_AssignedTeamID old \<and>
      ir_AssignedMemberIDs new = ir_AssignedMemberIDs old \<and>
      (same_episode old rec \<longrightarrow> progress_le old new \<and> progress_le rec new)"
proof -
  let ?s = "rec\<lparr>ir_OrgID := NormalizeOrgID (ir_OrgID rec)\<rparr>"
  obtain m' where m': "SaveDetectionIncident (Some rec) m = Inr m'"
      "GetIncident m' (ir_ID rec) = Inr (detectionIncidentUpdate (Some old) ?s)"
    using Get_SaveDetectionIncident [OF assms(1,3), of "ir_ID rec"] assms(2) by (auto simp: Let_def)
  moreover have "history_ok m'" using assms(1) m'(1) by (rule history_ok_SaveDetectionIncident)
  moreover have "same_episode old rec \<Longrightarrow> same_episode old ?s" by simp
  ultimately show ?thesis
    using detectionIncidentUpdate_progress [of old ?s] by (auto simp: detectionIncidentUpdate_keeps)
qed

theorem SaveDetectionIncident_keeps_operator_state_witness:
  "\<exists>m' new. SaveDetectionIncident (Some (sample_incident\<lparr>ir_OccurrenceCount := 9\<rparr>))
       (SaveIncident (sample_incident\<lparr>ir_Resolved := True, ir_AckedAt := Some 120\<rparr>) NewMemory) = Inr m' \<and>
     GetIncident m' ''i1'' = Inr new \<and> ir_Resolved new \<and> ir_AckedAt new = Some 120 \<and>
     9 \<le> ir_OccurrenceCount new"
proof -
  let ?saved = "sample_incident\<lparr>ir_Resolved := True, ir_AckedAt := Some 120\<rparr>"
  let ?m = "SaveIncident ?saved NewMemory"
  let ?rec = "sample_incident\<lparr>ir_OccurrenceCount := 9\<rparr>"
  let ?old = "?saved\<lparr>ir_OrgID := ''default''\<rparr>"
  have "history_ok ?m" by (intro history_ok_SaveIncident history_ok_New)
  moreover have "GetIncident ?m (ir_ID ?rec) = Inr ?old" by code_simp
  moreover have "ir_ID ?rec \<noteq> []" by code_simp
  moreover have "same_episode ?old ?rec" by code_simp
  ultimately obtain m' new where "SaveDetectionIncident (Some ?rec) ?m = Inr m'"
      "GetIncident m' (ir_ID ?rec) = Inr new" "ir_Resolved new = ir_Resolved ?old"
      "ir_AckedAt new = ir_AckedAt ?old" "progress_le ?rec new"
    using SaveDetectionIncident_keeps_operator_state [of ?m ?rec ?old] by blast
  then show ?thesis by (auto simp: progress_le_def sample_incident_def)
qed

text \<open>
  C7: The pages of the incident list tile the history: the first \<open>n\<close> pages of any positive size,
  put together, are the newest \<open>n\<close> page sizes of the records that match the origin filter, newest
  first, each once.
\<close>

theorem ListIncidentsPage_tiles:
  assumes "0 < limit"
  shows "concat (map (\<lambda>k. ListIncidentsPage m origin (int k * limit) limit) [0..<n]) =
    take (n * nat limit)
      (filter (\<lambda>r. origin = OriginAIDetect \<or> origin = OriginWebhook \<longrightarrow> EffectiveOrigin r = origin)
        (rev (mp_incidents m)))"
proof -
  let ?xs = "filter (\<lambda>r. origin \<in> {OriginAIDetect, OriginWebhook} \<longrightarrow> EffectiveOrigin r = origin)
      (rev (mp_incidents m))"
  have "nat (int k * limit) = k * nat limit" for k using assms by (simp add: nat_mult_distrib)
  then have "ListIncidentsPage m origin (int k * limit) limit = take (nat limit) (drop (k * nat limit) ?xs)" for k
    using assms by (subst ListIncidentsPage_spec) simp_all
  then have "concat (map (\<lambda>k. ListIncidentsPage m origin (int k * limit) limit) [0..<n]) =
      take (n * nat limit) ?xs"
    by (simp only: take_drop_tiles)
  then show ?thesis by (simp only: insert_iff empty_iff simp_thms)
qed

theorem ListIncidentsPage_tiles_witness:
  "map ir_ID (concat (map (\<lambda>k. ListIncidentsPage
      (SaveIncident (sample_incident\<lparr>ir_ID := ''i2''\<rparr>) (SaveIncident sample_incident NewMemory))
      [] (int k * 1) 1) [0..<2])) = [''i2'', ''i1'']"
proof -
  have "take (2 * nat 1) (filter (\<lambda>r. [] = OriginAIDetect \<or> [] = OriginWebhook \<longrightarrow> EffectiveOrigin r = [])
      (rev (mp_incidents (SaveIncident (sample_incident\<lparr>ir_ID := ''i2''\<rparr>)
        (SaveIncident sample_incident NewMemory))))) =
    [sample_incident\<lparr>ir_ID := ''i2'', ir_OrgID := ''default''\<rparr>, sample_incident\<lparr>ir_OrgID := ''default''\<rparr>]"
    by code_simp
  then show ?thesis
    using ListIncidentsPage_tiles [of 1 "SaveIncident (sample_incident\<lparr>ir_ID := ''i2''\<rparr>)
      (SaveIncident sample_incident NewMemory)" "[]" 2]
    by (simp add: sample_incident_def)
qed

text \<open>
  The badge counts and the status split agree: the unresolved count of each origin is its open
  plus its acknowledged count, every split adds up to the number of its records, and the AI and
  webhook parts add up to the total.
\<close>

theorem CountIncidents_agree:
  "let c = CountIncidents m; s = CountIncidentsByStatus m in
   co_AIDetect c = sc_Open (is_AIDetect s) + sc_Acked (is_AIDetect s) \<and>
   co_Webhook c = sc_Open (is_Webhook s) + sc_Acked (is_Webhook s) \<and>
   co_Total c = sc_Open (is_Total s) + sc_Acked (is_Total s) \<and>
   sc_Total (is_Total s) = int (length (mp_incidents m)) \<and>
   sc_Total (is_AIDetect s) + sc_Total (is_Webhook s) = sc_Total (is_Total s) \<and>
   sc_Total (is_AIDetect s) = sc_Open (is_AIDetect s) + sc_Acked (is_AIDetect s) + sc_Resolved (is_AIDetect s) \<and>
   sc_Total (is_Webhook s) = sc_Open (is_Webhook s) + sc_Acked (is_Webhook s) + sc_Resolved (is_Webhook s)"
proof -
  have open_acked: "sc_Open (tally xs) + sc_Acked (tally xs) = int (length (filter (\<lambda>r. \<not> ir_Resolved r) xs))" for xs
    by (induction xs) (auto simp: tally_def)
  have split: "sc_Total (tally (filter is_ai xs)) + sc_Total (tally (filter (\<lambda>r. \<not> is_ai r) xs)) =
      sc_Total (tally xs)" for xs
    by (induction xs) (auto simp: tally_def)
  have len: "sc_Total (tally xs) = int (length xs)" for xs by (simp add: tally_def)
  show ?thesis
    unfolding Let_def CountIncidents_spec CountIncidentsByStatus_def StatusCountsOf_tally
      IncidentCounts.simps IncidentStatusCounts.simps
    by (intro conjI tally_total split len) (simp_all add: open_acked conj_commute)
qed

text \<open>
  A successful \<open>DeleteByID\<close> removes the one row of that id from its domain and nothing else: the
  look-up of every other id gives what it gave before, the invariants hold, and deleting the id
  again reports \<open>ErrNotFound\<close>.
\<close>

theorem DeleteByID_exact:
  assumes "history_ok m" and "blobs_ok m" and "DeleteByID domain i m = Inr m'"
  shows "history_ok m' \<and> blobs_ok m' \<and> DeleteByID domain i m' = Inl ErrNotFound \<and>
    (\<forall>j. GetIncident m' j =
      (if domain = DomainIncidents \<and> j = i then Inl ErrNotFound else GetIncident m j)) \<and>
    (\<forall>j. GetAnalysis m' j =
      (if domain = DomainAnalyses \<and> j = i then Inl ErrNotFound else GetAnalysis m j)) \<and>
    (\<forall>n. ReadBlob m' n = (if domain = DomainBlobs \<and> n = i then None else ReadBlob m n))"
proof -
  have ok: "history_ok m'" using assms(1,3) by (rule history_ok_Delete)
  have d: "distinct (map ir_ID (mp_incidents m))" "distinct (map an_ID (mp_analyses m))"
    using assms(1) by (simp_all add: history_ok_def)
  consider "domain = DomainIncidents" | "domain = DomainAnalyses" | "domain = DomainBlobs"
    using assms(3) by (auto simp: DeleteByID_def split: if_splits)
  then show ?thesis
  proof cases
    case 1
    then have "m' = m\<lparr>mp_incidents := remove_first (\<lambda>r. ir_ID r = i) (mp_incidents m)\<rparr>"
      using assms(3) by (simp add: DeleteByID_domains)
    then show ?thesis
      using 1 ok assms(2) d by (simp add: DeleteByID_def GetIncident_def GetAnalysis_def find_remove_first)
  next
    case 2
    then have "m' = m\<lparr>mp_analyses := remove_first (\<lambda>r. an_ID r = i) (mp_analyses m)\<rparr>"
      using assms(3) by (simp add: DeleteByID_domains)
    then show ?thesis
      using 2 ok assms(2) d
      by (simp add: DeleteByID_def DeleteAnalysis_def GetIncident_def GetAnalysis_def find_remove_first)
  next
    case 3
    then have m': "m' = drop_blob i m" using assms(3) by (simp add: DeleteByID_domains)
    then have "gm_get (mp_blobs m') i = None" by (simp add: drop_blob_def gm_simps)
    then show ?thesis
      using 3 ok assms(2) m'
      by (simp add: DeleteByID_def delete_blob_by_id_def GetIncident_def GetAnalysis_def gm_simps blobs_ok_drop)
  qed
qed

theorem DeleteByID_exact_witness:
  "\<exists>m'. DeleteByID ''blobs'' ''b'' (WriteBlob 5 ''b'' ''x'' (WriteBlob 4 ''a'' ''y'' NewMemory)) = Inr m' \<and>
     ReadBlob m' ''b'' = None \<and> ReadBlob m' ''a'' = Some ''y'' \<and> blobs_ok m'"
proof -
  let ?m = "WriteBlob 5 ''b'' ''x'' (WriteBlob 4 ''a'' ''y'' NewMemory)"
  have ok: "blobs_ok ?m" by (intro blobs_ok_Write blobs_ok_New)
  have hist: "history_ok ?m" by (simp add: history_ok_def WriteBlob_def put_blob_def NewMemory_def)
  have m': "DeleteByID ''blobs'' ''b'' ?m = Inr (drop_blob ''b'' ?m)"
    using DeleteByID_domains(3) [of "''b''" ?m] by (simp add: DomainBlobs_def gm_simps)
  show ?thesis
    using DeleteByID_exact [OF hist ok m'] m' by (auto simp: gm_simps DomainBlobs_def)
qed

text \<open>
  A purge keeps exactly the rows that are not older than the cutoff: an incident or analysis
  older than it, or a blob last written before it, is gone, every other row reads as before, and
  purging again finds nothing.
\<close>

theorem PurgeOlderThan_exact:
  assumes "history_ok m" and "blobs_ok m" and "PurgeOlderThan domain cutoff m = Inr (n, m')"
  shows "history_ok m' \<and> blobs_ok m' \<and>
    (\<forall>j. GetIncident m' j = (case GetIncident m j of Inl e \<Rightarrow> Inl e
       | Inr r \<Rightarrow> if domain = DomainIncidents \<and> ir_CreatedAt r < cutoff then Inl ErrNotFound else Inr r)) \<and>
    (\<forall>j. GetAnalysis m' j = (case GetAnalysis m j of Inl e \<Rightarrow> Inl e
       | Inr r \<Rightarrow> if domain = DomainAnalyses \<and> an_RequestedAt r < cutoff then Inl ErrNotFound else Inr r)) \<and>
    (\<forall>name. ReadBlob m' name = (case gm_get (mp_blobAt m) name of None \<Rightarrow> None
       | Some at \<Rightarrow> if domain = DomainBlobs \<and> at < cutoff then None else ReadBlob m name))"
proof -
  have ok: "history_ok m'" using assms(1,3) by (rule history_ok_Purge)
  have d: "distinct (map ir_ID (mp_incidents m))" "distinct (map an_ID (mp_analyses m))"
    and ats: "gm_ok (mp_blobAt m)"
    using assms(1,2) by (simp_all add: history_ok_def blobs_ok_def)
  have none: "gm_get (mp_blobAt m) name = None \<longleftrightarrow> ReadBlob m name = None" for name
  proof -
    have "dom (gm_get (mp_blobAt m)) = dom (gm_get (mp_blobs m))" using assms(2) by (simp only: blobs_ok_def)
    then show ?thesis by (metis ReadBlob_def domIff)
  qed
  consider "domain = DomainIncidents" | "domain = DomainAnalyses" | "domain = DomainBlobs"
    using assms(3) by (auto simp: PurgeOlderThan_def split: if_splits)
  then show ?thesis
  proof cases
    case 1
    then show ?thesis
      using assms ok d none
      by (auto simp: PurgeOlderThan_def GetIncident_def GetAnalysis_def find_filter_key split: option.splits)
  next
    case 2
    then show ?thesis
      using assms ok d none
      by (auto simp: PurgeOlderThan_def GetIncident_def GetAnalysis_def find_filter_key split: option.splits)
  next
    case 3
    then have m': "m' = snd (purge_blobs cutoff (mp_blobAt m) m)"
      using assms(3) by (simp add: PurgeOlderThan_def)
    have "ReadBlob m' name = (case gm_get (mp_blobAt m) name of None \<Rightarrow> None
        | Some at \<Rightarrow> if at < cutoff then None else ReadBlob m name)" for name
      using none [of name] by (simp add: m' purge_blobs_spec [OF ats] split: option.split)
    then show ?thesis
      using 3 ok blobs_ok_purge [OF assms(2)] purge_blobs_history [of cutoff "mp_blobAt m" m]
      by (simp add: m' GetIncident_def GetAnalysis_def split: option.split)
  qed
qed

theorem PurgeOlderThan_exact_witness:
  "\<exists>n m'. PurgeOlderThan ''blobs'' 5 (WriteBlob 5 ''b'' ''x'' (WriteBlob 4 ''a'' ''y'' NewMemory)) = Inr (n, m') \<and>
     ReadBlob m' ''a'' = None \<and> ReadBlob m' ''b'' = Some ''x'' \<and> blobs_ok m'"
proof -
  let ?m = "WriteBlob 5 ''b'' ''x'' (WriteBlob 4 ''a'' ''y'' NewMemory)"
  have ok: "blobs_ok ?m" by (intro blobs_ok_Write blobs_ok_New)
  have hist: "history_ok ?m" by (simp add: history_ok_def WriteBlob_def put_blob_def NewMemory_def)
  obtain n m' where m': "PurgeOlderThan ''blobs'' 5 ?m = Inr (n, m')"
    by (cases "purge_blobs 5 (mp_blobAt ?m) ?m")
      (simp add: PurgeOlderThan_def DomainIncidents_def DomainAnalyses_def DomainBlobs_def)
  have "mp_blobAt ?m = [(''a'', 4), (''b'', 5)]" by code_simp
  then show ?thesis
    using PurgeOlderThan_exact [OF hist ok m'] m' by (auto simp: gm_simps DomainBlobs_def)
qed

end
