(* ===== verification/Detection_Episodes.thy ===== *)
theory Detection_Episodes
  imports History_Store
begin

text \<open>
  The durable detection episodes of the in-memory provider (\<open>pkg/storage/memory.go\<close>, with the
  types of \<open>pkg/storage/detection_episode.go\<close>): recording an occurrence, claiming, renewing and
  completing the notification of an episode, closing it with its incident, and pruning the closed
  ones.

  An episode is reached through the map of episodes, under its id; the code's pointer updates are
  writes back to that map. What the calls draw from outside is an argument: the digest of an
  identity, the time \<open>time.Now()\<close> gives and the fresh identifiers of \<open>uuid.NewString()\<close>. A call
  that fails may still have changed the state (it may have closed an episode), so a call returns
  its result beside the new state.
\<close>

subsection \<open>Operations\<close>

record fresh_ids =
  fr_EpisodeID :: string
  fr_IncidentID :: string
  fr_Owner :: string
  fr_Token :: string

definition put_episode :: "memoryDetectionEpisode \<Rightarrow> memoryProvider \<Rightarrow> memoryProvider" where
  "put_episode ep m = m\<lparr>mp_episodes := gm_set (mp_episodes m) (ep_EpisodeID ep) ep\<rparr>"

definition incidentState :: "memoryProvider \<Rightarrow> string \<Rightarrow> bool \<times> bool" where
  "incidentState m incidentID =
     (case find (\<lambda>i. ir_ID i = incidentID) (mp_incidents m) of
        None \<Rightarrow> (False, False)
      | Some i \<Rightarrow> (True, ir_Resolved i))"

definition incidentExists :: "memoryProvider \<Rightarrow> string \<Rightarrow> bool" where
  "incidentExists m incidentID = fst (incidentState m incidentID)"

definition detectionEpisodeDecision :: "memoryDetectionEpisode \<Rightarrow> DetectionEpisodeDecision" where
  "detectionEpisodeDecision ep =
     \<lparr>dd_Fingerprint = ep_Fingerprint ep, dd_EpisodeID = ep_EpisodeID ep,
      dd_IncidentID = ep_IncidentID ep, dd_OccurrenceDelta = 0,
      dd_OccurrenceCount = ep_OccurrenceCount ep, dd_FirstSeen = ep_FirstSeen ep,
      dd_LastSeen = ep_LastSeen ep, dd_HighestObservedSeverity = ep_HighestObservedSeverity ep,
      dd_HighestNotifiedSeverity = ep_HighestNotifiedSeverity ep, dd_Action = NoAction,
      dd_NotificationClaimed = False, dd_NotificationKind = NoKind, dd_ClaimToken = [],
      dd_ClaimExpiresAt = zero_time\<rparr>"

definition updateIncidentFromEpisode :: "memoryDetectionEpisode \<Rightarrow> memoryProvider \<Rightarrow> memoryProvider" where
  "updateIncidentFromEpisode ep m =
     m\<lparr>mp_incidents := update_first (\<lambda>i. ir_ID i = ep_IncidentID ep)
        (\<lambda>i. applyDetectionEpisodeDecision i (detectionEpisodeDecision ep)) (mp_incidents m)\<rparr>"

text \<open>
  The active episode of a fingerprint; an episode filed under an older fingerprint of the same
  identity moves to the new one.
\<close>

definition activeDetectionEpisode ::
  "string \<Rightarrow> DetectionIdentity \<Rightarrow> memoryProvider \<Rightarrow> memoryDetectionEpisode option \<times> memoryProvider" where
  "activeDetectionEpisode fingerprint identity m =
     (case gm_get (mp_episodes m) (gm_get0 [] (mp_activeEpisodes m) fingerprint) of
        Some episode \<Rightarrow> (Some episode, m)
      | None \<Rightarrow>
          (case find (\<lambda>(legacy, episodeID). case gm_get (mp_episodes m) episodeID of
                None \<Rightarrow> False
              | Some episode \<Rightarrow> normalizeDetectionIdentity (ep_Identity episode) = identity)
              (mp_activeEpisodes m) of
             None \<Rightarrow> (None, m)
           | Some (legacy, episodeID) \<Rightarrow>
               (case gm_get (mp_episodes m) episodeID of
                  None \<Rightarrow> (None, m)
                | Some episode \<Rightarrow>
                    let episode = episode\<lparr>ep_Identity := identity, ep_Fingerprint := fingerprint\<rparr>;
                        m = m\<lparr>mp_activeEpisodes :=
                              gm_set (gm_del (mp_activeEpisodes m) legacy) fingerprint episodeID\<rparr>
                    in (Some episode, put_episode episode m))))"

definition claimDetectionNotification ::
  "memoryDetectionEpisode \<Rightarrow> DetectionOccurrence \<Rightarrow> time \<Rightarrow> duration \<Rightarrow> DetectionNotificationKind \<Rightarrow>
   fresh_ids \<Rightarrow> DetectionEpisodeDecision \<times> memoryDetectionEpisode" where
  "claimDetectionNotification ep oc now lease kind fresh =
     (let owner = (if trim_space (oc_ClaimOwner oc) = [] then fr_Owner fresh
                   else trim_space (oc_ClaimOwner oc));
          ep = ep\<lparr>ep_PendingKind := kind,
                  ep_PendingSeverity := ep_HighestObservedSeverity ep,
                  ep_PendingToken := fr_Token fresh,
                  ep_PendingOwner := owner,
                  ep_PendingExpiresAt := now + lease\<rparr>
      in ((detectionEpisodeDecision ep)\<lparr>dd_NotificationClaimed := True,
            dd_NotificationKind := kind,
            dd_ClaimToken := ep_PendingToken ep,
            dd_ClaimExpiresAt := ep_PendingExpiresAt ep\<rparr>, ep))"

definition close_episode ::
  "string \<Rightarrow> time \<Rightarrow> memoryDetectionEpisode \<Rightarrow> memoryProvider \<Rightarrow> memoryProvider" where
  "close_episode fingerprint closed ep m =
     put_episode (ep\<lparr>ep_ClosedAt := Some closed\<rparr>)
       (m\<lparr>mp_activeEpisodes := gm_del (mp_activeEpisodes m) fingerprint\<rparr>)"

text \<open>
  The three reasons for which the active episode ends before the occurrence is recorded: its
  incident is resolved, its incident is gone although it was notified, or it has been quiet.
  The result tells the remaining active episode and whether the fingerprint counts as reopened.
\<close>

definition close_resolved ::
  "time \<Rightarrow> memoryDetectionEpisode option \<times> bool \<times> memoryProvider \<Rightarrow>
   memoryDetectionEpisode option \<times> bool \<times> memoryProvider" where
  "close_resolved now = (\<lambda>(episode, reopened, m).
     case episode of
       None \<Rightarrow> (None, reopened, m)
     | Some ep \<Rightarrow>
         if incidentState m (ep_IncidentID ep) = (True, True)
         then (None, True, close_episode (ep_Fingerprint ep) now ep m)
         else (Some ep, reopened, m))"

definition close_orphaned ::
  "time \<Rightarrow> string \<Rightarrow> memoryDetectionEpisode option \<times> bool \<times> memoryProvider \<Rightarrow>
   memoryDetectionEpisode option \<times> bool \<times> memoryProvider" where
  "close_orphaned now fingerprint = (\<lambda>(episode, reopened, m).
     case episode of
       None \<Rightarrow> (None, reopened, m)
     | Some ep \<Rightarrow>
         if ep_PendingToken ep = [] \<and> detectionNotificationDelivered (ep_LastNotificationOutcome ep) \<and>
            \<not> incidentExists m (ep_IncidentID ep)
         then (None, True, close_episode fingerprint now ep m)
         else (Some ep, reopened, m))"

definition close_quiet ::
  "time \<Rightarrow> duration \<Rightarrow> string \<Rightarrow> memoryDetectionEpisode option \<times> bool \<times> memoryProvider \<Rightarrow>
   memoryDetectionEpisode option \<times> bool \<times> memoryProvider" where
  "close_quiet now quietPeriod fingerprint = (\<lambda>(episode, reopened, m).
     case episode of
       None \<Rightarrow> (None, reopened, m)
     | Some ep \<Rightarrow>
         if ep_ClosedAt ep \<noteq> None \<or> \<not> now < ep_LastSeen ep + quietPeriod
         then (None, reopened, close_episode fingerprint now ep m)
         else (Some ep, reopened, m))"

definition open_episode ::
  "string \<Rightarrow> DetectionOccurrence \<Rightarrow> time \<Rightarrow> duration \<Rightarrow> bool \<Rightarrow> fresh_ids \<Rightarrow> memoryProvider \<Rightarrow>
   DetectionEpisodeDecision \<times> memoryProvider" where
  "open_episode fingerprint oc now lease reopened fresh m =
     (let ep = \<lparr>ep_Identity = normalizeDetectionIdentity (oc_Identity oc),
                ep_Fingerprint = fingerprint, ep_EpisodeID = fr_EpisodeID fresh,
                ep_IncidentID = fr_IncidentID fresh, ep_OccurrenceCount = oc_Frequency oc,
                ep_FirstSeen = now, ep_LastSeen = now,
                ep_HighestObservedSeverity = canonicalDetectionSeverity (oc_Severity oc),
                ep_HighestHandledSeverity = [], ep_HighestNotifiedSeverity = [],
                ep_ClosedAt = None, ep_PendingKind = NoKind, ep_PendingSeverity = [],
                ep_PendingToken = [], ep_PendingOwner = [], ep_PendingExpiresAt = zero_time,
                ep_LastCompletedToken = [], ep_LastNotificationOutcome = []\<rparr>;
          (decision, ep) = claimDetectionNotification ep oc now lease DetectionNotificationInitial fresh;
          m = put_episode ep (m\<lparr>mp_activeEpisodes :=
                 gm_set (mp_activeEpisodes m) fingerprint (ep_EpisodeID ep)\<rparr>)
      in (decision\<lparr>dd_Action := (if reopened then DetectionEpisodeReopened else DetectionEpisodeOpened),
            dd_OccurrenceDelta := oc_Frequency oc\<rparr>, m))"

text \<open>What an occurrence adds to the active episode, and the notification it calls for.\<close>

definition observe :: "DetectionOccurrence \<Rightarrow> time \<Rightarrow> memoryDetectionEpisode \<Rightarrow> memoryDetectionEpisode" where
  "observe oc now ep =
     (let severity = canonicalDetectionSeverity (oc_Severity oc) in
      ep\<lparr>ep_OccurrenceCount := ep_OccurrenceCount ep + oc_Frequency oc,
         ep_LastSeen := now,
         ep_HighestObservedSeverity :=
           (if detectionSeverityHigher severity (ep_HighestObservedSeverity ep) then severity
            else ep_HighestObservedSeverity ep)\<rparr>)"

definition choose_claim ::
  "time \<Rightarrow> memoryDetectionEpisode \<Rightarrow>
   DetectionNotificationKind \<times> DetectionEpisodeAction \<times> memoryDetectionEpisode" where
  "choose_claim now ep =
     (if ep_PendingToken ep \<noteq> [] \<and> \<not> now < ep_PendingExpiresAt ep then
        (ep_PendingKind ep,
         if ep_PendingKind ep = DetectionNotificationEscalation then DetectionEpisodeEscalated
         else DetectionEpisodeCoalesced,
         ep\<lparr>ep_PendingToken := [], ep_PendingOwner := [], ep_PendingExpiresAt := zero_time\<rparr>)
      else if ep_PendingToken ep = [] then
        if ep_HighestHandledSeverity ep = [] then
          (DetectionNotificationInitial, DetectionEpisodeCoalesced, ep)
        else if detectionSeverityHigher (ep_HighestObservedSeverity ep) (ep_HighestHandledSeverity ep) then
          (DetectionNotificationEscalation, DetectionEpisodeEscalated, ep)
        else (NoKind, DetectionEpisodeCoalesced, ep)
      else (NoKind, DetectionEpisodeCoalesced, ep))"

definition coalesce ::
  "DetectionOccurrence \<Rightarrow> time \<Rightarrow> duration \<Rightarrow> fresh_ids \<Rightarrow> memoryDetectionEpisode \<Rightarrow> memoryProvider \<Rightarrow>
   DetectionEpisodeDecision \<times> memoryProvider" where
  "coalesce oc now lease fresh ep m =
     (let ep = observe oc now ep in
      if oc_ExistingOnly oc then
        ((detectionEpisodeDecision ep)\<lparr>dd_Action := DetectionEpisodeCoalesced,
           dd_OccurrenceDelta := oc_Frequency oc\<rparr>,
         updateIncidentFromEpisode ep (put_episode ep m))
      else
        let (claimKind, action, ep) = choose_claim now ep;
            (decision, ep) = (if claimKind = NoKind then (detectionEpisodeDecision ep, ep)
              else claimDetectionNotification ep oc now lease claimKind fresh)
        in (decision\<lparr>dd_Action := action, dd_OccurrenceDelta := oc_Frequency oc\<rparr>, put_episode ep m))"

text \<open>\<open>pruneClosedDetectionEpisodesLocked\<close>: the oldest closed episodes beyond the limit go.\<close>

definition closed_limit :: "memoryProvider \<Rightarrow> int" where
  "closed_limit m = (if mp_maxClosedEpisodes m \<le> 0 then MaxClosedDetectionEpisodesDefault
     else mp_maxClosedEpisodes m)"

definition closed_episodes :: "memoryProvider \<Rightarrow> memoryDetectionEpisode list" where
  "closed_episodes m = filter (\<lambda>ep. ep_ClosedAt ep \<noteq> None) (map snd (mp_episodes m))"

definition pruneClosedDetectionEpisodes :: "memoryProvider \<Rightarrow> memoryProvider" where
  "pruneClosedDetectionEpisodes m =
     (let limit = closed_limit m;
          closed = closed_episodes m
      in if int (length closed) \<le> limit then m
         else
           let closed = sort_key (\<lambda>ep. the (ep_ClosedAt ep)) closed
           in m\<lparr>mp_episodes := fold (\<lambda>ep eps. gm_del eps (ep_EpisodeID ep))
                  (take (length closed - nat limit) closed) (mp_episodes m)\<rparr>)"

definition record_locked ::
  "string \<Rightarrow> DetectionOccurrence \<Rightarrow> time \<Rightarrow> duration \<Rightarrow> duration \<Rightarrow> fresh_ids \<Rightarrow> memoryProvider \<Rightarrow>
   (storage_error + DetectionEpisodeDecision) \<times> memoryProvider" where
  "record_locked fingerprint oc now quietPeriod lease fresh m =
     (let (episode, m) = activeDetectionEpisode fingerprint (normalizeDetectionIdentity (oc_Identity oc)) m in
      if oc_ExistingOnly oc \<and> episode = None then (Inl ErrNotFound, m)
      else
        let reopened = (episode \<noteq> None \<or> (\<exists>ep \<in> set (map snd (mp_episodes m)). ep_Fingerprint ep = fingerprint));
            (episode, reopened, m) =
              close_quiet now quietPeriod fingerprint
                (close_orphaned now fingerprint (close_resolved now (episode, reopened, m)))
        in case episode of
             None \<Rightarrow>
               if oc_ExistingOnly oc then (Inl ErrNotFound, m)
               else map_prod Inr id (open_episode fingerprint oc now lease reopened fresh m)
           | Some ep \<Rightarrow> map_prod Inr id (coalesce oc now lease fresh ep m))"

definition RecordDetectionOccurrence ::
  "(DetectionIdentity \<Rightarrow> string) \<Rightarrow> time \<Rightarrow> fresh_ids \<Rightarrow> DetectionOccurrence \<Rightarrow> memoryProvider \<Rightarrow>
   (storage_error + DetectionEpisodeDecision) \<times> memoryProvider" where
  "RecordDetectionOccurrence digest clock fresh oc m =
     (case DetectionIdentityFingerprint digest (oc_Identity oc) of
        None \<Rightarrow> (Inl ErrInvalidDetectionOccurrence, m)
      | Some fingerprint \<Rightarrow>
          if oc_Frequency oc \<le> 0 then (Inl ErrInvalidDetectionOccurrence, m)
          else
            let now = (if oc_ReceivedAt oc = zero_time then clock else oc_ReceivedAt oc);
                quietPeriod = (if oc_QuietPeriod oc \<le> 0 then DefaultDetectionEpisodeQuietPeriod
                               else oc_QuietPeriod oc);
                lease = (if oc_ClaimLease oc \<le> 0 then DefaultDetectionNotificationLease
                         else oc_ClaimLease oc)
            in map_prod id pruneClosedDetectionEpisodes
                 (record_locked fingerprint oc now quietPeriod lease fresh m))"

definition RenewDetectionNotificationClaim ::
  "time \<Rightarrow> DetectionNotificationRenewal \<Rightarrow> memoryProvider \<Rightarrow> storage_error option \<times> memoryProvider" where
  "RenewDetectionNotificationClaim clock renewal m =
     (let now = (if dr_RenewedAt renewal = zero_time then clock else dr_RenewedAt renewal);
          lease = (if dr_ClaimLease renewal \<le> 0 then DefaultDetectionNotificationLease
                   else dr_ClaimLease renewal)
      in case gm_get (mp_episodes m) (dr_EpisodeID renewal) of
           None \<Rightarrow> (Some ErrNotFound, m)
         | Some ep \<Rightarrow>
             if dr_ClaimToken renewal = [] \<or> dr_ClaimToken renewal \<noteq> ep_PendingToken ep \<or>
                \<not> now < ep_PendingExpiresAt ep
             then (Some ErrDetectionClaimLost, m)
             else (None, put_episode (ep\<lparr>ep_PendingExpiresAt := now + lease\<rparr>) m))"

definition complete_episode ::
  "DetectionNotificationCompletion \<Rightarrow> memoryDetectionEpisode \<Rightarrow> memoryDetectionEpisode" where
  "complete_episode completion ep =
     (let terminal = detectionNotificationTerminal (dc_Outcome completion);
          delivered = detectionNotificationDelivered (dc_Outcome completion)
      in ep\<lparr>ep_HighestHandledSeverity :=
              (if terminal then ep_PendingSeverity ep else ep_HighestHandledSeverity ep),
            ep_HighestNotifiedSeverity :=
              (if terminal \<and> delivered then ep_PendingSeverity ep else ep_HighestNotifiedSeverity ep),
            ep_LastCompletedToken := dc_ClaimToken completion,
            ep_LastNotificationOutcome := dc_Outcome completion,
            ep_PendingKind := NoKind, ep_PendingSeverity := [], ep_PendingToken := [],
            ep_PendingOwner := [], ep_PendingExpiresAt := zero_time\<rparr>)"

definition CompleteDetectionNotification ::
  "DetectionNotificationCompletion \<Rightarrow> memoryProvider \<Rightarrow> storage_error option \<times> memoryProvider" where
  "CompleteDetectionNotification completion m =
     (case gm_get (mp_episodes m) (dc_EpisodeID completion) of
        None \<Rightarrow> (Some ErrNotFound, m)
      | Some ep \<Rightarrow>
          if ep_LastCompletedToken ep = dc_ClaimToken completion \<and> dc_ClaimToken completion \<noteq> []
          then (None, m)
          else if dc_ClaimToken completion = [] \<or> dc_ClaimToken completion \<noteq> ep_PendingToken ep
          then (Some ErrDetectionClaimLost, m)
          else let ep = complete_episode completion ep
               in (None, updateIncidentFromEpisode ep (put_episode ep m)))"

definition CloseDetectionEpisodeByIncident ::
  "time \<Rightarrow> string \<Rightarrow> time \<Rightarrow> memoryProvider \<Rightarrow> storage_error option \<times> memoryProvider" where
  "CloseDetectionEpisodeByIncident clock incidentID closedAt m =
     map_prod id pruneClosedDetectionEpisodes
       (case find (\<lambda>ep. \<not> (ep_IncidentID ep \<noteq> incidentID \<or> ep_ClosedAt ep \<noteq> None))
               (map snd (mp_episodes m)) of
          None \<Rightarrow> (Some ErrNotFound, m)
        | Some ep \<Rightarrow>
            (None, close_episode (ep_Fingerprint ep)
               (if closedAt = zero_time then clock else closedAt) ep m))"

subsection \<open>The invariant\<close>

text \<open>
  \<open>ep_sev\<close>: the severities of an episode are ordered, notified below handled below observed.
  \<open>ep_inv\<close>: moreover a pending claim carries a token and a severity, and an escalation claims more than was handled.
  \<open>episodes_ok\<close>: every open episode is the active one of its fingerprint, and conversely.
\<close>

definition ep_sev :: "memoryDetectionEpisode \<Rightarrow> bool" where
  "ep_sev ep \<longleftrightarrow>
     NormalizeSeverity (ep_HighestObservedSeverity ep) = ep_HighestObservedSeverity ep \<and>
     0 < ep_OccurrenceCount ep \<and>
     SeverityRank (ep_HighestNotifiedSeverity ep) \<le> SeverityRank (ep_HighestHandledSeverity ep) \<and>
     SeverityRank (ep_HighestHandledSeverity ep) \<le> SeverityRank (ep_HighestObservedSeverity ep) \<and>
     (ep_HighestHandledSeverity ep = [] \<or> 0 < SeverityRank (ep_HighestHandledSeverity ep))"

definition ep_inv :: "memoryDetectionEpisode \<Rightarrow> bool" where
  "ep_inv ep \<longleftrightarrow> ep_sev ep \<and>
     (ep_PendingToken ep = [] \<longleftrightarrow> ep_PendingKind ep = NoKind) \<and>
     (ep_PendingToken ep \<noteq> [] \<longrightarrow>
        SeverityRank (ep_HighestHandledSeverity ep) < SeverityRank (ep_PendingSeverity ep) \<and>
        SeverityRank (ep_PendingSeverity ep) \<le> SeverityRank (ep_HighestObservedSeverity ep) \<and>
        (ep_PendingKind ep = DetectionNotificationInitial \<longleftrightarrow> ep_HighestHandledSeverity ep = []))"

definition ep_at :: "memoryProvider \<Rightarrow> string \<Rightarrow> memoryDetectionEpisode option" where
  "ep_at m i = gm_get (mp_episodes m) i"

definition act_at :: "memoryProvider \<Rightarrow> string \<Rightarrow> string option" where
  "act_at m f = gm_get (mp_activeEpisodes m) f"

definition episodes_ok :: "memoryProvider \<Rightarrow> bool" where
  "episodes_ok m \<longleftrightarrow>
     gm_ok (mp_episodes m) \<and> gm_ok (mp_activeEpisodes m) \<and>
     (\<forall>i ep. ep_at m i = Some ep \<longrightarrow> ep_EpisodeID ep = i \<and> i \<noteq> [] \<and> ep_inv ep \<and>
        (ep_ClosedAt ep = None \<longrightarrow> act_at m (ep_Fingerprint ep) = Some i)) \<and>
     (\<forall>f i. act_at m f = Some i \<longrightarrow>
        (\<exists>ep. ep_at m i = Some ep \<and> ep_ClosedAt ep = None \<and> ep_Fingerprint ep = f))"

lemma episodes_okI:
  assumes "gm_ok (mp_episodes m)" "gm_ok (mp_activeEpisodes m)"
    and "\<And>i ep. ep_at m i = Some ep \<Longrightarrow> ep_EpisodeID ep = i \<and> i \<noteq> [] \<and> ep_inv ep \<and>
        (ep_ClosedAt ep = None \<longrightarrow> act_at m (ep_Fingerprint ep) = Some i)"
    and "\<And>f i. act_at m f = Some i \<Longrightarrow>
        \<exists>ep. ep_at m i = Some ep \<and> ep_ClosedAt ep = None \<and> ep_Fingerprint ep = f"
  shows "episodes_ok m"
  unfolding episodes_ok_def using assms by blast

lemma episodes_okD:
  assumes "episodes_ok m"
  shows "gm_ok (mp_episodes m)" "gm_ok (mp_activeEpisodes m)"
    and "ep_at m i = Some ep \<Longrightarrow> ep_EpisodeID ep = i"
    and "ep_at m i = Some ep \<Longrightarrow> i \<noteq> []"
    and "ep_at m i = Some ep \<Longrightarrow> ep_inv ep"
    and "ep_at m i = Some ep \<Longrightarrow> ep_ClosedAt ep = None \<Longrightarrow> act_at m (ep_Fingerprint ep) = Some i"
    and "act_at m f = Some i \<Longrightarrow>
        \<exists>ep. ep_at m i = Some ep \<and> ep_ClosedAt ep = None \<and> ep_Fingerprint ep = f"
  using assms unfolding episodes_ok_def by blast+

lemma ep_at_put [gm_simps]:
  "ep_at (put_episode ep m) i = (if i = ep_EpisodeID ep then Some ep else ep_at m i)"
  "act_at (put_episode ep m) f = act_at m f"
  by (simp_all add: ep_at_def act_at_def put_episode_def gm_simps)

lemma ep_at_active [gm_simps]:
  "ep_at (m\<lparr>mp_activeEpisodes := a\<rparr>) i = ep_at m i"
  "act_at (m\<lparr>mp_activeEpisodes := gm_set (mp_activeEpisodes m) f j\<rparr>) f' = (if f' = f then Some j else act_at m f')"
  "act_at (m\<lparr>mp_activeEpisodes := gm_del (mp_activeEpisodes m) f\<rparr>) f' = (if f' = f then None else act_at m f')"
  "act_at (m\<lparr>mp_activeEpisodes := gm_set (gm_del (mp_activeEpisodes m) g) f j\<rparr>) f' =
     (if f' = f then Some j else if f' = g then None else act_at m f')"
  by (simp_all add: ep_at_def act_at_def gm_simps)

lemma ep_at_incidents [simp]:
  "ep_at (updateIncidentFromEpisode ep m) i = ep_at m i"
  "act_at (updateIncidentFromEpisode ep m) f = act_at m f"
  "mp_episodes (updateIncidentFromEpisode ep m) = mp_episodes m"
  "mp_activeEpisodes (updateIncidentFromEpisode ep m) = mp_activeEpisodes m"
  by (simp_all add: ep_at_def act_at_def updateIncidentFromEpisode_def)

lemma maps_ok_put [simp]:
  "gm_ok (mp_episodes m) \<Longrightarrow> gm_ok (mp_episodes (put_episode ep m))"
  "mp_activeEpisodes (put_episode ep m) = mp_activeEpisodes m"
  "mp_incidents (put_episode ep m) = mp_incidents m"
  "mp_maxClosedEpisodes (put_episode ep m) = mp_maxClosedEpisodes m"
  by (simp_all add: put_episode_def)

lemma episodes_ok_New: "episodes_ok NewMemory"
  by (simp add: episodes_ok_def NewMemory_def ep_at_def act_at_def)

lemma episodes_ok_incidents [simp]: "episodes_ok (updateIncidentFromEpisode ep m) = episodes_ok m"
  by (simp add: episodes_ok_def)

text \<open>Writing an open episode back, closing it, opening a fresh one.\<close>

lemma episodes_ok_put:
  assumes ok: "episodes_ok m" and at: "ep_at m (ep_EpisodeID ep) = Some ep0"
    and "ep_Fingerprint ep = ep_Fingerprint ep0" "ep_ClosedAt ep = ep_ClosedAt ep0" "ep_inv ep"
  shows "episodes_ok (put_episode ep m)"
proof (rule episodes_okI)
  fix i ep' assume i: "ep_at (put_episode ep m) i = Some ep'"
  show "ep_EpisodeID ep' = i \<and> i \<noteq> [] \<and> ep_inv ep' \<and>
        (ep_ClosedAt ep' = None \<longrightarrow> act_at (put_episode ep m) (ep_Fingerprint ep') = Some i)"
    using i assms episodes_okD [OF ok] by (auto simp: gm_simps split: if_splits)
next
  fix f i assume "act_at (put_episode ep m) f = Some i"
  then have "act_at m f = Some i" by (simp add: gm_simps)
  from episodes_okD(7) [OF ok this] obtain ep' where "ep_at m i = Some ep'" "ep_ClosedAt ep' = None"
      "ep_Fingerprint ep' = f" by blast
  then show "\<exists>ep'. ep_at (put_episode ep m) i = Some ep' \<and> ep_ClosedAt ep' = None \<and> ep_Fingerprint ep' = f"
    using assms by (auto simp: gm_simps)
qed (use episodes_okD [OF ok] in simp_all)

lemma ep_inv_closed [simp]: "ep_inv (ep\<lparr>ep_ClosedAt := c\<rparr>) = ep_inv ep"
  by (simp add: ep_inv_def ep_sev_def)

lemma ep_at_close [gm_simps]:
  "ep_at (close_episode f c ep m) i =
     (if i = ep_EpisodeID ep then Some (ep\<lparr>ep_ClosedAt := Some c\<rparr>) else ep_at m i)"
  "act_at (close_episode f c ep m) f' = (if f' = f then None else act_at m f')"
  by (simp_all add: close_episode_def gm_simps)

lemma episodes_ok_close:
  assumes ok: "episodes_ok m" and at: "ep_at m (ep_EpisodeID ep) = Some ep" and op: "ep_ClosedAt ep = None"
    and f: "f = ep_Fingerprint ep"
  shows "episodes_ok (close_episode f c ep m)"
proof (rule episodes_okI)
  fix i ep' assume i: "ep_at (close_episode f c ep m) i = Some ep'"
  show "ep_EpisodeID ep' = i \<and> i \<noteq> [] \<and> ep_inv ep' \<and>
        (ep_ClosedAt ep' = None \<longrightarrow> act_at (close_episode f c ep m) (ep_Fingerprint ep') = Some i)"
  proof (cases "i = ep_EpisodeID ep")
    case True
    then show ?thesis using i episodes_okD(3-6) [OF ok at] by (auto simp: gm_simps)
  next
    case False
    then have i': "ep_at m i = Some ep'" using i by (simp add: gm_simps)
    moreover have "ep_Fingerprint ep' \<noteq> f" if "ep_ClosedAt ep' = None"
      using False episodes_okD(6) [OF ok i' that] episodes_okD(6) [OF ok at op] f by auto
    ultimately show ?thesis using episodes_okD(3-6) [OF ok i'] by (simp add: gm_simps)
  qed
next
  fix f' i assume "act_at (close_episode f c ep m) f' = Some i"
  then have f': "f' \<noteq> f" "act_at m f' = Some i" by (simp_all add: gm_simps split: if_splits)
  from episodes_okD(7) [OF ok f'(2)] obtain ep' where "ep_at m i = Some ep'" "ep_ClosedAt ep' = None"
      "ep_Fingerprint ep' = f'" by blast
  then show "\<exists>ep'. ep_at (close_episode f c ep m) i = Some ep' \<and> ep_ClosedAt ep' = None \<and> ep_Fingerprint ep' = f'"
    using f'(1) at f by (auto simp: gm_simps)
qed (use episodes_okD [OF ok] in \<open>simp_all add: close_episode_def\<close>)

lemma episodes_ok_open:
  assumes ok: "episodes_ok m" and fresh: "ep_at m (ep_EpisodeID ep) = None" "ep_EpisodeID ep \<noteq> []"
    and none: "act_at m (ep_Fingerprint ep) = None"
    and ep: "ep_inv ep" "ep_ClosedAt ep = None"
  shows "episodes_ok (put_episode ep
    (m\<lparr>mp_activeEpisodes := gm_set (mp_activeEpisodes m) (ep_Fingerprint ep) (ep_EpisodeID ep)\<rparr>))"
    (is "episodes_ok ?m")
proof (rule episodes_okI)
  fix i ep' assume i: "ep_at ?m i = Some ep'"
  show "ep_EpisodeID ep' = i \<and> i \<noteq> [] \<and> ep_inv ep' \<and>
        (ep_ClosedAt ep' = None \<longrightarrow> act_at ?m (ep_Fingerprint ep') = Some i)"
  proof (cases "i = ep_EpisodeID ep")
    case False
    then have "ep_at m i = Some ep'" using i by (simp add: gm_simps)
    then show ?thesis using episodes_okD(3-6) [OF ok, of i ep'] none by (auto simp: gm_simps)
  qed (use i fresh ep in \<open>simp add: gm_simps\<close>)
next
  fix f i assume act: "act_at ?m f = Some i"
  show "\<exists>ep'. ep_at ?m i = Some ep' \<and> ep_ClosedAt ep' = None \<and> ep_Fingerprint ep' = f"
  proof (cases "f = ep_Fingerprint ep")
    case False
    then have "act_at m f = Some i" using act by (simp add: gm_simps)
    from episodes_okD(7) [OF ok this] obtain ep' where ep': "ep_at m i = Some ep'"
        "ep_ClosedAt ep' = None" "ep_Fingerprint ep' = f" by blast
    then have "i \<noteq> ep_EpisodeID ep" using fresh by auto
    then show ?thesis using ep' by (simp add: gm_simps)
  qed (use act ep in \<open>auto simp: gm_simps\<close>)
qed (use episodes_okD [OF ok] in simp_all)

text \<open>Refiling an open episode under another fingerprint that has no active episode.\<close>

lemma episodes_ok_refile:
  assumes ok: "episodes_ok m" and act: "act_at m g = Some i" and none: "act_at m f = None"
    and at: "ep_at m i = Some ep0"
    and ep: "ep_EpisodeID ep = i" "ep_inv ep" "ep_ClosedAt ep = None" "ep_Fingerprint ep = f"
  shows "episodes_ok (put_episode ep
    (m\<lparr>mp_activeEpisodes := gm_set (gm_del (mp_activeEpisodes m) g) f i\<rparr>))" (is "episodes_ok ?m")
proof (rule episodes_okI)
  have fg: "f \<noteq> g" using act none by auto
  fix j ep' assume j: "ep_at ?m j = Some ep'"
  show "ep_EpisodeID ep' = j \<and> j \<noteq> [] \<and> ep_inv ep' \<and>
        (ep_ClosedAt ep' = None \<longrightarrow> act_at ?m (ep_Fingerprint ep') = Some j)"
  proof (cases "j = i")
    case False
    then have at': "ep_at m j = Some ep'" using j ep(1) by (simp add: gm_simps)
    have "ep_Fingerprint ep' \<noteq> f \<and> ep_Fingerprint ep' \<noteq> g" if "ep_ClosedAt ep' = None"
      using False episodes_okD(6) [OF ok at' that] act none by auto
    then show ?thesis using episodes_okD(3-6) [OF ok at'] by (simp add: gm_simps)
  qed (use j ep episodes_okD(4) [OF ok at] in \<open>simp add: gm_simps\<close>)
next
  fix f' j assume act': "act_at ?m f' = Some j"
  show "\<exists>ep'. ep_at ?m j = Some ep' \<and> ep_ClosedAt ep' = None \<and> ep_Fingerprint ep' = f'"
  proof (cases "f' = f")
    case False
    then have f': "f' \<noteq> g" "act_at m f' = Some j" using act' by (simp_all add: gm_simps split: if_splits)
    from episodes_okD(7) [OF ok f'(2)] obtain ep' where ep': "ep_at m j = Some ep'"
        "ep_ClosedAt ep' = None" "ep_Fingerprint ep' = f'" by blast
    have "j \<noteq> i" using ep' f'(1) episodes_okD(7) [OF ok act] by auto
    then show ?thesis using ep' ep by (auto simp: gm_simps)
  qed (use act' ep in \<open>auto simp: gm_simps\<close>)
qed (use episodes_okD [OF ok] in simp_all)

subsection \<open>Pruning\<close>

definition prune_victims :: "memoryProvider \<Rightarrow> string list" where
  "prune_victims m =
     (let closed = sort_key (\<lambda>ep. the (ep_ClosedAt ep)) (closed_episodes m)
      in map ep_EpisodeID (take (length closed - nat (closed_limit m)) closed))"

lemma closed_limit_pos: "0 < closed_limit m"
  by (simp add: closed_limit_def MaxClosedDetectionEpisodesDefault_def)

lemma fold_gm_del: "fold (\<lambda>ep eps. gm_del eps (key ep)) xs eps = filter (\<lambda>e. fst e \<notin> set (map key xs)) eps"
  by (induction xs arbitrary: eps) (auto simp: AList.delete_eq intro!: filter_cong)

lemma prune_episodes:
  "mp_episodes (pruneClosedDetectionEpisodes m) = filter (\<lambda>e. fst e \<notin> set (prune_victims m)) (mp_episodes m)"
proof (cases "int (length (closed_episodes m)) \<le> closed_limit m")
  case True
  then have "prune_victims m = []"
    using closed_limit_pos [of m] by (simp add: prune_victims_def Let_def)
  then show ?thesis using True by (simp add: pruneClosedDetectionEpisodes_def Let_def)
next
  case False
  then show ?thesis
    by (simp add: pruneClosedDetectionEpisodes_def Let_def prune_victims_def fold_gm_del)
qed

lemma prune_other [simp]:
  "mp_activeEpisodes (pruneClosedDetectionEpisodes m) = mp_activeEpisodes m"
  "mp_incidents (pruneClosedDetectionEpisodes m) = mp_incidents m"
  "mp_maxClosedEpisodes (pruneClosedDetectionEpisodes m) = mp_maxClosedEpisodes m"
  "act_at (pruneClosedDetectionEpisodes m) f = act_at m f"
  by (simp_all add: pruneClosedDetectionEpisodes_def Let_def act_at_def)

lemma map_of_filter_fst: "map_of (filter (\<lambda>e. fst e \<notin> V) xs) i = (if i \<in> V then None else map_of xs i)"
  by (induction xs) auto

lemma ep_at_prune [gm_simps]:
  "ep_at (pruneClosedDetectionEpisodes m) i = (if i \<in> set (prune_victims m) then None else ep_at m i)"
  by (simp add: ep_at_def prune_episodes map_of_filter_fst)

lemma in_episodes:
  assumes ok: "episodes_ok m"
  shows "ep \<in> set (map snd (mp_episodes m)) \<longleftrightarrow> ep_at m (ep_EpisodeID ep) = Some ep"
proof
  assume "ep \<in> set (map snd (mp_episodes m))"
  then obtain i where "(i, ep) \<in> set (mp_episodes m)" by auto
  then have "ep_at m i = Some ep" using episodes_okD(1) [OF ok] by (simp add: ep_at_def)
  then show "ep_at m (ep_EpisodeID ep) = Some ep" using episodes_okD(3) [OF ok] by simp
next
  assume "ep_at m (ep_EpisodeID ep) = Some ep"
  then have "(ep_EpisodeID ep, ep) \<in> set (mp_episodes m)" unfolding ep_at_def by (rule map_of_SomeD)
  then show "ep \<in> set (map snd (mp_episodes m))" by force
qed

lemma prune_victims_closed:
  assumes "episodes_ok m" "i \<in> set (prune_victims m)"
  shows "\<exists>ep. ep_at m i = Some ep \<and> ep_ClosedAt ep \<noteq> None"
proof -
  obtain ep where ep: "ep \<in> set (closed_episodes m)" "ep_EpisodeID ep = i"
    using assms(2) set_take_subset by (fastforce simp: prune_victims_def Let_def)
  then have "ep \<in> set (map snd (mp_episodes m))" "ep_ClosedAt ep \<noteq> None" by (auto simp: closed_episodes_def)
  then show ?thesis using in_episodes [OF assms(1), of ep] ep(2) by blast
qed

lemma episodes_ok_prune:
  assumes ok: "episodes_ok m"
  shows "episodes_ok (pruneClosedDetectionEpisodes m)"
proof (rule episodes_okI)
  show "gm_ok (mp_episodes (pruneClosedDetectionEpisodes m))"
    using episodes_okD(1) [OF ok] by (simp add: prune_episodes distinct_map_filter)
  fix i ep assume "ep_at (pruneClosedDetectionEpisodes m) i = Some ep"
  then have "ep_at m i = Some ep" by (simp add: gm_simps split: if_splits)
  then show "ep_EpisodeID ep = i \<and> i \<noteq> [] \<and> ep_inv ep \<and>
        (ep_ClosedAt ep = None \<longrightarrow> act_at (pruneClosedDetectionEpisodes m) (ep_Fingerprint ep) = Some i)"
    using episodes_okD(3-6) [OF ok] by simp
next
  fix f i assume "act_at (pruneClosedDetectionEpisodes m) f = Some i"
  then obtain ep where ep: "ep_at m i = Some ep" "ep_ClosedAt ep = None" "ep_Fingerprint ep = f"
    using episodes_okD(7) [OF ok] by auto
  then have "i \<notin> set (prune_victims m)" using prune_victims_closed [OF ok, of i] by auto
  then show "\<exists>ep. ep_at (pruneClosedDetectionEpisodes m) i = Some ep \<and> ep_ClosedAt ep = None \<and> ep_Fingerprint ep = f"
    using ep by (auto simp: gm_simps)
qed (use episodes_okD [OF ok] in simp_all)

lemma closed_ids_distinct:
  assumes ok: "episodes_ok m"
  shows "distinct (map ep_EpisodeID (closed_episodes m))"
proof -
  have "map ep_EpisodeID (map snd (mp_episodes m)) = map fst (mp_episodes m)"
    using episodes_okD(1,3) [OF ok] by (auto simp: ep_at_def)
  then have "distinct (map ep_EpisodeID (map snd (mp_episodes m)))" using episodes_okD(1) [OF ok] by metis
  then show ?thesis unfolding closed_episodes_def by (rule distinct_map_filter)
qed

lemma filter_not_taken:
  assumes "distinct (map key xs)"
  shows "filter (\<lambda>x. key x \<notin> set (map key (take n xs))) xs = drop n xs"
proof -
  have "distinct (map key (take n xs) @ map key (drop n xs))"
    using assms by (simp only: append_take_drop_id map_append [symmetric])
  then have d: "key x \<notin> set (map key (take n xs))" if "x \<in> set (drop n xs)" for x
    using that by (auto simp only: distinct_append set_map)
  have "filter (\<lambda>x. key x \<notin> set (map key (take n xs))) (take n xs @ drop n xs) = drop n xs"
    unfolding filter_append using d by (simp add: filter_empty_conv)
  then show ?thesis by simp
qed

text \<open>What is left of the closed episodes: the most recently closed ones, up to the limit.\<close>

lemma closed_after_prune:
  assumes ok: "episodes_ok m"
  shows "mset (closed_episodes (pruneClosedDetectionEpisodes m)) =
    mset (drop (length (closed_episodes m) - nat (closed_limit m))
      (sort_key (\<lambda>ep. the (ep_ClosedAt ep)) (closed_episodes m)))"
proof -
  let ?V = "set (prune_victims m)"
  let ?s = "sort_key (\<lambda>ep. the (ep_ClosedAt ep)) (closed_episodes m)"
  let ?n = "length (closed_episodes m) - nat (closed_limit m)"
  have key: "snd e \<in> set (map snd (mp_episodes m)) \<Longrightarrow> e \<in> set (mp_episodes m) \<Longrightarrow> ep_EpisodeID (snd e) = fst e" for e
    using episodes_okD(1,3) [OF ok] by (cases e) (auto simp: ep_at_def)
  have "closed_episodes (pruneClosedDetectionEpisodes m) =
      filter (\<lambda>ep. ep_ClosedAt ep \<noteq> None) (map snd (filter (\<lambda>e. fst e \<notin> ?V) (mp_episodes m)))"
    by (simp add: closed_episodes_def prune_episodes)
  also have "map snd (filter (\<lambda>e. fst e \<notin> ?V) (mp_episodes m)) =
      filter (\<lambda>ep. ep_EpisodeID ep \<notin> ?V) (map snd (mp_episodes m))"
    using key by (auto simp: filter_map comp_def intro!: arg_cong [where f="map snd"] filter_cong)
  finally have "closed_episodes (pruneClosedDetectionEpisodes m) =
      filter (\<lambda>ep. ep_EpisodeID ep \<notin> ?V) (closed_episodes m)"
    by (simp add: closed_episodes_def conj_commute)
  then have "mset (closed_episodes (pruneClosedDetectionEpisodes m)) =
      mset (filter (\<lambda>ep. ep_EpisodeID ep \<notin> ?V) ?s)"
    by (simp only: mset_filter mset_sort)
  also have "filter (\<lambda>ep. ep_EpisodeID ep \<notin> ?V) ?s = drop ?n ?s"
  proof -
    have "distinct (map ep_EpisodeID ?s)"
      using closed_ids_distinct [OF ok] by (metis distinct_map distinct_sort mset_sort set_mset_mset)
    moreover have "prune_victims m = map ep_EpisodeID (take ?n ?s)"
      by (simp add: prune_victims_def Let_def)
    ultimately show ?thesis using filter_not_taken by simp
  qed
  finally show ?thesis .
qed

lemma closed_count_prune:
  assumes "episodes_ok m"
  shows "int (length (closed_episodes (pruneClosedDetectionEpisodes m))) \<le> closed_limit m"
proof -
  have "size (mset (closed_episodes (pruneClosedDetectionEpisodes m))) =
      length (closed_episodes m) - (length (closed_episodes m) - nat (closed_limit m))"
    unfolding closed_after_prune [OF assms] by simp
  then show ?thesis using closed_limit_pos [of m] by simp
qed

subsection \<open>The operations keep the invariant\<close>

lemma claim_simps [simp]:
  "ep_EpisodeID (snd (claimDetectionNotification ep oc now lease kind fr)) = ep_EpisodeID ep"
  "ep_Fingerprint (snd (claimDetectionNotification ep oc now lease kind fr)) = ep_Fingerprint ep"
  "ep_ClosedAt (snd (claimDetectionNotification ep oc now lease kind fr)) = ep_ClosedAt ep"
  "ep_PendingToken (snd (claimDetectionNotification ep oc now lease kind fr)) = fr_Token fr"
  "ep_PendingKind (snd (claimDetectionNotification ep oc now lease kind fr)) = kind"
  "ep_PendingSeverity (snd (claimDetectionNotification ep oc now lease kind fr)) = ep_HighestObservedSeverity ep"
  "ep_PendingExpiresAt (snd (claimDetectionNotification ep oc now lease kind fr)) = now + lease"
  "ep_HighestHandledSeverity (snd (claimDetectionNotification ep oc now lease kind fr)) = ep_HighestHandledSeverity ep"
  "ep_HighestObservedSeverity (snd (claimDetectionNotification ep oc now lease kind fr)) = ep_HighestObservedSeverity ep"
  "ep_sev (snd (claimDetectionNotification ep oc now lease kind fr)) = ep_sev ep"
  "dd_NotificationClaimed (fst (claimDetectionNotification ep oc now lease kind fr))"
  "dd_EpisodeID (fst (claimDetectionNotification ep oc now lease kind fr)) = ep_EpisodeID ep"
  "dd_ClaimToken (fst (claimDetectionNotification ep oc now lease kind fr)) = fr_Token fr"
  "dd_ClaimExpiresAt (fst (claimDetectionNotification ep oc now lease kind fr)) = now + lease"
  "dd_NotificationKind (fst (claimDetectionNotification ep oc now lease kind fr)) = kind"
  "dd_OccurrenceCount (fst (claimDetectionNotification ep oc now lease kind fr)) = ep_OccurrenceCount ep"
  by (simp_all add: claimDetectionNotification_def Let_def ep_sev_def detectionEpisodeDecision_def)

lemma ep_inv_claim:
  assumes "ep_sev ep" "kind \<noteq> NoKind" "fr_Token fr \<noteq> []"
    and "SeverityRank (ep_HighestHandledSeverity ep) < SeverityRank (ep_HighestObservedSeverity ep)"
    and "kind = DetectionNotificationInitial \<longleftrightarrow> ep_HighestHandledSeverity ep = []"
  shows "ep_inv (snd (claimDetectionNotification ep oc now lease kind fr))"
  using assms by (simp add: ep_inv_def)

lemma observe_simps [simp]:
  "ep_EpisodeID (observe oc now ep) = ep_EpisodeID ep"
  "ep_IncidentID (observe oc now ep) = ep_IncidentID ep"
  "ep_Fingerprint (observe oc now ep) = ep_Fingerprint ep"
  "ep_ClosedAt (observe oc now ep) = ep_ClosedAt ep"
  "ep_PendingToken (observe oc now ep) = ep_PendingToken ep"
  "ep_PendingKind (observe oc now ep) = ep_PendingKind ep"
  "ep_PendingExpiresAt (observe oc now ep) = ep_PendingExpiresAt ep"
  "ep_PendingSeverity (observe oc now ep) = ep_PendingSeverity ep"
  "ep_HighestHandledSeverity (observe oc now ep) = ep_HighestHandledSeverity ep"
  "ep_HighestNotifiedSeverity (observe oc now ep) = ep_HighestNotifiedSeverity ep"
  "ep_OccurrenceCount (observe oc now ep) = ep_OccurrenceCount ep + oc_Frequency oc"
  "ep_LastCompletedToken (observe oc now ep) = ep_LastCompletedToken ep"
  by (simp_all add: observe_def Let_def)

lemma observe_rank:
  "ep_sev ep \<Longrightarrow> SeverityRank (ep_HighestObservedSeverity (observe oc now ep)) =
     max (SeverityRank (ep_HighestObservedSeverity ep)) (SeverityRank (canonicalDetectionSeverity (oc_Severity oc)))"
  by (simp add: observe_def Let_def detectionSeverityHigher_def max_def)

lemma ep_sev_observe: "ep_sev ep \<Longrightarrow> 0 < oc_Frequency oc \<Longrightarrow> ep_sev (observe oc now ep)"
  by (auto simp: ep_sev_def observe_def Let_def canonicalDetectionSeverity_def detectionSeverityHigher_def)

lemma ep_inv_observe:
  assumes "ep_inv ep" "0 < oc_Frequency oc"
  shows "ep_inv (observe oc now ep)"
  using assms ep_sev_observe [of ep oc now] observe_rank [of ep oc now] by (auto simp: ep_inv_def)

lemma ep_sev_pos: "ep_sev ep \<Longrightarrow> 0 < SeverityRank (ep_HighestObservedSeverity ep)"
  by (metis SeverityRank_Normalize_pos ep_sev_def)

text \<open>A claim is chosen only where more was observed than handled.\<close>

lemma choose_claim_simps [simp]:
  "ep_EpisodeID (snd (snd (choose_claim now ep))) = ep_EpisodeID ep"
  "ep_Fingerprint (snd (snd (choose_claim now ep))) = ep_Fingerprint ep"
  "ep_ClosedAt (snd (snd (choose_claim now ep))) = ep_ClosedAt ep"
  "ep_HighestHandledSeverity (snd (snd (choose_claim now ep))) = ep_HighestHandledSeverity ep"
  "ep_HighestObservedSeverity (snd (snd (choose_claim now ep))) = ep_HighestObservedSeverity ep"
  "ep_OccurrenceCount (snd (snd (choose_claim now ep))) = ep_OccurrenceCount ep"
  "ep_sev (snd (snd (choose_claim now ep))) = ep_sev ep"
  by (simp_all add: choose_claim_def ep_sev_def)

lemma choose_claim_higher:
  assumes "ep_inv ep" "fst (choose_claim now ep) \<noteq> NoKind"
  shows "SeverityRank (ep_HighestHandledSeverity ep) < SeverityRank (ep_HighestObservedSeverity ep)"
    and "fst (choose_claim now ep) = DetectionNotificationInitial \<longleftrightarrow> ep_HighestHandledSeverity ep = []"
    and "ep_PendingToken ep = [] \<or> \<not> now < ep_PendingExpiresAt ep"
  using assms ep_sev_pos [of ep]
  by (auto simp: choose_claim_def ep_inv_def detectionSeverityHigher_def split: if_splits)

lemma choose_claim_none:
  assumes "ep_inv ep" "fst (choose_claim now ep) = NoKind"
  shows "snd (snd (choose_claim now ep)) = ep"
proof (cases "ep_PendingToken ep \<noteq> [] \<and> \<not> now < ep_PendingExpiresAt ep")
  case True
  then have "fst (choose_claim now ep) = ep_PendingKind ep" by (simp add: choose_claim_def)
  then show ?thesis using True assms by (simp add: ep_inv_def)
next
  case False
  then show ?thesis by (auto simp: choose_claim_def)
qed

definition claimed_episode ::
  "DetectionOccurrence \<Rightarrow> time \<Rightarrow> duration \<Rightarrow> fresh_ids \<Rightarrow> memoryDetectionEpisode \<Rightarrow> memoryDetectionEpisode" where
  "claimed_episode oc now lease fr ep =
     (let (kind, action, ep') = choose_claim now ep
      in if kind = NoKind then ep' else snd (claimDetectionNotification ep' oc now lease kind fr))"

lemma claimed_episode_simps [simp]:
  "ep_EpisodeID (claimed_episode oc now lease fr ep) = ep_EpisodeID ep"
  "ep_Fingerprint (claimed_episode oc now lease fr ep) = ep_Fingerprint ep"
  "ep_ClosedAt (claimed_episode oc now lease fr ep) = ep_ClosedAt ep"
  by (simp_all add: claimed_episode_def Let_def split_beta)

lemma ep_inv_claimed:
  assumes "ep_inv ep" "fr_Token fr \<noteq> []"
  shows "ep_inv (claimed_episode oc now lease fr ep)"
proof -
  obtain kind action ep' where c: "choose_claim now ep = (kind, action, ep')" by (cases "choose_claim now ep")
  show ?thesis
  proof (cases "kind = NoKind")
    case True
    then show ?thesis using choose_claim_none [of ep now] assms c by (simp add: claimed_episode_def)
  next
    case False
    have "ep_sev ep'" "ep_HighestHandledSeverity ep' = ep_HighestHandledSeverity ep"
      "ep_HighestObservedSeverity ep' = ep_HighestObservedSeverity ep"
      using choose_claim_simps [of now ep] assms(1) by (simp_all add: c ep_inv_def)
    then have "ep_inv (snd (claimDetectionNotification ep' oc now lease kind fr))"
      using choose_claim_higher [of ep now] assms False by (intro ep_inv_claim) (simp_all add: c)
    then show ?thesis using False by (simp add: claimed_episode_def c)
  qed
qed

lemma coalesce_state:
  "snd (coalesce oc now lease fr ep m) =
     (if oc_ExistingOnly oc
      then updateIncidentFromEpisode (observe oc now ep) (put_episode (observe oc now ep) m)
      else put_episode (claimed_episode oc now lease fr (observe oc now ep)) m)"
  by (auto simp: coalesce_def claimed_episode_def Let_def split: prod.splits)

text \<open>What holds between the steps of recording an occurrence under fingerprint \<open>f\<close>.\<close>

definition at_ok :: "string \<Rightarrow> memoryDetectionEpisode option \<Rightarrow> memoryProvider \<Rightarrow> bool" where
  "at_ok f episode m \<longleftrightarrow> episodes_ok m \<and>
     (case episode of None \<Rightarrow> act_at m f = None
      | Some ep \<Rightarrow> ep_at m (ep_EpisodeID ep) = Some ep \<and> ep_ClosedAt ep = None \<and> ep_Fingerprint ep = f)"

lemma at_ok_Some: "at_ok f (Some ep) m \<longleftrightarrow> episodes_ok m \<and> ep_at m (ep_EpisodeID ep) = Some ep \<and>
    ep_ClosedAt ep = None \<and> ep_Fingerprint ep = f"
  by (simp add: at_ok_def)

lemma at_ok_None: "at_ok f None m \<longleftrightarrow> episodes_ok m \<and> act_at m f = None"
  by (simp add: at_ok_def)

lemma no_empty_id: "episodes_ok m \<Longrightarrow> gm_get (mp_episodes m) [] = None"
  using episodes_okD(4) [of m "[]"] by (cases "gm_get (mp_episodes m) []") (auto simp: ep_at_def)

lemma activeDetectionEpisode_found:
  assumes ok: "episodes_ok m" and "act_at m f = Some i"
  shows "\<exists>ep. activeDetectionEpisode f ident m = (Some ep, m) \<and> ep_at m i = Some ep \<and>
    ep_ClosedAt ep = None \<and> ep_Fingerprint ep = f \<and> ep_EpisodeID ep = i"
proof -
  obtain ep where ep: "ep_at m i = Some ep" "ep_ClosedAt ep = None" "ep_Fingerprint ep = f"
    using episodes_okD(7) [OF ok assms(2)] by blast
  moreover have "ep_EpisodeID ep = i" using episodes_okD(3) [OF ok ep(1)] .
  moreover have "activeDetectionEpisode f ident m = (Some ep, m)"
    using ep(1) assms(2) by (simp add: activeDetectionEpisode_def gm_get0_def ep_at_def act_at_def)
  ultimately show ?thesis by blast
qed

lemma activeDetectionEpisode_ok:
  assumes ok: "episodes_ok m"
  shows "at_ok f (fst (activeDetectionEpisode f ident m)) (snd (activeDetectionEpisode f ident m))"
proof (cases "act_at m f")
  case (Some i)
  then show ?thesis
    using activeDetectionEpisode_found [OF ok, of f i ident] ok by (auto simp: at_ok_Some)
next
  case None
  let ?find = "find (\<lambda>(legacy, episodeID). case gm_get (mp_episodes m) episodeID of
                None \<Rightarrow> False
              | Some episode \<Rightarrow> normalizeDetectionIdentity (ep_Identity episode) = ident)
              (mp_activeEpisodes m)"
  have first: "gm_get (mp_episodes m) (gm_get0 [] (mp_activeEpisodes m) f) = None"
    using None no_empty_id [OF ok] by (simp add: gm_get0_def act_at_def)
  show ?thesis
  proof (cases ?find)
    case None
    then show ?thesis
      using first \<open>act_at m f = None\<close> ok by (simp add: activeDetectionEpisode_def at_ok_None)
  next
    case (Some e)
    obtain g i where e: "e = (g, i)" by (cases e)
    have "(g, i) \<in> set (mp_activeEpisodes m)" using find_in [OF Some] e by simp
    then have act: "act_at m g = Some i" using episodes_okD(2) [OF ok] by (simp add: act_at_def)
    obtain ep0 where ep0: "ep_at m i = Some ep0" "ep_ClosedAt ep0 = None" "ep_Fingerprint ep0 = g"
      using episodes_okD(7) [OF ok act] by blast
    note id0 = episodes_okD(3) [OF ok ep0(1)]
    let ?ep = "ep0\<lparr>ep_Identity := ident, ep_Fingerprint := f\<rparr>"
    have res: "activeDetectionEpisode f ident m = (Some ?ep, put_episode ?ep
        (m\<lparr>mp_activeEpisodes := gm_set (gm_del (mp_activeEpisodes m) g) f i\<rparr>))"
      using first Some e ep0(1) by (simp add: activeDetectionEpisode_def ep_at_def Let_def)
    have "ep_inv ?ep" using episodes_okD(5) [OF ok ep0(1)] by (simp add: ep_inv_def ep_sev_def)
    then have "episodes_ok (put_episode ?ep
        (m\<lparr>mp_activeEpisodes := gm_set (gm_del (mp_activeEpisodes m) g) f i\<rparr>))"
      using ep0 id0 by (intro episodes_ok_refile [OF ok act \<open>act_at m f = None\<close> ep0(1)]) simp_all
    then show ?thesis using ep0 by (simp add: res at_ok_Some gm_simps)
  qed
qed

lemma close_steps_ok:
  assumes "at_ok f (fst s) (snd (snd s))"
  shows "at_ok f (fst (close_resolved now s)) (snd (snd (close_resolved now s)))"
    and "at_ok f (fst (close_orphaned now f s)) (snd (snd (close_orphaned now f s)))"
    and "at_ok f (fst (close_quiet now q f s)) (snd (snd (close_quiet now q f s)))"
proof -
  obtain e r m where s: "s = (e, r, m)" by (cases s)
  have close: "at_ok f None (close_episode f now ep m)" if "e = Some ep" for ep
    using assms that s by (auto simp: at_ok_Some at_ok_None gm_simps intro: episodes_ok_close)
  show "at_ok f (fst (close_resolved now s)) (snd (snd (close_resolved now s)))"
    using assms close by (auto simp: s close_resolved_def at_ok_Some split: option.split)
  show "at_ok f (fst (close_orphaned now f s)) (snd (snd (close_orphaned now f s)))"
    using assms close by (auto simp: s close_orphaned_def split: option.split)
  show "at_ok f (fst (close_quiet now q f s)) (snd (snd (close_quiet now q f s)))"
    using assms close by (auto simp: s close_quiet_def split: option.split)
qed

definition fresh_ok :: "fresh_ids \<Rightarrow> memoryProvider \<Rightarrow> bool" where
  "fresh_ok fr m \<longleftrightarrow> fr_EpisodeID fr \<noteq> [] \<and> fr_Token fr \<noteq> [] \<and> ep_at m (fr_EpisodeID fr) = None"

lemma put_known: "ep_at m (ep_EpisodeID ep) \<noteq> None \<Longrightarrow> ep_at (put_episode ep m) i = None \<longleftrightarrow> ep_at m i = None"
  by (auto simp: gm_simps)

lemma activeDetectionEpisode_dom:
  assumes ok: "episodes_ok m"
  shows "ep_at (snd (activeDetectionEpisode f ident m)) i = None \<longleftrightarrow> ep_at m i = None"
proof -
  have "ep_EpisodeID ep = j" if "gm_get (mp_episodes m) j = Some ep" for j ep
    using that episodes_okD(3) [OF ok] by (simp add: ep_at_def)
  then show ?thesis
    by (auto simp: activeDetectionEpisode_def Let_def ep_at_put ep_at_active split: option.splits)
      (simp_all add: ep_at_def)
qed

lemma close_steps_dom:
  assumes "at_ok f (fst s) (snd (snd s))"
  shows "ep_at (snd (snd (close_resolved now s))) i = None \<longleftrightarrow> ep_at (snd (snd s)) i = None"
    and "ep_at (snd (snd (close_orphaned now f s))) i = None \<longleftrightarrow> ep_at (snd (snd s)) i = None"
    and "ep_at (snd (snd (close_quiet now q f s))) i = None \<longleftrightarrow> ep_at (snd (snd s)) i = None"
  using assms
  by (auto simp: close_resolved_def close_orphaned_def close_quiet_def at_ok_Some gm_simps
      split: option.split prod.split)

lemma open_episode_ok:
  assumes ok: "episodes_ok m" and act: "act_at m f = None" and fr: "fresh_ok fr m" and "0 < oc_Frequency oc"
  shows "episodes_ok (snd (open_episode f oc now lease reopened fr m))"
proof -
  define ep where "ep = \<lparr>ep_Identity = normalizeDetectionIdentity (oc_Identity oc),
                ep_Fingerprint = f, ep_EpisodeID = fr_EpisodeID fr,
                ep_IncidentID = fr_IncidentID fr, ep_OccurrenceCount = oc_Frequency oc,
                ep_FirstSeen = now, ep_LastSeen = now,
                ep_HighestObservedSeverity = canonicalDetectionSeverity (oc_Severity oc),
                ep_HighestHandledSeverity = [], ep_HighestNotifiedSeverity = [],
                ep_ClosedAt = None, ep_PendingKind = NoKind, ep_PendingSeverity = [],
                ep_PendingToken = [], ep_PendingOwner = [], ep_PendingExpiresAt = zero_time,
                ep_LastCompletedToken = [], ep_LastNotificationOutcome = []\<rparr>"
  let ?c = "claimDetectionNotification ep oc now lease DetectionNotificationInitial fr"
  have st: "snd (open_episode f oc now lease reopened fr m) = put_episode (snd ?c)
      (m\<lparr>mp_activeEpisodes := gm_set (mp_activeEpisodes m) (ep_Fingerprint (snd ?c)) (ep_EpisodeID (snd ?c))\<rparr>)"
    unfolding open_episode_def ep_def [symmetric] by (simp add: Let_def split_beta) (simp add: ep_def)
  have "ep_sev ep" using assms(4) by (simp add: ep_def ep_sev_def canonicalDetectionSeverity_def)
  then have "ep_inv (snd ?c)"
    using fr by (intro ep_inv_claim) (simp_all add: fresh_ok_def ep_def canonicalDetectionSeverity_def)
  then show ?thesis
    unfolding st using fr act by (intro episodes_ok_open [OF ok]) (simp_all add: fresh_ok_def ep_def)
qed

lemma coalesce_ok:
  assumes "at_ok f (Some ep) m" and "fr_Token fr \<noteq> []" and "0 < oc_Frequency oc"
  shows "episodes_ok (snd (coalesce oc now lease fr ep m))"
proof -
  have ok: "episodes_ok m" and at: "ep_at m (ep_EpisodeID ep) = Some ep" using assms(1) by (simp_all add: at_ok_Some)
  have obs: "ep_inv (observe oc now ep)" using ep_inv_observe [OF episodes_okD(5) [OF ok at] assms(3)] .
  show ?thesis
    unfolding coalesce_state
    using ok at obs ep_inv_claimed [OF obs assms(2)] by (auto intro!: episodes_ok_put)
qed

text \<open>The active episode an occurrence finds after the closing rules, and the state then.\<close>

definition settled ::
  "string \<Rightarrow> DetectionOccurrence \<Rightarrow> time \<Rightarrow> duration \<Rightarrow> memoryProvider \<Rightarrow>
   memoryDetectionEpisode option \<times> bool \<times> memoryProvider" where
  "settled f oc now q m =
     (let a = activeDetectionEpisode f (normalizeDetectionIdentity (oc_Identity oc)) m;
          reopened = (fst a \<noteq> None \<or> (\<exists>ep \<in> set (map snd (mp_episodes (snd a))). ep_Fingerprint ep = f))
      in close_quiet now q f (close_orphaned now f (close_resolved now (fst a, reopened, snd a))))"

lemma close_steps_None:
  "close_resolved now (None, r, m) = (None, r, m)"
  "close_orphaned now f (None, r, m) = (None, r, m)"
  "close_quiet now q f (None, r, m) = (None, r, m)"
  by (simp_all add: close_resolved_def close_orphaned_def close_quiet_def)

lemma record_locked_settled:
  "record_locked f oc now q lease fr m =
     (case settled f oc now q m of (episode, reopened, m') \<Rightarrow>
        case episode of
          None \<Rightarrow> if oc_ExistingOnly oc then (Inl ErrNotFound, m')
                  else map_prod Inr id (open_episode f oc now lease reopened fr m')
        | Some ep \<Rightarrow> map_prod Inr id (coalesce oc now lease fr ep m'))"
proof (cases "activeDetectionEpisode f (normalizeDetectionIdentity (oc_Identity oc)) m")
  case (Pair e m')
  show ?thesis
  proof (cases e)
    case None
    then show ?thesis
      by (simp add: record_locked_def settled_def Pair Let_def close_steps_None)
  next
    case (Some ep)
    then show ?thesis by (simp add: record_locked_def settled_def Pair Let_def)
  qed
qed

lemma settled_ok:
  assumes ok: "episodes_ok m"
  shows "at_ok f (fst (settled f oc now q m)) (snd (snd (settled f oc now q m)))"
    and "ep_at (snd (snd (settled f oc now q m))) i = None \<longleftrightarrow> ep_at m i = None"
proof -
  let ?a = "activeDetectionEpisode f (normalizeDetectionIdentity (oc_Identity oc)) m"
  define r where "r = (fst ?a \<noteq> None \<or> (\<exists>ep \<in> set (map snd (mp_episodes (snd ?a))). ep_Fingerprint ep = f))"
  define s0 where "s0 = (fst ?a, r, snd ?a)"
  define s1 where "s1 = close_resolved now s0"
  define s2 where "s2 = close_orphaned now f s1"
  have set: "settled f oc now q m = close_quiet now q f s2"
    unfolding settled_def Let_def s2_def s1_def s0_def r_def by (rule refl)
  have ok0: "at_ok f (fst s0) (snd (snd s0))"
    using activeDetectionEpisode_ok [OF ok] by (simp add: s0_def)
  have ok1: "at_ok f (fst s1) (snd (snd s1))" unfolding s1_def by (rule close_steps_ok(1) [OF ok0])
  have ok2: "at_ok f (fst s2) (snd (snd s2))" unfolding s2_def by (rule close_steps_ok(2) [OF ok1])
  show "at_ok f (fst (settled f oc now q m)) (snd (snd (settled f oc now q m)))"
    unfolding set by (rule close_steps_ok(3) [OF ok2])
  show "ep_at (snd (snd (settled f oc now q m))) i = None \<longleftrightarrow> ep_at m i = None"
    unfolding set close_steps_dom(3) [OF ok2]
    using close_steps_dom(2) [OF ok1, of now i] close_steps_dom(1) [OF ok0, of now i]
      activeDetectionEpisode_dom [OF ok] by (simp add: s2_def s1_def s0_def)
qed

lemma record_locked_ok:
  assumes ok: "episodes_ok m" and fr: "fresh_ok fr m" and pos: "0 < oc_Frequency oc"
  shows "episodes_ok (snd (record_locked f oc now q lease fr m))"
proof -
  obtain e r m' where s: "settled f oc now q m = (e, r, m')" by (cases "settled f oc now q m")
  have at: "at_ok f e m'" and dom: "ep_at m' i = None \<longleftrightarrow> ep_at m i = None" for i
    using settled_ok [OF ok, of f oc now q] by (simp_all add: s)
  have fr': "fresh_ok fr m'" using fr dom by (simp add: fresh_ok_def)
  show ?thesis
  proof (cases e)
    case None
    then show ?thesis
      using at open_episode_ok [of m' f fr oc now lease r] fr' pos
      by (simp add: record_locked_settled s at_ok_None)
  next
    case (Some ep)
    then show ?thesis
      using at coalesce_ok [of f ep m' fr oc now lease] fr pos
      by (simp add: record_locked_settled s fresh_ok_def)
  qed
qed

lemma episodes_ok_Record:
  assumes "episodes_ok m" "fresh_ok fr m"
  shows "episodes_ok (snd (RecordDetectionOccurrence digest clock fr oc m))"
  using assms
  by (auto simp: RecordDetectionOccurrence_def Let_def not_le
      intro!: episodes_ok_prune record_locked_ok split: option.split)

lemma episodes_ok_Renew:
  assumes "episodes_ok m"
  shows "episodes_ok (snd (RenewDetectionNotificationClaim clock rn m))"
proof (cases "ep_at m (dr_EpisodeID rn)")
  case (Some ep)
  have "ep_EpisodeID ep = dr_EpisodeID rn" "ep_inv ep" using episodes_okD(3,5) [OF assms Some] .
  then have "episodes_ok (put_episode (ep\<lparr>ep_PendingExpiresAt := t\<rparr>) m)" for t
    using Some by (intro episodes_ok_put [OF assms, of _ ep]) (simp_all add: ep_inv_def ep_sev_def)
  then show ?thesis
    using Some assms by (simp add: RenewDetectionNotificationClaim_def Let_def ep_at_def)
qed (use assms in \<open>simp add: RenewDetectionNotificationClaim_def Let_def ep_at_def\<close>)

lemma ep_inv_complete:
  assumes "ep_inv ep" "ep_PendingToken ep \<noteq> []"
  shows "ep_inv (complete_episode dc ep)"
proof -
  have "ep_PendingSeverity ep = [] \<or> 0 < SeverityRank (ep_PendingSeverity ep)"
    using assms by (auto simp: ep_inv_def)
  then show ?thesis
    using assms by (auto simp: ep_inv_def ep_sev_def complete_episode_def Let_def)
qed

lemma complete_simps [simp]:
  "ep_EpisodeID (complete_episode dc ep) = ep_EpisodeID ep"
  "ep_Fingerprint (complete_episode dc ep) = ep_Fingerprint ep"
  "ep_ClosedAt (complete_episode dc ep) = ep_ClosedAt ep"
  by (simp_all add: complete_episode_def Let_def)

lemma episodes_ok_Complete:
  assumes ok: "episodes_ok m"
  shows "episodes_ok (snd (CompleteDetectionNotification dc m))"
proof (cases "ep_at m (dc_EpisodeID dc)")
  case (Some ep)
  have "ep_EpisodeID ep = dc_EpisodeID dc" "ep_inv ep" using episodes_okD(3,5) [OF ok Some] .
  then have "ep_PendingToken ep \<noteq> [] \<Longrightarrow> episodes_ok (put_episode (complete_episode dc ep) m)"
    using Some by (intro episodes_ok_put [OF ok, of _ ep] ep_inv_complete) simp_all
  then show ?thesis
    using Some ok by (auto simp: CompleteDetectionNotification_def Let_def ep_at_def)
qed (use ok in \<open>simp add: CompleteDetectionNotification_def Let_def ep_at_def\<close>)

lemma episodes_ok_CloseBy:
  assumes ok: "episodes_ok m"
  shows "episodes_ok (snd (CloseDetectionEpisodeByIncident clock i t m))"
proof (cases "find (\<lambda>ep. \<not> (ep_IncidentID ep \<noteq> i \<or> ep_ClosedAt ep \<noteq> None)) (map snd (mp_episodes m))")
  case (Some ep)
  then have "ep_at m (ep_EpisodeID ep) = Some ep" "ep_ClosedAt ep = None"
    using find_in [OF Some] in_episodes [OF ok, of ep] by auto
  then show ?thesis
    using Some ok
    by (auto simp: CloseDetectionEpisodeByIncident_def intro!: episodes_ok_prune episodes_ok_close)
qed (use ok in \<open>simp add: CloseDetectionEpisodeByIncident_def episodes_ok_prune\<close>)

subsection \<open>What recording an occurrence does\<close>

lemma activeDetectionEpisode_same:
  assumes ok: "episodes_ok m" and "activeDetectionEpisode f ident m = (Some ep, m')"
  shows "\<exists>ep0 idn. ep_at m (ep_EpisodeID ep) = Some ep0 \<and> ep = ep0\<lparr>ep_Identity := idn, ep_Fingerprint := f\<rparr>"
proof (cases "act_at m f")
  case (Some i)
  from activeDetectionEpisode_found [OF ok this, of ident] assms(2)
  have "ep_at m i = Some ep" "ep_Fingerprint ep = f" "ep_EpisodeID ep = i" by auto
  then show ?thesis by (intro exI [of _ ep] exI [of _ "ep_Identity ep"]) simp
next
  case None
  then have first: "gm_get (mp_episodes m) (gm_get0 [] (mp_activeEpisodes m) f) = None"
    using no_empty_id [OF ok] by (simp add: gm_get0_def act_at_def)
  show ?thesis
    using assms(2) episodes_okD(3) [OF ok] first
    by (auto simp: activeDetectionEpisode_def Let_def ep_at_def split: option.splits)
      (rule exI, rule refl)
qed

lemma close_steps_Some:
  assumes "fst (close_resolved now s) = Some ep \<or> fst (close_orphaned now f s) = Some ep \<or>
    fst (close_quiet now q f s) = Some ep"
  shows "fst s = Some ep"
  using assms
  by (auto simp: close_resolved_def close_orphaned_def close_quiet_def
      split: option.splits prod.splits if_splits)

lemma settled_same:
  assumes ok: "episodes_ok m" and s: "settled f oc now q m = (Some ep, r, m')"
  shows "\<exists>ep0 idn. ep_at m (ep_EpisodeID ep) = Some ep0 \<and> ep = ep0\<lparr>ep_Identity := idn, ep_Fingerprint := f\<rparr>"
proof -
  let ?a = "activeDetectionEpisode f (normalizeDetectionIdentity (oc_Identity oc)) m"
  have "fst ?a = Some ep"
    using s by (auto simp: settled_def Let_def dest!: arg_cong [where f=fst] close_steps_Some [OF disjI1]
      close_steps_Some [OF disjI2, OF disjI1] close_steps_Some [OF disjI2, OF disjI2])
  then show ?thesis using activeDetectionEpisode_same [OF ok] by (metis prod.collapse)
qed

definition occurrence_time :: "time \<Rightarrow> DetectionOccurrence \<Rightarrow> time" where
  "occurrence_time clock oc = (if oc_ReceivedAt oc = zero_time then clock else oc_ReceivedAt oc)"

lemma Record_Inr:
  assumes ok: "episodes_ok m" and "RecordDetectionOccurrence digest clock fr oc m = (Inr d, m')"
  obtains f q lease e r ms m1 where
    "DetectionIdentityFingerprint digest (oc_Identity oc) = Some f" "0 < oc_Frequency oc"
    "settled f oc (occurrence_time clock oc) q m = (e, r, ms)" "at_ok f e ms"
    "m' = pruneClosedDetectionEpisodes m1"
    "case e of None \<Rightarrow> \<not> oc_ExistingOnly oc \<and> (d, m1) = open_episode f oc (occurrence_time clock oc) lease r fr ms
      | Some ep \<Rightarrow> (d, m1) = coalesce oc (occurrence_time clock oc) lease fr ep ms"
    "q = (if oc_QuietPeriod oc \<le> 0 then DefaultDetectionEpisodeQuietPeriod else oc_QuietPeriod oc)"
    "0 < lease"
proof -
  obtain f where f: "DetectionIdentityFingerprint digest (oc_Identity oc) = Some f" "0 < oc_Frequency oc"
    using assms(2) by (auto simp: RecordDetectionOccurrence_def split: option.splits if_splits)
  define now where "now = occurrence_time clock oc"
  define q where "q = (if oc_QuietPeriod oc \<le> 0 then DefaultDetectionEpisodeQuietPeriod else oc_QuietPeriod oc)"
  define lease where "lease = (if oc_ClaimLease oc \<le> 0 then DefaultDetectionNotificationLease else oc_ClaimLease oc)"
  have lease: "0 < lease"
    by (simp add: lease_def DefaultDetectionNotificationLease_def minute_def second_def)
  obtain e r ms where s: "settled f oc now q m = (e, r, ms)" by (cases "settled f oc now q m")
  have at: "at_ok f e ms" using settled_ok(1) [OF ok, of f oc now q] by (simp add: s)
  have "map_prod id pruneClosedDetectionEpisodes (record_locked f oc now q lease fr m) = (Inr d, m')"
    using assms(2) f
    by (simp add: RecordDetectionOccurrence_def Let_def now_def q_def lease_def occurrence_time_def)
  then obtain m1 where m1: "record_locked f oc now q lease fr m = (Inr d, m1)"
      "m' = pruneClosedDetectionEpisodes m1"
    by (cases "record_locked f oc now q lease fr m") auto
  then have "case e of None \<Rightarrow> \<not> oc_ExistingOnly oc \<and> (d, m1) = open_episode f oc now lease r fr ms
      | Some ep \<Rightarrow> (d, m1) = coalesce oc now lease fr ep ms"
    by (cases e) (auto simp: record_locked_settled s map_prod_def split: if_splits prod.splits)
  with that f s at m1(2) lease show thesis unfolding now_def q_def by blast
qed

lemma open_not_pruned:
  assumes "episodes_ok m" "ep_at m i = Some ep" "ep_ClosedAt ep = None"
  shows "ep_at (pruneClosedDetectionEpisodes m) i = Some ep"
  using assms prune_victims_closed [OF assms(1), of i] by (auto simp: gm_simps)

lemma open_episode_result:
  assumes "(d, m1) = open_episode f oc now lease r fr ms"
  shows "\<exists>ep. ep_at m1 (dd_EpisodeID d) = Some ep \<and> dd_EpisodeID d = fr_EpisodeID fr \<and>
    ep_ClosedAt ep = None \<and> ep_Fingerprint ep = f \<and> act_at m1 f = Some (dd_EpisodeID d) \<and>
    ep_OccurrenceCount ep = oc_Frequency oc \<and> dd_OccurrenceCount d = oc_Frequency oc \<and>
    dd_NotificationClaimed d \<and> ep_PendingToken ep = fr_Token fr \<and> dd_ClaimToken d = fr_Token fr \<and>
    ep_PendingExpiresAt ep = now + lease \<and> ep_HighestHandledSeverity ep = [] \<and>
    0 < SeverityRank (ep_PendingSeverity ep)"
  using assms
  by (auto simp: open_episode_def Let_def claimDetectionNotification_def detectionEpisodeDecision_def
      canonicalDetectionSeverity_def gm_simps)

lemma coalesce_decision:
  "fst (coalesce oc now lease fr ep ms) =
     (let o1 = observe oc now ep; (kind, action, ep') = choose_claim now o1 in
      if oc_ExistingOnly oc
      then (detectionEpisodeDecision o1)\<lparr>dd_Action := DetectionEpisodeCoalesced, dd_OccurrenceDelta := oc_Frequency oc\<rparr>
      else (if kind = NoKind then detectionEpisodeDecision ep'
            else fst (claimDetectionNotification ep' oc now lease kind fr))
        \<lparr>dd_Action := action, dd_OccurrenceDelta := oc_Frequency oc\<rparr>)"
  by (auto simp: coalesce_def Let_def split: prod.splits)

lemma decision_simps [simp]:
  "dd_EpisodeID (detectionEpisodeDecision ep) = ep_EpisodeID ep"
  "dd_OccurrenceCount (detectionEpisodeDecision ep) = ep_OccurrenceCount ep"
  "\<not> dd_NotificationClaimed (detectionEpisodeDecision ep)"
  by (simp_all add: detectionEpisodeDecision_def)

lemma coalesce_fst:
  "dd_EpisodeID (fst (coalesce oc now lease fr ep ms)) = ep_EpisodeID ep"
  "dd_OccurrenceCount (fst (coalesce oc now lease fr ep ms)) = ep_OccurrenceCount ep + oc_Frequency oc"
  "dd_NotificationClaimed (fst (coalesce oc now lease fr ep ms)) \<longleftrightarrow>
     \<not> oc_ExistingOnly oc \<and> fst (choose_claim now (observe oc now ep)) \<noteq> NoKind"
  by (simp_all add: coalesce_decision Let_def split_beta)

end
