(* ===== verification/Provider_Runs.thy ===== *)
theory Provider_Runs
  imports Detection_Episodes
begin

text \<open>
  Runs of the in-memory provider: every state-changing call as an operation, sequences of calls
  in the order the provider's mutex serialises them, the invariant of all reachable states, and
  what the notification protocol of the detection episodes guarantees along a run.
\<close>

subsection \<open>Operations and runs\<close>

datatype provider_op =
    OpWriteBlob time string string
  | OpCreateBlob time string string
  | OpSwapBlob time string "string option" "string option"
  | OpSaveIncident IncidentRecord
  | OpSaveDetection "IncidentRecord option"
  | OpAck string time
  | OpSaveAnalysis "AnalysisRecord option"
  | OpDeleteAnalysis string
  | OpPurge string time
  | OpDelete string string
  | OpRecord time fresh_ids DetectionOccurrence
  | OpRenew time DetectionNotificationRenewal
  | OpComplete DetectionNotificationCompletion
  | OpClose time string time

definition keep_on_error :: "memoryProvider \<Rightarrow> storage_error + memoryProvider \<Rightarrow> memoryProvider" where
  "keep_on_error m r = (case r of Inl _ \<Rightarrow> m | Inr m' \<Rightarrow> m')"

fun provider_step :: "(DetectionIdentity \<Rightarrow> string) \<Rightarrow> provider_op \<Rightarrow> memoryProvider \<Rightarrow> memoryProvider" where
  "provider_step digest (OpWriteBlob t n d) m = WriteBlob t n d m"
| "provider_step digest (OpCreateBlob t n d) m = snd (CreateBlobIfAbsent t n d m)"
| "provider_step digest (OpSwapBlob t n e r) m = snd (CompareAndSwapBlob t n e r m)"
| "provider_step digest (OpSaveIncident rec) m = SaveIncident rec m"
| "provider_step digest (OpSaveDetection rec) m = keep_on_error m (SaveDetectionIncident rec m)"
| "provider_step digest (OpAck i t) m = keep_on_error m (UpdateIncidentAck i t m)"
| "provider_step digest (OpSaveAnalysis rec) m = keep_on_error m (SaveAnalysis rec m)"
| "provider_step digest (OpDeleteAnalysis i) m = keep_on_error m (DeleteAnalysis i m)"
| "provider_step digest (OpPurge d c) m = keep_on_error m (map_sum id snd (PurgeOlderThan d c m))"
| "provider_step digest (OpDelete d i) m = keep_on_error m (DeleteByID d i m)"
| "provider_step digest (OpRecord clock fr oc) m = snd (RecordDetectionOccurrence digest clock fr oc m)"
| "provider_step digest (OpRenew clock rn) m = snd (RenewDetectionNotificationClaim clock rn m)"
| "provider_step digest (OpComplete dc) m = snd (CompleteDetectionNotification dc m)"
| "provider_step digest (OpClose clock i t) m = snd (CloseDetectionEpisodeByIncident clock i t m)"

text \<open>A call draws identifiers that are not in use yet, as \<open>uuid.NewString()\<close> does.\<close>

fun op_fresh :: "provider_op \<Rightarrow> memoryProvider \<Rightarrow> bool" where
  "op_fresh (OpRecord clock fr oc) m = fresh_ok fr m"
| "op_fresh _ m = True"

inductive provider_reach :: "(DetectionIdentity \<Rightarrow> string) \<Rightarrow> memoryProvider \<Rightarrow> bool" for digest where
  reach_new: "provider_reach digest NewMemory"
| reach_step: "provider_reach digest m \<Longrightarrow> op_fresh op m \<Longrightarrow> provider_reach digest (provider_step digest op m)"

inductive_cases provider_reach_cases: "provider_reach digest m"

subsection \<open>The invariant of the whole provider\<close>

definition provider_ok :: "memoryProvider \<Rightarrow> bool" where
  "provider_ok m \<longleftrightarrow> blobs_ok m \<and> history_ok m \<and> episodes_ok m \<and>
     int (length (closed_episodes m)) \<le> closed_limit m"

text \<open>Each group of operations leaves the other parts of the state alone.\<close>

definition blob_part :: "memoryProvider \<Rightarrow> (string, string) gomap \<times> string list \<times> (string, time) gomap" where
  "blob_part m = (mp_blobs m, mp_blobNames m, mp_blobAt m)"

definition episode_part ::
  "memoryProvider \<Rightarrow> (string, memoryDetectionEpisode) gomap \<times> (string, string) gomap \<times> int" where
  "episode_part m = (mp_episodes m, mp_activeEpisodes m, mp_maxClosedEpisodes m)"

lemma blobs_ok_part: "blob_part m' = blob_part m \<Longrightarrow> blobs_ok m' = blobs_ok m"
  by (simp add: blob_part_def blobs_ok_def)

lemma episodes_ok_part:
  "episode_part m' = episode_part m \<Longrightarrow> episodes_ok m' = episodes_ok m"
  "episode_part m' = episode_part m \<Longrightarrow> closed_episodes m' = closed_episodes m"
  "episode_part m' = episode_part m \<Longrightarrow> closed_limit m' = closed_limit m"
  "episode_part m' = episode_part m \<Longrightarrow> ep_at m' i = ep_at m i"
  by (simp_all add: episode_part_def episodes_ok_def ep_at_def act_at_def closed_episodes_def closed_limit_def)

definition history_keys :: "memoryProvider \<Rightarrow> string list \<times> string list \<times> AnalysisRecord list" where
  "history_keys m = (map ir_ID (mp_incidents m), map ir_OrgID (mp_incidents m), mp_analyses m)"

lemma history_ok_keys:
  assumes "history_keys m' = history_keys m" shows "history_ok m' = history_ok m"
proof -
  have org: "(\<forall>r \<in> set xs. ir_OrgID r \<noteq> []) \<longleftrightarrow> [] \<notin> set (map ir_OrgID xs)" for xs by force
  show ?thesis using assms unfolding history_keys_def history_ok_def org prod.inject by (simp del: set_map)
qed

lemma blob_ops_part:
  "episode_part (put_blob t n d m) = episode_part m" "history_keys (put_blob t n d m) = history_keys m"
  "episode_part (drop_blob n m) = episode_part m" "history_keys (drop_blob n m) = history_keys m"
  "episode_part (m\<lparr>mp_blobNames := ns\<rparr>) = episode_part m" "history_keys (m\<lparr>mp_blobNames := ns\<rparr>) = history_keys m"
  by (simp_all add: put_blob_def drop_blob_def episode_part_def history_keys_def)

lemma purge_blobs_part:
  "episode_part (snd (purge_blobs c ats m)) = episode_part m"
proof -
  have "episode_part (fold drop_blob ns m) = episode_part m" for ns
    by (induction ns arbitrary: m) (simp_all add: blob_ops_part)
  then show ?thesis by (simp add: purge_blobs_fold Let_def)
qed

lemma blob_steps_part:
  "episode_part (WriteBlob t n d m) = episode_part m \<and> history_keys (WriteBlob t n d m) = history_keys m"
  "episode_part (snd (CreateBlobIfAbsent t n d m)) = episode_part m \<and>
     history_keys (snd (CreateBlobIfAbsent t n d m)) = history_keys m"
  "episode_part (snd (CompareAndSwapBlob t n e r m)) = episode_part m \<and>
     history_keys (snd (CompareAndSwapBlob t n e r m)) = history_keys m"
  by (auto simp: WriteBlob_def CreateBlobIfAbsent_def CompareAndSwapBlob_def Let_def blob_ops_part
      split: option.split)

lemma history_steps_part:
  "episode_part (SaveIncident rec m) = episode_part m \<and> blob_part (SaveIncident rec m) = blob_part m"
  "SaveDetectionIncident ro m = Inr m' \<Longrightarrow> episode_part m' = episode_part m \<and> blob_part m' = blob_part m"
  "UpdateIncidentAck i t m = Inr m' \<Longrightarrow> episode_part m' = episode_part m \<and> blob_part m' = blob_part m"
  "SaveAnalysis ra m = Inr m' \<Longrightarrow> episode_part m' = episode_part m \<and> blob_part m' = blob_part m"
  "DeleteAnalysis i m = Inr m' \<Longrightarrow> episode_part m' = episode_part m \<and> blob_part m' = blob_part m"
  by (auto simp: SaveIncident_def SaveDetectionIncident_def UpdateIncidentAck_def SaveAnalysis_def
      DeleteAnalysis_def Let_def episode_part_def blob_part_def split: option.splits if_splits)

lemma lifecycle_part:
  "PurgeOlderThan d c m = Inr (n, m') \<Longrightarrow> episode_part m' = episode_part m \<and> (blobs_ok m \<longrightarrow> blobs_ok m')"
  "DeleteByID d i m = Inr m' \<Longrightarrow> episode_part m' = episode_part m \<and> (blobs_ok m \<longrightarrow> blobs_ok m')"
  using purge_blobs_part [of c "mp_blobAt m" m] blobs_ok_purge [of m c "mp_blobAt m"]
  by (auto simp: PurgeOlderThan_def DeleteByID_def DeleteAnalysis_def delete_blob_by_id_def
      drop_blob_def [of i m] blobs_ok_drop [of m i, unfolded drop_blob_def] episode_part_def
      split: if_splits)

lemma episode_ops_part:
  "blob_part (put_episode ep m) = blob_part m" "history_keys (put_episode ep m) = history_keys m"
  "blob_part (updateIncidentFromEpisode ep m) = blob_part m"
  "blob_part (pruneClosedDetectionEpisodes m) = blob_part m"
  "history_keys (pruneClosedDetectionEpisodes m) = history_keys m"
  "blob_part (close_episode f c ep m) = blob_part m" "history_keys (close_episode f c ep m) = history_keys m"
  "blob_part (m\<lparr>mp_activeEpisodes := a\<rparr>) = blob_part m" "history_keys (m\<lparr>mp_activeEpisodes := a\<rparr>) = history_keys m"
  by (simp_all add: put_episode_def updateIncidentFromEpisode_def pruneClosedDetectionEpisodes_def
      close_episode_def blob_part_def history_keys_def Let_def)

lemma updateIncident_keys: "history_keys (updateIncidentFromEpisode ep m) = history_keys m"
  by (simp add: updateIncidentFromEpisode_def history_keys_def map_update_first
      applyDetectionEpisodeDecision_def Let_def)

definition same_rest :: "memoryProvider \<Rightarrow> memoryProvider \<Rightarrow> bool" where
  "same_rest m m' \<longleftrightarrow> blob_part m' = blob_part m \<and> history_keys m' = history_keys m"

lemma same_rest_steps:
  "same_rest m (snd (activeDetectionEpisode f ident m))"
  "same_rest m (snd (open_episode f oc now lease r fr m))"
  "same_rest m (snd (coalesce oc now lease fr ep m))"
  by (auto simp: same_rest_def activeDetectionEpisode_def open_episode_def coalesce_def Let_def
      episode_ops_part updateIncident_keys split: option.split prod.split)

lemma same_rest_close:
  "same_rest m (snd (snd s)) \<Longrightarrow> same_rest m (snd (snd (close_resolved now s)))"
  "same_rest m (snd (snd s)) \<Longrightarrow> same_rest m (snd (snd (close_orphaned now f s)))"
  "same_rest m (snd (snd s)) \<Longrightarrow> same_rest m (snd (snd (close_quiet now q f s)))"
  by (auto simp: same_rest_def close_resolved_def close_orphaned_def close_quiet_def
      episode_ops_part split: option.split prod.split)

lemma same_rest_trans: "same_rest m m1 \<Longrightarrow> same_rest m1 m2 \<Longrightarrow> same_rest m m2"
  by (simp add: same_rest_def)

lemma same_rest_settled: "same_rest m (snd (snd (settled f oc now q m)))"
  unfolding settled_def Let_def
  by (intro same_rest_close) (simp add: same_rest_steps)

lemma same_rest_record: "same_rest m (snd (record_locked f oc now q lease fr m))"
  using same_rest_settled [of m f oc now q]
  by (auto simp: record_locked_settled split: prod.split option.split
      intro: same_rest_trans same_rest_steps)

lemma same_rest_prune: "same_rest m m' \<Longrightarrow> same_rest m (pruneClosedDetectionEpisodes m')"
  by (simp add: same_rest_def episode_ops_part)

lemma same_rest_refl [simp]: "same_rest m m"
  by (simp add: same_rest_def)

lemma episode_steps_rest:
  "same_rest m (snd (RecordDetectionOccurrence digest clock fr oc m))"
  "same_rest m (snd (RenewDetectionNotificationClaim clock rn m))"
  "same_rest m (snd (CompleteDetectionNotification dc m))"
  "same_rest m (snd (CloseDetectionEpisodeByIncident clock i t m))"
proof -
  show "same_rest m (snd (RecordDetectionOccurrence digest clock fr oc m))"
    by (simp add: RecordDetectionOccurrence_def Let_def same_rest_record same_rest_prune split: option.split)
  show "same_rest m (snd (CloseDetectionEpisodeByIncident clock i t m))"
    by (auto simp: CloseDetectionEpisodeByIncident_def same_rest_def episode_ops_part split: option.split)
  show "same_rest m (snd (RenewDetectionNotificationClaim clock rn m))"
    by (auto simp: RenewDetectionNotificationClaim_def same_rest_def episode_ops_part Let_def split: option.split)
  show "same_rest m (snd (CompleteDetectionNotification dc m))"
    by (auto simp: CompleteDetectionNotification_def same_rest_def episode_ops_part updateIncident_keys
        Let_def split: option.split)
qed

lemma same_rest_ok: "same_rest m m' \<Longrightarrow> blobs_ok m' = blobs_ok m \<and> history_ok m' = history_ok m"
  unfolding same_rest_def using blobs_ok_part history_ok_keys by blast

text \<open>The number of closed episodes.\<close>

lemma length_filter_update:
  "map_of eps k = Some x0 \<Longrightarrow> P x = P x0 \<Longrightarrow>
   length (filter (\<lambda>e. P (snd e)) (AList.update k x eps)) = length (filter (\<lambda>e. P (snd e)) eps)"
  by (induction eps) (auto split: if_splits)

lemma closed_episodes_length:
  "length (closed_episodes m) = length (filter (\<lambda>e. ep_ClosedAt (snd e) \<noteq> None) (mp_episodes m))"
  by (simp add: closed_episodes_def filter_map comp_def)

lemma closed_put:
  assumes "ep_at m (ep_EpisodeID ep) = Some ep0" "(ep_ClosedAt ep = None) = (ep_ClosedAt ep0 = None)"
  shows "length (closed_episodes (put_episode ep m)) = length (closed_episodes m)"
  using length_filter_update [OF assms(1) [unfolded ep_at_def], of "\<lambda>ep. ep_ClosedAt ep \<noteq> None" ep] assms(2)
  by (simp add: closed_episodes_length put_episode_def)

lemma closed_limit_steps [simp]:
  "closed_limit (put_episode ep m) = closed_limit m"
  "closed_limit (updateIncidentFromEpisode ep m) = closed_limit m"
  "closed_episodes (updateIncidentFromEpisode ep m) = closed_episodes m"
  "closed_limit (pruneClosedDetectionEpisodes m) = closed_limit m"
  by (simp_all add: closed_limit_def closed_episodes_def updateIncidentFromEpisode_def)

lemma provider_ok_New: "provider_ok NewMemory"
proof -
  have "int (length (closed_episodes NewMemory)) \<le> closed_limit NewMemory"
    by (simp add: closed_episodes_def NewMemory_def closed_limit_def MaxClosedDetectionEpisodesDefault_def)
  then show ?thesis by (simp add: provider_ok_def blobs_ok_New history_ok_New episodes_ok_New)
qed

lemma closed_steps:
  assumes ok: "episodes_ok m" and le: "int (length (closed_episodes m)) \<le> closed_limit m"
  shows "int (length (closed_episodes (snd (RenewDetectionNotificationClaim clock rn m)))) \<le>
      closed_limit (snd (RenewDetectionNotificationClaim clock rn m))"
    and "int (length (closed_episodes (snd (CompleteDetectionNotification dc m)))) \<le>
      closed_limit (snd (CompleteDetectionNotification dc m))"
proof -
  have put: "length (closed_episodes (put_episode ep' m)) = length (closed_episodes m)"
    if "ep_at m i = Some ep" "ep_EpisodeID ep' = ep_EpisodeID ep" "ep_ClosedAt ep' = ep_ClosedAt ep" for i ep ep'
    using that episodes_okD(3) [OF ok that(1)] by (intro closed_put [of _ _ ep]) simp_all
  show "int (length (closed_episodes (snd (RenewDetectionNotificationClaim clock rn m)))) \<le>
      closed_limit (snd (RenewDetectionNotificationClaim clock rn m))"
    using le by (auto simp: RenewDetectionNotificationClaim_def Let_def ep_at_def [symmetric] put split: option.split)
  show "int (length (closed_episodes (snd (CompleteDetectionNotification dc m)))) \<le>
      closed_limit (snd (CompleteDetectionNotification dc m))"
    using le by (auto simp: CompleteDetectionNotification_def Let_def ep_at_def [symmetric] put split: option.split)
qed

lemma closed_limit_record: "closed_limit (snd (RecordDetectionOccurrence digest clock fr oc m)) = closed_limit m"
proof -
  have act: "mp_maxClosedEpisodes (snd (activeDetectionEpisode f ident m)) = mp_maxClosedEpisodes m" for f ident m
    by (simp add: activeDetectionEpisode_def Let_def split: option.split)
  have close: "mp_maxClosedEpisodes (snd (snd (close_resolved now s))) = mp_maxClosedEpisodes (snd (snd s))"
    "mp_maxClosedEpisodes (snd (snd (close_orphaned now f s))) = mp_maxClosedEpisodes (snd (snd s))"
    "mp_maxClosedEpisodes (snd (snd (close_quiet now q f s))) = mp_maxClosedEpisodes (snd (snd s))" for now f q s
    by (simp_all add: close_resolved_def close_orphaned_def close_quiet_def close_episode_def
        split: option.split prod.split)
  have settled: "mp_maxClosedEpisodes (snd (snd (settled f oc now q m))) = mp_maxClosedEpisodes m" for f now q
    by (simp add: settled_def Let_def close act)
  have ops: "mp_maxClosedEpisodes (snd (open_episode f oc now lease r fr m)) = mp_maxClosedEpisodes m"
    "mp_maxClosedEpisodes (snd (coalesce oc now lease fr ep m)) = mp_maxClosedEpisodes m" for f now lease r ep m
    by (simp_all add: open_episode_def coalesce_def Let_def updateIncidentFromEpisode_def split: prod.split)
  have "mp_maxClosedEpisodes (snd (record_locked f oc now q lease fr m)) = mp_maxClosedEpisodes m" for f now q lease
    using settled [of f now q]
    by (auto simp: record_locked_settled ops split: prod.split option.split)
  then show ?thesis
    by (simp add: RecordDetectionOccurrence_def Let_def closed_limit_def split: option.split)
qed

lemma closed_bound_pruning:
  assumes "episodes_ok m" "int (length (closed_episodes m)) \<le> closed_limit m"
  shows "fresh_ok fr m \<Longrightarrow> int (length (closed_episodes (snd (RecordDetectionOccurrence digest clock fr oc m)))) \<le>
      closed_limit (snd (RecordDetectionOccurrence digest clock fr oc m))"
    and "int (length (closed_episodes (snd (CloseDetectionEpisodeByIncident clock i t m)))) \<le>
      closed_limit (snd (CloseDetectionEpisodeByIncident clock i t m))"
proof -
  have prune: "int (length (closed_episodes (pruneClosedDetectionEpisodes m'))) \<le>
      closed_limit (pruneClosedDetectionEpisodes m')" if "episodes_ok m'" for m'
    using closed_count_prune [OF that] by simp
  show "int (length (closed_episodes (snd (RecordDetectionOccurrence digest clock fr oc m)))) \<le>
      closed_limit (snd (RecordDetectionOccurrence digest clock fr oc m))" if "fresh_ok fr m"
  proof (cases "DetectionIdentityFingerprint digest (oc_Identity oc) = None \<or> oc_Frequency oc \<le> 0")
    case True
    then show ?thesis using assms by (auto simp: RecordDetectionOccurrence_def split: option.split)
  next
    case False
    then show ?thesis
      using prune [OF record_locked_ok [OF assms(1) that]]
      by (auto simp: RecordDetectionOccurrence_def Let_def simp del: closed_limit_steps)
  qed
  have "episodes_ok (case find (\<lambda>ep. \<not> (ep_IncidentID ep \<noteq> i \<or> ep_ClosedAt ep \<noteq> None)) (map snd (mp_episodes m)) of
      None \<Rightarrow> m
    | Some ep \<Rightarrow> close_episode (ep_Fingerprint ep) (if t = zero_time then clock else t) ep m)" (is "episodes_ok ?m")
    using assms(1) in_episodes [OF assms(1)]
    by (auto split: option.split dest!: find_in intro!: episodes_ok_close)
  moreover have "snd (CloseDetectionEpisodeByIncident clock i t m) = pruneClosedDetectionEpisodes ?m"
    by (simp add: CloseDetectionEpisodeByIncident_def split: option.split)
  ultimately show "int (length (closed_episodes (snd (CloseDetectionEpisodeByIncident clock i t m)))) \<le>
      closed_limit (snd (CloseDetectionEpisodeByIncident clock i t m))"
    using prune by simp
qed

text \<open>Every operation keeps the invariant.\<close>

lemma provider_ok_episode_part:
  assumes "provider_ok m" "episode_part m' = episode_part m" "blobs_ok m'" "history_ok m'"
  shows "provider_ok m'"
  using assms episodes_ok_part [OF assms(2)] by (simp add: provider_ok_def)

lemma provider_ok_rest:
  assumes "provider_ok m" "same_rest m m'" "episodes_ok m'" "int (length (closed_episodes m')) \<le> closed_limit m'"
  shows "provider_ok m'"
  using assms same_rest_ok [OF assms(2)] by (simp add: provider_ok_def)

lemma provider_ok_history:
  assumes "provider_ok m" "episode_part m' = episode_part m" "blob_part m' = blob_part m" "history_ok m'"
  shows "provider_ok m'"
  using assms blobs_ok_part [OF assms(3)] by (intro provider_ok_episode_part [OF assms(1,2)]) (simp_all add: provider_ok_def)

lemma provider_ok_blob:
  assumes "provider_ok m" "episode_part m' = episode_part m \<and> history_keys m' = history_keys m" "blobs_ok m'"
  shows "provider_ok m'"
  using assms history_ok_keys [of m' m] by (intro provider_ok_episode_part [OF assms(1)]) (simp_all add: provider_ok_def)

lemma provider_step_ok:
  assumes ok: "provider_ok m" and fresh: "op_fresh op m"
  shows "provider_ok (provider_step digest op m)"
proof -
  have parts: "blobs_ok m" "history_ok m" "episodes_ok m" "int (length (closed_episodes m)) \<le> closed_limit m"
    using ok by (simp_all add: provider_ok_def)
  show ?thesis
  proof (cases op)
    case (OpWriteBlob t n d)
    then show ?thesis using provider_ok_blob [OF ok blob_steps_part(1)] parts by (simp add: blobs_ok_Write)
  next
    case (OpCreateBlob t n d)
    then show ?thesis using provider_ok_blob [OF ok blob_steps_part(2)] parts by (simp add: blobs_ok_Create)
  next
    case (OpSwapBlob t n e r)
    then show ?thesis using provider_ok_blob [OF ok blob_steps_part(3)] parts by (simp add: blobs_ok_CAS)
  next
    case (OpSaveIncident rec)
    then show ?thesis using provider_ok_history [OF ok] history_steps_part(1) parts
      by (simp add: history_ok_SaveIncident)
  next
    case (OpSaveDetection ro)
    have "provider_ok m'" if "SaveDetectionIncident ro m = Inr m'" for m'
      using history_steps_part(2) [OF that] history_ok_SaveDetectionIncident [OF parts(2) that]
      by (intro provider_ok_history [OF ok]) simp_all
    then show ?thesis using OpSaveDetection ok by (simp add: keep_on_error_def split: sum.split)
  next
    case (OpAck i t)
    have "provider_ok m'" if "UpdateIncidentAck i t m = Inr m'" for m'
      using history_steps_part(3) [OF that] history_ok_Ack [OF parts(2) that]
      by (intro provider_ok_history [OF ok]) simp_all
    then show ?thesis using OpAck ok by (simp add: keep_on_error_def split: sum.split)
  next
    case (OpSaveAnalysis ra)
    have "provider_ok m'" if "SaveAnalysis ra m = Inr m'" for m'
      using history_steps_part(4) [OF that] history_ok_SaveAnalysis [OF parts(2) that]
      by (intro provider_ok_history [OF ok]) simp_all
    then show ?thesis using OpSaveAnalysis ok by (simp add: keep_on_error_def split: sum.split)
  next
    case (OpDeleteAnalysis i)
    have "provider_ok m'" if "DeleteAnalysis i m = Inr m'" for m'
      using history_steps_part(5) [OF that] history_ok_Delete [OF parts(2), of DomainAnalyses i m'] that
      by (intro provider_ok_history [OF ok]) (simp_all add: DeleteByID_def)
    then show ?thesis using OpDeleteAnalysis ok by (simp add: keep_on_error_def split: sum.split)
  next
    case (OpPurge d c)
    have "provider_ok m'" if "PurgeOlderThan d c m = Inr (n, m')" for n m'
      using lifecycle_part(1) [OF that] history_ok_Purge [OF parts(2) that] parts(1)
      by (intro provider_ok_episode_part [OF ok]) auto
    then show ?thesis using OpPurge ok
      by (cases "PurgeOlderThan d c m") (auto simp: keep_on_error_def)
  next
    case (OpDelete d i)
    have "provider_ok m'" if "DeleteByID d i m = Inr m'" for m'
      using lifecycle_part(2) [OF that] history_ok_Delete [OF parts(2) that] parts(1)
      by (intro provider_ok_episode_part [OF ok]) auto
    then show ?thesis using OpDelete ok by (simp add: keep_on_error_def split: sum.split)
  next
    case (OpRecord clock fr oc)
    then show ?thesis
      using fresh provider_ok_rest [OF ok episode_steps_rest(1)] episodes_ok_Record [OF parts(3)]
        closed_bound_pruning(1) [OF parts(3,4)] by simp
  next
    case (OpRenew clock rn)
    then show ?thesis
      using provider_ok_rest [OF ok episode_steps_rest(2)] episodes_ok_Renew [OF parts(3)]
        closed_steps(1) [OF parts(3,4)] by simp
  next
    case (OpComplete dc)
    then show ?thesis
      using provider_ok_rest [OF ok episode_steps_rest(3)] episodes_ok_Complete [OF parts(3)]
        closed_steps(2) [OF parts(3,4)] by simp
  next
    case (OpClose clock i t)
    then show ?thesis
      using provider_ok_rest [OF ok episode_steps_rest(4)] episodes_ok_CloseBy [OF parts(3)]
        closed_bound_pruning(2) [OF parts(3,4)] by simp
  qed
qed

lemma provider_reach_ok: "provider_reach digest m \<Longrightarrow> provider_ok m"
  by (induction rule: provider_reach.induct) (simp_all add: provider_ok_New provider_step_ok)

subsection \<open>Facts about one recorded occurrence\<close>

lemma coalesce_claimed:
  assumes "at_ok f (Some ep) ms" "fr_Token fr \<noteq> []" "0 < oc_Frequency oc" "0 < lease"
    and d: "(d, m1) = coalesce oc now lease fr ep ms" and "dd_NotificationClaimed d"
  shows "ep_PendingToken ep = [] \<or> \<not> now < ep_PendingExpiresAt ep"
    and "\<exists>ep'. ep_at m1 (dd_EpisodeID d) = Some ep' \<and> ep_ClosedAt ep' = None \<and>
      ep_PendingToken ep' = dd_ClaimToken d \<and> dd_ClaimToken d = fr_Token fr \<and>
      SeverityRank (ep_HighestHandledSeverity ep') < SeverityRank (ep_PendingSeverity ep') \<and>
      ep_PendingExpiresAt ep' = now + lease"
proof -
  let ?o = "observe oc now ep"
  have ms: "episodes_ok ms" "ep_at ms (ep_EpisodeID ep) = Some ep" using assms(1) by (simp_all add: at_ok_Some)
  have inv: "ep_inv ?o" using ep_inv_observe [OF episodes_okD(5) [OF ms] assms(3)] .
  have d': "d = fst (coalesce oc now lease fr ep ms)" and m1: "m1 = snd (coalesce oc now lease fr ep ms)"
    using d by (metis fst_conv, metis snd_conv)
  have claim: "\<not> oc_ExistingOnly oc" "fst (choose_claim now ?o) \<noteq> NoKind"
    using assms(6) by (simp_all add: d' coalesce_fst)
  note hi = choose_claim_higher [OF inv claim(2)]
  show "ep_PendingToken ep = [] \<or> \<not> now < ep_PendingExpiresAt ep" using hi(3) by simp
  obtain kind action ep2 where c: "choose_claim now ?o = (kind, action, ep2)" by (cases "choose_claim now ?o")
  have ep2: "ep_EpisodeID ep2 = ep_EpisodeID ep" "ep_ClosedAt ep2 = ep_ClosedAt ep"
    "ep_HighestHandledSeverity ep2 = ep_HighestHandledSeverity ?o"
    "ep_HighestObservedSeverity ep2 = ep_HighestObservedSeverity ?o"
    using choose_claim_simps [of now ?o] by (simp_all add: c)
  have st: "m1 = put_episode (snd (claimDetectionNotification ep2 oc now lease kind fr)) ms"
    using claim c by (simp add: m1 coalesce_state claimed_episode_def)
  have tok: "dd_ClaimToken d = fr_Token fr" "dd_EpisodeID d = ep_EpisodeID ep"
    using claim c by (simp_all add: d' coalesce_fst) (simp add: coalesce_decision Let_def)
  show "\<exists>ep'. ep_at m1 (dd_EpisodeID d) = Some ep' \<and> ep_ClosedAt ep' = None \<and>
      ep_PendingToken ep' = dd_ClaimToken d \<and> dd_ClaimToken d = fr_Token fr \<and>
      SeverityRank (ep_HighestHandledSeverity ep') < SeverityRank (ep_PendingSeverity ep') \<and>
      ep_PendingExpiresAt ep' = now + lease"
    using hi(1) assms(1) by (simp add: st tok ep_at_put ep2 at_ok_Some)
qed

subsection \<open>What a run may change about one episode\<close>












lemma claimed_handled [simp]:
  "ep_HighestHandledSeverity (claimed_episode oc now lease fr ep) = ep_HighestHandledSeverity ep"
  by (simp add: claimed_episode_def Let_def split_beta)














subsection \<open>Properties\<close>

definition sample_identity :: DetectionIdentity where
  "sample_identity = \<lparr>id_Version = [], id_AgentKind = ''logs'', id_Source = ''es'', id_Service = ''api'',
     id_SignalKind = ''pattern'', id_ConditionKey = ''p1''\<rparr>"

definition sample_occurrence :: "time \<Rightarrow> string \<Rightarrow> DetectionOccurrence" where
  "sample_occurrence now severity =
     \<lparr>oc_Identity = sample_identity, oc_Frequency = 2, oc_Severity = severity, oc_ReceivedAt = now,
      oc_QuietPeriod = 0, oc_ClaimOwner = [], oc_ClaimLease = 0, oc_ExistingOnly = False\<rparr>"

definition sample_fresh :: "char \<Rightarrow> fresh_ids" where
  "sample_fresh c = \<lparr>fr_EpisodeID = [CHR ''e'', c], fr_IncidentID = [CHR ''i'', c],
     fr_Owner = [CHR ''o'', c], fr_Token = [CHR ''t'', c]\<rparr>"

definition sample_opened :: memoryProvider where
  "sample_opened =
     snd (RecordDetectionOccurrence id_ConditionKey 0 (sample_fresh CHR ''1'') (sample_occurrence 100 ''low'') NewMemory)"

lemma sample_fresh_New: "fresh_ok (sample_fresh c) NewMemory"
  by (simp add: fresh_ok_def sample_fresh_def ep_at_def NewMemory_def)

lemma sample_opened_reach: "provider_reach id_ConditionKey sample_opened"
proof -
  have "provider_reach id_ConditionKey (provider_step id_ConditionKey
      (OpRecord 0 (sample_fresh CHR ''1'') (sample_occurrence 100 ''low'')) NewMemory)"
    by (rule reach_step [OF reach_new]) (simp add: sample_fresh_New)
  then show ?thesis by (simp add: sample_opened_def)
qed

lemma sample_opened_ok: "episodes_ok sample_opened"
  using provider_reach_ok [OF sample_opened_reach] by (simp add: provider_ok_def)

text \<open>
  C1: In every state the provider can reach, through any sequence of its calls, the index of blob
  names is the sorted key set, record ids are unique, each detection fingerprint has at most one
  open episode and it is the active one, the severities of every episode are ordered, and no more
  closed episodes are kept than the limit.
\<close>

theorem provider_invariant:
  assumes "provider_reach digest m"
  shows "sorted (mp_blobNames m) \<and> distinct (mp_blobNames m) \<and>
    set (mp_blobNames m) = set (map fst (mp_blobs m)) \<and>
    distinct (map ir_ID (mp_incidents m)) \<and> distinct (map an_ID (mp_analyses m)) \<and>
    (\<forall>ep. ep_at m (ep_EpisodeID ep) = Some ep \<and> ep_ClosedAt ep = None \<longrightarrow>
       act_at m (ep_Fingerprint ep) = Some (ep_EpisodeID ep)) \<and>
    (\<forall>i ep. ep_at m i = Some ep \<longrightarrow> ep_EpisodeID ep = i \<and>
       SeverityRank (ep_HighestNotifiedSeverity ep) \<le> SeverityRank (ep_HighestHandledSeverity ep) \<and>
       SeverityRank (ep_HighestHandledSeverity ep) \<le> SeverityRank (ep_HighestObservedSeverity ep)) \<and>
    int (length (filter (\<lambda>ep. ep_ClosedAt ep \<noteq> None) (map snd (mp_episodes m)))) \<le> closed_limit m"
proof -
  have ok: "blobs_ok m" "history_ok m" "episodes_ok m"
    and bound: "int (length (closed_episodes m)) \<le> closed_limit m"
    using provider_reach_ok [OF assms] by (simp_all add: provider_ok_def)
  have names: "set (mp_blobNames m) = set (map fst (mp_blobs m))"
    using ok(1) by (simp add: blobs_ok_def dom_map_of_conv_image_fst)
  have sev: "ep_EpisodeID ep = i \<and>
       SeverityRank (ep_HighestNotifiedSeverity ep) \<le> SeverityRank (ep_HighestHandledSeverity ep) \<and>
       SeverityRank (ep_HighestHandledSeverity ep) \<le> SeverityRank (ep_HighestObservedSeverity ep)"
    if "ep_at m i = Some ep" for i ep
    using episodes_okD(3,5) [OF ok(3) that] by (simp add: ep_inv_def ep_sev_def)
  show ?thesis
    using ok(1,2) episodes_okD(6) [OF ok(3)] names sev bound
    unfolding closed_episodes_def by (auto simp only: blobs_ok_def history_ok_def)
qed

theorem provider_invariant_witness:
  "act_at sample_opened ''p1'' = Some ''e1'' \<and> mp_blobNames sample_opened = [] \<and>
   (\<exists>ep. ep_at sample_opened ''e1'' = Some ep \<and>
     SeverityRank (ep_HighestHandledSeverity ep) \<le> SeverityRank (ep_HighestObservedSeverity ep))"
proof -
  have "map_option ep_EpisodeID (ep_at sample_opened ''e1'') = Some ''e1''" by code_simp
  then obtain ep where "ep_at sample_opened ''e1'' = Some ep" by blast
  moreover have "act_at sample_opened ''p1'' = Some ''e1''" by code_simp
  moreover have "mp_blobNames sample_opened = []" by code_simp
  ultimately show ?thesis using provider_invariant [OF sample_opened_reach] by blast
qed

text \<open>
  C2: A notification claim is exclusive. An occurrence is handed the claim of an episode only if
  the episode had no claim pending or the pending one had expired; the episode then holds the
  fresh token it was given, until the lease runs out, for a severity above everything already
  handled.
\<close>

theorem claim_exclusive:
  assumes "episodes_ok m" and "fresh_ok fr m"
    and "RecordDetectionOccurrence digest clock fr oc m = (Inr d, m')" and "dd_NotificationClaimed d"
  shows "(\<forall>ep. ep_at m (dd_EpisodeID d) = Some ep \<longrightarrow>
      ep_PendingToken ep = [] \<or> ep_PendingExpiresAt ep \<le> occurrence_time clock oc) \<and>
    (\<exists>ep'. ep_at m' (dd_EpisodeID d) = Some ep' \<and> ep_ClosedAt ep' = None \<and>
      ep_PendingToken ep' = dd_ClaimToken d \<and> dd_ClaimToken d = fr_Token fr \<and>
      occurrence_time clock oc < ep_PendingExpiresAt ep' \<and>
      SeverityRank (ep_HighestHandledSeverity ep') < SeverityRank (ep_PendingSeverity ep'))"
proof -
  let ?now = "occurrence_time clock oc"
  obtain f q lease e r ms m1 where
      "DetectionIdentityFingerprint digest (oc_Identity oc) = Some f" and rec: "0 < oc_Frequency oc"
      "settled f oc ?now q m = (e, r, ms)" "at_ok f e ms"
      "m' = pruneClosedDetectionEpisodes m1"
      "case e of None \<Rightarrow> \<not> oc_ExistingOnly oc \<and> (d, m1) = open_episode f oc ?now lease r fr ms
        | Some ep \<Rightarrow> (d, m1) = coalesce oc ?now lease fr ep ms"
      "q = (if oc_QuietPeriod oc \<le> 0 then DefaultDetectionEpisodeQuietPeriod else oc_QuietPeriod oc)"
      "0 < lease"
    by (rule Record_Inr [OF assms(1,3)])
  have dom: "ep_at ms i = None \<longleftrightarrow> ep_at m i = None" for i
    using settled_ok(2) [OF assms(1), of f oc ?now q i] rec(2) by simp
  have fr: "fresh_ok fr ms" using assms(2) dom by (simp add: fresh_ok_def)
  show ?thesis
  proof (cases e)
    case None
    then have d: "(d, m1) = open_episode f oc ?now lease r fr ms" and ms: "episodes_ok ms" "act_at ms f = None"
      using rec(3,5) by (simp_all add: at_ok_None)
    have ok1: "episodes_ok m1"
      using open_episode_ok [OF ms fr rec(1), of ?now lease r] by (simp add: d [symmetric])
    from open_episode_result [OF d] obtain ep where ep: "ep_at m1 (dd_EpisodeID d) = Some ep"
        "dd_EpisodeID d = fr_EpisodeID fr" "ep_ClosedAt ep = None" "ep_PendingToken ep = fr_Token fr"
        "dd_ClaimToken d = fr_Token fr" "ep_PendingExpiresAt ep = ?now + lease"
        "ep_HighestHandledSeverity ep = []" "0 < SeverityRank (ep_PendingSeverity ep)" by blast
    then have "ep_at m' (dd_EpisodeID d) = Some ep" using open_not_pruned [OF ok1] rec(4) by simp
    then show ?thesis using ep rec(7) assms(2) by (auto simp: fresh_ok_def)
  next
    case (Some ep)
    then have d: "(d, m1) = coalesce oc ?now lease fr ep ms" and at: "at_ok f (Some ep) ms"
      using rec(3,5) by simp_all
    have tok: "fr_Token fr \<noteq> []" using assms(2) by (simp add: fresh_ok_def)
    note cl = coalesce_claimed [OF at tok rec(1,7) d assms(4)]
    have ok1: "episodes_ok m1" using coalesce_ok [OF at tok rec(1), of ?now lease] by (simp add: d [symmetric])
    have id: "dd_EpisodeID d = ep_EpisodeID ep" using coalesce_fst(1) [of oc ?now lease fr ep ms] by (simp add: d [symmetric])
    obtain ep0 idn where "ep_at m (ep_EpisodeID ep) = Some ep0" "ep = ep0\<lparr>ep_Identity := idn, ep_Fingerprint := f\<rparr>"
      using settled_same [OF assms(1)] rec(2) Some by blast
    then have "ep_at m (dd_EpisodeID d) = Some ep0" "ep_PendingToken ep0 = [] \<or> ep_PendingExpiresAt ep0 \<le> ?now"
      using cl(1) id by auto
    moreover obtain ep' where "ep_at m1 (dd_EpisodeID d) = Some ep'" "ep_ClosedAt ep' = None"
        "ep_PendingToken ep' = dd_ClaimToken d" "dd_ClaimToken d = fr_Token fr"
        "SeverityRank (ep_HighestHandledSeverity ep') < SeverityRank (ep_PendingSeverity ep')"
        "ep_PendingExpiresAt ep' = ?now + lease" using cl(2) by blast
    ultimately show ?thesis using open_not_pruned [OF ok1] rec(4,7) by auto
  qed
qed

theorem claim_exclusive_witness:
  "\<exists>d m'. RecordDetectionOccurrence id_ConditionKey 0 (sample_fresh CHR ''1'') (sample_occurrence 100 ''low'') NewMemory
       = (Inr d, m') \<and>
     (\<exists>ep'. ep_at m' (dd_EpisodeID d) = Some ep' \<and> ep_PendingToken ep' = ''t1'' \<and> 100 < ep_PendingExpiresAt ep')"
proof -
  let ?r = "RecordDetectionOccurrence id_ConditionKey 0 (sample_fresh CHR ''1'') (sample_occurrence 100 ''low'') NewMemory"
  have "map_sum (\<lambda>e. ()) dd_NotificationClaimed (fst ?r) = Inr True" by code_simp
  then obtain d where d: "fst ?r = Inr d" "dd_NotificationClaimed d" by (cases "fst ?r") auto
  then have r: "?r = (Inr d, snd ?r)" by (metis prod.collapse)
  have "occurrence_time 0 (sample_occurrence 100 ''low'') = 100" "fr_Token (sample_fresh CHR ''1'') = ''t1''"
    by code_simp+
  with claim_exclusive [OF episodes_ok_New sample_fresh_New r d(2)]
  obtain ep' where "ep_at (snd ?r) (dd_EpisodeID d) = Some ep'" "ep_PendingToken ep' = ''t1''"
      "100 < ep_PendingExpiresAt ep'" by metis
  with r show ?thesis by blast
qed




text \<open>
  Completing a claim settles it once. A refused completion changes nothing; an accepted one may
  be repeated without effect; the one that went through cleared the claim, so that every other
  token is refused from then on until a new claim is made.
\<close>

theorem CompleteDetectionNotification_once:
  assumes "episodes_ok m" and "CompleteDetectionNotification dc m = (err, m')"
  shows "(err \<noteq> None \<longrightarrow> m' = m) \<and>
    (err = None \<longrightarrow> CompleteDetectionNotification dc m' = (None, m')) \<and>
    (err = None \<and> m' \<noteq> m \<longrightarrow>
       (\<forall>token. token \<noteq> dc_ClaimToken dc \<longrightarrow>
          CompleteDetectionNotification (dc\<lparr>dc_ClaimToken := token\<rparr>) m' = (Some ErrDetectionClaimLost, m')))"
proof (cases "ep_at m (dc_EpisodeID dc)")
  case None
  then show ?thesis using assms(2) by (simp add: CompleteDetectionNotification_def ep_at_def)
next
  case (Some ep)
  note id = episodes_okD(3) [OF assms(1) Some]
  let ?ep = "complete_episode dc ep"
  let ?m = "updateIncidentFromEpisode ?ep (put_episode ?ep m)"
  have at: "gm_get (mp_episodes ?m) (dc_EpisodeID dc) = Some ?ep"
    using id by (simp add: put_episode_def gm_simps)
  have fields: "ep_LastCompletedToken ?ep = dc_ClaimToken dc" "ep_PendingToken ?ep = []"
    by (simp_all add: complete_episode_def Let_def)
  have again: "CompleteDetectionNotification dc ?m = (None, ?m)" if "dc_ClaimToken dc \<noteq> []"
    using that at fields by (simp add: CompleteDetectionNotification_def)
  have other: "CompleteDetectionNotification (dc\<lparr>dc_ClaimToken := token\<rparr>) ?m = (Some ErrDetectionClaimLost, ?m)"
    if "token \<noteq> dc_ClaimToken dc" for token
    using that at fields by (auto simp: CompleteDetectionNotification_def)
  show ?thesis
    using assms(2) Some again other
    by (auto simp: CompleteDetectionNotification_def ep_at_def Let_def split: if_splits)
qed

theorem CompleteDetectionNotification_once_witness:
  "fst (CompleteDetectionNotification
       \<lparr>dc_EpisodeID = ''e1'', dc_ClaimToken = ''t1'', dc_Outcome = ''sent'', dc_CompletedAt = 101\<rparr> sample_opened) = None \<and>
   (let m' = snd (CompleteDetectionNotification
       \<lparr>dc_EpisodeID = ''e1'', dc_ClaimToken = ''t1'', dc_Outcome = ''sent'', dc_CompletedAt = 101\<rparr> sample_opened)
    in CompleteDetectionNotification
       \<lparr>dc_EpisodeID = ''e1'', dc_ClaimToken = ''t1'', dc_Outcome = ''sent'', dc_CompletedAt = 101\<rparr> m' = (None, m'))"
proof -
  let ?dc = "\<lparr>dc_EpisodeID = ''e1'', dc_ClaimToken = ''t1'', dc_Outcome = ''sent'', dc_CompletedAt = 101\<rparr>"
  let ?r = "CompleteDetectionNotification ?dc sample_opened"
  have none: "fst ?r = None" by code_simp
  then have "?r = (None, snd ?r)" by (metis prod.collapse)
  then show ?thesis
    using CompleteDetectionNotification_once [OF sample_opened_ok] none by (metis (no_types, lifting))
qed

text \<open>
  C4: Every accepted occurrence is counted in one open episode: the active episode of the
  fingerprint afterwards, whose count is its old count (nothing if it is new) plus the frequency,
  which is also the count the decision reports. With the ExistingOnly flag the occurrence neither
  opens an episode nor claims a notification.
\<close>

theorem occurrences_counted:
  assumes "episodes_ok m" and "fresh_ok fr m"
    and "RecordDetectionOccurrence digest clock fr oc m = (Inr d, m')"
  shows "\<exists>ep' f. DetectionIdentityFingerprint digest (oc_Identity oc) = Some f \<and>
    act_at m' f = Some (dd_EpisodeID d) \<and> ep_at m' (dd_EpisodeID d) = Some ep' \<and> ep_ClosedAt ep' = None \<and>
    ep_OccurrenceCount ep' = dd_OccurrenceCount d \<and>
    dd_OccurrenceCount d = oc_Frequency oc +
      (case ep_at m (dd_EpisodeID d) of None \<Rightarrow> 0 | Some ep \<Rightarrow> ep_OccurrenceCount ep) \<and>
    (oc_ExistingOnly oc \<longrightarrow> ep_at m (dd_EpisodeID d) \<noteq> None \<and> \<not> dd_NotificationClaimed d)"
proof -
  let ?now = "occurrence_time clock oc"
  obtain f q lease e r ms m1 where
      fp: "DetectionIdentityFingerprint digest (oc_Identity oc) = Some f" and rec: "0 < oc_Frequency oc"
      "settled f oc ?now q m = (e, r, ms)" "at_ok f e ms"
      "m' = pruneClosedDetectionEpisodes m1"
      "case e of None \<Rightarrow> \<not> oc_ExistingOnly oc \<and> (d, m1) = open_episode f oc ?now lease r fr ms
        | Some ep \<Rightarrow> (d, m1) = coalesce oc ?now lease fr ep ms"
      "q = (if oc_QuietPeriod oc \<le> 0 then DefaultDetectionEpisodeQuietPeriod else oc_QuietPeriod oc)"
      "0 < lease"
    by (rule Record_Inr [OF assms(1,3)])
  have dom: "ep_at ms i = None \<longleftrightarrow> ep_at m i = None" for i
    using settled_ok(2) [OF assms(1), of f oc ?now q i] rec(2) by simp
  have fr: "fresh_ok fr ms" using assms(2) dom by (simp add: fresh_ok_def)
  show ?thesis
  proof (cases e)
    case None
    then have d: "(d, m1) = open_episode f oc ?now lease r fr ms" and ms: "episodes_ok ms" "act_at ms f = None"
      and eo: "\<not> oc_ExistingOnly oc"
      using rec(3,5) by (simp_all add: at_ok_None)
    have ok1: "episodes_ok m1"
      using open_episode_ok [OF ms fr rec(1), of ?now lease r] by (simp add: d [symmetric])
    from open_episode_result [OF d] obtain ep where ep: "ep_at m1 (dd_EpisodeID d) = Some ep"
        "dd_EpisodeID d = fr_EpisodeID fr" "ep_ClosedAt ep = None" "act_at m1 f = Some (dd_EpisodeID d)"
        "ep_OccurrenceCount ep = oc_Frequency oc" "dd_OccurrenceCount d = oc_Frequency oc" by blast
    have "ep_at m' (dd_EpisodeID d) = Some ep" using open_not_pruned [OF ok1] rec(4) ep by simp
    then show ?thesis using ep rec(4) fp eo assms(2) by (auto simp: fresh_ok_def)
  next
    case (Some ep)
    then have d: "(d, m1) = coalesce oc ?now lease fr ep ms" and at: "at_ok f (Some ep) ms"
      using rec(3,5) by simp_all
    have tok: "fr_Token fr \<noteq> []" using assms(2) by (simp add: fresh_ok_def)
    have ok1: "episodes_ok m1" using coalesce_ok [OF at tok rec(1), of ?now lease] by (simp add: d [symmetric])
    have d': "dd_EpisodeID d = ep_EpisodeID ep" "dd_OccurrenceCount d = ep_OccurrenceCount ep + oc_Frequency oc"
      "oc_ExistingOnly oc \<Longrightarrow> \<not> dd_NotificationClaimed d"
      using coalesce_fst [of oc ?now lease fr ep ms] by (simp_all add: d [symmetric])
    obtain ep0 idn where ep0: "ep_at m (ep_EpisodeID ep) = Some ep0" "ep = ep0\<lparr>ep_Identity := idn, ep_Fingerprint := f\<rparr>"
      using settled_same [OF assms(1)] rec(2) Some by blast
    let ?ep' = "if oc_ExistingOnly oc then observe oc ?now ep else claimed_episode oc ?now lease fr (observe oc ?now ep)"
    have m1: "m1 = snd (coalesce oc ?now lease fr ep ms)" using d by (metis snd_conv)
    have at1: "ep_at m1 (ep_EpisodeID ep) = Some ?ep'" by (simp add: m1 coalesce_state ep_at_put)
    have cnt: "ep_OccurrenceCount ?ep' = ep_OccurrenceCount ep + oc_Frequency oc"
      by (simp add: claimed_episode_def Let_def split_beta) (simp add: claimDetectionNotification_def Let_def)
    have open1: "ep_ClosedAt ?ep' = None" "ep_Fingerprint ?ep' = f" using at by (simp_all add: at_ok_Some)
    then have act: "act_at m1 f = Some (ep_EpisodeID ep)" using episodes_okD(6) [OF ok1 at1] by simp
    have "ep_at m' (ep_EpisodeID ep) = Some ?ep'" using open_not_pruned [OF ok1 at1 open1(1)] rec(4) by simp
    moreover have "ep_OccurrenceCount ep0 = ep_OccurrenceCount ep" using ep0(2) by simp
    ultimately show ?thesis using fp act open1 cnt d' ep0(1) rec(4) by auto
  qed
qed

theorem occurrences_counted_witness:
  "\<exists>d m'. RecordDetectionOccurrence id_ConditionKey 0 (sample_fresh CHR ''2'') (sample_occurrence 102 ''low'') sample_opened
       = (Inr d, m') \<and> dd_EpisodeID d = ''e1'' \<and> dd_OccurrenceCount d = 4 \<and> act_at m' ''p1'' = Some ''e1''"
proof -
  let ?r = "RecordDetectionOccurrence id_ConditionKey 0 (sample_fresh CHR ''2'') (sample_occurrence 102 ''low'') sample_opened"
  have "map_sum (\<lambda>e. ()) (\<lambda>d. (dd_EpisodeID d, dd_OccurrenceCount d)) (fst ?r) = Inr (''e1'', 4)" by code_simp
  then obtain d where d: "fst ?r = Inr d" "dd_EpisodeID d = ''e1''" "dd_OccurrenceCount d = 4" by (cases "fst ?r") auto
  then have r: "?r = (Inr d, snd ?r)" by (metis prod.collapse)
  have fr: "fresh_ok (sample_fresh CHR ''2'') sample_opened" by code_simp
  have "DetectionIdentityFingerprint id_ConditionKey (oc_Identity (sample_occurrence 102 ''low'')) = Some ''p1''"
    by code_simp
  with occurrences_counted [OF sample_opened_ok fr r] have "act_at (snd ?r) ''p1'' = Some (dd_EpisodeID d)" by auto
  with r d show ?thesis by metis
qed

text \<open>
  Pruning forgets only old closed episodes: open ones and the map of active ones stay, at most
  the limit of closed episodes remains, and none of those forgotten was closed later than one that
  is kept.
\<close>

theorem prune_keeps_latest:
  assumes "episodes_ok m"
  shows "episodes_ok (pruneClosedDetectionEpisodes m) \<and>
    int (length (closed_episodes (pruneClosedDetectionEpisodes m))) \<le> closed_limit m \<and>
    (\<forall>i ep. ep_at m i = Some ep \<and> ep_at (pruneClosedDetectionEpisodes m) i = None \<longrightarrow>
       ep_ClosedAt ep \<noteq> None \<and>
       (\<forall>ep' \<in> set (closed_episodes (pruneClosedDetectionEpisodes m)). the (ep_ClosedAt ep) \<le> the (ep_ClosedAt ep')))"
proof -
  let ?n = "length (closed_episodes m) - nat (closed_limit m)"
  let ?key = "\<lambda>ep. the (ep_ClosedAt ep)"
  let ?s = "sort_key ?key (closed_episodes m)"
  have late: "?key ep \<le> ?key ep'"
    if late_prem: "ep_at m i = Some ep" "i \<in> set (prune_victims m)" "ep' \<in> set (closed_episodes (pruneClosedDetectionEpisodes m))"
    for i ep ep'
  proof -
    obtain ep1 where ep1: "ep1 \<in> set (take ?n ?s)" "ep_EpisodeID ep1 = i"
      using late_prem(2) by (auto simp: prune_victims_def Let_def)
    then have "ep1 \<in> set (closed_episodes m)" by (metis in_set_takeD set_sort)
    then have "ep_at m i = Some ep1" using in_episodes [OF assms, of ep1] ep1(2) by (auto simp: closed_episodes_def)
    then have "ep1 = ep" using late_prem(1) by simp
    moreover have "ep' \<in> set (drop ?n ?s)"
      using late_prem(3) closed_after_prune [OF assms] by (metis set_mset_mset)
    moreover have "sorted (map ?key (take ?n ?s) @ map ?key (drop ?n ?s))"
      by (metis append_take_drop_id map_append sorted_sort_key)
    ultimately show ?thesis using ep1(1) by (auto simp only: sorted_append set_map)
  qed
  have victim: "i \<in> set (prune_victims m)"
    if "ep_at m i = Some ep" "ep_at (pruneClosedDetectionEpisodes m) i = None" for i ep
    using that by (auto simp: gm_simps split: if_splits)
  then have "ep_ClosedAt ep \<noteq> None"
    if "ep_at m i = Some ep" "ep_at (pruneClosedDetectionEpisodes m) i = None" for i ep
    using that prune_victims_closed [OF assms, of i] by fastforce
  then show ?thesis
    using episodes_ok_prune [OF assms] closed_count_prune [OF assms] late victim by blast
qed

theorem prune_keeps_latest_witness:
  "episodes_ok (pruneClosedDetectionEpisodes sample_opened) \<and>
   closed_episodes (pruneClosedDetectionEpisodes sample_opened) = []"
proof -
  have "closed_episodes (pruneClosedDetectionEpisodes sample_opened) = []" by code_simp
  then show ?thesis using prune_keeps_latest [OF sample_opened_ok] by blast
qed

end
