(* ===== verification/Model_Store.thy ===== *)
theory Model_Store
  imports History_Store
begin

text \<open>
  The learned-state store (\<open>pkg/storage/modelstate.go\<close>): artifacts kept as blobs under
  \<open>models/<org>/<agent>/<key>\<close>.

  The store is a client of the blob capabilities of a provider, which its definitions take as
  functions; the lemmas hold for every provider that meets the contracts of \<open>Blob_Interfaces\<close> and
  are read off for the in-memory provider. The JSON encoding of an artifact is a pair of functions
  \<open>enc\<close> and \<open>dec\<close>.
\<close>

subsection \<open>Operations\<close>

record ModelState =
  ms_OrgID :: string
  ms_Agent :: string
  ms_Key :: string
  ms_Version :: int
  ms_UpdatedAt :: time
  ms_Data :: string

record ModelStatePage =
  mg_States :: "ModelState list"
  mg_Next :: string
  mg_Scanned :: int
  mg_Bytes :: int
  mg_Done :: bool

definition ModelStateNamespace :: string where
  "ModelStateNamespace = ''models''"

definition bad_component :: "string \<Rightarrow> bool" where
  "bad_component c \<longleftrightarrow> c = [] \<or> CHR ''/'' \<in> set c \<or> CHR 0x5C \<in> set c \<or> sublist ''..'' c"

definition modelBlobName :: "string \<Rightarrow> string \<Rightarrow> string \<Rightarrow> storage_error + string" where
  "modelBlobName orgID agent key =
     (let org = NormalizeOrgID orgID in
      if list_ex bad_component [org, agent, key] then Inl ErrInvalidModelKey
      else Inr (ModelStateNamespace @ ''/'' @ org @ ''/'' @ agent @ ''/'' @ key))"

definition model_prefix :: "string \<Rightarrow> string \<Rightarrow> storage_error + string" where
  "model_prefix orgID agent =
     (let org = NormalizeOrgID orgID in
      if list_ex bad_component [org, agent] then Inl ErrInvalidModelKey
      else Inr (ModelStateNamespace @ ''/'' @ org @ ''/'' @ agent @ ''/''))"

definition ms_Put ::
  "(time \<Rightarrow> string \<Rightarrow> string \<Rightarrow> 's \<Rightarrow> 's) \<Rightarrow> (ModelState \<Rightarrow> string) \<Rightarrow> time \<Rightarrow>
   string \<Rightarrow> string \<Rightarrow> string \<Rightarrow> int \<Rightarrow> string \<Rightarrow> 's \<Rightarrow> storage_error + 's" where
  "ms_Put wr enc now orgID agent key version data s =
     (case modelBlobName orgID agent key of
        Inl e \<Rightarrow> Inl e
      | Inr name \<Rightarrow>
          Inr (wr now name (enc \<lparr>ms_OrgID = NormalizeOrgID orgID, ms_Agent = agent, ms_Key = key,
             ms_Version = version, ms_UpdatedAt = now, ms_Data = data\<rparr>) s))"

definition ms_Get ::
  "('s \<Rightarrow> string \<Rightarrow> string option) \<Rightarrow> (string \<Rightarrow> ModelState option) \<Rightarrow>
   string \<Rightarrow> string \<Rightarrow> string \<Rightarrow> 's \<Rightarrow> storage_error + ModelState option" where
  "ms_Get rd dec orgID agent key s =
     (case modelBlobName orgID agent key of
        Inl e \<Rightarrow> Inl e
      | Inr name \<Rightarrow>
          (case rd s name of
             None \<Rightarrow> Inr None
           | Some raw \<Rightarrow> (case dec raw of None \<Rightarrow> Inl ErrDecode | Some ms \<Rightarrow> Inr (Some ms))))"

fun decode_all :: "(string \<Rightarrow> ModelState option) \<Rightarrow> (string \<times> string) list \<Rightarrow> storage_error + ModelState list" where
  "decode_all dec [] = Inr []"
| "decode_all dec ((n, d) # bs) =
     (case dec d of
        None \<Rightarrow> Inl ErrDecode
      | Some ms \<Rightarrow> map_sum id (\<lambda>out. ms # out) (decode_all dec bs))"

definition ms_List ::
  "('s \<Rightarrow> string \<Rightarrow> (string \<times> string) list) \<Rightarrow> (string \<Rightarrow> ModelState option) \<Rightarrow>
   string \<Rightarrow> string \<Rightarrow> 's \<Rightarrow> storage_error + ModelState list" where
  "ms_List ls dec orgID agent s =
     (case model_prefix orgID agent of
        Inl e \<Rightarrow> Inl e
      | Inr pre \<Rightarrow> decode_all dec (ls s pre))"

definition ms_Purge ::
  "(string \<Rightarrow> 's \<Rightarrow> storage_error + 's) option \<Rightarrow> string \<Rightarrow> string \<Rightarrow> string \<Rightarrow> 's \<Rightarrow> storage_error + 's" where
  "ms_Purge deleter orgID agent key s =
     (case modelBlobName orgID agent key of
        Inl e \<Rightarrow> Inl e
      | Inr name \<Rightarrow> (case deleter of None \<Rightarrow> Inl ErrUnsupported | Some del \<Rightarrow> del name s))"

text \<open>
  The context is checked before each blob of the page; an artifact that does not decode is skipped.
\<close>

fun decode_page ::
  "(nat \<Rightarrow> bool) \<Rightarrow> nat \<Rightarrow> (string \<Rightarrow> ModelState option) \<Rightarrow> (string \<times> string) list \<Rightarrow> ModelState list option" where
  "decode_page ctx i dec [] = Some []"
| "decode_page ctx i dec ((n, d) # bs) =
     (if ctx i then None
      else case decode_page ctx (i + 1) dec bs of
        None \<Rightarrow> None
      | Some out \<Rightarrow> Some (case dec d of None \<Rightarrow> out | Some ms \<Rightarrow> ms # out))"

definition ms_ListPageBounded ::
  "('s \<Rightarrow> string \<Rightarrow> string \<Rightarrow> int \<Rightarrow> storage_error + BlobPage) option \<Rightarrow> (nat \<Rightarrow> bool) \<Rightarrow>
   (string \<Rightarrow> ModelState option) \<Rightarrow> string \<Rightarrow> string \<Rightarrow> string \<Rightarrow> int \<Rightarrow> 's \<Rightarrow> storage_error + ModelStatePage" where
  "ms_ListPageBounded lister ctx dec orgID agent cursor limit s =
     (case model_prefix orgID agent of
        Inl e \<Rightarrow> Inl e
      | Inr pre \<Rightarrow>
          if limit \<le> 0
          then Inr \<lparr>mg_States = [], mg_Next = [], mg_Scanned = 0, mg_Bytes = 0, mg_Done = True\<rparr>
          else case lister of
                 None \<Rightarrow> Inl ErrUnsupported
               | Some list_page \<Rightarrow>
                   (case list_page s pre cursor limit of
                      Inl e \<Rightarrow> Inl e
                    | Inr page \<Rightarrow>
                        (case decode_page ctx 0 dec (bp_Blobs page) of
                           None \<Rightarrow> Inl ErrCanceled
                         | Some out \<Rightarrow>
                             Inr \<lparr>mg_States = out, mg_Next = bp_Next page,
                                  mg_Scanned = bp_Scanned page, mg_Bytes = bp_Bytes page,
                                  mg_Done = bp_Done page\<rparr>)))"

definition ms_ListPage ::
  "('s \<Rightarrow> string \<Rightarrow> string \<Rightarrow> int \<Rightarrow> storage_error + BlobPage) option \<Rightarrow> (nat \<Rightarrow> bool) \<Rightarrow>
   (string \<Rightarrow> ModelState option) \<Rightarrow> string \<Rightarrow> string \<Rightarrow> string \<Rightarrow> int \<Rightarrow> 's \<Rightarrow>
   storage_error + ModelState list \<times> string" where
  "ms_ListPage lister ctx dec orgID agent cursor limit s =
     map_sum id (\<lambda>p. (mg_States p, mg_Next p)) (ms_ListPageBounded lister ctx dec orgID agent cursor limit s)"

subsection \<open>Names of different artifacts are different\<close>

lemma slash_split:
  "CHR ''/'' \<notin> set a \<Longrightarrow> CHR ''/'' \<notin> set b \<Longrightarrow> a @ CHR ''/'' # x = b @ CHR ''/'' # y \<longleftrightarrow> a = b \<and> x = y"
proof (induction a arbitrary: b)
  case Nil
  then show ?case by (cases b) auto
next
  case (Cons c a)
  then show ?case by (cases b) auto
qed

lemma slash_prefix:
  "CHR ''/'' \<notin> set a \<Longrightarrow> CHR ''/'' \<notin> set b \<Longrightarrow>
   prefix (a @ CHR ''/'' # x) (b @ CHR ''/'' # y) \<longleftrightarrow> a = b \<and> prefix x y"
proof (induction a arbitrary: b)
  case Nil
  then show ?case by (cases b) auto
next
  case (Cons c a)
  then show ?case by (cases b) auto
qed

lemma modelBlobName_ok:
  "modelBlobName o1 a1 k1 = Inr n \<longleftrightarrow>
     \<not> bad_component (NormalizeOrgID o1) \<and> \<not> bad_component a1 \<and> \<not> bad_component k1 \<and>
     n = ''models/'' @ NormalizeOrgID o1 @ CHR ''/'' # a1 @ CHR ''/'' # k1"
  by (auto simp: modelBlobName_def Let_def ModelStateNamespace_def)

lemma model_prefix_ok:
  "model_prefix o1 a1 = Inr p \<longleftrightarrow> \<not> bad_component (NormalizeOrgID o1) \<and> \<not> bad_component a1 \<and>
     p = ''models/'' @ NormalizeOrgID o1 @ CHR ''/'' # a1 @ ''/''"
  by (auto simp: model_prefix_def Let_def ModelStateNamespace_def)

lemma modelBlobName_inj:
  assumes "modelBlobName o1 a1 k1 = Inr n" "modelBlobName o2 a2 k2 = Inr n"
  shows "NormalizeOrgID o1 = NormalizeOrgID o2 \<and> a1 = a2 \<and> k1 = k2"
  using assms by (auto simp: modelBlobName_ok bad_component_def slash_split)

lemma modelBlobName_prefix:
  assumes "modelBlobName o1 a1 k1 = Inr n" "model_prefix o2 a2 = Inr p"
  shows "prefix p n \<longleftrightarrow> NormalizeOrgID o1 = NormalizeOrgID o2 \<and> a1 = a2"
  using assms slash_prefix [of a2 a1 "[]" k1]
  by (auto simp: modelBlobName_ok model_prefix_ok bad_component_def slash_prefix)

lemma decode_all_spec:
  "decode_all dec bs =
     (if \<exists>b \<in> set bs. dec (snd b) = None then Inl ErrDecode
      else Inr (map (\<lambda>b. the (dec (snd b))) bs))"
  by (induction dec bs rule: decode_all.induct) (auto split: option.split)

subsection \<open>The store over any provider\<close>

context blob_lister
begin

lemma Get_after_Put:
  assumes s: "invar s" and put: "ms_Put wr enc now o1 a1 k1 v d s = Inr s'"
    and dec: "dec (enc \<lparr>ms_OrgID = NormalizeOrgID o1, ms_Agent = a1, ms_Key = k1, ms_Version = v,
        ms_UpdatedAt = now, ms_Data = d\<rparr>) = Some \<lparr>ms_OrgID = NormalizeOrgID o1, ms_Agent = a1, ms_Key = k1,
        ms_Version = v, ms_UpdatedAt = now, ms_Data = d\<rparr>"
  shows "invar s'"
    and "ms_Get rd dec o2 a2 k2 s' =
      (if NormalizeOrgID o2 = NormalizeOrgID o1 \<and> a2 = a1 \<and> k2 = k1
       then Inr (Some \<lparr>ms_OrgID = NormalizeOrgID o1, ms_Agent = a1, ms_Key = k1, ms_Version = v,
                       ms_UpdatedAt = now, ms_Data = d\<rparr>)
       else ms_Get rd dec o2 a2 k2 s)"
proof -
  obtain n where n: "modelBlobName o1 a1 k1 = Inr n"
    using put by (auto simp: ms_Put_def split: sum.splits)
  let ?ms = "\<lparr>ms_OrgID = NormalizeOrgID o1, ms_Agent = a1, ms_Key = k1, ms_Version = v,
                       ms_UpdatedAt = now, ms_Data = d\<rparr>"
  have s': "s' = wr now n (enc ?ms) s" using put n by (simp add: ms_Put_def)
  show "invar s'" using s by (simp add: s' write_invar)
  show "ms_Get rd dec o2 a2 k2 s' =
      (if NormalizeOrgID o2 = NormalizeOrgID o1 \<and> a2 = a1 \<and> k2 = k1
       then Inr (Some ?ms) else ms_Get rd dec o2 a2 k2 s)"
  proof (cases "NormalizeOrgID o2 = NormalizeOrgID o1 \<and> a2 = a1 \<and> k2 = k1")
    case True
    then have "modelBlobName o2 a2 k2 = Inr n" using n by (simp add: modelBlobName_def)
    then show ?thesis using True s dec by (simp add: ms_Get_def s' read_write)
  next
    case False
    then have "modelBlobName o2 a2 k2 \<noteq> Inr n" using modelBlobName_inj [OF _ n] by blast
    then show ?thesis using False s by (auto simp: ms_Get_def s' read_write split: sum.split)
  qed
qed

lemma List_after_Put_other:
  assumes s: "invar s" and put: "ms_Put wr enc now o1 a1 k1 v d s = Inr s'"
    and other: "NormalizeOrgID o2 \<noteq> NormalizeOrgID o1 \<or> a2 \<noteq> a1"
  shows "map_sum id set (ms_List list dec o2 a2 s') = map_sum id set (ms_List list dec o2 a2 s)"
proof (cases "model_prefix o2 a2")
  case (Inr p)
  obtain n where n: "modelBlobName o1 a1 k1 = Inr n"
    using put by (auto simp: ms_Put_def split: sum.splits)
  obtain raw where s': "s' = wr now n raw s" using put n by (auto simp: ms_Put_def)
  have "\<not> prefix p n" using modelBlobName_prefix [OF n Inr] other by auto
  then have "set (list s' p) = set (list s p)" using write_outside [OF s] by (simp add: s')
  then show ?thesis by (simp add: ms_List_def Inr decode_all_spec)
qed (simp add: ms_List_def)

end

subsection \<open>Property\<close>

text \<open>
  C12: An artifact that was put reads back as it was stored, and isolation between organisations and
  agents is structural: the look-up of any other artifact and the list of any other organisation
  or agent are not affected. Purging the artifact removes it.
\<close>

theorem model_store_isolated:
  assumes "blobs_ok m" and "ms_Put WriteBlob enc now o1 a1 k1 v d m = Inr m'"
    and "ms = \<lparr>ms_OrgID = NormalizeOrgID o1, ms_Agent = a1, ms_Key = k1, ms_Version = v,
               ms_UpdatedAt = now, ms_Data = d\<rparr>"
    and "dec (enc ms) = Some ms"
  shows "blobs_ok m' \<and>
    ms_Get ReadBlob dec o2 a2 k2 m' =
      (if NormalizeOrgID o2 = NormalizeOrgID o1 \<and> a2 = a1 \<and> k2 = k1 then Inr (Some ms)
       else ms_Get ReadBlob dec o2 a2 k2 m) \<and>
    (NormalizeOrgID o2 \<noteq> NormalizeOrgID o1 \<or> a2 \<noteq> a1 \<longrightarrow>
       map_sum id set (ms_List ListBlobs dec o2 a2 m') = map_sum id set (ms_List ListBlobs dec o2 a2 m)) \<and>
    (\<exists>m''. ms_Purge (Some (DeleteByID DomainBlobs)) o1 a1 k1 m' = Inr m'' \<and>
       ms_Get ReadBlob dec o1 a1 k1 m'' = Inr None)"
proof -
  note put = mem_list.Get_after_Put [where dec=dec, OF assms(1,2) assms(4) [unfolded assms(3)]]
  obtain n where n: "modelBlobName o1 a1 k1 = Inr n"
    using assms(2) by (auto simp: ms_Put_def split: sum.splits)
  then have "ReadBlob m' n \<noteq> None" using assms(2) by (auto simp: ms_Put_def gm_simps)
  then have "ms_Purge (Some (DeleteByID DomainBlobs)) o1 a1 k1 m' = Inr (drop_blob n m')"
    using n DeleteByID_domains(3) [of n m' "drop_blob n m'"] by (simp add: ms_Purge_def)
  moreover have "ms_Get ReadBlob dec o1 a1 k1 (drop_blob n m') = Inr None"
    using n by (simp add: ms_Get_def gm_simps)
  ultimately show ?thesis
    using put mem_list.List_after_Put_other [OF assms(1,2)] by (simp add: assms(3))
qed

theorem model_store_isolated_witness:
  "\<exists>m'. ms_Put WriteBlob ms_Data 7 [] ''slo'' ''k'' 1 ''payload'' NewMemory = Inr m' \<and>
     ms_Get ReadBlob (\<lambda>raw. Some \<lparr>ms_OrgID = ''default'', ms_Agent = ''slo'', ms_Key = ''k'',
       ms_Version = 1, ms_UpdatedAt = 7, ms_Data = raw\<rparr>) ''default'' ''slo'' ''k'' m' =
     Inr (Some \<lparr>ms_OrgID = ''default'', ms_Agent = ''slo'', ms_Key = ''k'', ms_Version = 1,
       ms_UpdatedAt = 7, ms_Data = ''payload''\<rparr>)"
proof -
  let ?ms = "\<lparr>ms_OrgID = ''default'', ms_Agent = ''slo'', ms_Key = ''k'', ms_Version = 1,
    ms_UpdatedAt = 7, ms_Data = ''payload''\<rparr>"
  let ?dec = "\<lambda>raw. Some \<lparr>ms_OrgID = ''default'', ms_Agent = ''slo'', ms_Key = ''k'',
       ms_Version = 1, ms_UpdatedAt = 7, ms_Data = raw\<rparr>"
  have name: "modelBlobName [] ''slo'' ''k'' = Inr ''models/default/slo/k''" by code_simp
  obtain m' where m': "ms_Put WriteBlob ms_Data 7 [] ''slo'' ''k'' 1 ''payload'' NewMemory = Inr m'"
    by (simp add: ms_Put_def name)
  have norm: "NormalizeOrgID [] = ''default''" "NormalizeOrgID ''default'' = ''default''" by code_simp+
  have ms: "?ms = \<lparr>ms_OrgID = NormalizeOrgID [], ms_Agent = ''slo'', ms_Key = ''k'', ms_Version = 1,
    ms_UpdatedAt = 7, ms_Data = ''payload''\<rparr>" by (simp add: norm)
  have dec: "?dec (ms_Data ?ms) = Some ?ms" by simp
  show ?thesis
    using model_store_isolated [OF blobs_ok_New m' ms, of ?dec "''default''" "''slo''" "''k''"] dec m'
    by (simp add: norm)
qed

end
