(* ===== verification/Calendar.thy ===== *)
theory Calendar
  imports Prelude
begin

text \<open>
  The part of Go's \<open>time\<close> formatting the program uses: the UTC calendar date and hour of an
  instant, and the layout \<open>2006010215\<close> that names an hour. Instants count from January 1 of year 1,
  so the year is found by walking over whole years from year 1, the month over the months of the
  year.
\<close>

definition leap_year :: "int \<Rightarrow> bool" where
  "leap_year y \<longleftrightarrow> 4 dvd y \<and> (\<not> 100 dvd y \<or> 400 dvd y)"

definition year_length :: "int \<Rightarrow> int" where
  "year_length y = (if leap_year y then 366 else 365)"

definition month_lengths :: "int \<Rightarrow> int list" where
  "month_lengths y = [31, if leap_year y then 29 else 28, 31, 30, 31, 30, 31, 31, 30, 31, 30, 31]"

function year_day :: "int \<Rightarrow> int \<Rightarrow> int \<times> int" where
  "year_day y d = (if d < year_length y then (y, d) else year_day (y + 1) (d - year_length y))"
  by pat_completeness auto
termination
  by (relation "measure (\<lambda>(y, d). nat d)") (auto simp: year_length_def split: if_splits)

declare year_day.simps [simp del]

fun month_day :: "int \<Rightarrow> int list \<Rightarrow> int \<Rightarrow> int \<times> int" where
  "month_day m [] d = (m, d)"
| "month_day m (l # ls) d = (if d < l then (m, d) else month_day (m + 1) ls (d - l))"

definition day :: duration where "day = 24 * hour"

definition civil :: "time \<Rightarrow> int \<times> int \<times> int \<times> int" where
  "civil t =
     (let (y, d) = year_day 1 (t div day);
          (m, dom) = month_day 1 (month_lengths y) d
      in (y, m, dom + 1, t mod day div hour))"

definition digit :: "int \<Rightarrow> char" where
  "digit n = char_of (48 + nat (n mod 10))"

definition pad2 :: "int \<Rightarrow> string" where
  "pad2 n = [digit (n div 10), digit n]"

definition pad4 :: "int \<Rightarrow> string" where
  "pad4 n = [digit (n div 1000), digit (n div 100), digit (n div 10), digit n]"

definition format_hour :: "time \<Rightarrow> string" where
  "format_hour t = (case civil t of (y, m, d, h) \<Rightarrow> pad4 y @ pad2 m @ pad2 d @ pad2 h)"

lemma hour_pos: "0 < hour" "0 < day"
  by (simp_all add: hour_def minute_def second_def day_def)

lemma day_hour: "day = 24 * hour"
  by (simp add: day_def)

text \<open>The name of an hour depends on the hour only.\<close>

lemma div_day: "t div day = t div hour div 24"
  using hour_pos by (simp add: day_def zdiv_zmult2_eq mult.commute)

lemma mod_day_hour: "t mod day div hour = t div hour mod 24"
proof -
  have "t mod (hour * 24) = hour * (t div hour mod 24) + t mod hour"
    using hour_pos by (simp add: zmod_zmult2_eq)
  then show ?thesis using hour_pos by (simp add: day_def mult.commute)
qed

lemma civil_hour: "t div hour = u div hour \<Longrightarrow> civil t = civil u"
  by (simp add: civil_def div_day mod_day_hour)

lemma format_hour_same: "t div hour = u div hour \<Longrightarrow> format_hour t = format_hour u"
  unfolding format_hour_def by (drule civil_hour) simp

end
