(* ===== verification/Rate_Limit.thy ===== *)
theory Rate_Limit
  imports Memory_State Calendar "HOL-Library.Countable"
begin

text \<open>
  The hourly limit on AI calls (\<open>pkg/agent/ai/rate.go\<close>): the limiter of one process, and the one
  shared through a blob that several processes update by compare-and-swap.

  The shared limiter is a client of the blob capabilities and takes them as functions, with the
  JSON codec \<open>enc\<close>/\<open>dec\<close> of its bucket and the shortened SHA-256 \<open>digest\<close> of a key. Between its
  read and its swap other processes may act on the store: \<open>others i\<close> is what they do to it before
  the swap of attempt \<open>i\<close>. A failing read or swap of attempt \<open>i\<close> is told by \<open>rd_err\<close>, \<open>cas_err\<close>;
  \<open>ls\<close> gives \<open>None\<close> when the listing fails.
\<close>

subsection \<open>State\<close>

definition distributedRateCASAttempts :: nat where
  "distributedRateCASAttempts = 64"

record distributedRateBucket =
  db_Count :: int
  db_KeyCounts :: "(string, int) gomap"

record RateLimiter =
  rl_max :: int
  rl_bucket :: string
  rl_hourCount :: int
  rl_keyCounts :: "(string, int) gomap"
  rl_provider :: bool
  rl_scope :: string
  rl_cleaned :: string

definition NewRateLimiter :: "int \<Rightarrow> RateLimiter" where
  "NewRateLimiter maxPerHour =
     \<lparr>rl_max = maxPerHour, rl_bucket = [], rl_hourCount = 0, rl_keyCounts = [],
      rl_provider = False, rl_scope = [], rl_cleaned = []\<rparr>"

text \<open>\<open>capable\<close>: the provider implements \<open>BlobCAS\<close>.\<close>

definition NewDistributedRateLimiter :: "(string \<Rightarrow> string) \<Rightarrow> int \<Rightarrow> bool \<Rightarrow> string \<Rightarrow> RateLimiter" where
  "NewDistributedRateLimiter digest maxPerHour capable scope =
     (if capable then (NewRateLimiter maxPerHour)\<lparr>rl_provider := True, rl_scope := digest scope\<rparr>
      else NewRateLimiter maxPerHour)"

definition bucketKey :: "time \<Rightarrow> string" where
  "bucketKey t = format_hour t"

definition bump :: "(string, int) gomap \<Rightarrow> string \<Rightarrow> (string, int) gomap" where
  "bump m k = gm_set m k (gm_get0 0 m k + 1)"

definition key_share :: "int \<Rightarrow> int" where
  "key_share m = (m + 1) div 2"

subsection \<open>The shared bucket\<close>

definition parse_bucket :: "(string \<Rightarrow> distributedRateBucket option) \<Rightarrow> string option \<Rightarrow> distributedRateBucket option" where
  "parse_bucket dec current =
     (case current of
        None \<Rightarrow> Some \<lparr>db_Count = 0, db_KeyCounts = []\<rparr>
      | Some raw \<Rightarrow> if raw = [] then Some \<lparr>db_Count = 0, db_KeyCounts = []\<rparr> else dec raw)"

text \<open>
  What one attempt decides from the contents it read: to refuse, or the contents to swap in.
\<close>

definition rate_decide ::
  "(distributedRateBucket \<Rightarrow> string) \<Rightarrow> (string \<Rightarrow> distributedRateBucket option) \<Rightarrow> int \<Rightarrow> string \<Rightarrow>
   string option \<Rightarrow> string option" where
  "rate_decide enc dec m keyHash current =
     (case parse_bucket dec current of
           None \<Rightarrow> None
         | Some state \<Rightarrow>
             if db_Count state \<ge> m then None
             else if keyHash \<noteq> [] \<and> gm_get0 0 (db_KeyCounts state) keyHash \<ge> key_share m then None
             else
               let state = state\<lparr>db_Count := db_Count state + 1\<rparr>;
                   state = (if keyHash \<noteq> []
                            then state\<lparr>db_KeyCounts := bump (db_KeyCounts state) keyHash\<rparr> else state)
               in Some (enc state))"

fun cas_loop ::
  "(distributedRateBucket \<Rightarrow> string) \<Rightarrow> (string \<Rightarrow> distributedRateBucket option) \<Rightarrow>
   ('s \<Rightarrow> string \<Rightarrow> string option) \<Rightarrow>
   (time \<Rightarrow> string \<Rightarrow> string option \<Rightarrow> string option \<Rightarrow> 's \<Rightarrow> bool \<times> 's) \<Rightarrow>
   (nat \<Rightarrow> bool) \<Rightarrow> (nat \<Rightarrow> bool) \<Rightarrow> (nat \<Rightarrow> 's \<Rightarrow> 's) \<Rightarrow>
   time \<Rightarrow> int \<Rightarrow> string \<Rightarrow> string \<Rightarrow> nat \<Rightarrow> nat \<Rightarrow> 's \<Rightarrow> bool \<times> 's" where
  "cas_loop enc dec rd cas rd_err cas_err others now m name keyHash attempt 0 s = (False, s)"
| "cas_loop enc dec rd cas rd_err cas_err others now m name keyHash attempt (Suc left) s =
     (if rd_err attempt then (False, s)
      else
        let current = rd s name in
        case rate_decide enc dec m keyHash current of
          None \<Rightarrow> (False, s)
        | Some replacement \<Rightarrow>
            let s = others attempt s in
            if cas_err attempt then (False, s)
            else
              let (swapped, s) = cas now name current (Some replacement) s in
              if swapped then (True, s)
              else cas_loop enc dec rd cas rd_err cas_err others now m name keyHash (attempt + 1) left s)"

text \<open>The buckets of earlier hours are swapped away, each only if it did not change meanwhile.\<close>

definition cleanupDistributedBuckets ::
  "('s \<Rightarrow> string \<Rightarrow> (string \<times> string) list option) \<Rightarrow>
   (time \<Rightarrow> string \<Rightarrow> string option \<Rightarrow> string option \<Rightarrow> 's \<Rightarrow> bool \<times> 's) \<Rightarrow>
   time \<Rightarrow> string \<Rightarrow> string \<Rightarrow> string \<Rightarrow> 's \<Rightarrow> bool \<times> 's" where
  "cleanupDistributedBuckets ls cas now scope currentName currentBucket s =
     (let pre = ''ai-rate/'' @ scope @ ''/'' in
      case ls s pre of
        None \<Rightarrow> (False, s)
      | Some blobs \<Rightarrow>
          fold (\<lambda>(name, data) (complete, s).
              let bucket = drop (length pre) name in
              if name \<noteq> currentName \<and> bucket < currentBucket
              then let (swapped, s) = cas now name (Some data) None s in (complete \<and> swapped, s)
              else (complete, s))
            blobs (True, s))"

definition rate_name :: "string \<Rightarrow> string \<Rightarrow> string" where
  "rate_name scope bucket = ''ai-rate/'' @ scope @ ''/'' @ bucket"

definition allowDistributed ::
  "(distributedRateBucket \<Rightarrow> string) \<Rightarrow> (string \<Rightarrow> distributedRateBucket option) \<Rightarrow> (string \<Rightarrow> string) \<Rightarrow>
   ('s \<Rightarrow> string \<Rightarrow> string option) \<Rightarrow> ('s \<Rightarrow> string \<Rightarrow> (string \<times> string) list option) \<Rightarrow>
   (time \<Rightarrow> string \<Rightarrow> string option \<Rightarrow> string option \<Rightarrow> 's \<Rightarrow> bool \<times> 's) \<Rightarrow>
   (nat \<Rightarrow> bool) \<Rightarrow> (nat \<Rightarrow> bool) \<Rightarrow> (nat \<Rightarrow> 's \<Rightarrow> 's) \<Rightarrow>
   time \<Rightarrow> string \<Rightarrow> string \<Rightarrow> RateLimiter \<times> 's \<Rightarrow> bool \<times> RateLimiter \<times> 's" where
  "allowDistributed enc dec digest rd ls cas rd_err cas_err others now bucket key = (\<lambda>(r, s).
     let name = rate_name (rl_scope r) bucket;
         keyHash = (if key \<noteq> [] then digest key else []);
         (swapped, s) = cas_loop enc dec rd cas rd_err cas_err others now (rl_max r) name keyHash 0
                          distributedRateCASAttempts s
     in if \<not> swapped then (False, r, s)
        else if rl_cleaned r \<noteq> bucket then
          let (complete, s) = cleanupDistributedBuckets ls cas now (rl_scope r) name bucket s
          in (True, if complete then r\<lparr>rl_cleaned := bucket\<rparr> else r, s)
        else (True, r, s))"

subsection \<open>A call\<close>

definition AllowKey ::
  "(distributedRateBucket \<Rightarrow> string) \<Rightarrow> (string \<Rightarrow> distributedRateBucket option) \<Rightarrow> (string \<Rightarrow> string) \<Rightarrow>
   ('s \<Rightarrow> string \<Rightarrow> string option) \<Rightarrow> ('s \<Rightarrow> string \<Rightarrow> (string \<times> string) list option) \<Rightarrow>
   (time \<Rightarrow> string \<Rightarrow> string option \<Rightarrow> string option \<Rightarrow> 's \<Rightarrow> bool \<times> 's) \<Rightarrow>
   (nat \<Rightarrow> bool) \<Rightarrow> (nat \<Rightarrow> bool) \<Rightarrow> (nat \<Rightarrow> 's \<Rightarrow> 's) \<Rightarrow>
   time \<Rightarrow> string \<Rightarrow> RateLimiter \<times> 's \<Rightarrow> bool \<times> RateLimiter \<times> 's" where
  "AllowKey enc dec digest rd ls cas rd_err cas_err others t key = (\<lambda>(r, s).
     if rl_max r \<le> 0 then (True, r, s)
     else
       let now = bucketKey t;
           r = (if now \<noteq> rl_bucket r then r\<lparr>rl_bucket := now, rl_hourCount := 0, rl_keyCounts := []\<rparr> else r)
       in if rl_provider r then
            let (allowed, r, s) = allowDistributed enc dec digest rd ls cas rd_err cas_err others t now key (r, s)
            in if \<not> allowed then (False, r, s)
               else (True, r\<lparr>rl_hourCount := rl_hourCount r + 1,
                      rl_keyCounts := (if key \<noteq> [] then bump (rl_keyCounts r) key else rl_keyCounts r)\<rparr>, s)
          else if rl_hourCount r \<ge> rl_max r then (False, r, s)
          else if key \<noteq> [] \<and> gm_get0 0 (rl_keyCounts r) key \<ge> key_share (rl_max r) then (False, r, s)
          else (True, r\<lparr>rl_hourCount := rl_hourCount r + 1,
                  rl_keyCounts := (if key \<noteq> [] then bump (rl_keyCounts r) key else rl_keyCounts r)\<rparr>, s))"

text \<open>A limiter that is nil allows every call.\<close>

definition AllowKey_ptr ::
  "(distributedRateBucket \<Rightarrow> string) \<Rightarrow> (string \<Rightarrow> distributedRateBucket option) \<Rightarrow> (string \<Rightarrow> string) \<Rightarrow>
   ('s \<Rightarrow> string \<Rightarrow> string option) \<Rightarrow> ('s \<Rightarrow> string \<Rightarrow> (string \<times> string) list option) \<Rightarrow>
   (time \<Rightarrow> string \<Rightarrow> string option \<Rightarrow> string option \<Rightarrow> 's \<Rightarrow> bool \<times> 's) \<Rightarrow>
   (nat \<Rightarrow> bool) \<Rightarrow> (nat \<Rightarrow> bool) \<Rightarrow> (nat \<Rightarrow> 's \<Rightarrow> 's) \<Rightarrow>
   time \<Rightarrow> string \<Rightarrow> RateLimiter option \<times> 's \<Rightarrow> bool \<times> RateLimiter option \<times> 's" where
  "AllowKey_ptr enc dec digest rd ls cas rd_err cas_err others t key = (\<lambda>(ro, s).
     case ro of
       None \<Rightarrow> (True, None, s)
     | Some r \<Rightarrow>
         let (ok, r, s) = AllowKey enc dec digest rd ls cas rd_err cas_err others t key (r, s)
         in (ok, Some r, s))"

definition rate_Stats :: "RateLimiter option \<Rightarrow> string \<times> int \<times> int" where
  "rate_Stats ro = (case ro of None \<Rightarrow> ([], 0, 0) | Some r \<Rightarrow> (rl_bucket r, rl_hourCount r, rl_max r))"

subsection \<open>The limiter of one process\<close>

text \<open>A sequence of calls, each with its time and key; the result lists the answers.\<close>

fun allow_run ::
  "(time \<Rightarrow> string \<Rightarrow> RateLimiter \<times> 's \<Rightarrow> bool \<times> RateLimiter \<times> 's) \<Rightarrow> (time \<times> string) list \<Rightarrow>
   RateLimiter \<times> 's \<Rightarrow> bool list" where
  "allow_run call [] rs = []"
| "allow_run call ((t, key) # calls) rs =
     (let (ok, rs') = call t key rs in ok # allow_run call calls rs')"

definition granted_keys :: "(time \<times> string) list \<Rightarrow> bool list \<Rightarrow> string list" where
  "granted_keys calls oks = map (snd \<circ> fst) (filter snd (zip calls oks))"

lemma granted_keys_Cons [simp]:
  "granted_keys ((t, key) # calls) (ok # oks) = (if ok then key # granted_keys calls oks else granted_keys calls oks)"
  "granted_keys [] oks = []"
  by (simp_all add: granted_keys_def)

lemma bump_get: "gm_get0 0 (bump m k) k' = (if k' = k then gm_get0 0 m k + 1 else gm_get0 0 m k')"
  by (simp add: bump_def gm_get0_def gm_simps)

definition local_ok :: "RateLimiter \<Rightarrow> bool" where
  "local_ok r \<longleftrightarrow> \<not> rl_provider r \<and> 0 < rl_max r \<and> rl_hourCount r \<le> rl_max r \<and>
     (\<forall>k. gm_get0 0 (rl_keyCounts r) k \<le> key_share (rl_max r))"

text \<open>One local call in the current bucket: what it grants, and the counters after it.\<close>

lemma AllowKey_local:
  assumes "\<not> rl_provider r" "0 < rl_max r" "rl_bucket r = bucketKey t"
  shows "AllowKey enc dec digest rd ls cas re ce others t key (r, s) =
    (let ok = (rl_hourCount r < rl_max r \<and> (key \<noteq> [] \<longrightarrow> gm_get0 0 (rl_keyCounts r) key < key_share (rl_max r)))
     in (ok, if ok then r\<lparr>rl_hourCount := rl_hourCount r + 1,
                rl_keyCounts := (if key \<noteq> [] then bump (rl_keyCounts r) key else rl_keyCounts r)\<rparr> else r, s))"
  using assms by (auto simp: AllowKey_def Let_def)

lemma local_run_bound:
  assumes "local_ok r" and "rl_bucket r = b" and "\<And>c. c \<in> set calls \<Longrightarrow> bucketKey (fst c) = b"
    and "keys = granted_keys calls (allow_run (AllowKey enc dec digest rd ls cas re ce others) calls (r, s))"
  shows "int (length keys) + rl_hourCount r \<le> rl_max r \<and>
    (k \<noteq> [] \<longrightarrow> int (count_list keys k) + gm_get0 0 (rl_keyCounts r) k \<le> key_share (rl_max r))"
  using assms
proof (induction calls arbitrary: r keys)
  case Nil
  then show ?case by (simp add: local_ok_def)
next
  case (Cons c calls)
  obtain t key where c: "c = (t, key)" by (cases c)
  have t: "bucketKey t = b" using Cons.prems(3) [of c] by (simp add: c)
  let ?ok = "rl_hourCount r < rl_max r \<and> (key \<noteq> [] \<longrightarrow> gm_get0 0 (rl_keyCounts r) key < key_share (rl_max r))"
  let ?r = "if ?ok then r\<lparr>rl_hourCount := rl_hourCount r + 1,
      rl_keyCounts := (if key \<noteq> [] then bump (rl_keyCounts r) key else rl_keyCounts r)\<rparr> else r"
  have step: "AllowKey enc dec digest rd ls cas re ce others t key (r, s) = (?ok, ?r, s)"
    using Cons.prems(1,2) t by (simp add: AllowKey_local local_ok_def Let_def)
  let ?rest = "granted_keys calls (allow_run (AllowKey enc dec digest rd ls cas re ce others) calls (?r, s))"
  have keys: "keys = (if ?ok then key # ?rest else ?rest)"
    unfolding Cons.prems(4) c allow_run.simps step Let_def prod.case granted_keys_Cons ..
  have "local_ok ?r" using Cons.prems(1) by (auto simp: local_ok_def bump_get)
  moreover have "rl_bucket ?r = b" using Cons.prems(2) by simp
  ultimately have "int (length ?rest) + rl_hourCount ?r \<le> rl_max ?r \<and>
      (k \<noteq> [] \<longrightarrow> int (count_list ?rest k) + gm_get0 0 (rl_keyCounts ?r) k \<le> key_share (rl_max ?r))"
    by (rule Cons.IH) (simp_all add: Cons.prems(3))
  then show ?case unfolding keys by (auto simp: bump_get split: if_splits)
qed

lemma local_run_exact:
  assumes "local_ok r" and "rl_bucket r = b" and "\<And>c. c \<in> set calls \<Longrightarrow> bucketKey (fst c) = b \<and> snd c = []"
  shows "allow_run (AllowKey enc dec digest rd ls cas re ce others) calls (r, s) =
    (let n = nat (rl_max r - rl_hourCount r) in
     replicate (min n (length calls)) True @ replicate (length calls - n) False)"
  using assms
proof (induction calls arbitrary: r)
  case (Cons c calls)
  obtain t where c: "c = (t, [])" "bucketKey t = b" using Cons.prems(3) [of c] by (cases c) auto
  let ?r = "if rl_hourCount r < rl_max r then r\<lparr>rl_hourCount := rl_hourCount r + 1\<rparr> else r"
  have step: "AllowKey enc dec digest rd ls cas re ce others t [] (r, s) = (rl_hourCount r < rl_max r, ?r, s)"
    using Cons.prems c(2) by (simp add: AllowKey_local local_ok_def Let_def)
  have IH: "allow_run (AllowKey enc dec digest rd ls cas re ce others) calls (?r, s) =
    (let n = nat (rl_max ?r - rl_hourCount ?r) in
     replicate (min n (length calls)) True @ replicate (length calls - n) False)"
    using Cons.prems by (intro Cons.IH) (auto simp: local_ok_def)
  show ?case
  proof (cases "rl_hourCount r < rl_max r")
    case True
    then have "nat (rl_max r - rl_hourCount r) = Suc (nat (rl_max r - (rl_hourCount r + 1)))" by simp
    then show ?thesis using IH True by (simp add: c step Let_def)
  next
    case False
    then show ?thesis using IH by (simp add: c step Let_def)
  qed
qed simp

subsection \<open>The limit across processes\<close>

text \<open>
  Several limiters share one bucket. An event is one step of one of them: reading the bucket and
  deciding, or swapping in what it decided; or any swap of another blob (another bucket, a
  cleanup). \<open>pend\<close> holds what each limiter has decided and not yet swapped, \<open>granted\<close> the key
  hashes of the calls allowed so far.
\<close>

datatype rate_event =
    EvRead nat string
  | EvSwap nat
  | EvElse string "string option" "string option"

record 's rate_system =
  rs_store :: 's
  rs_pend :: "(nat, string \<times> string option \<times> string) gomap"
  rs_granted :: "string list"

fun rate_event_step ::
  "(distributedRateBucket \<Rightarrow> string) \<Rightarrow> (string \<Rightarrow> distributedRateBucket option) \<Rightarrow>
   ('s \<Rightarrow> string \<Rightarrow> string option) \<Rightarrow>
   (time \<Rightarrow> string \<Rightarrow> string option \<Rightarrow> string option \<Rightarrow> 's \<Rightarrow> bool \<times> 's) \<Rightarrow>
   time \<Rightarrow> int \<Rightarrow> string \<Rightarrow> rate_event \<Rightarrow> 's rate_system \<Rightarrow> 's rate_system" where
  "rate_event_step enc dec rd cas now m name (EvRead i keyHash) y =
     (let current = rd (rs_store y) name in
      case rate_decide enc dec m keyHash current of
        None \<Rightarrow> y\<lparr>rs_pend := gm_del (rs_pend y) i\<rparr>
      | Some r \<Rightarrow> y\<lparr>rs_pend := gm_set (rs_pend y) i (keyHash, current, r)\<rparr>)"
| "rate_event_step enc dec rd cas now m name (EvSwap i) y =
     (case gm_get (rs_pend y) i of
        None \<Rightarrow> y
      | Some (keyHash, current, r) \<Rightarrow>
          (let (swapped, s) = cas now name current (Some r) (rs_store y)
           in y\<lparr>rs_store := s, rs_pend := gm_del (rs_pend y) i,
                rs_granted := (if swapped then keyHash # rs_granted y else rs_granted y)\<rparr>))"
| "rate_event_step enc dec rd cas now m name (EvElse n e r) y =
     (if n = name then y else y\<lparr>rs_store := snd (cas now n e r (rs_store y))\<rparr>)"

text \<open>The invariant: the bucket counts what was granted, a pending swap adds one grant below the caps.\<close>

definition bucket_counts ::
  "(string \<Rightarrow> distributedRateBucket option) \<Rightarrow> string option \<Rightarrow> string list \<Rightarrow> bool" where
  "bucket_counts dec current granted \<longleftrightarrow>
     (\<exists>st. parse_bucket dec current = Some st \<and> db_Count st = int (length granted) \<and>
        (\<forall>k. k \<noteq> [] \<longrightarrow> gm_get0 0 (db_KeyCounts st) k = int (count_list granted k)))"

definition within_caps :: "int \<Rightarrow> string list \<Rightarrow> bool" where
  "within_caps m granted \<longleftrightarrow> int (length granted) \<le> m \<and>
     (\<forall>k. k \<noteq> [] \<longrightarrow> int (count_list granted k) \<le> key_share m)"

definition pend_ok ::
  "(distributedRateBucket \<Rightarrow> string) \<Rightarrow> (string \<Rightarrow> distributedRateBucket option) \<Rightarrow> int \<Rightarrow>
   (nat, string \<times> string option \<times> string) gomap \<Rightarrow> bool" where
  "pend_ok enc dec m pend \<longleftrightarrow>
     (\<forall>i k cur r. gm_get pend i = Some (k, cur, r) \<longrightarrow> rate_decide enc dec m k cur = Some r)"

lemma rate_decide_grants:
  assumes codec: "\<And>st. enc st \<noteq> [] \<and> dec (enc st) = Some st"
    and dec: "rate_decide enc dec m k cur = Some r" and cnt: "bucket_counts dec cur granted"
    and caps: "within_caps m granted"
  shows "bucket_counts dec (Some r) (k # granted) \<and> within_caps m (k # granted)"
proof -
  obtain st where st: "parse_bucket dec cur = Some st" "db_Count st = int (length granted)"
      "\<And>k. k \<noteq> [] \<Longrightarrow> gm_get0 0 (db_KeyCounts st) k = int (count_list granted k)"
    using cnt by (auto simp: bucket_counts_def)
  let ?st = "if k \<noteq> [] then st\<lparr>db_Count := db_Count st + 1, db_KeyCounts := bump (db_KeyCounts st) k\<rparr>
      else st\<lparr>db_Count := db_Count st + 1\<rparr>"
  have r: "r = enc ?st" and lt: "db_Count st < m" "k \<noteq> [] \<Longrightarrow> gm_get0 0 (db_KeyCounts st) k < key_share m"
    using dec st(1) by (auto simp: rate_decide_def Let_def split: if_splits)
  have "parse_bucket dec (Some r) = Some ?st" using codec [of ?st] by (simp add: parse_bucket_def r)
  then have "bucket_counts dec (Some r) (k # granted)"
    unfolding bucket_counts_def using st by (intro exI [of _ ?st]) (auto simp: bump_get)
  moreover have "within_caps m (k # granted)"
    using lt st caps by (auto simp: within_caps_def)
  ultimately show ?thesis ..
qed

context blob_cas
begin

lemma rate_event_step_ok:
  assumes codec: "\<And>st. enc st \<noteq> [] \<and> dec (enc st) = Some st"
    and inv: "invar (rs_store y)" "bucket_counts dec (rd (rs_store y) name) (rs_granted y)"
      "within_caps m (rs_granted y)" "pend_ok enc dec m (rs_pend y)"
    and y': "y' = rate_event_step enc dec rd cas now m name ev y"
  shows "invar (rs_store y') \<and> bucket_counts dec (rd (rs_store y') name) (rs_granted y') \<and>
    within_caps m (rs_granted y') \<and> pend_ok enc dec m (rs_pend y')"
proof (cases ev)
  case (EvRead i k)
  then show ?thesis
    using inv by (auto simp: y' Let_def pend_ok_def gm_simps split: option.split if_splits)
next
  case (EvSwap i)
  show ?thesis
  proof (cases "gm_get (rs_pend y) i")
    case None
    then show ?thesis using inv EvSwap by (simp add: y')
  next
    case (Some p)
    obtain k cur r where p: "p = (k, cur, r)" by (cases p)
    have dec: "rate_decide enc dec m k cur = Some r" using inv(4) Some p by (simp add: pend_ok_def)
    obtain won s where c: "cas now name cur (Some r) (rs_store y) = (won, s)" by fastforce
    have st: "y' = y\<lparr>rs_store := s, rs_pend := gm_del (rs_pend y) i,
        rs_granted := (if won then k # rs_granted y else rs_granted y)\<rparr>"
      using EvSwap Some p c by (simp add: y')
    have inv': "invar s" using cas_invar [OF inv(1), of now name cur "Some r"] by (simp add: c)
    have pend: "pend_ok enc dec m (gm_del (rs_pend y) i)" using inv(4) by (auto simp: pend_ok_def gm_simps)
    show ?thesis
    proof (cases won)
      case True
      then have "rd (rs_store y) name = cur" "rd s name = Some r"
        using cas_won [OF inv(1), of now name cur "Some r"] cas_same [OF inv(1), of now name cur "Some r"]
        by (simp_all add: c)
      then show ?thesis
        using rate_decide_grants [OF codec dec _ inv(3)] inv(2) inv' pend True by (simp add: st)
    next
      case False
      then have "rd s name = rd (rs_store y) name"
        using cas_same [OF inv(1), of now name cur "Some r"] by (simp add: c)
      then show ?thesis using inv inv' pend False by (simp add: st)
    qed
  qed
next
  case (EvElse n e r)
  then show ?thesis
    using inv cas_invar [OF inv(1)] cas_other [OF inv(1)] by (simp add: y')
qed

lemma rate_system_capped:
  assumes codec: "\<And>st. enc st \<noteq> [] \<and> dec (enc st) = Some st"
    and "invar s" "rd s name = None" "0 \<le> m"
  shows "within_caps m (rs_granted (fold (rate_event_step enc dec rd cas now m name) evs
    \<lparr>rs_store = s, rs_pend = [], rs_granted = []\<rparr>))"
proof -
  let ?y = "\<lparr>rs_store = s, rs_pend = [], rs_granted = []\<rparr>"
  have "invar (rs_store y') \<and> bucket_counts dec (rd (rs_store y') name) (rs_granted y') \<and>
    within_caps m (rs_granted y') \<and> pend_ok enc dec m (rs_pend y')"
    if "y' = fold (rate_event_step enc dec rd cas now m name) evs ?y" for y'
    using that
  proof (induction evs arbitrary: y' rule: rev_induct)
    case Nil
    then show ?case
      using assms by (simp add: bucket_counts_def parse_bucket_def gm_get0_def within_caps_def
          pend_ok_def key_share_def)
  next
    case (snoc ev evs)
    then show ?case using rate_event_step_ok [OF codec] by simp
  qed
  then show ?thesis by blast
qed

text \<open>An attempt that nobody disturbs: under the caps it succeeds at once and counts the call.\<close>

lemma cas_loop_quiet:
  assumes "invar s" and "rate_decide enc dec m keyHash (rd s name) = Some r"
    and "\<not> re 0" "\<not> ce 0" "others 0 s = s"
  shows "cas_loop enc dec rd cas re ce others now m name keyHash 0 (Suc left) s =
    (True, snd (cas now name (rd s name) (Some r) s))"
  using assms cas_won [OF assms(1), of now name "rd s name" "Some r"]
  by (cases "cas now name (rd s name) (Some r) s") (simp add: Let_def)

text \<open>Whatever the others do, a granted call swapped its own contents in: it is the last one there.\<close>

lemma cas_loop_granted:
  assumes "\<And>i s. invar s \<Longrightarrow> invar (others i s)" and "invar s"
    and "cas_loop enc dec rd cas re ce others now m name keyHash a left s = (True, s')"
  shows "invar s' \<and> (\<exists>cur r. rate_decide enc dec m keyHash cur = Some r \<and> rd s' name = Some r)"
  using assms(2,3)
proof (induction left arbitrary: a s)
  case (Suc left)
  show ?case
  proof (cases "rate_decide enc dec m keyHash (rd s name)")
    case None
    then show ?thesis using Suc.prems by (simp add: Let_def split: if_splits)
  next
    case (Some r)
    let ?s = "others a s"
    have inv: "invar ?s" using assms(1) Suc.prems(1) .
    obtain won s1 where c: "cas now name (rd s name) (Some r) ?s = (won, s1)" by fastforce
    have inv1: "invar s1" using cas_invar [OF inv, of now name "rd s name" "Some r"] by (simp add: c)
    show ?thesis
    proof (cases won)
      case True
      then have "s' = s1" "rd s1 name = Some r"
        using Suc.prems(2) Some c cas_same [OF inv, of now name "rd s name" "Some r"]
        by (simp_all add: Let_def split: if_splits)
      then show ?thesis using inv1 Some by blast
    next
      case False
      then have "cas_loop enc dec rd cas re ce others now m name keyHash (a + 1) left s1 = (True, s')"
        using Suc.prems(2) Some c by (simp add: Let_def split: if_splits)
      then show ?thesis using Suc.IH inv1 by blast
    qed
  qed
qed simp

lemma fold_cleanup_other:
  assumes "invar s" and "\<And>n d. (n, d) \<in> set bs \<Longrightarrow> P n \<Longrightarrow> n \<noteq> n'"
  shows "invar (snd (fold (\<lambda>(n, d) (c, s). if P n then let (w, s) = cas now n (Some d) None s in (c \<and> w, s)
             else (c, s)) bs (c, s))) \<and>
    rd (snd (fold (\<lambda>(n, d) (c, s). if P n then let (w, s) = cas now n (Some d) None s in (c \<and> w, s)
             else (c, s)) bs (c, s))) n' = rd s n'"
  using assms
proof (induction bs arbitrary: c s)
  case (Cons b bs)
  obtain n d where b: "b = (n, d)" by (cases b)
  obtain w s1 where c: "cas now n (Some d) None s = (w, s1)" by fastforce
  have "P n \<Longrightarrow> invar s1 \<and> rd s1 n' = rd s n'"
    using cas_invar [OF Cons.prems(1), of now n "Some d" None]
      cas_other [OF Cons.prems(1), of n' n now "Some d" None] Cons.prems(2) [of n d] by (auto simp: b c)
  moreover have "\<And>n d. (n, d) \<in> set bs \<Longrightarrow> P n \<Longrightarrow> n \<noteq> n'"
    by (rule Cons.prems(2)) (auto simp: b)
  note IH = Cons.IH [OF _ this]
  ultimately show ?case
    using IH [where s=s1 and c="c \<and> w"] IH [OF Cons.prems(1), where c=c] by (cases "P n") (simp_all add: b c)
qed simp

end

subsection \<open>The loop as events of the shared system\<close>

text \<open>
  The retry loop of limiter \<open>i\<close>, run against a system in which the events \<open>oth a\<close> of the other
  limiters happen between its read and its swap of attempt \<open>a\<close>, is itself a sequence of events.
\<close>

fun ev_by :: "nat \<Rightarrow> rate_event \<Rightarrow> bool" where
  "ev_by i (EvRead j k) \<longleftrightarrow> j = i"
| "ev_by i (EvSwap j) \<longleftrightarrow> j = i"
| "ev_by i (EvElse n e r) \<longleftrightarrow> False"

definition lift_cas ::
  "(time \<Rightarrow> string \<Rightarrow> string option \<Rightarrow> string option \<Rightarrow> 's \<Rightarrow> bool \<times> 's) \<Rightarrow>
   time \<Rightarrow> string \<Rightarrow> string option \<Rightarrow> string option \<Rightarrow> 's rate_system \<Rightarrow> bool \<times> 's rate_system" where
  "lift_cas cas now n e r y = (let (won, s) = cas now n e r (rs_store y) in (won, y\<lparr>rs_store := s\<rparr>))"

definition same_but :: "nat \<Rightarrow> 's rate_system \<Rightarrow> 's rate_system \<Rightarrow> bool" where
  "same_but i y z \<longleftrightarrow> rs_store y = rs_store z \<and> rs_granted y = rs_granted z \<and>
     (\<forall>j. j \<noteq> i \<longrightarrow> gm_get (rs_pend y) j = gm_get (rs_pend z) j)"

lemma same_but_step:
  assumes "same_but i y z" and "\<not> ev_by i ev"
  shows "same_but i (rate_event_step enc dec rd cas now m name ev y) (rate_event_step enc dec rd cas now m name ev z)"
  using assms by (cases ev) (auto simp: same_but_def gm_simps Let_def split_beta split: option.splits)

lemma same_but_run:
  assumes "same_but i y z" and "\<And>ev. ev \<in> set evs \<Longrightarrow> \<not> ev_by i ev"
  shows "same_but i (fold (rate_event_step enc dec rd cas now m name) evs y)
    (fold (rate_event_step enc dec rd cas now m name) evs z)"
  using assms by (induction evs arbitrary: y z) (auto intro: same_but_step)

lemma pend_kept:
  assumes "\<not> ev_by i ev"
  shows "gm_get (rs_pend (rate_event_step enc dec rd cas now m name ev y)) i = gm_get (rs_pend y) i"
  using assms by (cases ev) (auto simp: gm_simps Let_def split_beta split: option.splits)

lemma pend_kept_run:
  assumes "\<And>ev. ev \<in> set evs \<Longrightarrow> \<not> ev_by i ev"
  shows "gm_get (rs_pend (fold (rate_event_step enc dec rd cas now m name) evs y)) i = gm_get (rs_pend y) i"
  using assms by (induction evs arbitrary: y) (auto simp: pend_kept)

lemma same_but_refl [simp]: "same_but i y y"
  by (simp add: same_but_def)

lemma loop_events:
  fixes y z :: "'s rate_system"
  assumes oth: "\<And>a ev. ev \<in> set (oth a) \<Longrightarrow> \<not> ev_by i ev"
    and "same_but i y z"
    and "cas_loop enc dec (\<lambda>y. rd (rs_store y)) (lift_cas cas) re ce
      (\<lambda>a. fold (rate_event_step enc dec rd cas now m name) (oth a)) now m name k a left y = (ok, y')"
  shows "\<exists>evs. let z' = fold (rate_event_step enc dec rd cas now m name) evs z in
      rs_store z' = rs_store y' \<and> rs_granted z' = (if ok then k # rs_granted y' else rs_granted y')"
  using assms(2,3)
proof (induction left arbitrary: a y z)
  case 0
  then show ?case by (intro exI [of _ "[]"]) (simp add: same_but_def)
next
  case (Suc left)
  let ?step = "rate_event_step enc dec rd cas now m name"
  let ?cur = "rd (rs_store y) name"
  show ?case
  proof (cases "re a \<or> rate_decide enc dec m k ?cur = None")
    case True
    then have "ok = False \<and> y' = y" using Suc.prems(2) by (cases "re a") (simp_all add: Let_def)
    then show ?thesis using Suc.prems(1) by (intro exI [of _ "[]"]) (simp add: same_but_def)
  next
    case False
    then obtain r where r: "rate_decide enc dec m k ?cur = Some r" and re: "\<not> re a" by auto
    let ?y1 = "fold ?step (oth a) y"
    define z1 where "z1 = fold ?step (EvRead i k # oth a) z"
    have z0: "?step (EvRead i k) z = z\<lparr>rs_pend := gm_set (rs_pend z) i (k, ?cur, r)\<rparr>"
      using Suc.prems(1) r by (simp add: same_but_def)
    have "same_but i y (?step (EvRead i k) z)"
      using Suc.prems(1) unfolding z0 by (simp add: same_but_def gm_simps)
    then have s1: "same_but i ?y1 z1" unfolding z1_def fold.simps comp_def by (rule same_but_run) (rule oth)
    have p1: "gm_get (rs_pend z1) i = Some (k, ?cur, r)"
      unfolding z1_def fold.simps comp_def z0 by (subst pend_kept_run) (simp_all add: oth gm_simps)
    obtain won s where c: "cas now name ?cur (Some r) (rs_store ?y1) = (won, s)" by fastforce
    have lift: "lift_cas cas now name ?cur (Some r) ?y1 = (won, ?y1\<lparr>rs_store := s\<rparr>)"
      by (simp add: lift_cas_def c)
    let ?z2 = "z1\<lparr>rs_store := s, rs_pend := gm_del (rs_pend z1) i,
                rs_granted := (if won then k # rs_granted z1 else rs_granted z1)\<rparr>"
    have z2: "?step (EvSwap i) z1 = ?z2" using p1 c s1 by (simp add: same_but_def)
    show ?thesis
    proof (cases "ce a")
      case True
      then have "ok = False \<and> y' = ?y1" using Suc.prems(2) re r by (simp add: Let_def)
      then show ?thesis
        using s1 unfolding z1_def by (intro exI [of _ "EvRead i k # oth a"]) (simp add: same_but_def)
    next
      case no_err: False
      show ?thesis
      proof (cases won)
        case True
        then have "ok \<and> y' = ?y1\<lparr>rs_store := s\<rparr>"
          using Suc.prems(2) re r no_err lift by (simp add: Let_def)
        moreover have "fold ?step (EvRead i k # oth a @ [EvSwap i]) z = ?z2"
          using z2 by (simp add: z1_def)
        ultimately show ?thesis
          using True s1 by (intro exI [of _ "EvRead i k # oth a @ [EvSwap i]"]) (simp only:, simp add: same_but_def)
      next
        case False
        then have "cas_loop enc dec (\<lambda>y. rd (rs_store y)) (lift_cas cas) re ce (\<lambda>a. fold ?step (oth a)) now m name k
            (a + 1) left (?y1\<lparr>rs_store := s\<rparr>) = (ok, y')"
          using Suc.prems(2) re r no_err lift by (simp add: Let_def)
        moreover have "same_but i (?y1\<lparr>rs_store := s\<rparr>) ?z2"
          using s1 False by (simp add: same_but_def gm_simps)
        ultimately obtain evs where evs: "let z' = fold ?step evs ?z2 in
            rs_store z' = rs_store y' \<and> rs_granted z' = (if ok then k # rs_granted y' else rs_granted y')"
          using Suc.IH by blast
        then show ?thesis
          using z2 by (intro exI [of _ "EvRead i k # oth a @ EvSwap i # evs"]) (simp add: z1_def)
      qed
    qed
  qed
qed

subsection \<open>Properties\<close>

lemma AllowKey_new_hour:
  assumes "0 < rl_max r" "rl_bucket r \<noteq> bucketKey t"
  shows "AllowKey enc dec digest rd ls cas re ce others t key (r, s) =
    AllowKey enc dec digest rd ls cas re ce others t key
      (r\<lparr>rl_bucket := bucketKey t, rl_hourCount := 0, rl_keyCounts := []\<rparr>, s)"
  using assms by (simp add: AllowKey_def)

text \<open>
  The limiter of one process never grants more than its limit in an hour, nor more than half of
  it, rounded up, to one key; calls without a key are granted until the limit is reached and refused
  from then on. The calls may start in any state of the counters left by an earlier hour.
\<close>

theorem local_limit_holds:
  assumes "\<not> rl_provider r" and "0 < rl_max r"
    and "\<And>t key. (t, key) \<in> set calls \<Longrightarrow> t div hour = h"
    and "rl_bucket r \<noteq> bucketKey (h * hour)"
    and "oks = allow_run (AllowKey enc dec digest rd ls cas re ce others) calls (r, s)"
  shows "int (length (granted_keys calls oks)) \<le> rl_max r \<and>
    (\<forall>k. k \<noteq> [] \<longrightarrow> int (count_list (granted_keys calls oks) k) \<le> (rl_max r + 1) div 2) \<and>
    ((\<forall>c \<in> set calls. snd c = []) \<longrightarrow>
       oks = replicate (min (nat (rl_max r)) (length calls)) True @ replicate (length calls - nat (rl_max r)) False)"
proof (cases calls)
  case Nil
  then show ?thesis using assms(2,5) by simp
next
  case (Cons c rest)
  let ?b = "bucketKey (h * hour)"
  let ?r = "r\<lparr>rl_bucket := ?b, rl_hourCount := 0, rl_keyCounts := []\<rparr>"
  have b: "bucketKey (fst c) = ?b" if "c \<in> set calls" for c
    using assms(3) [of "fst c" "snd c"] that hour_pos by (simp add: bucketKey_def format_hour_same)
  have ok: "local_ok ?r" using assms(1,2) by (simp add: local_ok_def gm_get0_def key_share_def)
  have "AllowKey enc dec digest rd ls cas re ce others (fst c) (snd c) (r, s) =
      AllowKey enc dec digest rd ls cas re ce others (fst c) (snd c) (?r, s)"
    using AllowKey_new_hour [of r "fst c"] assms(2,4) b [of c] Cons by simp
  then have oks: "oks = allow_run (AllowKey enc dec digest rd ls cas re ce others) calls (?r, s)"
    unfolding assms(5) Cons by (cases c) simp
  have "int (length (granted_keys calls oks)) + rl_hourCount ?r \<le> rl_max ?r \<and>
      (k \<noteq> [] \<longrightarrow> int (count_list (granted_keys calls oks) k) + gm_get0 0 (rl_keyCounts ?r) k \<le> key_share (rl_max ?r))"
    for k by (rule local_run_bound [OF ok, where b="?b" and calls=calls]) (simp_all add: b oks)
  moreover have "oks = replicate (min (nat (rl_max r)) (length calls)) True @
      replicate (length calls - nat (rl_max r)) False" if "\<forall>c \<in> set calls. snd c = []"
    using local_run_exact [OF ok, of ?b calls] that b by (simp add: oks Let_def)
  ultimately show ?thesis by (simp add: key_share_def gm_get0_def)
qed

theorem local_limit_holds_witness:
  "allow_run (AllowKey (\<lambda>_. []) (\<lambda>_. None) (\<lambda>k. k) (\<lambda>_ _. None) (\<lambda>_ _. None) (\<lambda>_ _ _ _ s. (False, s))
     (\<lambda>_. False) (\<lambda>_. False) (\<lambda>_ s. s)) [(0, []), (1, []), (2, [])] (NewRateLimiter 2, ()) = [True, True, False]"
proof -
  have "bucketKey (0 * hour) \<noteq> []" by (simp add: bucketKey_def format_hour_def split_beta pad4_def)
  moreover have "t div hour = 0" if "(t, key) \<in> set [(0, []), (1, []), (2, [])]" for t and key :: string
    using that by (auto simp: hour_def minute_def second_def)
  ultimately show ?thesis
    using local_limit_holds [OF _ _ _ _ refl, where r="NewRateLimiter 2" and h=0 and s="()"
        and calls="[(0, []), (1, []), (2, [])]"]
    by (force simp: NewRateLimiter_def numeral_2_eq_2)
qed

text \<open>
  C13: However the reads and swaps of the processes that share an hour interleave, with swaps of other
  blobs among them, the calls granted in that hour never exceed the limit, and those of one key
  never its share.
\<close>

theorem shared_limit_holds:
  assumes "\<And>st. enc st \<noteq> [] \<and> dec (enc st) = Some st"
    and "blobs_ok s" and "ReadBlob s name = None" and "0 \<le> m"
    and "granted = rs_granted (fold (rate_event_step enc dec ReadBlob CompareAndSwapBlob now m name) evs
           \<lparr>rs_store = s, rs_pend = [], rs_granted = []\<rparr>)"
  shows "int (length granted) \<le> m \<and> (\<forall>k. k \<noteq> [] \<longrightarrow> int (count_list granted k) \<le> (m + 1) div 2)"
  using mem_cas.rate_system_capped [where enc=enc and dec=dec, OF assms(1-4)]
  by (simp add: assms(5) within_caps_def key_share_def)

definition unary_enc :: "distributedRateBucket \<Rightarrow> string" where
  "unary_enc st = replicate (Suc (to_nat (db_Count st, db_KeyCounts st))) CHR ''x''"

definition unary_dec :: "string \<Rightarrow> distributedRateBucket option" where
  "unary_dec raw = (case from_nat (length raw - 1) of (c, ks) \<Rightarrow> Some \<lparr>db_Count = c, db_KeyCounts = ks\<rparr>)"

lemma unary_codec: "unary_enc st \<noteq> [] \<and> unary_dec (unary_enc st) = Some st"
  by (simp add: unary_enc_def unary_dec_def)

theorem shared_limit_holds_witness:
  "int (length (rs_granted (fold (rate_event_step unary_enc unary_dec ReadBlob CompareAndSwapBlob 0 1 ''b'')
       [EvRead 0 ''k'', EvRead 1 ''k'', EvSwap 1, EvSwap 0]
       \<lparr>rs_store = NewMemory, rs_pend = [], rs_granted = []\<rparr>))) \<le> 1"
proof -
  have "ReadBlob NewMemory ''b'' = None" "(0::int) \<le> 1" by (simp_all add: NewMemory_def ReadBlob_def)
  from shared_limit_holds [where enc=unary_enc and dec=unary_dec, OF unary_codec blobs_ok_New this refl]
  show ?thesis by (rule conjunct1)
qed

text \<open>
  C14: The retry loop of a limiter refines the events of the shared system: whatever the other
  limiters do between its reads and its swaps, there is a sequence of events with the same store,
  in which the call is recorded as granted exactly when the loop answered yes.
\<close>

theorem cas_loop_refines_events:
  assumes "\<And>a ev. ev \<in> set (oth a) \<Longrightarrow> \<not> ev_by i ev"
    and "cas_loop enc dec (\<lambda>y. rd (rs_store y)) (lift_cas cas) rd_err cas_err
      (\<lambda>a. fold (rate_event_step enc dec rd cas now m name) (oth a)) now m name k 0 left y = (ok, y')"
  shows "\<exists>evs. let z = fold (rate_event_step enc dec rd cas now m name) evs y in
      rs_store z = rs_store y' \<and> rs_granted z = (if ok then k # rs_granted y' else rs_granted y')"
  by (rule loop_events [OF assms(1) same_but_refl assms(2)])

theorem cas_loop_refines_events_witness:
  "\<exists>evs ok (y' :: memoryProvider rate_system). let z = fold (rate_event_step unary_enc unary_dec ReadBlob CompareAndSwapBlob 0 1 ''b'') evs
       \<lparr>rs_store = NewMemory, rs_pend = [], rs_granted = []\<rparr>
     in rs_store z = rs_store y' \<and> rs_granted z = (if ok then ''k'' # rs_granted y' else rs_granted y')"
proof -
  let ?step = "rate_event_step unary_enc unary_dec ReadBlob CompareAndSwapBlob 0 1 ''b''"
  let ?oth = "\<lambda>a. if a = 0 then [EvRead 1 ''j'', EvSwap 1] else []"
  obtain ok y' where "cas_loop unary_enc unary_dec (\<lambda>y. ReadBlob (rs_store y)) (lift_cas CompareAndSwapBlob)
      (\<lambda>_. False) (\<lambda>_. False) (\<lambda>a. fold ?step (?oth a)) 0 1 ''b'' ''k'' 0 64
      \<lparr>rs_store = NewMemory, rs_pend = [], rs_granted = []\<rparr> = (ok, y')" by fastforce
  from cas_loop_refines_events [where oth="?oth" and i=0, OF _ this]
  have "\<exists>evs. let z = fold ?step evs \<lparr>rs_store = NewMemory, rs_pend = [], rs_granted = []\<rparr>
     in rs_store z = rs_store y' \<and> rs_granted z = (if ok then ''k'' # rs_granted y' else rs_granted y')"
    by (simp split: if_splits) fastforce?
  then show ?thesis by blast
qed

text \<open>
  C15: A call below the limit and its share that nobody disturbs and whose calls to the store do not
  fail is granted at the first attempt. Afterwards the bucket of the hour counts it, and no blob
  outside the limiter's own prefix has changed.
\<close>

theorem undisturbed_call_is_granted:
  assumes "blobs_ok s" and "rl_provider r" and "0 < rl_max r"
    and "name = rate_name (rl_scope r) (bucketKey now)"
    and "parse_bucket dec (ReadBlob s name) = Some st"
    and "db_Count st < rl_max r"
    and "key \<noteq> [] \<Longrightarrow> gm_get0 0 (db_KeyCounts st) (digest key) < (rl_max r + 1) div 2 \<and> digest key \<noteq> []"
    and "\<not> rd_err 0" and "\<not> cas_err 0" and "others 0 s = s"
  shows "\<exists>r' s'. AllowKey enc dec digest ReadBlob (\<lambda>s p. Some (ListBlobs s p)) CompareAndSwapBlob
        rd_err cas_err others now key (r, s) = (True, r', s') \<and>
      blobs_ok s' \<and>
      ReadBlob s' name = Some (enc (if key = [] then st\<lparr>db_Count := db_Count st + 1\<rparr>
        else st\<lparr>db_Count := db_Count st + 1, db_KeyCounts := bump (db_KeyCounts st) (digest key)\<rparr>)) \<and>
      (\<forall>n. \<not> prefix (''ai-rate/'' @ rl_scope r @ ''/'') n \<longrightarrow> ReadBlob s' n = ReadBlob s n)"
proof -
  let ?pre = "''ai-rate/'' @ rl_scope r @ ''/''"
  let ?now = "bucketKey now"
  let ?hash = "if key \<noteq> [] then digest key else []"
  define raw where "raw = enc (if key = [] then st\<lparr>db_Count := db_Count st + 1\<rparr>
        else st\<lparr>db_Count := db_Count st + 1, db_KeyCounts := bump (db_KeyCounts st) (digest key)\<rparr>)"
  have dec: "rate_decide enc dec (rl_max r) ?hash (ReadBlob s name) = Some raw"
    using assms(5,6,7) by (cases "key = []") (simp_all add: rate_decide_def raw_def key_share_def Let_def)
  obtain w s1 where c: "CompareAndSwapBlob now name (ReadBlob s name) (Some raw) s = (w, s1)" by fastforce
  note cas = mem_cas.cas_invar mem_cas.cas_same mem_cas.cas_won mem_cas.cas_other
  have w: "w" and s1: "blobs_ok s1" "ReadBlob s1 name = Some raw"
    "\<And>n. n \<noteq> name \<Longrightarrow> ReadBlob s1 n = ReadBlob s n"
    using cas [OF assms(1), where t=now and n=name and e="ReadBlob s name" and r="Some raw"]
    by (simp_all add: c)
  have loop: "cas_loop enc dec ReadBlob CompareAndSwapBlob rd_err cas_err others now (rl_max r) name ?hash 0
      distributedRateCASAttempts s = (True, s1)"
    using mem_cas.cas_loop_quiet [where others=others and re=rd_err and ce=cas_err and left=63 and now=now, OF assms(1) dec assms(8-10)] c
    by (simp add: distributedRateCASAttempts_def eval_nat_numeral)
  obtain cl s2 where cl: "cleanupDistributedBuckets (\<lambda>s p. Some (ListBlobs s p)) CompareAndSwapBlob now
      (rl_scope r) name ?now s1 = (cl, s2)" by fastforce
  let ?P = "\<lambda>n. n \<noteq> name \<and> drop (length ?pre) n < ?now"
  have s2: "blobs_ok s2 \<and> ReadBlob s2 n = ReadBlob s1 n" if "n = name \<or> \<not> prefix ?pre n" for n
  proof -
    have "n' \<noteq> n" if "(n', d) \<in> set (ListBlobs s1 ?pre)" "?P n'" for n' d
      using that \<open>n = name \<or> \<not> prefix ?pre n\<close> mem_list.list_iff [OF s1(1)] by auto
    from mem_cas.fold_cleanup_other [where bs="ListBlobs s1 ?pre" and P="?P", OF s1(1) this, where c=True and now=now]
    show ?thesis using cl by (simp add: cleanupDistributedBuckets_def Let_def)
  qed
  have out: "n \<noteq> name" if "\<not> prefix ?pre n" for n using that by (auto simp: assms(4) rate_name_def)
  define r2 where "r2 = (if ?now \<noteq> rl_bucket r
      then r\<lparr>rl_bucket := ?now, rl_hourCount := 0, rl_keyCounts := []\<rparr> else r)"
  have r2: "rl_scope r2 = rl_scope r" "rl_max r2 = rl_max r" "rl_cleaned r2 = rl_cleaned r"
    by (simp_all add: r2_def)
  have p2: "rl_provider r2" using assms(2) by (simp add: r2_def)
  have "\<exists>r3. allowDistributed enc dec digest ReadBlob (\<lambda>s p. Some (ListBlobs s p)) CompareAndSwapBlob
        rd_err cas_err others now ?now key (r2, s) = (True, r3, if rl_cleaned r = ?now then s1 else s2)"
    using loop cl by (cases "rl_cleaned r = ?now") (simp_all add: allowDistributed_def r2 assms(4) [symmetric] Let_def)
  then have "\<exists>r'. AllowKey enc dec digest ReadBlob (\<lambda>s p. Some (ListBlobs s p)) CompareAndSwapBlob
        rd_err cas_err others now key (r, s) = (True, r', if rl_cleaned r = ?now then s1 else s2)"
    unfolding AllowKey_def prod.case r2_def [symmetric] Let_def using assms(2,3) p2 by auto
  then obtain r' where call: "AllowKey enc dec digest ReadBlob (\<lambda>s p. Some (ListBlobs s p)) CompareAndSwapBlob
        rd_err cas_err others now key (r, s) = (True, r', if rl_cleaned r = ?now then s1 else s2)" ..
  have "ReadBlob s2 name = Some raw" "blobs_ok s2" using s2 [of name] s1(2) by simp_all
  moreover have "ReadBlob s2 n = ReadBlob s n" if "\<not> prefix ?pre n" for n
    using s2 [of n] s1(3) [of n] out [OF that] that by simp
  ultimately show ?thesis
    unfolding raw_def [symmetric] using s1 out call
    by (intro exI [of _ r'] exI [of _ "if rl_cleaned r = ?now then s1 else s2"]) (simp del: prefix_code)
qed

theorem undisturbed_call_is_granted_witness:
  "\<exists>r' s'. AllowKey unary_enc unary_dec (\<lambda>k. k) ReadBlob (\<lambda>s p. Some (ListBlobs s p)) CompareAndSwapBlob
      (\<lambda>_. False) (\<lambda>_. False) (\<lambda>_ s. s) 0 ''k''
      (NewDistributedRateLimiter (\<lambda>k. k) 3 True ''org'', NewMemory) = (True, r', s')"
proof -
  let ?r = "NewDistributedRateLimiter (\<lambda>k. k) 3 True ''org''"
  have "rl_provider ?r" "rl_max ?r = 3" by (simp_all add: NewDistributedRateLimiter_def NewRateLimiter_def)
  moreover have "parse_bucket unary_dec (ReadBlob NewMemory n) = Some \<lparr>db_Count = 0, db_KeyCounts = []\<rparr>" for n
    by (simp add: NewMemory_def ReadBlob_def parse_bucket_def)
  ultimately show ?thesis
    using undisturbed_call_is_granted [OF blobs_ok_New, where r="?r" and dec=unary_dec and enc=unary_enc
        and st="\<lparr>db_Count = 0, db_KeyCounts = []\<rparr>" and key="''k''" and now=0 and digest="\<lambda>k. k"
        and rd_err="\<lambda>_. False" and cas_err="\<lambda>_. False" and others="\<lambda>_ s. s", OF _ _ refl]
    by (force simp: gm_get0_def)
qed

end
