(* ===== verification/Log_Tokens.thy ===== *)
theory Log_Tokens
  imports Prelude
begin

text \<open>
  How a log line becomes tokens (\<open>tokenize\<close>, \<open>isVariable\<close> and their regular expressions in
  \<open>pkg/agent/miner.go\<close>, \<open>stripControlChars\<close> of \<open>pkg/agent/redact.go\<close>).

  The regular expressions are anchored and deterministic, so each is a check on the runs of
  characters it is made of: \<open>run P lo hi\<close> reads a maximal run of class \<open>P\<close> whose length is in the
  bounds; the character after such a run is never of the class in these expressions.
\<close>

subsection \<open>Replacing substrings\<close>

text \<open>\<open>strings.ReplaceAll\<close> for a non-empty pattern.\<close>

function replace_all :: "string \<Rightarrow> string \<Rightarrow> string \<Rightarrow> string" where
  "replace_all old new [] = []"
| "replace_all old new (c # cs) =
     (if old \<noteq> [] \<and> prefix old (c # cs) then new @ replace_all old new (drop (length old) (c # cs))
      else c # replace_all old new cs)"
  by pat_completeness auto
termination
  by (relation "measure (\<lambda>(old, new, s). length s)") (auto simp: diff_less_Suc)

definition spaces2 :: string where "spaces2 = [CHR '' '', CHR '' '']"

lemma length_replace_all_le: "length new \<le> length old \<Longrightarrow> length (replace_all old new s) \<le> length s"
proof (induction old new s rule: replace_all.induct)
  case (2 old new c cs)
  show ?case
  proof (cases "old \<noteq> [] \<and> prefix old (c # cs)")
    case True
    then have "length old \<le> length (c # cs)" by (blast dest: prefix_length_le)
    then show ?thesis using 2 True by simp
  next
    case False
    then show ?thesis using 2 by auto
  qed
qed simp

lemma length_replace_all_less:
  "length new < length old \<Longrightarrow> sublist old s \<Longrightarrow> length (replace_all old new s) < length s"
proof (induction old new s rule: replace_all.induct)
  case (1 old new)
  then show ?case by auto
next
  case (2 old new c cs)
  show ?case
  proof (cases "old \<noteq> [] \<and> prefix old (c # cs)")
    case True
    have "length (replace_all old new (drop (length old) (c # cs))) \<le> length (drop (length old) (c # cs))"
      using 2 by (intro length_replace_all_le) simp
    moreover have "length old \<le> length (c # cs)" using True by (blast dest: prefix_length_le)
    ultimately show ?thesis using True 2 by simp
  next
    case False
    then have "sublist old cs" using 2 by (auto simp: sublist_Cons_right)
    then show ?thesis using False 2 by auto
  qed
qed

function collapse_spaces :: "string \<Rightarrow> string" where
  "collapse_spaces s =
     (if sublist spaces2 s then collapse_spaces (replace_all spaces2 [CHR '' ''] s) else s)"
  by pat_completeness auto
termination
  by (relation "measure length") (auto intro!: length_replace_all_less simp: spaces2_def)

declare collapse_spaces.simps [simp del]

definition stripControlChars :: "string \<Rightarrow> string" where
  "stripControlChars s =
     (let s = replace_all [CHR 0x0D, CHR 0x0A] [CHR '' ''] s;
          s = replace_all [CHR 0x0A] [CHR '' ''] s;
          s = replace_all [CHR 0x09] [CHR '' ''] s
      in trim_space (collapse_spaces s))"

subsection \<open>Variable-looking tokens\<close>

definition is_digit :: "char \<Rightarrow> bool" where
  "is_digit c \<longleftrightarrow> CHR ''0'' \<le> c \<and> c \<le> CHR ''9''"

definition is_letter :: "char \<Rightarrow> bool" where
  "is_letter c = (let l = lower_char c in CHR ''a'' \<le> l \<and> l \<le> CHR ''z'')"

definition is_hex :: "char \<Rightarrow> bool" where
  "is_hex c \<longleftrightarrow> is_digit c \<or> CHR ''a'' \<le> c \<and> c \<le> CHR ''f'' \<or> CHR ''A'' \<le> c \<and> c \<le> CHR ''F''"

definition run :: "(char \<Rightarrow> bool) \<Rightarrow> nat \<Rightarrow> nat \<Rightarrow> string \<Rightarrow> string option" where
  "run P lo hi s =
     (let n = length (takeWhile P s) in if lo \<le> n \<and> n \<le> hi then Some (dropWhile P s) else None)"

fun one :: "string \<Rightarrow> string \<Rightarrow> string option" where
  "one cs [] = None"
| "one cs (c # s) = (if c \<in> set cs then Some s else None)"

text \<open>A sequence of readers, and one that may be absent.\<close>

fun seq :: "(string \<Rightarrow> string option) list \<Rightarrow> string \<Rightarrow> string option" where
  "seq [] s = Some s"
| "seq (r # rs) s = (case r s of None \<Rightarrow> None | Some s \<Rightarrow> seq rs s)"

definition maybe :: "(string \<Rightarrow> string option) \<Rightarrow> string \<Rightarrow> string option" where
  "maybe r s = (case r s of None \<Rightarrow> Some s | Some s' \<Rightarrow> Some s')"

definition matches :: "(string \<Rightarrow> string option) list \<Rightarrow> string \<Rightarrow> bool" where
  "matches rs s \<longleftrightarrow> seq rs s = Some []"

definition digits :: "nat \<Rightarrow> string \<Rightarrow> string option" where
  "digits n = run is_digit n n"

definition some_digits :: "string \<Rightarrow> string option" where
  "some_digits s = run is_digit 1 (length s) s"

definition reNumber :: "string \<Rightarrow> bool" where
  "reNumber = matches [maybe (one ''-+''), some_digits, maybe (seq [one ''.'', some_digits])]"

definition reHex :: "string \<Rightarrow> bool" where
  "reHex t \<longleftrightarrow> matches [one ''0'', one ''x'', run is_hex 1 (length t)] t"

definition reUUID :: "string \<Rightarrow> bool" where
  "reUUID = matches [run is_hex 8 8, one ''-'', run is_hex 4 4, one ''-'', run is_hex 4 4, one ''-'',
     run is_hex 4 4, one ''-'', run is_hex 12 12]"

definition reIPv4 :: "string \<Rightarrow> bool" where
  "reIPv4 = matches [run is_digit 1 3, one ''.'', run is_digit 1 3, one ''.'', run is_digit 1 3, one ''.'',
     run is_digit 1 3, maybe (seq [one '':'', some_digits])]"

definition reLong :: "string \<Rightarrow> bool" where
  "reLong t \<longleftrightarrow> 16 \<le> length t \<and> list_all is_hex t"

definition reAlphaNum :: "string \<Rightarrow> bool" where
  "reAlphaNum t \<longleftrightarrow> t \<noteq> [] \<and> list_all (\<lambda>c. is_letter c \<or> is_digit c \<or> c \<in> set ''_./:-'') t"

definition reRedacted :: "string \<Rightarrow> bool" where
  "reRedacted t \<longleftrightarrow> prefix ''<REDACTED:'' t \<and>
     (let rest = drop 10 t in takeWhile (\<lambda>c. c \<noteq> CHR ''>'') rest \<noteq> [] \<and>
        dropWhile (\<lambda>c. c \<noteq> CHR ''>'') rest = ''>'')"

definition reDate :: "string \<Rightarrow> bool" where
  "reDate = matches [digits 4, one ''-'', digits 2, one ''-'', digits 2]"

definition reClock :: "string \<Rightarrow> bool" where
  "reClock = matches [digits 2, one '':'', digits 2, one '':'', digits 2,
     maybe (seq [one ''.,:'', run is_digit 1 9])]"

definition time_zone :: "string \<Rightarrow> string option" where
  "time_zone s = (case one ''Z'' s of Some s' \<Rightarrow> Some s'
     | None \<Rightarrow> seq [one ''+-'', digits 2, one '':'', digits 2] s)"

definition reISO8601 :: "string \<Rightarrow> bool" where
  "reISO8601 = matches [digits 4, one ''-'', digits 2, one ''-'', digits 2, one ''T'',
     digits 2, one '':'', digits 2, one '':'', digits 2,
     maybe (seq [one ''.,'', run is_digit 1 9]),
     maybe time_zone]"

definition hasLetter :: "string \<Rightarrow> bool" where "hasLetter s \<longleftrightarrow> list_ex is_letter s"
definition hasDigit :: "string \<Rightarrow> bool" where "hasDigit s \<longleftrightarrow> list_ex is_digit s"

definition isVariable :: "string \<Rightarrow> bool" where
  "isVariable t \<longleftrightarrow> t \<noteq> [] \<and>
     (reRedacted t \<or>
      (reNumber t \<or> reHex t \<or> reUUID t \<or> reIPv4 t \<or> reLong t) \<or>
      (reDate t \<or> reClock t \<or> reISO8601 t) \<or>
      reAlphaNum t \<and> hasLetter t \<and> hasDigit t)"

definition wild :: string where "wild = ''<*>''"

definition isWildcard :: "string \<Rightarrow> bool" where "isWildcard t \<longleftrightarrow> t = wild"

subsection \<open>Tokens\<close>

definition delimiters :: string where "delimiters = ''=,()[]{}'' @ [CHR 0x22]"

definition space_out :: "string \<Rightarrow> string" where
  "space_out s = fold (\<lambda>d. replace_all [d] [CHR '' '', d, CHR '' '']) delimiters s"

definition blank_out :: "string \<Rightarrow> string" where
  "blank_out t = (if isVariable t then wild else t)"

definition tokenize :: "string \<Rightarrow> string list" where
  "tokenize s = (if s = [] then [] else map blank_out (fields (space_out (stripControlChars s))))"

subsection \<open>The words of a line\<close>

text \<open>
  A scanner that reads a line once, with the word it is in: it gives the blank-separated words,
  and each delimiter as a word of its own. It is the specification of the splitting above.
\<close>

definition word_end :: "string \<Rightarrow> string list" where
  "word_end w = (if w = [] then [] else [w])"

fun scan_words :: "(char \<Rightarrow> bool) \<Rightarrow> string \<Rightarrow> string \<Rightarrow> string list" where
  "scan_words D w [] = word_end w"
| "scan_words D w (c # cs) =
     (if is_space c then word_end w @ scan_words D [] cs
      else if D c then word_end w @ [c] # scan_words D [] cs
      else scan_words D (w @ [c]) cs)"

lemma scan_word: "\<forall>c \<in> set w. \<not> is_space c \<and> \<not> D c \<Longrightarrow> scan_words D v (w @ s) = scan_words D (v @ w) s"
  by (induction w arbitrary: v) auto

lemma scan_spaces:
  "sp \<noteq> [] \<Longrightarrow> \<forall>c \<in> set sp. is_space c \<Longrightarrow> scan_words D v (sp @ s) = word_end v @ scan_words D [] s"
proof (induction sp arbitrary: v)
  case (Cons c sp)
  then show ?case by (cases "sp = []") (auto simp: word_end_def)
qed simp

lemma scan_trailing: "\<forall>c \<in> set sp. is_space c \<Longrightarrow> scan_words D v (s @ sp) = scan_words D v s"
proof (induction s arbitrary: v)
  case Nil
  then show ?case using scan_spaces [of sp D v "[]"] by (cases "sp = []") (auto simp: word_end_def)
qed simp

lemma scan_leading: "scan_words D [] (dropWhile is_space s) = scan_words D [] s"
  by (induction s) (auto simp: word_end_def)

lemma scan_trim: "scan_words D [] (trim_space s) = scan_words D [] s"
proof -
  have "dropWhile is_space s = trim_space s @ rev (takeWhile is_space (rev (dropWhile is_space s)))"
    unfolding trim_space_def by (metis rev_append rev_rev_ident takeWhile_dropWhile_id)
  then have "scan_words D [] (dropWhile is_space s) = scan_words D [] (trim_space s)"
    using scan_trailing [of "rev (takeWhile is_space (rev (dropWhile is_space s)))" D "[]" "trim_space s"]
    by (auto dest: set_takeWhileD)
  then show ?thesis by (simp add: scan_leading)
qed

text \<open>Replacing blanks by blanks does not change the words.\<close>

lemma scan_replace:
  assumes "\<forall>c \<in> set old. is_space c" "new \<noteq> []" "\<forall>c \<in> set new. is_space c"
  shows "scan_words D v (replace_all old new s) = scan_words D v s"
  using assms
proof (induction old new s arbitrary: v rule: replace_all.induct)
  case (2 old new c cs)
  show ?case
  proof (cases "old \<noteq> [] \<and> prefix old (c # cs)")
    case True
    then have split: "c # cs = old @ drop (length old) (c # cs)" by (metis append_eq_conv_conj prefix_def)
    have "scan_words D v (c # cs) = word_end v @ scan_words D [] (drop (length old) (c # cs))"
      by (subst split) (use True 2 in \<open>simp add: scan_spaces\<close>)
    moreover have "replace_all old new (c # cs) = new @ replace_all old new (drop (length old) (c # cs))"
      using True by simp
    ultimately show ?thesis using 2 True by (simp only: scan_spaces simp_thms)
  next
    case False
    then have eq: "replace_all old new (c # cs) = c # replace_all old new cs" by (cases "old = []") simp_all
    have "scan_words D v (replace_all old new cs) = scan_words D v cs" for v
      using 2(2) [OF False 2(3-5)] .
    then show ?thesis unfolding eq scan_words.simps by simp
  qed
qed simp

lemma is_space_blanks: "is_space (CHR '' '')" "is_space (CHR 0x0A)" "is_space (CHR 0x0D)" "is_space (CHR 0x09)"
  by (simp_all add: is_space_def Let_def)

lemma scan_collapse: "scan_words D v (collapse_spaces s) = scan_words D v s"
proof (induction s rule: collapse_spaces.induct)
  case (1 s)
  show ?case
  proof (cases "sublist spaces2 s")
    case True
    then have "collapse_spaces s = collapse_spaces (replace_all spaces2 [CHR '' ''] s)"
      by (simp add: collapse_spaces.simps [of s])
    then show ?thesis
      using 1 True scan_replace [of spaces2 "[CHR '' '']" D v s] by (simp add: spaces2_def is_space_blanks)
  next
    case False
    then show ?thesis by (simp add: collapse_spaces.simps [of s])
  qed
qed

lemma scan_strip: "scan_words D [] (stripControlChars s) = scan_words D [] s"
  by (simp add: stripControlChars_def Let_def scan_trim scan_collapse scan_replace is_space_blanks)

text \<open>Spacing out the delimiters one after the other is one pass over the characters.\<close>

definition expand :: "(char \<Rightarrow> bool) \<Rightarrow> char \<Rightarrow> string" where
  "expand D c = (if D c then [CHR '' '', c, CHR '' ''] else [c])"

lemma replace_all_char: "replace_all [d] new s = concat (map (\<lambda>c. if c = d then new else [c]) s)"
  by (induction s) auto

lemma replace_expand:
  assumes "\<not> D d" "d \<noteq> CHR '' ''"
  shows "replace_all [d] [CHR '' '', d, CHR '' ''] (concat (map (expand D) s)) =
    concat (map (expand (\<lambda>c. D c \<or> c = d)) s)"
  using assms by (induction s) (auto simp: replace_all_char expand_def)

lemma space_out_fold:
  assumes "distinct ds" "\<forall>d \<in> set ds. d \<noteq> CHR '' '' \<and> \<not> D d"
  shows "fold (\<lambda>d. replace_all [d] [CHR '' '', d, CHR '' '']) ds (concat (map (expand D) s)) =
    concat (map (expand (\<lambda>c. D c \<or> c \<in> set ds)) s)"
  using assms
proof (induction ds arbitrary: D)
  case (Cons d ds)
  have "fold (\<lambda>d. replace_all [d] [CHR '' '', d, CHR '' '']) ds
      (concat (map (expand (\<lambda>c. D c \<or> c = d)) s)) = concat (map (expand (\<lambda>c. (D c \<or> c = d) \<or> c \<in> set ds)) s)"
    using Cons.prems by (intro Cons.IH) auto
  then show ?case
    using Cons.prems replace_expand [of D d s] by (simp add: disj_assoc)
qed simp

lemma space_out_expand: "space_out s = concat (map (expand (\<lambda>c. c \<in> set delimiters)) s)"
proof -
  have "concat (map (expand (\<lambda>c. False)) s) = s" by (induction s) (auto simp: expand_def)
  moreover have "distinct delimiters" "\<forall>d \<in> set delimiters. d \<noteq> CHR '' '' \<and> \<not> False"
    by (simp_all add: delimiters_def)
  ultimately show ?thesis
    using space_out_fold [of delimiters "\<lambda>c. False" s] by (simp add: space_out_def)
qed

lemma scan_expand:
  "\<not> is_space (CHR ''x'') \<Longrightarrow> (\<And>c. D c \<Longrightarrow> \<not> is_space c) \<Longrightarrow>
   scan_words (\<lambda>_. False) v (concat (map (expand D) s)) = scan_words D v s"
  by (induction s arbitrary: v) (auto simp: expand_def is_space_blanks word_end_def)

lemma fields_scan: "fields s = scan_words (\<lambda>_. False) [] s"
proof (induction s rule: fields.induct)
  case (1 s)
  show ?case
  proof (cases "dropWhile is_space s")
    case Nil
    have "scan_words (\<lambda>_. False) [] s = []"
      using scan_leading [of "\<lambda>_. False" s] unfolding Nil by (simp add: word_end_def)
    then show ?thesis by (subst fields.simps) (simp only: Nil list.case)
  next
    case (Cons c cs)
    let ?w = "takeWhile (\<lambda>d. \<not> is_space d) (c # cs)"
    let ?r = "dropWhile (\<lambda>d. \<not> is_space d) (c # cs)"
    have c: "\<not> is_space c" using Cons by (metis hd_dropWhile list.distinct(1) list.sel(1))
    have "scan_words (\<lambda>_. False) [] s = scan_words (\<lambda>_. False) [] (?w @ ?r)"
      unfolding takeWhile_dropWhile_id using scan_leading [of "\<lambda>_. False" s] by (simp only: Cons)
    also have "\<dots> = scan_words (\<lambda>_. False) ?w ?r"
      by (subst scan_word) (auto dest: set_takeWhileD)
    also have "\<dots> = ?w # scan_words (\<lambda>_. False) [] ?r"
    proof (cases "?r")
      case (Cons e es)
      then have "is_space e" by (metis hd_dropWhile list.distinct(1) list.sel(1))
      then show ?thesis using Cons c by (simp add: word_end_def)
    next
      case Nil
      then show ?thesis unfolding Nil using c by (simp add: word_end_def)
    qed
    also have "\<dots> = ?w # fields ?r" using 1 [OF Cons] by simp
    finally show ?thesis using Cons by (simp add: fields.simps [of s])
  qed
qed

abbreviation is_delim :: "char \<Rightarrow> bool" where "is_delim c \<equiv> c \<in> set delimiters"

lemma delimiters_not_space: "is_delim c \<Longrightarrow> \<not> is_space c"
  by (auto simp: delimiters_def is_space_def Let_def)

lemma tokenize_scan: "tokenize s = map blank_out (scan_words is_delim [] s)"
proof -
  have "fields (space_out (stripControlChars s)) = scan_words is_delim [] s"
    using scan_expand [of is_delim "[]" "stripControlChars s"] delimiters_not_space
    by (simp add: fields_scan space_out_expand scan_strip is_space_def)
  then show ?thesis by (simp add: tokenize_def word_end_def)
qed

text \<open>Every token is a word without blanks, a delimiter or the wildcard, and stays as it is.\<close>

definition clean_token :: "string \<Rightarrow> bool" where
  "clean_token t \<longleftrightarrow> t \<noteq> [] \<and> blank_out t = t \<and> (\<forall>c \<in> set t. \<not> is_space c) \<and>
     ((\<exists>d. is_delim d \<and> t = [d]) \<or> (\<forall>c \<in> set t. \<not> is_delim c))"

lemma wild_clean: "clean_token wild"
  by (simp add: clean_token_def wild_def blank_out_def is_space_def delimiters_def)

lemma scan_word_shape:
  assumes "w = [] \<or> (\<forall>c \<in> set w. \<not> is_space c \<and> \<not> is_delim c)" "t \<in> set (scan_words is_delim w s)"
  shows "t \<noteq> [] \<and> (\<forall>c \<in> set t. \<not> is_space c) \<and> ((\<exists>d. is_delim d \<and> t = [d]) \<or> (\<forall>c \<in> set t. \<not> is_delim c))"
  using assms
proof (induction s arbitrary: w)
  case Nil
  then show ?case by (auto simp: word_end_def split: if_splits)
next
  case (Cons c s)
  consider "is_space c" | "\<not> is_space c" "is_delim c" | "\<not> is_space c" "\<not> is_delim c" by blast
  then show ?case
  proof cases
    case 1
    then show ?thesis using Cons.prems Cons.IH [of "[]"] by (auto simp: word_end_def split: if_splits)
  next
    case 2
    then show ?thesis using Cons.prems Cons.IH [of "[]"] by (auto simp: word_end_def split: if_splits)
  next
    case 3
    then have "w @ [c] = [] \<or> (\<forall>c \<in> set (w @ [c]). \<not> is_space c \<and> \<not> is_delim c)"
      using Cons.prems(1) by (cases "w = []") simp_all
    moreover have "t \<in> set (scan_words is_delim (w @ [c]) s)" using Cons.prems(2) 3 by simp
    ultimately show ?thesis by (rule Cons.IH)
  qed
qed

lemma blank_out_idem [simp]: "blank_out (blank_out t) = blank_out t"
  using wild_clean by (simp add: blank_out_def clean_token_def)

lemma tokenize_clean: "t \<in> set (tokenize s) \<Longrightarrow> clean_token t"
proof -
  assume "t \<in> set (tokenize s)"
  then obtain w where w: "w \<in> set (scan_words is_delim [] s)" "t = blank_out w" by (auto simp: tokenize_scan)
  then show ?thesis
    using scan_word_shape [of "[]" w s] wild_clean
    by (cases "isVariable w") (simp_all add: clean_token_def blank_out_def)
qed

lemma scan_join: "\<forall>t \<in> set ts. clean_token t \<Longrightarrow> scan_words is_delim [] (join_with '' '' ts) = ts"
proof (induction "'' ''" ts rule: join_with.induct)
  case (2 w)
  then show ?case using scan_word [of w is_delim "[]" "[]"] by (auto simp: clean_token_def word_end_def)
next
  case (3 w v ws)
  have "scan_words is_delim [] (w @ '' '' @ join_with '' '' (v # ws)) = w # scan_words is_delim [] (join_with '' '' (v # ws))"
  proof (cases "\<exists>d. is_delim d \<and> w = [d]")
    case True
    then show ?thesis using delimiters_not_space by (auto simp: word_end_def is_space_blanks)
  next
    case False
    then have "\<forall>c \<in> set w. \<not> is_space c \<and> \<not> is_delim c" "w \<noteq> []" using 3 by (auto simp: clean_token_def)
    then show ?thesis
      using scan_word [of w is_delim "[]"] by (simp add: word_end_def is_space_blanks)
  qed
  then show ?case using 3 by simp
qed (simp add: word_end_def)

text \<open>Printing the tokens of a template and reading them back gives the same tokens.\<close>

lemma tokenize_join: "\<forall>t \<in> set ts. clean_token t \<Longrightarrow> tokenize (join_with '' '' ts) = ts"
  by (simp add: tokenize_scan scan_join map_idI clean_token_def)

end
