(* ===== verification/Miner.thy ===== *)
theory Miner
  imports Log_Tokens Complex_Main
begin

text \<open>
  The log clusterer of \<open>pkg/agent/miner.go\<close>. Clusters are objects shared by the leaves of the bucket
  tree and the id index, and merged in place: they live on a heap (a list, addressed by position),
  and tree and index hold addresses. The tree is nested as in the code; \<open>descend\<close> with creation is
  the pair of \<open>leaf_get\<close> and \<open>leaf_put\<close>, a missing node being an empty one.

  The similarity is the exact fraction of agreeing positions (the code rounds it to a \<open>float64\<close>,
  which keeps the order of fractions with the same denominator). SHA-256 is a parameter.
\<close>

subsection \<open>State\<close>

record MinerCluster =
  mc_ID :: string
  mc_Tokens :: "string list"
  mc_Size :: int

datatype minerNode = MinerNode "(string \<times> minerNode) list" "nat list"

record Miner =
  mi_tree :: "(nat, minerNode) gomap"
  mi_depth :: int
  mi_maxChildren :: int
  mi_similarityThreshold :: rat
  mi_clusters :: "(string, nat) gomap"
  mi_heap :: "MinerCluster list"

definition NewMiner :: "rat \<Rightarrow> int \<Rightarrow> int \<Rightarrow> Miner" where
  "NewMiner similarityThreshold depth maxChildren =
     \<lparr>mi_tree = [],
      mi_depth = (if depth \<le> 0 then 4 else depth),
      mi_maxChildren = (if maxChildren \<le> 0 then 100 else maxChildren),
      mi_similarityThreshold = (if similarityThreshold \<le> 0 then 4 / 10 else similarityThreshold),
      mi_clusters = [], mi_heap = []\<rparr>"

subsection \<open>Templates\<close>

definition tokenSimilarity :: "string list \<Rightarrow> string list \<Rightarrow> rat" where
  "tokenSimilarity a b =
     (if length a \<noteq> length b \<or> length a = 0 then 0
      else of_nat (length (filter (\<lambda>(x, y). x = y \<or> isWildcard x \<or> isWildcard y) (zip a b))) / of_nat (length a))"

definition mergeTemplates :: "string list \<Rightarrow> string list \<Rightarrow> string list" where
  "mergeTemplates existing incoming = map (\<lambda>(x, y). if x = y then x else wild) (zip existing incoming)"

definition newPatternID :: "(string \<Rightarrow> string) \<Rightarrow> string list \<Rightarrow> string" where
  "newPatternID sha256hex tokens = ''p-'' @ take 12 (sha256hex (join_with '' '' tokens))"

subsection \<open>The bucket tree\<close>

definition bucket_key :: "string \<Rightarrow> string" where
  "bucket_key t = (if isWildcard t \<or> isVariable t then wild else t)"

definition bucket_path :: "Miner \<Rightarrow> string list \<Rightarrow> string list" where
  "bucket_path m tokens = map bucket_key (take (nat (mi_depth m)) tokens)"

definition empty_node :: minerNode where "empty_node = MinerNode [] []"

fun leaf_get :: "string list \<Rightarrow> minerNode \<Rightarrow> nat list" where
  "leaf_get [] (MinerNode children clusters) = clusters"
| "leaf_get (k # ks) (MinerNode children clusters) =
     (case gm_get children k of None \<Rightarrow> [] | Some n \<Rightarrow> leaf_get ks n)"

fun leaf_put :: "string list \<Rightarrow> nat list \<Rightarrow> minerNode \<Rightarrow> minerNode" where
  "leaf_put [] cl (MinerNode children clusters) = MinerNode children cl"
| "leaf_put (k # ks) cl (MinerNode children clusters) =
     MinerNode (gm_set children k
       (leaf_put ks cl (case gm_get children k of None \<Rightarrow> empty_node | Some n \<Rightarrow> n))) clusters"

definition bucket :: "Miner \<Rightarrow> nat \<Rightarrow> string list \<Rightarrow> nat list" where
  "bucket m n path = (case gm_get (mi_tree m) n of None \<Rightarrow> [] | Some node \<Rightarrow> leaf_get path node)"

definition set_bucket :: "nat \<Rightarrow> string list \<Rightarrow> nat list \<Rightarrow> Miner \<Rightarrow> Miner" where
  "set_bucket n path cl m =
     m\<lparr>mi_tree := gm_set (mi_tree m) n
        (leaf_put path cl (case gm_get (mi_tree m) n of None \<Rightarrow> empty_node | Some node \<Rightarrow> node))\<rparr>"

definition leaf_of :: "Miner \<Rightarrow> string list \<Rightarrow> nat list" where
  "leaf_of m tokens = bucket m (length tokens) (bucket_path m tokens)"

definition set_leaf :: "string list \<Rightarrow> nat list \<Rightarrow> Miner \<Rightarrow> Miner" where
  "set_leaf tokens cl m = set_bucket (length tokens) (bucket_path m tokens) cl m"

subsection \<open>Operations\<close>

definition AddCluster :: "string \<Rightarrow> string \<Rightarrow> int \<Rightarrow> Miner \<Rightarrow> Miner" where
  "AddCluster pid template sz m =
     (let tokens = tokenize template;
          a = length (mi_heap m);
          m = m\<lparr>mi_heap := mi_heap m @ [\<lparr>mc_ID = pid, mc_Tokens = tokens, mc_Size = sz\<rparr>],
                mi_clusters := gm_set (mi_clusters m) pid a\<rparr>
      in set_leaf tokens (leaf_of m tokens @ [a]) m)"

definition best_match :: "MinerCluster list \<Rightarrow> string list \<Rightarrow> nat list \<Rightarrow> rat \<times> nat option" where
  "best_match heap tokens leaf =
     fold (\<lambda>a (best, found). let sim = tokenSimilarity (mc_Tokens (heap ! a)) tokens in
             if sim > best then (sim, Some a) else (best, found)) leaf (-1, None)"

definition min_index :: "MinerCluster list \<Rightarrow> nat list \<Rightarrow> nat" where
  "min_index heap l =
     fold (\<lambda>i minIdx. if mc_Size (heap ! (l ! i)) < mc_Size (heap ! (l ! minIdx)) then i else minIdx)
       [0..<length l] 0"

definition merge_into :: "nat \<Rightarrow> string list \<Rightarrow> Miner \<Rightarrow> Miner" where
  "merge_into a tokens m =
     (let c = mi_heap m ! a in
      m\<lparr>mi_heap := (mi_heap m)[a := c\<lparr>mc_Tokens := mergeTemplates (mc_Tokens c) tokens, mc_Size := mc_Size c + 1\<rparr>]\<rparr>)"

definition new_cluster :: "(string \<Rightarrow> string) \<Rightarrow> string list \<Rightarrow> Miner \<Rightarrow> MinerCluster \<times> Miner" where
  "new_cluster sha256hex tokens m =
     (let cl = \<lparr>mc_ID = newPatternID sha256hex tokens, mc_Tokens = tokens, mc_Size = 1\<rparr>;
          a = length (mi_heap m);
          leaf = leaf_of m tokens @ [a];
          m = m\<lparr>mi_heap := mi_heap m @ [cl]\<rparr>;
          m = (if int (length leaf) > mi_maxChildren m then
                 let i = min_index (mi_heap m) leaf in
                 (set_leaf tokens (take i leaf @ drop (i + 1) leaf) m)
                   \<lparr>mi_clusters := gm_del (mi_clusters m) (mc_ID (mi_heap m ! (leaf ! i)))\<rparr>
               else set_leaf tokens leaf m)
      in (cl, m\<lparr>mi_clusters := gm_set (mi_clusters m) (mc_ID cl) a\<rparr>))"

definition Cluster :: "(string \<Rightarrow> string) \<Rightarrow> string \<Rightarrow> Miner \<Rightarrow> string \<times> string \<times> bool \<times> Miner" where
  "Cluster sha256hex message m =
     (let tokens = tokenize message in
      if tokens = [] then ([], [], False, m)
      else
        let (best, found) = best_match (mi_heap m) tokens (leaf_of m tokens) in
        case found of
          Some a \<Rightarrow>
            if best \<ge> mi_similarityThreshold m then
              let m = merge_into a tokens m;
                  c = mi_heap m ! a
              in (mc_ID c, join_with '' '' (mc_Tokens c), False, m)
            else
              let (cl, m) = new_cluster sha256hex tokens m
              in (mc_ID cl, join_with '' '' (mc_Tokens cl), True, m)
        | None \<Rightarrow>
            let (cl, m) = new_cluster sha256hex tokens m
            in (mc_ID cl, join_with '' '' (mc_Tokens cl), True, m))"

text \<open>A sequence of lines, and which of them were reported as new.\<close>

fun classify_all :: "(string \<Rightarrow> string) \<Rightarrow> string list \<Rightarrow> Miner \<Rightarrow> bool list \<times> Miner" where
  "classify_all sha [] m = ([], m)"
| "classify_all sha (msg # msgs) m =
     (let (pid, tpl, isnew, m) = Cluster sha msg m;
          (flags, m) = classify_all sha msgs m
      in (isnew # flags, m))"

definition Snapshot :: "Miner \<Rightarrow> MinerCluster list" where
  "Snapshot m = map (\<lambda>(pid, a). mi_heap m ! a) (mi_clusters m)"

definition miner_Reset :: "Miner \<Rightarrow> Miner" where
  "miner_Reset m = m\<lparr>mi_tree := [], mi_clusters := []\<rparr>"

subsection \<open>The tree is a map from paths to leaves\<close>

lemma leaf_get_empty [simp]: "leaf_get ks empty_node = []"
  by (cases ks) (simp_all add: empty_node_def)

lemma leaf_get_put: "leaf_get ks (leaf_put ks' cl n) = (if ks = ks' then cl else leaf_get ks n)"
proof (induction ks' arbitrary: ks n)
  case Nil
  then show ?case by (cases n; cases ks) auto
next
  case (Cons k ks')
  then show ?case by (cases n; cases ks) (auto simp: gm_simps split: option.splits)
qed

lemma bucket_set [gm_simps]:
  "bucket (set_bucket n p cl m) n' p' = (if n' = n \<and> p' = p then cl else bucket m n' p')"
  by (auto simp: bucket_def set_bucket_def gm_simps leaf_get_put split: option.splits)

lemma set_bucket_fields [simp]:
  "mi_heap (set_bucket n p cl m) = mi_heap m" "mi_depth (set_bucket n p cl m) = mi_depth m"
  "mi_clusters (set_bucket n p cl m) = mi_clusters m" "mi_maxChildren (set_bucket n p cl m) = mi_maxChildren m"
  "mi_similarityThreshold (set_bucket n p cl m) = mi_similarityThreshold m"
  by (simp_all add: set_bucket_def)

lemma set_leaf_fields [simp]:
  "mi_heap (set_leaf ts cl m) = mi_heap m" "mi_depth (set_leaf ts cl m) = mi_depth m"
  "mi_clusters (set_leaf ts cl m) = mi_clusters m" "mi_maxChildren (set_leaf ts cl m) = mi_maxChildren m"
  "mi_similarityThreshold (set_leaf ts cl m) = mi_similarityThreshold m"
  by (simp_all add: set_leaf_def)

lemma bucket_heap [simp]:
  "bucket (m\<lparr>mi_heap := h\<rparr>) n p = bucket m n p" "bucket (m\<lparr>mi_clusters := c\<rparr>) n p = bucket m n p"
  by (simp_all add: bucket_def)

lemma path_fields [simp]:
  "bucket_path (m\<lparr>mi_heap := h\<rparr>) ts = bucket_path m ts" "bucket_path (m\<lparr>mi_clusters := c\<rparr>) ts = bucket_path m ts"
  "bucket_path (set_leaf us cl m) ts = bucket_path m ts" "bucket_path (set_bucket n p cl m) ts = bucket_path m ts"
  by (simp_all add: bucket_path_def)

lemma leaf_fields [simp]:
  "leaf_of (m\<lparr>mi_heap := h\<rparr>) ts = leaf_of m ts" "leaf_of (m\<lparr>mi_clusters := c\<rparr>) ts = leaf_of m ts"
  by (simp_all add: leaf_of_def)

lemma leaf_of_set: "leaf_of (set_leaf ts cl m) ts = cl"
  by (simp add: leaf_of_def set_leaf_def gm_simps)

lemma bucket_set_leaf: "bucket (set_leaf ts cl m) n p =
    (if n = length ts \<and> p = bucket_path m ts then cl else bucket m n p)"
  by (simp add: set_leaf_def gm_simps)

subsection \<open>Templates cover the lines merged into them\<close>

text \<open>A template covers a list of tokens: the same length, and equal or a wildcard everywhere.\<close>

definition covers :: "string list \<Rightarrow> string list \<Rightarrow> bool" where
  "covers tpl ts \<longleftrightarrow> list_all2 (\<lambda>x y. x = y \<or> isWildcard x) tpl ts"

lemma covers_refl [simp]: "covers ts ts"
  by (simp add: covers_def list_all2_refl)

lemma covers_trans: "covers a b \<Longrightarrow> covers b c \<Longrightarrow> covers a c"
  unfolding covers_def by (erule (1) list_all2_trans [rotated 1]) auto

lemma covers_length: "covers tpl ts \<Longrightarrow> length tpl = length ts"
  by (simp add: covers_def list_all2_lengthD)

lemma merge_covers:
  assumes "length a = length b"
  shows "covers (mergeTemplates a b) a" and "covers (mergeTemplates a b) b"
  using assms by (auto simp: covers_def mergeTemplates_def isWildcard_def list_all2_conv_all_nth)

lemma length_merge [simp]: "length (mergeTemplates a b) = min (length a) (length b)"
  by (simp add: mergeTemplates_def)

lemma merge_covered: "covers a b \<Longrightarrow> mergeTemplates a b = a"
  by (auto simp: covers_def mergeTemplates_def isWildcard_def list_all2_conv_all_nth intro!: nth_equalityI)

lemma sim_covered: "covers a b \<Longrightarrow> a \<noteq> [] \<Longrightarrow> tokenSimilarity a b = 1"
proof -
  assume c: "covers a b" "a \<noteq> []"
  have "filter (\<lambda>(x, y). x = y \<or> isWildcard x \<or> isWildcard y) (zip a b) = zip a b"
    using c by (intro filter_True) (auto simp: covers_def list_all2_iff)
  then show ?thesis using c covers_length [OF c(1)] by (auto simp: tokenSimilarity_def)
qed

lemma sim_bounds: "0 \<le> tokenSimilarity a b" "tokenSimilarity a b \<le> 1"
proof -
  have "length (filter (\<lambda>(x, y). x = y \<or> isWildcard x \<or> isWildcard y) (zip a b)) \<le> length (zip a b)"
    by (rule length_filter_le)
  then have "length (filter (\<lambda>(x, y). x = y \<or> isWildcard x \<or> isWildcard y) (zip a b)) \<le> length a"
    by simp
  then show "tokenSimilarity a b \<le> 1" by (auto simp: tokenSimilarity_def divide_le_eq)
qed (simp add: tokenSimilarity_def)

lemma clean_bucket_key: "clean_token t \<Longrightarrow> bucket_key t = t"
  by (auto simp: clean_token_def bucket_key_def blank_out_def isWildcard_def split: if_splits)

lemma merge_clean: "\<forall>t \<in> set a. clean_token t \<Longrightarrow> \<forall>t \<in> set (mergeTemplates a b). clean_token t"
  using wild_clean by (fastforce simp: mergeTemplates_def elim: in_set_zipE)

text \<open>Merging keeps the path of a cluster: in its own bucket the first tokens agree already.\<close>

lemma merge_path:
  assumes "length a = length b" "bucket_path m a = bucket_path m b"
    and "\<forall>t \<in> set a. clean_token t" "\<forall>t \<in> set b. clean_token t"
  shows "bucket_path m (mergeTemplates a b) = bucket_path m a"
proof -
  let ?d = "nat (mi_depth m)"
  have id: "map bucket_key (take ?d ts) = take ?d ts" if "\<forall>t \<in> set ts. clean_token t" for ts
    using that by (intro map_idI) (auto dest: in_set_takeD simp: clean_bucket_key)
  have "take ?d a = take ?d b" using assms id by (simp add: bucket_path_def)
  then have "take ?d (mergeTemplates a b) = take ?d a"
    by (simp add: mergeTemplates_def take_map take_zip zip_same_conv_map comp_def)
  then show ?thesis by (simp add: bucket_path_def)
qed

lemma tokens_clean: "\<forall>t \<in> set (tokenize msg). clean_token t"
  using tokenize_clean by blast

subsection \<open>Invariant\<close>

text \<open>Every cluster of a bucket is on the heap, has the length and path of the bucket, and clean tokens.\<close>

definition miner_ok :: "Miner \<Rightarrow> bool" where
  "miner_ok m \<longleftrightarrow>
     (\<forall>c \<in> set (mi_heap m). \<forall>t \<in> set (mc_Tokens c). clean_token t) \<and>
     (\<forall>n p a. a \<in> set (bucket m n p) \<longrightarrow> a < length (mi_heap m) \<and>
        length (mc_Tokens (mi_heap m ! a)) = n \<and> bucket_path m (mc_Tokens (mi_heap m ! a)) = p)"

lemma miner_ok_New: "miner_ok (NewMiner t d c)"
  by (simp add: miner_ok_def NewMiner_def bucket_def)

lemma miner_ok_Reset: "miner_ok m \<Longrightarrow> miner_ok (miner_Reset m)"
  by (simp add: miner_ok_def miner_Reset_def bucket_def bucket_path_def)

lemma miner_ok_leaf:
  "miner_ok m \<Longrightarrow> a \<in> set (leaf_of m ts) \<Longrightarrow> a < length (mi_heap m) \<and>
     length (mc_Tokens (mi_heap m ! a)) = length ts \<and> bucket_path m (mc_Tokens (mi_heap m ! a)) = bucket_path m ts"
  by (simp add: miner_ok_def leaf_of_def)

text \<open>A cluster is added to its leaf, with any of the others dropped from it.\<close>

lemma miner_ok_add:
  assumes "miner_ok m" and "\<forall>t \<in> set (mc_Tokens c). clean_token t"
    and "set leaf \<subseteq> set (leaf_of m (mc_Tokens c)) \<union> {length (mi_heap m)}"
  shows "miner_ok ((set_leaf (mc_Tokens c) leaf (m\<lparr>mi_heap := mi_heap m @ [c]\<rparr>))\<lparr>mi_clusters := cs\<rparr>)"
proof -
  let ?ts = "mc_Tokens c"
  let ?m = "(set_leaf ?ts leaf (m\<lparr>mi_heap := mi_heap m @ [c]\<rparr>))\<lparr>mi_clusters := cs\<rparr>"
  have "b < length (mi_heap ?m) \<and> length (mc_Tokens (mi_heap ?m ! b)) = n \<and>
      bucket_path ?m (mc_Tokens (mi_heap ?m ! b)) = p" if "b \<in> set (bucket ?m n p)" for n p b
  proof (cases "b \<in> set (bucket m n p)")
    case True
    then have "b < length (mi_heap m) \<and> length (mc_Tokens (mi_heap m ! b)) = n \<and>
        bucket_path m (mc_Tokens (mi_heap m ! b)) = p" using assms(1) unfolding miner_ok_def by blast
    then show ?thesis by (simp add: nth_append)
  next
    case False
    then have "n = length ?ts \<and> p = bucket_path m ?ts \<and> b = length (mi_heap m)"
      using that assms(3) by (auto simp: bucket_set_leaf leaf_of_def split: if_splits)
    then show ?thesis by simp
  qed
  then show ?thesis using assms(1,2) unfolding miner_ok_def by auto
qed

lemma miner_ok_AddCluster:
  assumes "miner_ok m" shows "miner_ok (AddCluster pid template sz m)"
proof -
  let ?c = "\<lparr>mc_ID = pid, mc_Tokens = tokenize template, mc_Size = sz\<rparr>"
  let ?leaf = "leaf_of m (tokenize template) @ [length (mi_heap m)]"
  have eq: "AddCluster pid template sz m = (set_leaf (mc_Tokens ?c) ?leaf (m\<lparr>mi_heap := mi_heap m @ [?c]\<rparr>))
      \<lparr>mi_clusters := gm_set (mi_clusters m) pid (length (mi_heap m))\<rparr>"
    by (simp add: AddCluster_def Let_def set_leaf_def set_bucket_def)
  show ?thesis unfolding eq by (rule miner_ok_add [OF assms]) (simp_all add: tokens_clean)
qed

lemma miner_ok_merge:
  assumes "miner_ok m" and "a \<in> set (leaf_of m ts)" and "\<forall>t \<in> set ts. clean_token t"
  shows "miner_ok (merge_into a ts m)"
proof -
  let ?c = "mi_heap m ! a"
  let ?c' = "?c\<lparr>mc_Tokens := mergeTemplates (mc_Tokens ?c) ts, mc_Size := mc_Size ?c + 1\<rparr>"
  let ?m = "m\<lparr>mi_heap := (mi_heap m)[a := ?c']\<rparr>"
  note a = miner_ok_leaf [OF assms(1,2)]
  have cl: "\<forall>t \<in> set (mc_Tokens ?c). clean_token t"
    using assms(1) a nth_mem unfolding miner_ok_def by blast
  have "bucket_path m (mc_Tokens ?c') = bucket_path m (mc_Tokens ?c)" "length (mc_Tokens ?c') = length (mc_Tokens ?c)"
    using merge_path [of "mc_Tokens ?c" ts m] a cl assms(3) by simp_all
  then have at: "length (mc_Tokens ((mi_heap m)[a := ?c'] ! b)) = length (mc_Tokens (mi_heap m ! b)) \<and>
      bucket_path m (mc_Tokens ((mi_heap m)[a := ?c'] ! b)) = bucket_path m (mc_Tokens (mi_heap m ! b))" for b
    using a by (cases "a = b") simp_all
  have "\<forall>t \<in> set (mc_Tokens c). clean_token t" if "c \<in> set ((mi_heap m)[a := ?c'])" for c
    using that merge_clean [OF cl, of ts] assms(1) set_update_subset_insert [of "mi_heap m" a ?c']
    by (auto simp: miner_ok_def)
  then show ?thesis
    using assms(1) at by (simp add: miner_ok_def merge_into_def Let_def)
qed

subsection \<open>The best match\<close>

definition sim_at :: "MinerCluster list \<Rightarrow> string list \<Rightarrow> nat \<Rightarrow> rat" where
  "sim_at heap ts a = tokenSimilarity (mc_Tokens (heap ! a)) ts"

lemma best_match_snoc:
  "best_match heap ts (leaf @ [a]) =
     (case best_match heap ts leaf of (best, found) \<Rightarrow>
        if sim_at heap ts a > best then (sim_at heap ts a, Some a) else (best, found))"
  unfolding best_match_def sim_at_def Let_def by simp

text \<open>It is the first of the most similar clusters, and there is none only in an empty leaf.\<close>

lemma best_match_spec:
  assumes "best_match heap ts leaf = (best, found)"
  shows "(\<forall>b \<in> set leaf. sim_at heap ts b \<le> best) \<and>
    (case found of
       None \<Rightarrow> leaf = [] \<and> best = -1
     | Some a \<Rightarrow> best = sim_at heap ts a \<and>
         (\<exists>l1 l2. leaf = l1 @ a # l2 \<and> (\<forall>b \<in> set l1. sim_at heap ts b < best)))"
  using assms
proof (induction leaf arbitrary: best found rule: rev_induct)
  case Nil
  then show ?case by (auto simp: best_match_def)
next
  case (snoc a leaf)
  obtain b0 f0 where p: "best_match heap ts leaf = (b0, f0)" by fastforce
  note IH = snoc.IH [OF p]
  show ?case
  proof (cases "sim_at heap ts a > b0")
    case True
    then have "best = sim_at heap ts a" "found = Some a" using snoc.prems p by (simp_all add: best_match_snoc)
    then show ?thesis using IH True by (fastforce intro: exI [of _ leaf] exI [of _ "[]"])
  next
    case False
    then have bf: "best = b0" "found = f0" using snoc.prems p by (simp_all add: best_match_snoc)
    have "0 \<le> sim_at heap ts a" by (simp add: sim_at_def sim_bounds)
    then obtain c where c: "f0 = Some c" using IH False by (cases f0) auto
    then obtain l1 l2 where "leaf = l1 @ c # l2" "\<forall>b \<in> set l1. sim_at heap ts b < b0" "b0 = sim_at heap ts c"
      using IH by auto
    then have "\<exists>l1 l2. leaf @ [a] = l1 @ c # l2 \<and> (\<forall>b \<in> set l1. sim_at heap ts b < best)"
      unfolding bf by (intro exI [of _ l1] exI [of _ "l2 @ [a]"]) simp
    moreover have "\<forall>b \<in> set leaf. sim_at heap ts b \<le> b0" using IH by (rule conjunct1)
    moreover have "b0 = sim_at heap ts c" using IH by (simp add: c)
    ultimately show ?thesis using False bf c by auto
  qed
qed

lemma best_match_first:
  assumes "\<forall>b \<in> set l1. sim_at heap ts b < sim_at heap ts a" and "sim_at heap ts a = 1"
  shows "best_match heap ts (l1 @ a # l2) = (1, Some a)"
proof (induction l2 rule: rev_induct)
  case Nil
  obtain b0 f0 where p: "best_match heap ts l1 = (b0, f0)" by fastforce
  have "b0 < 1" using best_match_spec [OF p] assms by (auto split: option.splits)
  then show ?case using p best_match_snoc [of heap ts l1 a] assms(2) by simp
next
  case (snoc c l2)
  have "sim_at heap ts c \<le> 1" by (simp add: sim_at_def sim_bounds)
  then show ?case using snoc best_match_snoc [of heap ts "l1 @ a # l2" c] by simp
qed

subsection \<open>What a call does\<close>

lemma Cluster_merges:
  assumes "tokenize msg \<noteq> []" and "best_match (mi_heap m) (tokenize msg) (leaf_of m (tokenize msg)) = (best, Some a)"
    and "best \<ge> mi_similarityThreshold m"
  shows "Cluster sha msg m = (mc_ID (mi_heap (merge_into a (tokenize msg) m) ! a),
    join_with '' '' (mc_Tokens (mi_heap (merge_into a (tokenize msg) m) ! a)), False, merge_into a (tokenize msg) m)"
  using assms by (simp add: Cluster_def Let_def)

lemma Cluster_adds:
  assumes "tokenize msg \<noteq> []" and "best_match (mi_heap m) (tokenize msg) (leaf_of m (tokenize msg)) = (best, found)"
    and "found = None \<or> best < mi_similarityThreshold m"
  shows "Cluster sha msg m = (newPatternID sha (tokenize msg), join_with '' '' (tokenize msg), True,
    snd (new_cluster sha (tokenize msg) m))"
  using assms by (auto simp: Cluster_def Let_def split_beta new_cluster_def split: option.split)

lemma Cluster_cases:
  assumes "Cluster sha msg m = (pid, tpl, isnew, m')" and "tokenize msg \<noteq> []"
  obtains
    (merge) best a where "best_match (mi_heap m) (tokenize msg) (leaf_of m (tokenize msg)) = (best, Some a)"
      "best \<ge> mi_similarityThreshold m" "\<not> isnew" "m' = merge_into a (tokenize msg) m"
      "pid = mc_ID (mi_heap m' ! a)" "tpl = join_with '' '' (mc_Tokens (mi_heap m' ! a))"
  | (add) best found where "best_match (mi_heap m) (tokenize msg) (leaf_of m (tokenize msg)) = (best, found)"
      "found = None \<or> best < mi_similarityThreshold m" "isnew" "m' = snd (new_cluster sha (tokenize msg) m)"
      "pid = newPatternID sha (tokenize msg)" "tpl = join_with '' '' (tokenize msg)"
proof -
  obtain best found where p: "best_match (mi_heap m) (tokenize msg) (leaf_of m (tokenize msg)) = (best, found)"
    by fastforce
  show thesis
  proof (cases "found = None \<or> best < mi_similarityThreshold m")
    case True
    then show thesis using add [OF p True] Cluster_adds [OF assms(2) p True, of sha] assms(1) by simp
  next
    case False
    then obtain a where a: "found = Some a" "best \<ge> mi_similarityThreshold m" by auto
    then show thesis
      using merge [of best a] Cluster_merges [OF assms(2) p [unfolded a(1)] a(2), of sha] assms(1) p by simp
  qed
qed

lemma set_take_drop: "set (take i xs @ drop j xs) \<subseteq> set xs"
  by (auto dest: in_set_takeD in_set_dropD)

lemma new_cluster_ok:
  assumes "miner_ok m" shows "miner_ok (snd (new_cluster sha (tokenize msg) m))"
proof -
  let ?ts = "tokenize msg"
  let ?c = "\<lparr>mc_ID = newPatternID sha ?ts, mc_Tokens = ?ts, mc_Size = 1\<rparr>"
  let ?l = "leaf_of m ?ts @ [length (mi_heap m)]"
  have ok: "miner_ok ((set_leaf (mc_Tokens ?c) l (m\<lparr>mi_heap := mi_heap m @ [?c]\<rparr>))\<lparr>mi_clusters := cs\<rparr>)"
    if "set l \<subseteq> set ?l" for l cs
    using that by (intro miner_ok_add [OF assms]) (simp_all add: tokens_clean)
  have upd: "x\<lparr>mi_clusters := y\<rparr>\<lparr>mi_clusters := z\<rparr> = x\<lparr>mi_clusters := z\<rparr>" for x :: Miner and y z by simp
  show ?thesis
  proof (cases "int (length ?l) > mi_maxChildren m")
    case True
    let ?i = "min_index (mi_heap m @ [?c]) ?l"
    have "\<exists>cs. snd (new_cluster sha ?ts m) =
      (set_leaf (mc_Tokens ?c) (take ?i ?l @ drop (?i + 1) ?l) (m\<lparr>mi_heap := mi_heap m @ [?c]\<rparr>))\<lparr>mi_clusters := cs\<rparr>"
      using True by (simp add: new_cluster_def Let_def) blast
    then show ?thesis using ok [OF set_take_drop] by (elim exE) (simp only:)
  next
    case False
    have "\<exists>cs. snd (new_cluster sha ?ts m) =
      (set_leaf (mc_Tokens ?c) ?l (m\<lparr>mi_heap := mi_heap m @ [?c]\<rparr>))\<lparr>mi_clusters := cs\<rparr>"
      using False by (simp add: new_cluster_def Let_def) blast
    then show ?thesis using ok [OF subset_refl] by (elim exE) (simp only:)
  qed
qed

lemma merged_heap:
  "a < length (mi_heap m) \<Longrightarrow> mi_heap (merge_into a ts m) ! b =
     (if b = a then (mi_heap m ! a)\<lparr>mc_Tokens := mergeTemplates (mc_Tokens (mi_heap m ! a)) ts,
        mc_Size := mc_Size (mi_heap m ! a) + 1\<rparr> else mi_heap m ! b)"
  by (auto simp: merge_into_def Let_def)

lemma merge_fields [simp]:
  "leaf_of (merge_into a ts m) us = leaf_of m us" "mi_similarityThreshold (merge_into a ts m) = mi_similarityThreshold m"
  "mi_clusters (merge_into a ts m) = mi_clusters m" "length (mi_heap (merge_into a ts m)) = length (mi_heap m)"
  "mi_maxChildren (merge_into a ts m) = mi_maxChildren m"
  by (simp_all add: merge_into_def Let_def)

lemma merge_twice:
  assumes "a < length (mi_heap m)" "length (mc_Tokens (mi_heap m ! a)) = length ts"
  shows "mc_Tokens (mi_heap (merge_into a ts (merge_into a ts m)) ! a) = mc_Tokens (mi_heap (merge_into a ts m) ! a)"
    and "mc_ID (mi_heap (merge_into a ts (merge_into a ts m)) ! a) = mc_ID (mi_heap (merge_into a ts m) ! a)"
  using assms merge_covers(2) [OF assms(2)] by (simp_all add: merged_heap merge_covered)

lemma new_cluster_heap [simp]:
  "mi_heap (snd (new_cluster sha ts m)) =
     mi_heap m @ [\<lparr>mc_ID = newPatternID sha ts, mc_Tokens = ts, mc_Size = 1\<rparr>]"
  "mi_similarityThreshold (snd (new_cluster sha ts m)) = mi_similarityThreshold m"
  "mi_maxChildren (snd (new_cluster sha ts m)) = mi_maxChildren m"
  "gm_get (mi_clusters (snd (new_cluster sha ts m))) (newPatternID sha ts) = Some (length (mi_heap m))"
  by (simp_all add: new_cluster_def Let_def gm_simps)

lemma new_cluster_room:
  "int (length (leaf_of m ts)) < mi_maxChildren m \<Longrightarrow>
     leaf_of (snd (new_cluster sha ts m)) ts = leaf_of m ts @ [length (mi_heap m)]"
  by (simp add: new_cluster_def Let_def leaf_of_set)

lemma sim_at_kept:
  "a < length (mi_heap m) \<Longrightarrow> b \<noteq> a \<Longrightarrow> sim_at (mi_heap (merge_into a ts m)) us b = sim_at (mi_heap m) us b"
  "b < length h \<Longrightarrow> sim_at (h @ h') us b = sim_at h us b"
  by (simp_all add: sim_at_def merged_heap nth_append)

lemma min_index_last:
  assumes "\<forall>b \<in> set leaf. mc_Size (heap ! b) > mc_Size (heap ! a)"
  shows "min_index heap (leaf @ [a]) = length leaf"
proof -
  let ?l = "leaf @ [a]"
  let ?f = "\<lambda>i k. if mc_Size (heap ! (?l ! i)) < mc_Size (heap ! (?l ! k)) then i else k"
  have le: "fold ?f [0..<n] 0 < length leaf" if "n \<le> length leaf" "leaf \<noteq> []" for n
    using that by (induction n) auto
  have "fold ?f [0..<length leaf] 0 < length leaf \<or> leaf = []" using le by blast
  then show ?thesis
    using assms unfolding min_index_def by (cases "leaf = []") (auto simp: nth_append)
qed

subsection \<open>Properties\<close>

text \<open>
  C16: Classifying a line keeps the miner well formed. The template it returns is that of a cluster on
  the heap and covers the line; no cluster known before loses a line its template covered, and the
  cluster is counted once more or is new with size one.
\<close>

theorem Cluster_covers_line:
  assumes "miner_ok m" and "Cluster sha msg m = (pid, tpl, isnew, m')" and "tokenize msg \<noteq> []"
  shows "miner_ok m' \<and>
    (\<exists>a < length (mi_heap m'). pid = mc_ID (mi_heap m' ! a) \<and> tpl = join_with '' '' (mc_Tokens (mi_heap m' ! a)) \<and>
       covers (mc_Tokens (mi_heap m' ! a)) (tokenize msg) \<and>
       mc_Size (mi_heap m' ! a) = (if isnew then 1 else mc_Size (mi_heap m ! a) + 1)) \<and>
    (\<forall>b < length (mi_heap m). b < length (mi_heap m') \<and> mc_ID (mi_heap m' ! b) = mc_ID (mi_heap m ! b) \<and>
       covers (mc_Tokens (mi_heap m' ! b)) (mc_Tokens (mi_heap m ! b)))"
  using assms(2,3)
proof (cases rule: Cluster_cases)
  case (merge best a)
  have a: "a \<in> set (leaf_of m (tokenize msg))" using best_match_spec [OF merge(1)] by auto
  note inv = miner_ok_leaf [OF assms(1) a]
  have "miner_ok m'" unfolding merge(4) using miner_ok_merge [OF assms(1) a tokens_clean] .
  moreover have "mc_Size (mi_heap m' ! a) = mc_Size (mi_heap m ! a) + 1"
      "covers (mc_Tokens (mi_heap m' ! a)) (tokenize msg)"
    using inv merge_covers(2) by (simp_all add: merge(4) merged_heap)
  moreover have "mc_ID (mi_heap m' ! b) = mc_ID (mi_heap m ! b) \<and>
       covers (mc_Tokens (mi_heap m' ! b)) (mc_Tokens (mi_heap m ! b))" for b
    using inv merge_covers(1) by (simp add: merge(4) merged_heap)
  moreover have "a < length (mi_heap m')" "length (mi_heap m') = length (mi_heap m)"
    using inv by (simp_all add: merge(4))
  ultimately show ?thesis using merge(3,5,6) by auto
next
  case (add best found)
  have "miner_ok m'" unfolding add(4) by (rule new_cluster_ok [OF assms(1)])
  then show ?thesis
    using add(3,5,6) unfolding add(4) by (auto simp: nth_append intro!: exI [of _ "length (mi_heap m)"])
qed

theorem Cluster_covers_line_witness:
  "\<exists>m'. Cluster (\<lambda>_. ''0123456789abcdef'') ''user 42 failed'' (NewMiner 0 0 0) =
     (''p-0123456789ab'', ''user <*> failed'', True, m') \<and> miner_ok m'"
proof -
  let ?sha = "\<lambda>_ :: string. ''0123456789abcdef''"
  obtain pid tpl n m' where c: "Cluster ?sha ''user 42 failed'' (NewMiner 0 0 0) = (pid, tpl, n, m')"
    by (metis prod_cases4)
  moreover have "(\<lambda>(p, t, n, m). (p, t, n)) (Cluster ?sha ''user 42 failed'' (NewMiner 0 0 0)) =
      (''p-0123456789ab'', ''user <*> failed'', True)" by code_simp
  moreover have "tokenize ''user 42 failed'' \<noteq> []" by code_simp
  ultimately show ?thesis using Cluster_covers_line [OF miner_ok_New c] by simp
qed

text \<open>
  A line is recognised from its second occurrence on: classified again at once, it is not new and
  gets the same id and the same template. The threshold is at most one, and a line that was new has
  found room in its leaf.
\<close>

theorem Cluster_recognises_line:
  assumes "miner_ok m" and "mi_similarityThreshold m \<le> 1"
    and "Cluster sha msg m = (pid, tpl, isnew, m')" and "tokenize msg \<noteq> []"
    and "isnew \<Longrightarrow> int (length (leaf_of m (tokenize msg))) < mi_maxChildren m"
  shows "\<exists>m''. Cluster sha msg m' = (pid, tpl, False, m'')"
  using assms(3,4)
proof (cases rule: Cluster_cases)
  case (merge best a)
  let ?ts = "tokenize msg"
  obtain l1 l2 where l: "leaf_of m ?ts = l1 @ a # l2" "\<forall>b \<in> set l1. sim_at (mi_heap m) ?ts b < sim_at (mi_heap m) ?ts a"
    using best_match_spec [OF merge(1)] by auto
  note inv = miner_ok_leaf [OF assms(1), of a ?ts, unfolded l(1), simplified]
  have "a \<notin> set l1" using l(2) by blast
  have cov: "covers (mc_Tokens (mi_heap m' ! a)) ?ts" using inv merge_covers(2) by (simp add: merge(4) merged_heap)
  have one: "sim_at (mi_heap m') ?ts a = 1"
    unfolding sim_at_def using covers_length [OF cov] assms(4) by (intro sim_covered [OF cov]) auto
  have "sim_at (mi_heap m') ?ts b < 1" if "b \<in> set l1" for b
  proof -
    have "sim_at (mi_heap m') ?ts b = sim_at (mi_heap m) ?ts b"
      using that inv \<open>a \<notin> set l1\<close> unfolding merge(4) by (intro sim_at_kept) auto
    moreover have "sim_at (mi_heap m) ?ts a \<le> 1" by (simp add: sim_at_def sim_bounds)
    ultimately show ?thesis using l(2) that by fastforce
  qed
  then have "best_match (mi_heap m') ?ts (leaf_of m' ?ts) = (1, Some a)"
    using best_match_first [of l1 "mi_heap m'" ?ts a l2] one l(1) by (simp add: merge(4))
  then have "Cluster sha msg m' = (mc_ID (mi_heap (merge_into a ?ts m') ! a),
      join_with '' '' (mc_Tokens (mi_heap (merge_into a ?ts m') ! a)), False, merge_into a ?ts m')"
    using assms(2,4) by (intro Cluster_merges) (simp_all add: merge(4))
  then show ?thesis
    using merge(5,6) merge_twice [of a m ?ts] inv by (simp add: merge(4))
next
  case (add best found)
  let ?ts = "tokenize msg"
  let ?a = "length (mi_heap m)"
  have leaf: "leaf_of m' ?ts = leaf_of m ?ts @ [?a]"
    unfolding add(4) using assms(5) add(3) by (intro new_cluster_room) simp
  have one: "sim_at (mi_heap m') ?ts ?a = 1"
    unfolding add(4) sim_at_def using assms(4) by (simp add: sim_covered)
  have "sim_at (mi_heap m') ?ts b < 1" if "b \<in> set (leaf_of m ?ts)" for b
  proof -
    have "b < ?a" using miner_ok_leaf [OF assms(1) that] by simp
    then have "sim_at (mi_heap m') ?ts b = sim_at (mi_heap m) ?ts b"
      unfolding add(4) new_cluster_heap by (rule sim_at_kept(2))
    moreover have "sim_at (mi_heap m) ?ts b \<le> best" "found \<noteq> None"
      using best_match_spec [OF add(1)] that by (auto split: option.splits)
    ultimately show ?thesis using add(2) assms(2) by auto
  qed
  then have "best_match (mi_heap m') ?ts (leaf_of m' ?ts) = (1, Some ?a)"
    using best_match_first [of "leaf_of m ?ts" "mi_heap m'" ?ts ?a "[]"] one leaf by simp
  then have "Cluster sha msg m' = (mc_ID (mi_heap (merge_into ?a ?ts m') ! ?a),
      join_with '' '' (mc_Tokens (mi_heap (merge_into ?a ?ts m') ! ?a)), False, merge_into ?a ?ts m')"
    using assms(2,4) by (intro Cluster_merges) (simp_all add: add(4))
  then show ?thesis
    using add(5,6) by (simp add: add(4) merged_heap merge_covered)
qed

theorem Cluster_recognises_line_witness:
  "\<exists>pid tpl m1 m2. Cluster (\<lambda>s. s) ''user 42 failed'' (NewMiner 0 0 0) = (pid, tpl, True, m1) \<and>
     Cluster (\<lambda>s. s) ''user 42 failed'' m1 = (pid, tpl, False, m2)"
proof -
  let ?m = "NewMiner 0 0 0"
  obtain pid tpl n m' where c: "Cluster (\<lambda>s. s) ''user 42 failed'' ?m = (pid, tpl, n, m')"
    by (metis prod_cases4)
  moreover have "(fst \<circ> snd \<circ> snd) (Cluster (\<lambda>s. s) ''user 42 failed'' ?m)" by code_simp
  moreover have t: "tokenize ''user 42 failed'' \<noteq> []" by code_simp
  moreover have "mi_similarityThreshold ?m \<le> 1" "int (length (leaf_of ?m ts)) < mi_maxChildren ?m" for ts
    by (simp_all add: NewMiner_def leaf_of_def bucket_def)
  ultimately show ?thesis using Cluster_recognises_line [OF miner_ok_New _ c t] by auto
qed

text \<open>
  C18: A full leaf whose clusters have all been seen twice never learns another template: the new
  cluster, being the smallest, is the one evicted. A line that matches none of them is reported as
  new however often it recurs, and the id index keeps an entry for a cluster that is in no leaf.
\<close>

theorem full_leaf_never_learns:
  assumes "miner_ok m" and "tokenize msg \<noteq> []"
    and "int (length (leaf_of m (tokenize msg))) = mi_maxChildren m"
    and "\<forall>b \<in> set (leaf_of m (tokenize msg)). 1 < mc_Size (mi_heap m ! b) \<and>
      tokenSimilarity (mc_Tokens (mi_heap m ! b)) (tokenize msg) < mi_similarityThreshold m"
  shows "\<exists>m'. classify_all sha (replicate n msg) m = (replicate n True, m') \<and>
    leaf_of m' (tokenize msg) = leaf_of m (tokenize msg) \<and>
    (0 < n \<longrightarrow> (\<exists>a. gm_get (mi_clusters m') (newPatternID sha (tokenize msg)) = Some a \<and>
       a \<notin> set (leaf_of m' (tokenize msg))))"
  using assms(1,3,4)
proof (induction n arbitrary: m)
  case (Suc n)
  let ?ts = "tokenize msg"
  obtain best found where p: "best_match (mi_heap m) ?ts (leaf_of m ?ts) = (best, found)" by fastforce
  have "found = None \<or> best < mi_similarityThreshold m"
    using best_match_spec [OF p] Suc.prems(3) by (cases found) (auto simp: sim_at_def)
  define m1 where "m1 = snd (new_cluster sha ?ts m)"
  have call: "Cluster sha msg m = (newPatternID sha ?ts, join_with '' '' ?ts, True, m1)"
    unfolding m1_def by (rule Cluster_adds [OF assms(2) p]) fact
  let ?c = "\<lparr>mc_ID = newPatternID sha ?ts, mc_Tokens = ?ts, mc_Size = 1\<rparr>"
  have old: "b < length (mi_heap m)" if "b \<in> set (leaf_of m ?ts)" for b
    using miner_ok_leaf [OF Suc.prems(1) that] by simp
  have "min_index (mi_heap m @ [?c]) (leaf_of m ?ts @ [length (mi_heap m)]) = length (leaf_of m ?ts)"
    using Suc.prems(3) old by (intro min_index_last) (simp add: nth_append)
  then have leaf: "leaf_of m1 ?ts = leaf_of m ?ts"
    using Suc.prems(2) by (simp add: m1_def new_cluster_def Let_def leaf_of_set)
  have ok: "miner_ok m1" unfolding m1_def by (rule new_cluster_ok [OF Suc.prems(1)])
  have sz: "\<forall>b \<in> set (leaf_of m1 ?ts). 1 < mc_Size (mi_heap m1 ! b) \<and>
      tokenSimilarity (mc_Tokens (mi_heap m1 ! b)) ?ts < mi_similarityThreshold m1"
    using Suc.prems(3) old unfolding leaf by (simp add: m1_def nth_append)
  have "int (length (leaf_of m1 ?ts)) = mi_maxChildren m1" using Suc.prems(2) leaf by (simp add: m1_def)
  from Suc.IH [OF ok this sz] obtain m' where m': "classify_all sha (replicate n msg) m1 = (replicate n True, m')"
      "leaf_of m' ?ts = leaf_of m1 ?ts"
      "0 < n \<longrightarrow> (\<exists>a. gm_get (mi_clusters m') (newPatternID sha ?ts) = Some a \<and> a \<notin> set (leaf_of m' ?ts))"
    by blast
  have "gm_get (mi_clusters m1) (newPatternID sha ?ts) = Some (length (mi_heap m))" by (simp add: m1_def)
  moreover have "length (mi_heap m) \<notin> set (leaf_of m ?ts)" using old by blast
  ultimately have "\<exists>a. gm_get (mi_clusters m') (newPatternID sha ?ts) = Some a \<and> a \<notin> set (leaf_of m' ?ts)"
    using m' leaf by (cases n) auto
  then show ?case using m' leaf call by simp
qed simp

text \<open>A leaf of one cluster, seen twice, in a miner that keeps one cluster to a leaf.\<close>

definition full_miner :: Miner where
  "full_miner = AddCluster ''p-1'' ''a x y'' 2 (NewMiner 1 1 1)"

theorem full_leaf_never_learns_witness:
  "\<exists>m'. classify_all (\<lambda>s. s) (replicate 3 ''a v w'') full_miner = ([True, True, True], m')"
proof -
  have ok: "miner_ok full_miner" unfolding full_miner_def by (rule miner_ok_AddCluster [OF miner_ok_New])
  have "tokenize ''a v w'' \<noteq> []" "int (length (leaf_of full_miner (tokenize ''a v w''))) = mi_maxChildren full_miner"
    "list_all (\<lambda>b. 1 < mc_Size (mi_heap full_miner ! b) \<and>
      tokenSimilarity (mc_Tokens (mi_heap full_miner ! b)) (tokenize ''a v w'') < mi_similarityThreshold full_miner)
      (leaf_of full_miner (tokenize ''a v w''))"
    by code_simp+
  then show ?thesis
    using full_leaf_never_learns [OF ok, of "''a v w''" "\<lambda>s. s" 3] by (auto simp: list_all_iff numeral_3_eq_3)
qed

text \<open>
  C17: A learned template survives a restart: its printed form reads back as the same tokens, so
  \<open>AddCluster\<close> puts it under the same length and path, with the same tokens, id and size.
\<close>

theorem template_roundtrip:
  assumes "miner_ok m" and "c \<in> set (mi_heap m)"
    and "m' = AddCluster (mc_ID c) (join_with '' '' (mc_Tokens c)) (mc_Size c) (NewMiner t d k)"
  shows "Snapshot m' = [c] \<and> leaf_of m' (mc_Tokens c) = [0] \<and> miner_ok m'"
proof -
  have cl: "\<forall>t \<in> set (mc_Tokens c). clean_token t" using assms(1,2) by (simp add: miner_ok_def)
  then have tok: "tokenize (join_with '' '' (mc_Tokens c)) = mc_Tokens c" by (rule tokenize_join)
  have c: "\<lparr>mc_ID = mc_ID c, mc_Tokens = mc_Tokens c, mc_Size = mc_Size c\<rparr> = c" by simp
  have leaf: "leaf_of (NewMiner t d k) ts = []" for ts by (simp add: leaf_of_def bucket_def NewMiner_def)
  have new: "mi_heap (NewMiner t d k) = []" "mi_clusters (NewMiner t d k) = []" by (simp_all add: NewMiner_def)
  have add: "m' = set_leaf (mc_Tokens c) [0]
      ((NewMiner t d k)\<lparr>mi_heap := [c], mi_clusters := [(mc_ID c, 0)]\<rparr>)"
    by (simp add: assms(3) AddCluster_def tok Let_def c leaf new)
  have "Snapshot m' = [c]" by (simp add: add Snapshot_def)
  moreover have "leaf_of m' (mc_Tokens c) = [0]" by (simp add: add leaf_of_set)
  moreover have "miner_ok m'" unfolding assms(3) by (rule miner_ok_AddCluster [OF miner_ok_New])
  ultimately show ?thesis by blast
qed

theorem template_roundtrip_witness:
  "Snapshot (AddCluster ''p-0123456789ab'' ''user <*> failed'' 1 (NewMiner 0 0 0)) =
     [\<lparr>mc_ID = ''p-0123456789ab'', mc_Tokens = [''user'', ''<*>'', ''failed''], mc_Size = 1\<rparr>]"
proof -
  let ?c = "\<lparr>mc_ID = ''p-0123456789ab'', mc_Tokens = [''user'', ''<*>'', ''failed''], mc_Size = 1\<rparr>"
  let ?m = "snd (new_cluster (\<lambda>_. ''0123456789ab'') (tokenize ''user 42 failed'') (NewMiner 0 0 0))"
  have tok: "tokenize ''user 42 failed'' = [''user'', ''<*>'', ''failed'']" by code_simp
  have "miner_ok ?m" by (rule new_cluster_ok [OF miner_ok_New])
  moreover have "?c \<in> set (mi_heap ?m)" by (simp add: tok newPatternID_def)
  ultimately show ?thesis
    using template_roundtrip [of ?m ?c _ 0 0 0, OF _ _ refl] by auto
qed

end
