(* ===== verification/Team_Store.thy ===== *)
theory Team_Store
  imports Memory_State "HOL-Library.Countable"
begin

text \<open>
  The directory of members and teams (\<open>pkg/teams/store.go\<close>): kept in memory, persisted as two blobs
  after every mutation.

  The blob provider is a state \<open>'s\<close> with its read and write; a read gives \<open>Inl\<close> and a write
  \<open>None\<close> when it fails. The JSON encodings are parameters; a decoder gives \<open>None\<close> for a text that
  does not parse and \<open>Some None\<close> for one whose map is null. A new id (\<open>uuid.NewString\<close>) is an
  argument, the clock is read once per call, and a map holds no nil pointer.
\<close>

subsection \<open>State\<close>

datatype teams_error = ErrNotFound | ErrInvalid | ErrStorage

record MemberMeta =
  mm_Email :: string
  mm_SlackID :: string
  mm_TelegramID :: string
  mm_MSTeamsUPN :: string
  mm_ViberID :: string
  mm_LarkID :: string
  mm_PagerDutyUserID :: string
  mm_AWSIMContactARN :: string
  mm_Phone :: string

record Member =
  m_ID :: string
  m_Name :: string
  m_Alias :: string
  m_Meta :: MemberMeta
  m_CreatedAt :: time
  m_UpdatedAt :: time

record Team =
  t_ID :: string
  t_Name :: string
  t_Alias :: string
  t_Description :: string
  t_MemberIDs :: "string list"
  t_CreatedAt :: time
  t_UpdatedAt :: time

record 's Store =
  st_provider :: 's
  st_members :: "(string, Member) gomap"
  st_teams :: "(string, Team) gomap"
  st_loaded :: bool

definition BlobMembers :: string where "BlobMembers = ''members''"
definition BlobTeams :: string where "BlobTeams = ''teams''"

text \<open>The file formats: version, time of writing, and the map.\<close>

record membersFile =
  mf_Version :: int
  mf_UpdatedAt :: time
  mf_Members :: "(string, Member) gomap option"

record teamsFile =
  tf_Version :: int
  tf_UpdatedAt :: time
  tf_Teams :: "(string, Team) gomap option"

definition schemaVersion :: int where "schemaVersion = 1"

type_synonym 's blob_read = "'s \<Rightarrow> string \<Rightarrow> unit + string option"
type_synonym 's blob_write = "time \<Rightarrow> string \<Rightarrow> string \<Rightarrow> 's \<Rightarrow> 's option"

subsection \<open>Loading and persisting\<close>

text \<open>One blob of the directory: what \<open>load\<close> makes of it, given the map it would keep.\<close>

definition load_map ::
  "'s blob_read \<Rightarrow> (string \<Rightarrow> (string, 'v) gomap option option) \<Rightarrow> string \<Rightarrow> 's \<Rightarrow> (string, 'v) gomap \<Rightarrow>
   (string, 'v) gomap option" where
  "load_map rd dec name p kept =
     (case rd p name of
        Inl _ \<Rightarrow> None
      | Inr None \<Rightarrow> Some kept
      | Inr (Some raw) \<Rightarrow>
          if raw = [] then Some kept
          else (case dec raw of None \<Rightarrow> None | Some None \<Rightarrow> Some kept | Some (Some m) \<Rightarrow> Some m))"

definition teams_load ::
  "'s blob_read \<Rightarrow> (string \<Rightarrow> membersFile option) \<Rightarrow> (string \<Rightarrow> teamsFile option) \<Rightarrow>
   's Store \<Rightarrow> teams_error option \<times> 's Store" where
  "teams_load rd decM decT st =
     (if st_loaded st then (None, st)
      else
        let st = st\<lparr>st_loaded := True\<rparr> in
        case load_map rd (\<lambda>raw. map_option mf_Members (decM raw)) BlobMembers (st_provider st) (st_members st) of
          None \<Rightarrow> (Some ErrStorage, st)
        | Some ms \<Rightarrow>
            let st = st\<lparr>st_members := ms\<rparr> in
            case load_map rd (\<lambda>raw. map_option tf_Teams (decT raw)) BlobTeams (st_provider st) (st_teams st) of
              None \<Rightarrow> (Some ErrStorage, st)
            | Some ts \<Rightarrow> (None, st\<lparr>st_teams := ts\<rparr>))"

definition NewStore ::
  "'s blob_read \<Rightarrow> (string \<Rightarrow> membersFile option) \<Rightarrow> (string \<Rightarrow> teamsFile option) \<Rightarrow> 's option \<Rightarrow>
   teams_error + 's Store" where
  "NewStore rd decM decT provider =
     (case provider of
        None \<Rightarrow> Inl ErrStorage
      | Some p \<Rightarrow>
          (case teams_load rd decM decT \<lparr>st_provider = p, st_members = [], st_teams = [], st_loaded = False\<rparr> of
             (Some e, _) \<Rightarrow> Inl e
           | (None, st) \<Rightarrow> Inr st))"

definition persistMembers ::
  "'s blob_write \<Rightarrow> (membersFile \<Rightarrow> string) \<Rightarrow> time \<Rightarrow> 's Store \<Rightarrow> bool \<times> 's Store" where
  "persistMembers wr encM now st =
     (case wr now BlobMembers
             (encM \<lparr>mf_Version = schemaVersion, mf_UpdatedAt = now, mf_Members = Some (st_members st)\<rparr>)
             (st_provider st) of
        None \<Rightarrow> (False, st)
      | Some p \<Rightarrow> (True, st\<lparr>st_provider := p\<rparr>))"

definition persistTeams ::
  "'s blob_write \<Rightarrow> (teamsFile \<Rightarrow> string) \<Rightarrow> time \<Rightarrow> 's Store \<Rightarrow> bool \<times> 's Store" where
  "persistTeams wr encT now st =
     (case wr now BlobTeams
             (encT \<lparr>tf_Version = schemaVersion, tf_UpdatedAt = now, tf_Teams = Some (st_teams st)\<rparr>)
             (st_provider st) of
        None \<Rightarrow> (False, st)
      | Some p \<Rightarrow> (True, st\<lparr>st_provider := p\<rparr>))"

subsection \<open>Aliases\<close>

definition slug_char :: "char \<Rightarrow> bool" where
  "slug_char c \<longleftrightarrow> (let n = (of_char c :: nat) in 97 \<le> n \<and> n \<le> 122 \<or> 48 \<le> n \<and> n \<le> 57)"

definition dash_char :: "char \<Rightarrow> bool" where
  "dash_char c \<longleftrightarrow> c = CHR ''-'' \<or> c = CHR ''_''"

fun slug :: "bool \<Rightarrow> string \<Rightarrow> string" where
  "slug prevDash [] = []"
| "slug prevDash (c # cs) =
     (if slug_char c then c # slug False cs
      else if dash_char c then c # slug False cs
      else if \<not> prevDash then CHR ''-'' # slug True cs
      else slug prevDash cs)"

definition trim_dashes :: "string \<Rightarrow> string" where
  "trim_dashes s = rev (dropWhile (\<lambda>c. c = CHR ''-'') (rev (dropWhile (\<lambda>c. c = CHR ''-'') s)))"

definition DeriveAlias :: "string \<Rightarrow> string" where
  "DeriveAlias name = trim_dashes (slug True (to_lower (trim_space name)))"

subsection \<open>Members\<close>

definition new_member :: "time \<Rightarrow> string \<Rightarrow> Member \<Rightarrow> Member" where
  "new_member now uuid inp =
     (let m = \<lparr>m_ID = uuid, m_Name = trim_space (m_Name inp), m_Alias = trim_space (m_Alias inp),
               m_Meta = m_Meta inp, m_CreatedAt = now, m_UpdatedAt = now\<rparr>
      in if m_Alias m = [] then m\<lparr>m_Alias := DeriveAlias (m_Name m)\<rparr> else m)"

definition CreateMember ::
  "'s blob_write \<Rightarrow> (membersFile \<Rightarrow> string) \<Rightarrow> time \<Rightarrow> string \<Rightarrow> Member \<Rightarrow> 's Store \<Rightarrow>
   (teams_error + Member) \<times> 's Store" where
  "CreateMember wr encM now uuid inp st =
     (if trim_space (m_Name inp) = [] then (Inl ErrInvalid, st)
      else
        let m = new_member now uuid inp;
            st = st\<lparr>st_members := gm_set (st_members st) uuid m\<rparr>;
            (ok, st) = persistMembers wr encM now st
        in if \<not> ok then (Inl ErrStorage, st\<lparr>st_members := gm_del (st_members st) uuid\<rparr>)
           else (Inr m, st))"

definition patch_member :: "time \<Rightarrow> Member \<Rightarrow> bool \<Rightarrow> Member \<Rightarrow> Member" where
  "patch_member now patch replaceMeta m =
     (let m = (if trim_space (m_Name patch) \<noteq> [] then m\<lparr>m_Name := trim_space (m_Name patch)\<rparr> else m);
          m = (if trim_space (m_Alias patch) \<noteq> [] then m\<lparr>m_Alias := trim_space (m_Alias patch)\<rparr> else m);
          m = (if replaceMeta then m\<lparr>m_Meta := m_Meta patch\<rparr> else m)
      in m\<lparr>m_UpdatedAt := now\<rparr>)"

definition UpdateMember ::
  "'s blob_write \<Rightarrow> (membersFile \<Rightarrow> string) \<Rightarrow> time \<Rightarrow> string \<Rightarrow> Member \<Rightarrow> bool \<Rightarrow> 's Store \<Rightarrow>
   (teams_error + Member) \<times> 's Store" where
  "UpdateMember wr encM now mid patch replaceMeta st =
     (case gm_get (st_members st) mid of
        None \<Rightarrow> (Inl ErrNotFound, st)
      | Some m \<Rightarrow>
          let m = patch_member now patch replaceMeta m;
              (ok, st) = persistMembers wr encM now (st\<lparr>st_members := gm_set (st_members st) mid m\<rparr>)
          in if \<not> ok then (Inl ErrStorage, st) else (Inr m, st))"

text \<open>The id is stripped from every team that lists it; only such teams are touched.\<close>

definition strip_member :: "time \<Rightarrow> string \<Rightarrow> Team \<Rightarrow> Team" where
  "strip_member now mid t =
     (let filtered = filter (\<lambda>x. x \<noteq> mid) (t_MemberIDs t) in
      if length filtered \<noteq> length (t_MemberIDs t) then t\<lparr>t_MemberIDs := filtered, t_UpdatedAt := now\<rparr> else t)"

definition lists_member :: "string \<Rightarrow> Team \<Rightarrow> bool" where
  "lists_member mid t \<longleftrightarrow> length (filter (\<lambda>x. x \<noteq> mid) (t_MemberIDs t)) \<noteq> length (t_MemberIDs t)"

definition DeleteMember ::
  "'s blob_write \<Rightarrow> (membersFile \<Rightarrow> string) \<Rightarrow> (teamsFile \<Rightarrow> string) \<Rightarrow> time \<Rightarrow> string \<Rightarrow> 's Store \<Rightarrow>
   teams_error option \<times> 's Store" where
  "DeleteMember wr encM encT now mid st =
     (case gm_get (st_members st) mid of
        None \<Rightarrow> (Some ErrNotFound, st)
      | Some _ \<Rightarrow>
          let teamsDirty = list_ex (\<lambda>(k, t). lists_member mid t) (st_teams st);
              st = st\<lparr>st_members := gm_del (st_members st) mid,
                      st_teams := map (\<lambda>(k, t). (k, strip_member now mid t)) (st_teams st)\<rparr>;
              (ok, st) = persistMembers wr encM now st
          in if \<not> ok then (Some ErrStorage, st)
             else if teamsDirty then
               let (ok, st) = persistTeams wr encT now st in (if \<not> ok then Some ErrStorage else None, st)
             else (None, st))"

definition GetMember :: "'s Store \<Rightarrow> string \<Rightarrow> teams_error + Member" where
  "GetMember st mid = (case gm_get (st_members st) mid of None \<Rightarrow> Inl ErrNotFound | Some m \<Rightarrow> Inr m)"

definition ListMembers :: "'s Store \<Rightarrow> Member list" where
  "ListMembers st = sort_key (\<lambda>m. to_lower (m_Name m)) (map snd (st_members st))"

subsection \<open>Teams\<close>

fun validateMemberIDs :: "'s Store \<Rightarrow> string list \<Rightarrow> teams_error option" where
  "validateMemberIDs st [] = None"
| "validateMemberIDs st (mid # ids) =
     (if mid = [] then Some ErrInvalid
      else if gm_get (st_members st) mid = None then Some ErrInvalid
      else validateMemberIDs st ids)"

definition new_team :: "time \<Rightarrow> string \<Rightarrow> Team \<Rightarrow> Team" where
  "new_team now uuid inp =
     (let t = \<lparr>t_ID = uuid, t_Name = trim_space (t_Name inp), t_Alias = trim_space (t_Alias inp),
               t_Description = trim_space (t_Description inp), t_MemberIDs = t_MemberIDs inp,
               t_CreatedAt = now, t_UpdatedAt = now\<rparr>
      in if t_Alias t = [] then t\<lparr>t_Alias := DeriveAlias (t_Name t)\<rparr> else t)"

definition CreateTeam ::
  "'s blob_write \<Rightarrow> (teamsFile \<Rightarrow> string) \<Rightarrow> time \<Rightarrow> string \<Rightarrow> Team \<Rightarrow> 's Store \<Rightarrow>
   (teams_error + Team) \<times> 's Store" where
  "CreateTeam wr encT now uuid inp st =
     (if trim_space (t_Name inp) = [] then (Inl ErrInvalid, st)
      else
        let t = new_team now uuid inp
        in case validateMemberIDs st (t_MemberIDs t) of
             Some e \<Rightarrow> (Inl e, st)
           | None \<Rightarrow>
               let (ok, st) = persistTeams wr encT now (st\<lparr>st_teams := gm_set (st_teams st) uuid t\<rparr>)
               in if \<not> ok then (Inl ErrStorage, st\<lparr>st_teams := gm_del (st_teams st) uuid\<rparr>)
                  else (Inr t, st))"

text \<open>As in the code, the texts are patched before the member list is checked.\<close>

definition patch_team :: "Team \<Rightarrow> Team \<Rightarrow> Team" where
  "patch_team patch t =
     (let t = (if trim_space (t_Name patch) \<noteq> [] then t\<lparr>t_Name := trim_space (t_Name patch)\<rparr> else t);
          t = (if trim_space (t_Alias patch) \<noteq> [] then t\<lparr>t_Alias := trim_space (t_Alias patch)\<rparr> else t)
      in if trim_space (t_Description patch) \<noteq> [] then t\<lparr>t_Description := trim_space (t_Description patch)\<rparr> else t)"

definition UpdateTeam ::
  "'s blob_write \<Rightarrow> (teamsFile \<Rightarrow> string) \<Rightarrow> time \<Rightarrow> string \<Rightarrow> Team \<Rightarrow> bool \<Rightarrow> 's Store \<Rightarrow>
   (teams_error + Team) \<times> 's Store" where
  "UpdateTeam wr encT now tid patch replaceMembers st =
     (case gm_get (st_teams st) tid of
        None \<Rightarrow> (Inl ErrNotFound, st)
      | Some t \<Rightarrow>
          let t = patch_team patch t;
              st = st\<lparr>st_teams := gm_set (st_teams st) tid t\<rparr>
          in case (if replaceMembers then validateMemberIDs st (t_MemberIDs patch) else None) of
               Some e \<Rightarrow> (Inl e, st)
             | None \<Rightarrow>
                 let t = (if replaceMembers then t\<lparr>t_MemberIDs := t_MemberIDs patch\<rparr> else t);
                     t = t\<lparr>t_UpdatedAt := now\<rparr>;
                     (ok, st) = persistTeams wr encT now (st\<lparr>st_teams := gm_set (st_teams st) tid t\<rparr>)
                 in if \<not> ok then (Inl ErrStorage, st) else (Inr t, st))"

definition DeleteTeam ::
  "'s blob_write \<Rightarrow> (teamsFile \<Rightarrow> string) \<Rightarrow> time \<Rightarrow> string \<Rightarrow> 's Store \<Rightarrow> teams_error option \<times> 's Store" where
  "DeleteTeam wr encT now tid st =
     (case gm_get (st_teams st) tid of
        None \<Rightarrow> (Some ErrNotFound, st)
      | Some _ \<Rightarrow>
          let (ok, st) = persistTeams wr encT now (st\<lparr>st_teams := gm_del (st_teams st) tid\<rparr>)
          in (if \<not> ok then Some ErrStorage else None, st))"

definition GetTeam :: "'s Store \<Rightarrow> string \<Rightarrow> teams_error + Team" where
  "GetTeam st tid = (case gm_get (st_teams st) tid of None \<Rightarrow> Inl ErrNotFound | Some t \<Rightarrow> Inr t)"

definition ListTeams :: "'s Store \<Rightarrow> Team list" where
  "ListTeams st = sort_key (\<lambda>t. to_lower (t_Name t)) (map snd (st_teams st))"

definition TeamExists :: "'s Store \<Rightarrow> string \<Rightarrow> bool" where
  "TeamExists st tid \<longleftrightarrow> gm_get (st_teams st) tid \<noteq> None"

subsection \<open>Aliases are slugs\<close>

definition slug_text :: "string \<Rightarrow> bool" where
  "slug_text s \<longleftrightarrow> (\<forall>c \<in> set s. slug_char c \<or> dash_char c)"

lemma slug_is_slug: "slug_text (slug b s)"
  by (induction b s rule: slug.induct) (auto simp: slug_text_def dash_char_def)

lemma slug_of_slug: "slug_text s \<Longrightarrow> slug b s = s"
  by (induction s arbitrary: b) (auto simp: slug_text_def)

lemma trim_dashes_sub: "set (trim_dashes s) \<subseteq> set s"
  by (auto simp: trim_dashes_def dest!: set_dropWhileD)

lemma trim_dashes_ends:
  assumes "trim_dashes s \<noteq> []"
  shows "hd (trim_dashes s) \<noteq> CHR ''-''" and "last (trim_dashes s) \<noteq> CHR ''-''"
proof -
  let ?d = "dropWhile (\<lambda>c. c = CHR ''-'') s"
  let ?e = "dropWhile (\<lambda>c. c = CHR ''-'') (rev ?d)"
  have e: "?e \<noteq> []" using assms by (simp add: trim_dashes_def)
  then show "last (trim_dashes s) \<noteq> CHR ''-''"
    using hd_dropWhile [OF e] by (simp add: trim_dashes_def last_rev)
  have d: "?d \<noteq> []" using e by (metis dropWhile.simps(1) rev.simps(1))
  have "hd (trim_dashes s) = hd ?d"
    using e d last_dropWhile [OF e] by (simp add: trim_dashes_def hd_rev last_rev)
  then show "hd (trim_dashes s) \<noteq> CHR ''-''" using hd_dropWhile [OF d] by simp
qed

lemma trim_dashes_id:
  "s = [] \<or> hd s \<noteq> CHR ''-'' \<and> last s \<noteq> CHR ''-'' \<Longrightarrow> trim_dashes s = s"
  by (cases "s = []") (simp_all add: trim_dashes_def dropWhile_hd hd_rev)

lemma slug_char_plain: "slug_char c \<or> dash_char c \<Longrightarrow> lower_char c = c \<and> \<not> is_space c"
  by (auto simp: slug_char_def dash_char_def lower_char_def is_space_def Let_def)

lemma slug_text_plain:
  assumes "slug_text s" shows "to_lower s = s" and "trim_space s = s"
proof -
  show "to_lower s = s" using assms slug_char_plain by (auto simp: slug_text_def to_lower_def map_idI)
  show "trim_space s = s"
    using assms slug_char_plain by (cases "s = []") (auto simp: slug_text_def intro!: trim_space_id)
qed

lemma DeriveAlias_slug: "slug_text (DeriveAlias name)"
  using slug_is_slug [of True "to_lower (trim_space name)"]
    trim_dashes_sub [of "slug True (to_lower (trim_space name))"]
  by (auto simp: DeriveAlias_def slug_text_def)

subsection \<open>The invariant of the directory\<close>

definition named :: "string \<Rightarrow> bool" where
  "named n \<longleftrightarrow> n \<noteq> [] \<and> trim_space n = n"


datatype team_op =
    OpCreateMember string Member
  | OpUpdateMember string Member bool
  | OpDeleteMember string
  | OpCreateTeam string Team
  | OpUpdateTeam string Team bool
  | OpDeleteTeam string

text \<open>A call: whether it succeeded, and the store after it.\<close>

definition is_ok :: "'e + 'a \<Rightarrow> bool" where
  "is_ok r \<longleftrightarrow> (case r of Inl _ \<Rightarrow> False | Inr _ \<Rightarrow> True)"

fun call ::
  "'s blob_write \<Rightarrow> (membersFile \<Rightarrow> string) \<Rightarrow> (teamsFile \<Rightarrow> string) \<Rightarrow> time \<Rightarrow> team_op \<Rightarrow> 's Store \<Rightarrow>
   bool \<times> 's Store" where
  "call wr encM encT now (OpCreateMember uuid m) st = apfst is_ok (CreateMember wr encM now uuid m st)"
| "call wr encM encT now (OpUpdateMember k m b) st = apfst is_ok (UpdateMember wr encM now k m b st)"
| "call wr encM encT now (OpDeleteMember k) st = apfst (\<lambda>e. e = None) (DeleteMember wr encM encT now k st)"
| "call wr encM encT now (OpCreateTeam uuid t) st = apfst is_ok (CreateTeam wr encT now uuid t st)"
| "call wr encM encT now (OpUpdateTeam k t b) st = apfst is_ok (UpdateTeam wr encT now k t b st)"
| "call wr encM encT now (OpDeleteTeam k) st = apfst (\<lambda>e. e = None) (DeleteTeam wr encT now k st)"

text \<open>The ids the server generates are fresh.\<close>

fun fresh_for :: "'s Store \<Rightarrow> team_op \<Rightarrow> bool" where
  "fresh_for st (OpCreateMember uuid m) \<longleftrightarrow> uuid \<noteq> [] \<and> gm_get (st_members st) uuid = None"
| "fresh_for st (OpCreateTeam uuid t) \<longleftrightarrow> uuid \<noteq> [] \<and> gm_get (st_teams st) uuid = None"
| "fresh_for st op \<longleftrightarrow> True"

lemma persist_fields [simp]:
  "st_members (snd (persistMembers wr encM now st)) = st_members st"
  "st_teams (snd (persistMembers wr encM now st)) = st_teams st"
  "st_members (snd (persistTeams wr encT now st)) = st_members st"
  "st_teams (snd (persistTeams wr encT now st)) = st_teams st"
  by (simp_all add: persistMembers_def persistTeams_def split: option.split)

lemma persist_failed:
  "\<not> fst (persistMembers wr encM now st) \<Longrightarrow> snd (persistMembers wr encM now st) = st"
  "\<not> fst (persistTeams wr encT now st) \<Longrightarrow> snd (persistTeams wr encT now st) = st"
  by (auto simp: persistMembers_def persistTeams_def split: option.splits)


lemma validate_members [simp]: "validateMemberIDs (st\<lparr>st_teams := ts\<rparr>) ids = validateMemberIDs st ids"
  by (induction ids) auto

lemma strip_member_fields [simp]:
  "t_ID (strip_member now k t) = t_ID t" "t_Name (strip_member now k t) = t_Name t"
  "set (t_MemberIDs (strip_member now k t)) = set (t_MemberIDs t) - {k}"
proof -
  have "set (t_MemberIDs t) = set (t_MemberIDs t) - {k}"
    if "length (filter (\<lambda>x. x \<noteq> k) (t_MemberIDs t)) = length (t_MemberIDs t)"
  proof -
    have "filter (\<lambda>x. x \<noteq> k) (t_MemberIDs t) = t_MemberIDs t"
      using that length_filter_less [of _ "t_MemberIDs t" "\<lambda>x. x \<noteq> k"] by (auto simp: filter_id_conv)
    then have "set (filter (\<lambda>x. x \<noteq> k) (t_MemberIDs t)) = set (t_MemberIDs t)" by simp
    then show ?thesis by auto
  qed
  then show "set (t_MemberIDs (strip_member now k t)) = set (t_MemberIDs t) - {k}"
    by (auto simp: strip_member_def Let_def)
qed (simp_all add: strip_member_def Let_def)






lemma patch_team_fields [simp]:
  "t_ID (patch_team p t) = t_ID t" "t_MemberIDs (patch_team p t) = t_MemberIDs t"
  "named (t_Name t) \<Longrightarrow> named (t_Name (patch_team p t))"
  by (simp_all add: patch_team_def Let_def named_def)





lemma snd_apfst [simp]: "snd (apfst f p) = snd p"
  by (cases p) simp




subsection \<open>What is on disk\<close>

text \<open>A codec reads back what was written, as a map; it never writes an empty text.\<close>

definition file_codec :: "('f \<Rightarrow> string) \<Rightarrow> (string \<Rightarrow> 'f option) \<Rightarrow> ('f \<Rightarrow> (string, 'v) gomap option) \<Rightarrow> bool" where
  "file_codec enc dec sel \<longleftrightarrow>
     (\<forall>f. enc f \<noteq> [] \<and> (\<exists>f'. dec (enc f) = Some f' \<and> map_option gm_get (sel f') = map_option gm_get (sel f)))"

text \<open>A provider whose reads succeed, and whose writes fail at the times \<open>full\<close>.\<close>

definition good_read :: "('s \<Rightarrow> string \<Rightarrow> string option) \<Rightarrow> 's blob_read" where
  "good_read rd s n = Inr (rd s n)"

definition may_write :: "(time \<Rightarrow> string \<Rightarrow> string \<Rightarrow> 's \<Rightarrow> 's) \<Rightarrow> (time \<Rightarrow> bool) \<Rightarrow> 's blob_write" where
  "may_write wr full t n d s = (if full t then None else Some (wr t n d s))"

definition saved ::
  "('s \<Rightarrow> string \<Rightarrow> string option) \<Rightarrow> (string \<Rightarrow> (string, 'v) gomap option option) \<Rightarrow> string \<Rightarrow> 's \<Rightarrow>
   (string, 'v) gomap \<Rightarrow> bool" where
  "saved rd dec name p m \<longleftrightarrow> (\<exists>m'. load_map (good_read rd) dec name p [] = Some m' \<and> gm_get m' = gm_get m)"

abbreviation members_saved where
  "members_saved rd decM st \<equiv>
     saved rd (\<lambda>raw. map_option mf_Members (decM raw)) BlobMembers (st_provider st) (st_members st)"

abbreviation teams_saved where
  "teams_saved rd decT st \<equiv>
     saved rd (\<lambda>raw. map_option tf_Teams (decT raw)) BlobTeams (st_provider st) (st_teams st)"

lemma NewStore_saved:
  "(\<exists>st'. NewStore (good_read rd) decM decT (Some (st_provider st)) = Inr st' \<and> st_provider st' = st_provider st \<and>
      gm_get (st_members st') = gm_get (st_members st) \<and> gm_get (st_teams st') = gm_get (st_teams st)) \<longleftrightarrow>
   members_saved rd decM st \<and> teams_saved rd decT st"
  by (auto simp: NewStore_def teams_load_def saved_def Let_def split: option.splits prod.splits)

context blob_store
begin

lemma saved_write:
  assumes "invar p" "raw \<noteq> []" "dec raw = Some (Some m')" "gm_get m' = gm_get m"
  shows "saved rd dec name (wr t name raw p) m"
  using assms by (simp add: saved_def load_map_def good_read_def read_write)

lemma saved_other: "invar p \<Longrightarrow> name \<noteq> n \<Longrightarrow> saved rd dec name (wr t n raw p) m = saved rd dec name p m"
  by (simp add: saved_def load_map_def good_read_def read_write)

lemma persistMembers_saves:
  assumes "invar (st_provider st)" "file_codec encM decM mf_Members"
    and "fst (persistMembers (may_write wr full) encM now st)"
  shows "invar (st_provider (snd (persistMembers (may_write wr full) encM now st)))"
    and "members_saved rd decM (snd (persistMembers (may_write wr full) encM now st))"
    and "teams_saved rd decT st \<Longrightarrow> teams_saved rd decT (snd (persistMembers (may_write wr full) encM now st))"
proof -
  let ?f = "\<lparr>mf_Version = schemaVersion, mf_UpdatedAt = now, mf_Members = Some (st_members st)\<rparr>"
  have st: "snd (persistMembers (may_write wr full) encM now st) =
      st\<lparr>st_provider := wr now BlobMembers (encM ?f) (st_provider st)\<rparr>"
    using assms(3) by (simp add: persistMembers_def may_write_def split: if_splits)
  obtain f' m' where "encM ?f \<noteq> []" "decM (encM ?f) = Some f'" "mf_Members f' = Some m'" "gm_get m' = gm_get (st_members st)"
    using assms(2) unfolding file_codec_def by (metis (no_types, lifting) map_option_eq_Some membersFile.select_convs(3))
  then show "members_saved rd decM (snd (persistMembers (may_write wr full) encM now st))"
    unfolding st using saved_write [where dec="\<lambda>raw. map_option mf_Members (decM raw)" and m'=m', OF assms(1)] by simp
  show "invar (st_provider (snd (persistMembers (may_write wr full) encM now st)))"
    unfolding st by (simp add: write_invar assms(1))
  show "teams_saved rd decT (snd (persistMembers (may_write wr full) encM now st))" if "teams_saved rd decT st"
    unfolding st using that by (simp add: saved_other [OF assms(1)] BlobMembers_def BlobTeams_def)
qed

lemma persistTeams_saves:
  assumes "invar (st_provider st)" "file_codec encT decT tf_Teams"
    and "fst (persistTeams (may_write wr full) encT now st)"
  shows "invar (st_provider (snd (persistTeams (may_write wr full) encT now st)))"
    and "teams_saved rd decT (snd (persistTeams (may_write wr full) encT now st))"
    and "members_saved rd decM st \<Longrightarrow> members_saved rd decM (snd (persistTeams (may_write wr full) encT now st))"
proof -
  let ?f = "\<lparr>tf_Version = schemaVersion, tf_UpdatedAt = now, tf_Teams = Some (st_teams st)\<rparr>"
  have st: "snd (persistTeams (may_write wr full) encT now st) =
      st\<lparr>st_provider := wr now BlobTeams (encT ?f) (st_provider st)\<rparr>"
    using assms(3) by (simp add: persistTeams_def may_write_def split: if_splits)
  obtain f' m' where "encT ?f \<noteq> []" "decT (encT ?f) = Some f'" "tf_Teams f' = Some m'" "gm_get m' = gm_get (st_teams st)"
    using assms(2) unfolding file_codec_def by (metis (no_types, lifting) map_option_eq_Some teamsFile.select_convs(3))
  then show "teams_saved rd decT (snd (persistTeams (may_write wr full) encT now st))"
    unfolding st using saved_write [where dec="\<lambda>raw. map_option tf_Teams (decT raw)" and m'=m', OF assms(1)] by simp
  show "invar (st_provider (snd (persistTeams (may_write wr full) encT now st)))"
    unfolding st by (simp add: write_invar assms(1))
  show "members_saved rd decM (snd (persistTeams (may_write wr full) encT now st))" if "members_saved rd decM st"
    unfolding st using that by (simp add: saved_other [OF assms(1)] BlobMembers_def BlobTeams_def)
qed

text \<open>Every successful call leaves on disk what it leaves in memory.\<close>

lemma map_strip_clean:
  "\<not> list_ex (\<lambda>(k, t). lists_member mid t) ts \<Longrightarrow> map (\<lambda>(k, t). (k, strip_member now mid t)) ts = ts"
  by (induction ts) (auto simp: lists_member_def strip_member_def Let_def)

lemma call_saves:
  assumes inv: "invar (st_provider st)" and codec: "file_codec encM decM mf_Members" "file_codec encT decT tf_Teams"
    and saved: "members_saved rd decM st" "teams_saved rd decT st"
    and call: "call (may_write wr full) encM encT now op st = (True, st')"
  shows "invar (st_provider st') \<and> members_saved rd decM st' \<and> teams_saved rd decT st'"
proof -
  note pm = persistMembers_saves [OF _ codec(1)]
  note pt = persistTeams_saves [OF _ codec(2)]
  let ?pm = "\<lambda>st. persistMembers (may_write wr full) encM now st"
  let ?pt = "\<lambda>st. persistTeams (may_write wr full) encT now st"
  have by_members: ?thesis if "fst (?pm (st\<lparr>st_members := ms\<rparr>)) \<and> st' = snd (?pm (st\<lparr>st_members := ms\<rparr>))" for ms
    using pm(1,2) [of "st\<lparr>st_members := ms\<rparr>" full now] pm(3) [of "st\<lparr>st_members := ms\<rparr>" full now decT] that inv saved
    by simp
  have by_teams: ?thesis if "fst (?pt (st\<lparr>st_teams := ts\<rparr>)) \<and> st' = snd (?pt (st\<lparr>st_teams := ts\<rparr>))" for ts
    using pt(1,2) [of "st\<lparr>st_teams := ts\<rparr>" full now] pt(3) [of "st\<lparr>st_teams := ts\<rparr>" full now decM] that inv saved
    by simp
  show ?thesis
  proof (cases op)
    case (OpCreateMember uuid m)
    then show ?thesis
      using call by (intro by_members) (auto simp: CreateMember_def is_ok_def Let_def split_beta split: if_splits)
  next
    case (OpUpdateMember k m b)
    then obtain m0 where "gm_get (st_members st) k = Some m0"
      using call by (auto simp: UpdateMember_def is_ok_def split: option.splits)
    then show ?thesis
      using call OpUpdateMember
      by (intro by_members) (auto simp: UpdateMember_def is_ok_def Let_def split_beta split: if_splits)
  next
    case (OpDeleteMember k)
    let ?st = "st\<lparr>st_members := gm_del (st_members st) k,
        st_teams := map (\<lambda>(j, t). (j, strip_member now k t)) (st_teams st)\<rparr>"
    let ?p = "persistMembers (may_write wr full) encM now ?st"
    have ok: "fst ?p" "list_ex (\<lambda>(j, t). lists_member k t) (st_teams st) \<Longrightarrow>
          fst (persistTeams (may_write wr full) encT now (snd ?p)) \<and> st' = snd (persistTeams (may_write wr full) encT now (snd ?p))"
        "\<not> list_ex (\<lambda>(j, t). lists_member k t) (st_teams st) \<Longrightarrow> st' = snd ?p"
      using call OpDeleteMember by (auto simp: DeleteMember_def Let_def split_beta split: if_splits option.splits)
    have inv': "invar (st_provider ?st)" using inv by simp
    note m = pm(1,2) [OF inv' ok(1)]
    show ?thesis
    proof (cases "list_ex (\<lambda>(j, t). lists_member k t) (st_teams st)")
      case True
      note ok2 = ok(2) [OF True]
      show ?thesis
        unfolding conjunct2 [OF ok2]
        using pt(1,2) [OF m(1) conjunct1 [OF ok2]] pt(3) [OF m(1) conjunct1 [OF ok2] m(2)] by blast
    next
      case False
      then have "teams_saved rd decT ?st" using saved(2) by (simp add: map_strip_clean)
      then show ?thesis unfolding ok(3) [OF False] using pm(3) [OF inv' ok(1)] m by blast
    qed
  next
    case (OpCreateTeam uuid t)
    then show ?thesis
      using call
      by (intro by_teams) (auto simp: CreateTeam_def is_ok_def Let_def split_beta split: if_splits option.splits)
  next
    case (OpUpdateTeam k t b)
    then obtain t0 where "gm_get (st_teams st) k = Some t0"
      using call by (auto simp: UpdateTeam_def is_ok_def split: option.splits)
    then show ?thesis
      using call OpUpdateTeam
      by (cases b; intro by_teams) (auto simp: UpdateTeam_def is_ok_def Let_def split_beta split: if_splits option.splits)
  next
    case (OpDeleteTeam k)
    then show ?thesis
      using call by (intro by_teams) (auto simp: DeleteTeam_def Let_def split_beta split: if_splits option.splits)
  qed
qed

end

subsection \<open>Properties\<close>


definition sample_member :: "string \<Rightarrow> Member" where
  "sample_member n = \<lparr>m_ID = [], m_Name = n, m_Alias = [],
     m_Meta = \<lparr>mm_Email = [], mm_SlackID = [], mm_TelegramID = [], mm_MSTeamsUPN = [], mm_ViberID = [],
       mm_LarkID = [], mm_PagerDutyUserID = [], mm_AWSIMContactARN = [], mm_Phone = []\<rparr>,
     m_CreatedAt = 0, m_UpdatedAt = 0\<rparr>"


text \<open>A member and a team of it, written while the disk is not full; then the member is deleted.\<close>

definition sample_directory :: "team_op list \<Rightarrow> memoryProvider Store" where
  "sample_directory ops = fold (\<lambda>op st. snd (call (may_write WriteBlob (\<lambda>_. False)) (\<lambda>_. ''m'') (\<lambda>_. ''t'') 5 op st))
     ops \<lparr>st_provider = NewMemory, st_members = [], st_teams = [], st_loaded = True\<rparr>"



text \<open>
  C20: A call that succeeds leaves on disk what it leaves in memory: if a new store opened on the blobs
  found the members and teams of the old one before the call, one opened after it finds them too.
  Calls that fail to write may lie in between, as long as the two agreed again before this one.
\<close>

theorem reopened_directory_is_the_same:
  assumes "blobs_ok (st_provider st)" and "file_codec encM decM mf_Members" and "file_codec encT decT tf_Teams"
    and "NewStore (good_read ReadBlob) decM decT (Some (st_provider st)) = Inr st0"
    and "gm_get (st_members st0) = gm_get (st_members st)" and "gm_get (st_teams st0) = gm_get (st_teams st)"
    and "call (may_write WriteBlob full) encM encT now op st = (True, st')"
  shows "\<exists>st1. NewStore (good_read ReadBlob) decM decT (Some (st_provider st')) = Inr st1 \<and>
    gm_get (st_members st1) = gm_get (st_members st') \<and> gm_get (st_teams st1) = gm_get (st_teams st') \<and>
    blobs_ok (st_provider st')"
proof -
  have "st_provider st0 = st_provider st"
    using assms(4) by (auto simp: NewStore_def teams_load_def Let_def split: option.splits prod.splits)
  then have "members_saved ReadBlob decM st \<and> teams_saved ReadBlob decT st"
    using assms(4-6) NewStore_saved [of ReadBlob decM decT st] by blast
  then show ?thesis
    using mem.call_saves [OF assms(1-3) _ _ assms(7)] NewStore_saved [of ReadBlob decM decT st'] by blast
qed


text \<open>A codec for the witness: a file is written in unary.\<close>

definition member_code :: "Member \<Rightarrow> string list \<times> int \<times> int" where
  "member_code m = ([m_ID m, m_Name m, m_Alias m, mm_Email (m_Meta m), mm_SlackID (m_Meta m),
     mm_TelegramID (m_Meta m), mm_MSTeamsUPN (m_Meta m), mm_ViberID (m_Meta m), mm_LarkID (m_Meta m),
     mm_PagerDutyUserID (m_Meta m), mm_AWSIMContactARN (m_Meta m), mm_Phone (m_Meta m)],
     m_CreatedAt m, m_UpdatedAt m)"

definition team_code :: "Team \<Rightarrow> string list \<times> string list \<times> int \<times> int" where
  "team_code t = ([t_ID t, t_Name t, t_Alias t, t_Description t], t_MemberIDs t, t_CreatedAt t, t_UpdatedAt t)"

definition unary :: "('f \<Rightarrow> 'c::countable) \<Rightarrow> 'f \<Rightarrow> string" where
  "unary code f = replicate (Suc (to_nat (code f))) CHR ''x''"

definition ununary :: "('f \<Rightarrow> 'c::countable) \<Rightarrow> string \<Rightarrow> 'f option" where
  "ununary code raw = (if \<exists>f. unary code f = raw then Some (SOME f. unary code f = raw) else None)"

definition members_code :: "membersFile \<Rightarrow> int \<times> int \<times> (string \<times> string list \<times> int \<times> int) list option" where
  "members_code f = (mf_Version f, mf_UpdatedAt f, map_option (map (apsnd member_code)) (mf_Members f))"

definition teams_code :: "teamsFile \<Rightarrow> int \<times> int \<times> (string \<times> string list \<times> string list \<times> int \<times> int) list option" where
  "teams_code f = (tf_Version f, tf_UpdatedAt f, map_option (map (apsnd team_code)) (tf_Teams f))"

lemma directory_codec: "inj code \<Longrightarrow> file_codec (unary code) (ununary code) sel"
proof -
  assume i: "inj code"
  have "f' = f" if "unary code f' = unary code f" for f f'
    using that i by (auto simp: unary_def inj_eq)
  then have "ununary code (unary code f) = Some f" for f
    by (auto simp: ununary_def intro: some_equality)
  then show ?thesis by (simp add: file_codec_def unary_def)
qed

lemma inj_codes: "inj members_code" "inj teams_code"
proof -
  have "inj member_code" by (intro injI) (simp add: member_code_def Member.equality MemberMeta.equality)
  then have "inj (map_option (map (apsnd member_code)) :: (string \<times> Member) list option \<Rightarrow> _)"
    by (intro option.inj_map list.inj_map prod.inj_map [where ?f1.0=id, unfolded apsnd_def [symmetric]]) (simp_all add: apsnd_def prod.inj_map)
  then show "inj members_code" by (intro injI) (simp add: members_code_def membersFile.equality inj_eq)
  have "inj team_code" by (intro injI) (simp add: team_code_def Team.equality)
  then have "inj (map_option (map (apsnd team_code)) :: (string \<times> Team) list option \<Rightarrow> _)"
    by (intro option.inj_map list.inj_map) (simp add: apsnd_def prod.inj_map)
  then show "inj teams_code" by (intro injI) (simp add: teams_code_def teamsFile.equality inj_eq)
qed

theorem reopened_directory_is_the_same_witness:
  "\<exists>st' st1. call (may_write WriteBlob (\<lambda>_. False)) (unary members_code) (unary teams_code) 5
      (OpCreateMember ''u1'' (sample_member ''Ann''))
      \<lparr>st_provider = NewMemory, st_members = [], st_teams = [], st_loaded = True\<rparr> = (True, st') \<and>
    NewStore (good_read ReadBlob) (ununary members_code) (ununary teams_code) (Some (st_provider st')) = Inr st1 \<and>
    gm_get (st_members st1) ''u1'' = Some (new_member 5 ''u1'' (sample_member ''Ann''))"
proof -
  let ?st = "\<lparr>st_provider = NewMemory, st_members = [], st_teams = [], st_loaded = True\<rparr>"
  let ?call = "call (may_write WriteBlob (\<lambda>_. False)) (unary members_code) (unary teams_code) 5
      (OpCreateMember ''u1'' (sample_member ''Ann'')) ?st"
  have name: "trim_space ''Ann'' \<noteq> []" by code_simp
  have call: "?call = (True, snd ?call)" "gm_get (st_members (snd ?call)) ''u1'' = Some (new_member 5 ''u1'' (sample_member ''Ann''))"
    using name by (simp_all add: CreateMember_def sample_member_def persistMembers_def may_write_def is_ok_def Let_def)
  have open0: "NewStore (good_read ReadBlob) (ununary members_code) (ununary teams_code) (Some (st_provider ?st)) = Inr ?st"
    by (simp add: NewStore_def teams_load_def load_map_def good_read_def NewMemory_def ReadBlob_def)
  have ok: "blobs_ok (st_provider ?st)" by (simp add: blobs_ok_New)
  from reopened_directory_is_the_same [OF ok directory_codec [OF inj_codes(1)] directory_codec [OF inj_codes(2)] open0 refl refl call(1)]
  show ?thesis using call by (metis)
qed

text \<open>
  A create that fails, for an invalid input or because the write failed, leaves the members, the
  teams and the blobs as they were.
\<close>

theorem failed_create_changes_nothing:
  assumes "fresh_for st op" and "(\<exists>u m. op = OpCreateMember u m) \<or> (\<exists>u t. op = OpCreateTeam u t)"
    and "call wr encM encT now op st = (False, st')"
  shows "gm_get (st_members st') = gm_get (st_members st) \<and> gm_get (st_teams st') = gm_get (st_teams st) \<and>
    st_provider st' = st_provider st"
proof (cases op)
  case (OpCreateMember u m)
  then have new: "gm_get (st_members st) u = None" using assms(1) by simp
  show ?thesis
  proof (cases "trim_space (m_Name m) = []")
    case True
    then show ?thesis using assms(3) OpCreateMember by (simp add: CreateMember_def)
  next
    case False
    let ?st = "st\<lparr>st_members := gm_set (st_members st) u (new_member now u m)\<rparr>"
    have "\<not> fst (persistMembers wr encM now ?st)" "st' = ?st\<lparr>st_members := gm_del (st_members ?st) u\<rparr>"
      using assms(3) OpCreateMember False persist_failed(1) [of wr encM now ?st]
      by (auto simp: CreateMember_def Let_def split_beta is_ok_def split: if_splits)
    then show ?thesis using new by (auto simp: gm_simps)
  qed
next
  case (OpCreateTeam u t)
  then have new: "gm_get (st_teams st) u = None" using assms(1) by simp
  show ?thesis
  proof (cases "trim_space (t_Name t) = [] \<or> validateMemberIDs st (t_MemberIDs (new_team now u t)) \<noteq> None")
    case True
    then show ?thesis using assms(3) OpCreateTeam by (auto simp: CreateTeam_def Let_def split: if_splits)
  next
    case False
    let ?st = "st\<lparr>st_teams := gm_set (st_teams st) u (new_team now u t)\<rparr>"
    have "\<not> fst (persistTeams wr encT now ?st)" "st' = ?st\<lparr>st_teams := gm_del (st_teams ?st) u\<rparr>"
      using assms(3) OpCreateTeam False persist_failed(2) [of wr encT now ?st]
      by (auto simp: CreateTeam_def Let_def split_beta is_ok_def split: if_splits)
    then show ?thesis using new by (auto simp: gm_simps)
  qed
qed (use assms(2) in auto)

theorem failed_create_changes_nothing_witness:
  "\<exists>st'. call (may_write WriteBlob (\<lambda>_. True)) (\<lambda>_. ''m'') (\<lambda>_. ''t'') 5
      (OpCreateMember ''u2'' (sample_member ''Bob'')) (sample_directory [OpCreateMember ''u1'' (sample_member ''Ann'')]) =
      (False, st') \<and> gm_get (st_members st') ''u2'' = None \<and> gm_get (st_members st') ''u1'' \<noteq> None"
proof -
  let ?st = "sample_directory [OpCreateMember ''u1'' (sample_member ''Ann'')]"
  let ?op = "OpCreateMember ''u2'' (sample_member ''Bob'')"
  let ?call = "call (may_write WriteBlob (\<lambda>_. True)) (\<lambda>_. ''m'') (\<lambda>_. ''t'') 5 ?op ?st"
  have f: "fresh_for ?st ?op" "\<not> fst ?call" "gm_get (st_members ?st) ''u2'' = None" "gm_get (st_members ?st) ''u1'' \<noteq> None"
    by code_simp+
  then have "?call = (False, snd ?call)" by (simp add: prod_eq_iff)
  from failed_create_changes_nothing [OF f(1) _ this] f(3,4) show ?thesis by (metis \<open>?call = (False, snd ?call)\<close>)
qed

text \<open>
  A derived alias is a slug: lower-case letters, digits, dashes and underscores, with no dash at
  either end; and a slug is its own alias.
\<close>

theorem alias_is_slug:
  "(\<forall>c \<in> set (DeriveAlias name). c \<in> set ''abcdefghijklmnopqrstuvwxyz0123456789-_'') \<and>
   (DeriveAlias name = [] \<or> hd (DeriveAlias name) \<noteq> CHR ''-'' \<and> last (DeriveAlias name) \<noteq> CHR ''-'') \<and>
   DeriveAlias (DeriveAlias name) = DeriveAlias name"
proof -
  have chars: "c \<in> set ''abcdefghijklmnopqrstuvwxyz0123456789-_''" if "slug_char c \<or> dash_char c" for c
  proof -
    define n where "n = (of_char c :: nat)"
    from that have "n \<in> {97..122} \<union> {48..57} \<union> {45, 95}"
      by (auto simp: slug_char_def dash_char_def n_def Let_def)
    then have "n \<in> set (map of_char ''abcdefghijklmnopqrstuvwxyz0123456789-_'')"
      by (simp add: atLeastAtMost_iff) presburger
    then obtain d where d: "d \<in> set ''abcdefghijklmnopqrstuvwxyz0123456789-_''" "(of_char c :: nat) = of_char d"
      unfolding n_def set_map by (elim imageE)
    then have "c = d" by (metis char_of_char)
    with d(1) show ?thesis by (simp only:)
  qed
  have "DeriveAlias (DeriveAlias name) = trim_dashes (slug True (DeriveAlias name))"
    using slug_text_plain [OF DeriveAlias_slug] by (simp add: DeriveAlias_def [of "DeriveAlias name"])
  also have "\<dots> = trim_dashes (DeriveAlias name)" by (simp add: slug_of_slug DeriveAlias_slug)
  also have "\<dots> = DeriveAlias name"
    using trim_dashes_ends [of "slug True (to_lower (trim_space name))"]
    by (intro trim_dashes_id) (auto simp: DeriveAlias_def)
  finally have "DeriveAlias (DeriveAlias name) = DeriveAlias name" .
  moreover have "\<forall>c \<in> set (DeriveAlias name). c \<in> set ''abcdefghijklmnopqrstuvwxyz0123456789-_''"
    using DeriveAlias_slug [of name] chars unfolding slug_text_def by blast
  moreover have "DeriveAlias name = [] \<or> hd (DeriveAlias name) \<noteq> CHR ''-'' \<and> last (DeriveAlias name) \<noteq> CHR ''-''"
    using trim_dashes_ends by (auto simp: DeriveAlias_def)
  ultimately show ?thesis by blast
qed

theorem alias_is_slug_witness:
  "DeriveAlias '' Ops: Team (EU) '' = ''ops-team-eu'' \<and> DeriveAlias ''ops-team-eu'' = ''ops-team-eu''"
proof -
  have "DeriveAlias '' Ops: Team (EU) '' = ''ops-team-eu''" by code_simp
  then show ?thesis using alias_is_slug [of "'' Ops: Team (EU) ''"] by metis
qed

end
