(* ===== verification/Tail_Dedup.thy ===== *)
theory Tail_Dedup
  imports Prelude "HOL-Library.Product_Lexorder"
begin

text \<open>
  The position of a tailing log source (\<open>pkg/signalsources/tailing.go\<close>): the clamped cursor and the
  set of row ids already delivered, and how a tick of the SigNoz source uses both
  (\<open>pkg/signalsources/signoz.go\<close>).

  The backend that persists the set is a state \<open>'b\<close> with its three operations as parameters, each of
  which may fail (\<open>None\<close>). The paged query of a source is a parameter too, with the reading of a row
  (time stamp, id and signal, or unusable); the nil rows of an answer are left out of it. A context is only passed on, and is left out.
\<close>

subsection \<open>Cursor\<close>

definition ClampCursor :: "time \<Rightarrow> time \<Rightarrow> time \<Rightarrow> time" where
  "ClampCursor candidate since now =
     (let candidate = (if candidate < since then since else candidate)
      in if candidate > now then now else candidate)"

subsection \<open>The set of delivered ids\<close>

record DedupRow =
  dr_ID :: string
  dr_TS :: time

record 'b TailDedupBackend =
  be_Load :: "'b \<Rightarrow> string \<Rightarrow> (string, time) gomap option"
  be_Save :: "string \<Rightarrow> (string, time) gomap \<Rightarrow> time \<Rightarrow> int \<Rightarrow> 'b \<Rightarrow> 'b option"
  be_Clear :: "string \<Rightarrow> 'b \<Rightarrow> 'b option"

definition defaultTailDedupMax :: int where "defaultTailDedupMax = 50000"

record TailDedup =
  td_source :: string
  td_max :: int
  td_backend :: bool
  td_loaded :: bool
  td_ids :: "(string, time) gomap"
  td_unsaved :: "(string, time) gomap"
  td_floor :: time

definition NewTailDedup :: "string \<Rightarrow> TailDedup" where
  "NewTailDedup source =
     \<lparr>td_source = source, td_max = defaultTailDedupMax, td_backend = False, td_loaded = False,
      td_ids = [], td_unsaved = [], td_floor = 0\<rparr>"

definition SetBackend :: "bool \<Rightarrow> TailDedup \<Rightarrow> TailDedup" where
  "SetBackend attached d = d\<lparr>td_backend := attached, td_loaded := False\<rparr>"

text \<open>The result tells whether the call failed.\<close>

definition td_Load :: "'b TailDedupBackend \<Rightarrow> 'b \<Rightarrow> TailDedup \<Rightarrow> bool \<times> TailDedup" where
  "td_Load be b d =
     (if td_loaded d then (False, d)
      else if \<not> td_backend d then (False, d\<lparr>td_loaded := True\<rparr>)
      else case be_Load be b (td_source d) of
             None \<Rightarrow> (True, d)
           | Some stored \<Rightarrow>
               (False, d\<lparr>td_ids := fold (\<lambda>(i, ts) ids. if gm_get ids i = None then gm_set ids i ts else ids)
                            stored (td_ids d),
                         td_loaded := True\<rparr>))"

definition td_Has :: "TailDedup \<Rightarrow> string \<Rightarrow> bool" where
  "td_Has d i \<longleftrightarrow> i \<noteq> [] \<and> gm_get (td_ids d) i \<noteq> None"

definition trimLocked :: "TailDedup \<Rightarrow> TailDedup" where
  "trimLocked d =
     (if td_max d \<le> 0 \<or> int (length (td_ids d)) \<le> td_max d then d
      else
        let all = sort (map (\<lambda>(i, ts). (ts, i)) (td_ids d));
            dropped = take (nat (int (length all) - td_max d)) all
        in fold (\<lambda>(ts, i) d. d\<lparr>td_ids := gm_del (td_ids d) i, td_unsaved := gm_del (td_unsaved d) i\<rparr>) dropped d)"

definition stage_row :: "DedupRow \<Rightarrow> TailDedup \<Rightarrow> TailDedup" where
  "stage_row r d =
     (if dr_ID r = [] then d
      else
        let d = (if gm_get (td_ids d) (dr_ID r) = None
                 then d\<lparr>td_unsaved := gm_set (td_unsaved d) (dr_ID r) (dr_TS r)\<rparr> else d)
        in d\<lparr>td_ids := gm_set (td_ids d) (dr_ID r) (dr_TS r)\<rparr>)"

text \<open>Ids stamped before the floor go from both maps.\<close>

definition prune_below :: "time \<Rightarrow> TailDedup \<Rightarrow> TailDedup" where
  "prune_below floor d =
     (let d = d\<lparr>td_unsaved := gm_filter (\<lambda>i ts. case gm_get (td_ids d) i of None \<Rightarrow> True | Some t \<Rightarrow> \<not> t < floor)
                  (td_unsaved d),
                td_ids := gm_filter (\<lambda>i ts. \<not> ts < floor) (td_ids d)\<rparr>
      in if floor > td_floor d then d\<lparr>td_floor := floor\<rparr> else d)"

definition Stage :: "DedupRow list \<Rightarrow> time \<Rightarrow> TailDedup \<Rightarrow> TailDedup" where
  "Stage rows floor d =
     (let d = fold stage_row rows d;
          d = (if floor \<noteq> 0 then prune_below floor d else d)
      in trimLocked d)"

definition td_Commit :: "'b TailDedupBackend \<Rightarrow> 'b \<times> TailDedup \<Rightarrow> bool \<times> 'b \<times> TailDedup" where
  "td_Commit be = (\<lambda>(b, d).
     if \<not> td_backend d then (False, b, d\<lparr>td_unsaved := []\<rparr>)
     else case be_Save be (td_source d) (td_unsaved d) (td_floor d) (td_max d) b of
            None \<Rightarrow> (True, b, d)
          | Some b \<Rightarrow> (False, b, d\<lparr>td_unsaved := []\<rparr>))"

definition td_Clear :: "'b TailDedupBackend \<Rightarrow> 'b \<times> TailDedup \<Rightarrow> bool \<times> 'b \<times> TailDedup" where
  "td_Clear be = (\<lambda>(b, d).
     let d = d\<lparr>td_ids := [], td_unsaved := [], td_floor := 0, td_loaded := True\<rparr>
     in if \<not> td_backend d then (False, b, d)
        else case be_Clear be (td_source d) b of None \<Rightarrow> (True, b, d) | Some b \<Rightarrow> (False, b, d))"

definition td_Len :: "TailDedup \<Rightarrow> nat" where "td_Len d = length (td_ids d)"

text \<open>One backing store for several scopes: every source name is prefixed.\<close>

definition scoped :: "string \<Rightarrow> string \<Rightarrow> string" where
  "scoped scope source = scope @ ''/'' @ source"

definition NewScopedTailDedupBackend :: "string \<Rightarrow> 'b TailDedupBackend option \<Rightarrow> 'b TailDedupBackend option" where
  "NewScopedTailDedupBackend scope inner =
     (case inner of
        None \<Rightarrow> None
      | Some be \<Rightarrow>
          if scope = [] then Some be
          else Some \<lparr>be_Load = (\<lambda>b source. be_Load be b (scoped scope source)),
                     be_Save = (\<lambda>source. be_Save be (scoped scope source)),
                     be_Clear = (\<lambda>source. be_Clear be (scoped scope source))\<rparr>)"

subsection \<open>A tick of a source\<close>

record SigNozSource =
  sn_name :: string
  sn_PageSize :: nat
  sn_reorderWindow :: duration
  sn_replaySpan :: duration
  sn_dedup :: TailDedup

definition sigNozMaxPagesPerTick :: nat where "sigNozMaxPagesPerTick = 20"
definition maxSigNozPageSize :: int where "maxSigNozPageSize = 1000"
definition defaultSigNozReorderWindow :: duration where "defaultSigNozReorderWindow = 2 * minute"

definition sn_Name :: "string \<Rightarrow> string" where "sn_Name name = ''signoz:'' @ name"

text \<open>
  \<open>newSigNozSource\<close>, as far as the tail goes: the address and the key must be given, the page size
  and the window get their defaults. \<open>window\<close> is the parsed \<open>reorder_window\<close>, if it parses.
\<close>

definition newSigNozSource :: "string \<Rightarrow> string \<Rightarrow> string \<Rightarrow> int \<Rightarrow> duration option \<Rightarrow> SigNozSource option" where
  "newSigNozSource name address apiKey pageSize window =
     (if address = [] \<or> apiKey = [] then None
      else
        let pageSize = (if pageSize \<le> 0 then 500 else pageSize);
            pageSize = (if pageSize > maxSigNozPageSize then maxSigNozPageSize else pageSize)
        in Some \<lparr>sn_name = name, sn_PageSize = nat pageSize,
                 sn_reorderWindow = (case window of Some d \<Rightarrow> if d > 0 then d else defaultSigNozReorderWindow
                                                  | None \<Rightarrow> defaultSigNozReorderWindow),
                 sn_replaySpan = 0, sn_dedup = NewTailDedup (sn_Name name)\<rparr>)"

definition scanWindow :: "SigNozSource \<Rightarrow> duration" where
  "scanWindow s = sn_reorderWindow s + sn_replaySpan s"

definition SetTailReplaySpan :: "duration \<Rightarrow> SigNozSource \<Rightarrow> (duration \<times> duration) \<times> SigNozSource" where
  "SetTailReplaySpan span s =
     (let s = (if span > 0 then s\<lparr>sn_replaySpan := span\<rparr> else s)
      in ((sn_reorderWindow s, scanWindow s), s))"

text \<open>
  The rows of a page: every one counts, the usable ones move the cursor, are kept
  for the set, and are delivered unless the set has them.
\<close>

definition take_row ::
  "TailDedup \<Rightarrow> ('row \<Rightarrow> (time \<times> string \<times> 'sig) option) \<Rightarrow> 'row \<Rightarrow>
   time \<times> DedupRow list \<times> 'sig list \<Rightarrow> time \<times> DedupRow list \<times> 'sig list" where
  "take_row d read_row row = (\<lambda>(cursor, seen, signals).
     case read_row row of
       None \<Rightarrow> (cursor, seen, signals)
     | Some (ts, i, sig) \<Rightarrow>
         (if ts > cursor then ts else cursor, seen @ [\<lparr>dr_ID = i, dr_TS = ts\<rparr>],
          if td_Has d i then signals else signals @ [sig]))"

fun pull_pages ::
  "nat \<Rightarrow> TailDedup \<Rightarrow> ('row \<Rightarrow> (time \<times> string \<times> 'sig) option) \<Rightarrow> (nat \<Rightarrow> 'row list option) \<Rightarrow>
   nat \<Rightarrow> nat \<Rightarrow> time \<times> DedupRow list \<times> 'sig list \<Rightarrow> bool \<times> time \<times> DedupRow list \<times> 'sig list" where
  "pull_pages pageSize d read_row query page 0 acc = (True, acc)"
| "pull_pages pageSize d read_row query page (Suc left) acc =
     (case query page of
        None \<Rightarrow> (False, acc)
      | Some rows \<Rightarrow>
          let acc = fold (take_row d read_row) rows acc
          in if length rows < pageSize then (True, acc)
             else pull_pages pageSize d read_row query (page + 1) left acc)"

text \<open>
  \<open>Pull\<close>: the signals, the next cursor, whether it failed, and the source after it. \<open>query\<close> gets the
  bounds of the scan and the page.
\<close>

definition Pull ::
  "'b TailDedupBackend \<Rightarrow> 'b \<Rightarrow> ('row \<Rightarrow> (time \<times> string \<times> 'sig) option) \<Rightarrow>
   (time \<Rightarrow> time \<Rightarrow> nat \<Rightarrow> 'row list option) \<Rightarrow> time \<Rightarrow> time \<Rightarrow> SigNozSource \<Rightarrow>
   'sig list \<times> time \<times> bool \<times> SigNozSource" where
  "Pull be b read_row query now since s =
     (let since = (if since > now then now else since);
          lower = (if since \<noteq> 0 \<and> scanWindow s > 0 then since - scanWindow s else since);
          (load_failed, d) = td_Load be b (sn_dedup s);
          (ok, cursor, seen, signals) =
            pull_pages (sn_PageSize s) d read_row (query lower now) 0 sigNozMaxPagesPerTick (since, [], [])
      in if \<not> ok then (signals, cursor, True, s\<lparr>sn_dedup := d\<rparr>)
         else (signals, ClampCursor cursor since now, False, s\<lparr>sn_dedup := Stage seen lower d\<rparr>))"

definition sn_Commit :: "'b TailDedupBackend \<Rightarrow> 'b \<times> SigNozSource \<Rightarrow> bool \<times> 'b \<times> SigNozSource" where
  "sn_Commit be = (\<lambda>(b, s). let (failed, b, d) = td_Commit be (b, sn_dedup s) in (failed, b, s\<lparr>sn_dedup := d\<rparr>))"

definition sn_Rewind :: "'b TailDedupBackend \<Rightarrow> 'b \<times> SigNozSource \<Rightarrow> bool \<times> 'b \<times> SigNozSource" where
  "sn_Rewind be = (\<lambda>(b, s). let (failed, b, d) = td_Clear be (b, sn_dedup s) in (failed, b, s\<lparr>sn_dedup := d\<rparr>))"

text \<open>\<open>unixEpochByMagnitude\<close>: seconds, milliseconds or nanoseconds by the size of the number.\<close>

definition unixEpochByMagnitude :: "int \<Rightarrow> time" where
  "unixEpochByMagnitude n =
     (if n < 10 ^ 12 then of_unix n
      else if n < 10 ^ 15 then of_unix 0 + n * 1000000
      else of_unix 0 + n)"

subsection \<open>A tick of the worker\<close>

text \<open>
  \<open>tickSource\<close> of \<open>pkg/agent/worker.go\<close> from the pull to the saved cursor: the signals are processed
  in batches, and the cursor is saved only when every batch went through (\<open>process\<close> says so and
  returns its own state). \<open>Some c\<close> is the cursor saved.
\<close>

fun process_batches :: "nat \<Rightarrow> ('sig list \<Rightarrow> 'w \<Rightarrow> bool \<times> 'w) \<Rightarrow> nat \<Rightarrow> 'sig list \<Rightarrow> 'w \<Rightarrow> bool \<times> 'w" where
  "process_batches n process 0 sigs w = (sigs = [], w)"
| "process_batches n process (Suc left) sigs w =
     (if sigs = [] then (True, w)
      else let (ok, w) = process (take n sigs) w
           in if ok then process_batches n process left (drop n sigs) w else (False, w))"

definition tickSource ::
  "int \<Rightarrow> ('sig list \<Rightarrow> 'w \<Rightarrow> bool \<times> 'w) \<Rightarrow> 'b TailDedupBackend \<Rightarrow> 'b \<Rightarrow>
   ('row \<Rightarrow> (time \<times> string \<times> 'sig) option) \<Rightarrow> (time \<Rightarrow> time \<Rightarrow> nat \<Rightarrow> 'row list option) \<Rightarrow>
   time \<Rightarrow> time \<Rightarrow> SigNozSource \<times> 'w \<Rightarrow> time option \<times> SigNozSource \<times> 'w" where
  "tickSource batchMax process be b read_row query now since = (\<lambda>(s, w).
     let (signals, newCursor, failed, s) = Pull be b read_row query now since s
     in if failed then (None, s, w)
        else if signals = [] then (if newCursor > since then Some newCursor else None, s, w)
        else
          let batchSize = int (length signals);
              batchSize = (if batchMax > 0 \<and> batchSize > batchMax then batchMax else batchSize);
              (ok, w) = process_batches (nat batchSize) process (length signals) signals w
          in (if ok then Some newCursor else None, s, w))"

subsection \<open>The cursor store\<close>

text \<open>
  \<open>CursorStore\<close> of \<open>pkg/agent/cursors.go\<close> and \<open>loadCursor\<close>: Redis when there is one, the memory map
  always. \<open>rget\<close> reads and parses a key of Redis (\<open>None\<close> when either fails), \<open>rset\<close> writes one.
\<close>

record CursorStore =
  cs_rdb :: bool
  cs_keyPrefix :: string
  cs_mem :: "(string, time) gomap"

definition NewCursorStore :: "bool \<Rightarrow> CursorStore" where
  "NewCursorStore rdb = \<lparr>cs_rdb = rdb, cs_keyPrefix = ''versus:agent:cursor:'', cs_mem = []\<rparr>"

definition cursor_Get :: "(string \<Rightarrow> time option) \<Rightarrow> CursorStore \<Rightarrow> string \<Rightarrow> time option" where
  "cursor_Get rget s source =
     (case (if cs_rdb s then rget (cs_keyPrefix s @ source) else None) of
        Some t \<Rightarrow> Some t
      | None \<Rightarrow> gm_get (cs_mem s) source)"

definition cursor_Set ::
  "(string \<Rightarrow> time \<Rightarrow> 'r \<Rightarrow> 'r option) \<Rightarrow> string \<Rightarrow> time \<Rightarrow> CursorStore \<times> 'r \<Rightarrow> bool \<times> CursorStore \<times> 'r" where
  "cursor_Set rset source t = (\<lambda>(s, r).
     let s = s\<lparr>cs_mem := gm_set (cs_mem s) source t\<rparr>
     in if \<not> cs_rdb s then (False, s, r)
        else case rset (cs_keyPrefix s @ source) t r of None \<Rightarrow> (True, s, r) | Some r \<Rightarrow> (False, s, r))"

text \<open>A cursor ahead of the clock counts as none.\<close>

definition loadCursor :: "(string \<Rightarrow> time option) \<Rightarrow> CursorStore option \<Rightarrow> duration \<Rightarrow> time \<Rightarrow> string \<Rightarrow> time" where
  "loadCursor rget cursors lookback now name =
     (case (case cursors of None \<Rightarrow> None | Some s \<Rightarrow> cursor_Get rget s name) of
        Some t \<Rightarrow> if t > now then now - lookback else t
      | None \<Rightarrow> now - lookback)"

lemma loadCursor_not_ahead: "0 \<le> lookback \<Longrightarrow> loadCursor rget cursors lookback now name \<le> now"
  by (auto simp: loadCursor_def split: option.split)

lemma cursor_Get_Set:
  "\<not> cs_rdb s \<Longrightarrow> cursor_Set rset source t (s, r) = (e, s', r') \<Longrightarrow>
     cursor_Get rget s' n = (if n = source then Some t else cursor_Get rget s n)"
  by (auto simp: cursor_Set_def cursor_Get_def Let_def gm_simps)

subsection \<open>Staging\<close>

lemma length_gm_set: "length (gm_set m k v) \<le> Suc (length m)"
  by (induction m) auto

lemma stage_row_get:
  "gm_get (td_ids (stage_row r d)) i = (if i = dr_ID r \<and> i \<noteq> [] then Some (dr_TS r) else gm_get (td_ids d) i)"
  "gm_ok (td_ids d) \<Longrightarrow> gm_ok (td_ids (stage_row r d))"
  "length (td_ids (stage_row r d)) \<le> Suc (length (td_ids d))"
  "td_max (stage_row r d) = td_max d" "td_backend (stage_row r d) = td_backend d"
  by (auto simp: stage_row_def Let_def gm_simps length_gm_set intro: le_SucI)

lemma fold_stage:
  assumes "\<And>r. r \<in> set rows \<Longrightarrow> dr_ID r \<noteq> [] \<and> dr_TS r = ts (dr_ID r)"
    and "\<And>i t. gm_get (td_ids d) i = Some t \<Longrightarrow> t = ts i" and "gm_ok (td_ids d)"
  shows "(\<forall>i. gm_get (td_ids (fold stage_row rows d)) i =
        (if gm_get (td_ids d) i \<noteq> None \<or> i \<in> dr_ID ` set rows then Some (ts i) else None)) \<and>
    gm_ok (td_ids (fold stage_row rows d)) \<and>
    length (td_ids (fold stage_row rows d)) \<le> length (td_ids d) + length rows \<and>
    td_max (fold stage_row rows d) = td_max d \<and> td_backend (fold stage_row rows d) = td_backend d"
  using assms
proof (induction rows rule: rev_induct)
  case Nil
  have "gm_get (td_ids d) i = (if gm_get (td_ids d) i \<noteq> None then Some (ts i) else None)" for i
    using Nil(2) [of i] by (cases "gm_get (td_ids d) i") simp_all
  then show ?case using Nil(3) by simp
next
  case (snoc r rows)
  note IH = snoc.IH [OF snoc.prems(1) snoc.prems(2,3), simplified]
  have r: "dr_ID r \<noteq> []" "dr_TS r = ts (dr_ID r)" using snoc.prems(1) by auto
  let ?d = "fold stage_row rows d"
  have "length (td_ids (stage_row r ?d)) \<le> length (td_ids d) + length (rows @ [r])"
    using IH stage_row_get(3) [of r ?d] by simp
  then show ?case using IH r by (auto simp: stage_row_get)
qed

lemma Stage_get:
  assumes "\<And>r. r \<in> set rows \<Longrightarrow> dr_ID r \<noteq> [] \<and> dr_TS r = ts (dr_ID r)"
    and "\<And>i t. gm_get (td_ids d) i = Some t \<Longrightarrow> t = ts i" and "gm_ok (td_ids d)"
    and "td_max d \<le> 0 \<or> int (length (td_ids d) + length rows) \<le> td_max d"
  shows "(\<forall>i. gm_get (td_ids (Stage rows floor d)) i =
        (if (gm_get (td_ids d) i \<noteq> None \<or> i \<in> dr_ID ` set rows) \<and> (floor = 0 \<or> floor \<le> ts i) then Some (ts i) else None)) \<and>
    gm_ok (td_ids (Stage rows floor d)) \<and>
    length (td_ids (Stage rows floor d)) \<le> length (td_ids d) + length rows \<and>
    td_max (Stage rows floor d) = td_max d \<and> td_backend (Stage rows floor d) = td_backend d"
proof -
  let ?d = "fold stage_row rows d"
  let ?p = "if floor \<noteq> 0 then prune_below floor ?d else ?d"
  note f = fold_stage [OF assms(1-3)]
  have p: "td_ids ?p = (if floor \<noteq> 0 then gm_filter (\<lambda>i t. \<not> t < floor) (td_ids ?d) else td_ids ?d)"
      "td_max ?p = td_max d" "td_backend ?p = td_backend d"
    using f by (simp_all add: prune_below_def Let_def)
  have len: "length (td_ids ?p) \<le> length (td_ids d) + length rows"
    using f gm_length_filter_le [of _ "td_ids ?d"] unfolding p(1) by (auto intro: order_trans)
  then have "trimLocked ?p = ?p" using assms(4) p(2) unfolding trimLocked_def by auto
  then have st: "Stage rows floor d = ?p" by (simp add: Stage_def Let_def)
  show ?thesis
    unfolding st using f p len by (auto simp: gm_simps)
qed

subsection \<open>A pull delivers the rows the set does not have\<close>

fun pages_read :: "nat \<Rightarrow> (nat \<Rightarrow> 'row list option) \<Rightarrow> nat \<Rightarrow> nat \<Rightarrow> 'row list option" where
  "pages_read pageSize query page 0 = Some []"
| "pages_read pageSize query page (Suc left) =
     (case query page of
        None \<Rightarrow> None
      | Some rows \<Rightarrow>
          if length rows < pageSize then Some rows
          else map_option ((@) rows) (pages_read pageSize query (page + 1) left))"

lemma pull_pages_read:
  "case pages_read pageSize query page left of
     None \<Rightarrow> \<not> fst (pull_pages pageSize d read_row query page left acc)
   | Some rows \<Rightarrow> pull_pages pageSize d read_row query page left acc = (True, fold (take_row d read_row) rows acc)"
proof (induction left arbitrary: page acc)
  case (Suc left)
  show ?case
  proof (cases "query page")
    case None
    then show ?thesis by simp
  next
    case (Some rows)
    then show ?thesis
      using Suc.IH [of "page + 1" "fold (take_row d read_row) rows acc"]
      by (cases "length rows < pageSize"; cases "pages_read pageSize query (page + 1) left") (simp_all add: Let_def)
  qed
qed simp

lemma fold_take_row:
  "fold (take_row d read_row) rows (c, seen, sigs) =
     (fold (\<lambda>(ts, i, sig) c. if ts > c then ts else c) (List.map_filter read_row rows) c,
      seen @ map (\<lambda>(ts, i, sig). \<lparr>dr_ID = i, dr_TS = ts\<rparr>) (List.map_filter read_row rows),
      sigs @ map (\<lambda>(ts, i, sig). sig) (filter (\<lambda>(ts, i, sig). \<not> td_Has d i) (List.map_filter read_row rows)))"
  by (induction rows arbitrary: c seen sigs) (auto simp: take_row_def map_filter_simps split: option.splits)

lemma fold_max_ge:
  fixes c :: time
  shows "c \<le> fold (\<lambda>(ts, i, sig) c. if ts > c then ts else c) rs c"
proof (induction rs arbitrary: c)
  case (Cons r rs)
  then show ?case using order_trans [OF less_imp_le Cons.IH, of c "fst r"] by (auto split: prod.split)
qed simp

definition scan_lower :: "time \<Rightarrow> time \<Rightarrow> SigNozSource \<Rightarrow> time" where
  "scan_lower now since s =
     (let since = (if since > now then now else since)
      in if since \<noteq> 0 \<and> scanWindow s > 0 then since - scanWindow s else since)"

definition tick_rows ::
  "('row \<Rightarrow> (time \<times> string \<times> 'sig) option) \<Rightarrow> (time \<Rightarrow> time \<Rightarrow> nat \<Rightarrow> 'row list option) \<Rightarrow> time \<Rightarrow> time \<Rightarrow>
   SigNozSource \<Rightarrow> (time \<times> string \<times> 'sig) list option" where
  "tick_rows read_row query now since s =
     map_option (List.map_filter read_row)
       (pages_read (sn_PageSize s) (query (scan_lower now since s) now) 0 sigNozMaxPagesPerTick)"

lemma Pull_rows:
  assumes "\<not> td_backend (sn_dedup s)"
  shows "\<exists>d. td_ids d = td_ids (sn_dedup s) \<and> td_max d = td_max (sn_dedup s) \<and> \<not> td_backend d \<and>
    (case tick_rows read_row query now since s of
       None \<Rightarrow> \<exists>sigs c. Pull be b read_row query now since s = (sigs, c, True, s\<lparr>sn_dedup := d\<rparr>)
     | Some rs \<Rightarrow> \<exists>c \<ge> min since now. c \<le> now \<and> Pull be b read_row query now since s =
         (map (\<lambda>(ts, i, sig). sig) (filter (\<lambda>(ts, i, sig). \<not> td_Has (sn_dedup s) i) rs), c, False,
          s\<lparr>sn_dedup := Stage (map (\<lambda>(ts, i, sig). \<lparr>dr_ID = i, dr_TS = ts\<rparr>) rs) (scan_lower now since s) d\<rparr>))"
proof -
  define d where "d = snd (td_Load be b (sn_dedup s))"
  have d: "td_Load be b (sn_dedup s) = (False, d)" "td_ids d = td_ids (sn_dedup s)"
      "td_max d = td_max (sn_dedup s)" "\<not> td_backend d" "td_Has d = td_Has (sn_dedup s)"
    using assms by (auto simp: d_def td_Load_def td_Has_def fun_eq_iff)
  let ?since = "if since > now then now else since"
  let ?q = "query (scan_lower now since s) now"
  let ?pull = "pull_pages (sn_PageSize s) d read_row ?q 0 sigNozMaxPagesPerTick (?since, [], [])"
  have lower: "(if ?since \<noteq> 0 \<and> scanWindow s > 0 then ?since - scanWindow s else ?since) = scan_lower now since s"
    by (simp add: scan_lower_def Let_def)
  have pull: "Pull be b read_row query now since s = (case ?pull of (ok, cursor, seen, signals) \<Rightarrow>
      if \<not> ok then (signals, cursor, True, s\<lparr>sn_dedup := d\<rparr>)
      else (signals, ClampCursor cursor ?since now, False, s\<lparr>sn_dedup := Stage seen (scan_lower now since s) d\<rparr>))"
    unfolding Pull_def Let_def d(1) prod.case lower ..
  have clamp: "min since now \<le> ClampCursor c ?since now \<and> ClampCursor c ?since now \<le> now" for c
    by (auto simp: ClampCursor_def Let_def)
  note pages = pull_pages_read [of "sn_PageSize s" d read_row ?q 0 sigNozMaxPagesPerTick "(?since, [], [])"]
  show ?thesis
  proof (cases "pages_read (sn_PageSize s) ?q 0 sigNozMaxPagesPerTick")
    case None
    then obtain c seen sigs where "?pull = (False, c, seen, sigs)" using pages by (cases ?pull) auto
    then show ?thesis
      using d None pull by (intro exI [of _ d]) (simp add: tick_rows_def)
  next
    case (Some rows)
    then have "?pull = (True, fold (take_row d read_row) rows (?since, [], []))" using pages by simp
    then show ?thesis
      using d Some pull clamp by (intro exI [of _ d]) (simp add: tick_rows_def fold_take_row)
  qed
qed

subsection \<open>Runs of ticks\<close>



lemma process_fails: "process_batches n (\<lambda>_ w. (False, w)) left sigs w = (sigs = [], w)"
  by (cases left) simp_all


text \<open>The ids of rows, and what the clock, the reader and the backend of a source promise.\<close>

abbreviation row_id :: "time \<times> string \<times> 'sig \<Rightarrow> string" where "row_id r \<equiv> fst (snd r)"

definition good_reader :: "(string \<Rightarrow> time) \<Rightarrow> ('sig \<Rightarrow> string) \<Rightarrow> ('row \<Rightarrow> (time \<times> string \<times> 'sig) option) \<Rightarrow> bool" where
  "good_reader ts sig_id read_row \<longleftrightarrow>
     (\<forall>row t i sig. read_row row = Some (t, i, sig) \<longrightarrow> i \<noteq> [] \<and> t = ts i \<and> 0 \<le> t \<and> sig_id sig = i)"

definition good_query ::
  "('row \<Rightarrow> (time \<times> string \<times> 'sig) option) \<Rightarrow> nat \<Rightarrow> time \<Rightarrow> (time \<Rightarrow> time \<Rightarrow> nat \<Rightarrow> 'row list option) \<Rightarrow> bool" where
  "good_query read_row pageSize now query \<longleftrightarrow>
     (\<forall>lower rows. pages_read pageSize (query lower now) 0 sigNozMaxPagesPerTick = Some rows \<longrightarrow>
        distinct (map row_id (List.map_filter read_row rows)) \<and>
        (\<forall>r \<in> set (List.map_filter read_row rows). lower \<le> fst r))"



lemma in_map_filter: "r \<in> set (List.map_filter f xs) \<longleftrightarrow> (\<exists>x \<in> set xs. f x = Some r)"
  by (induction xs) (auto simp: map_filter_simps split: option.splits)





subsection \<open>Properties\<close>


text \<open>A log of three rows, one per instant, and a query that reads a window of it.\<close>

definition sample_ts :: "string \<Rightarrow> time" where "sample_ts i = int (length i)"

definition sample_reader :: "time \<times> string \<Rightarrow> (time \<times> string \<times> string) option" where
  "sample_reader = (\<lambda>(t, i). if i \<noteq> [] \<and> t = sample_ts i then Some (t, i, i) else None)"

definition sample_query :: "time \<Rightarrow> time \<Rightarrow> nat \<Rightarrow> (time \<times> string) list option" where
  "sample_query lower now page =
     Some (if page = 0 then filter (\<lambda>(t, i). lower \<le> t \<and> t \<le> now) [(1, ''a''), (2, ''bb''), (3, ''ccc'')] else [])"

definition no_backend :: "unit TailDedupBackend" where
  "no_backend = \<lparr>be_Load = (\<lambda>_ _. None), be_Save = (\<lambda>_ _ _ _ _. None), be_Clear = (\<lambda>_ _. None)\<rparr>"

definition sample_source :: SigNozSource where
  "sample_source = \<lparr>sn_name = ''prod'', sn_PageSize = 500, sn_reorderWindow = 2, sn_replaySpan = 0,
     sn_dedup = NewTailDedup (sn_Name ''prod'')\<rparr>"

lemma sample_good: "good_reader sample_ts id sample_reader" "good_query sample_reader 500 now sample_query"
proof -
  show "good_reader sample_ts id sample_reader"
    by (auto simp: good_reader_def sample_reader_def sample_ts_def split: if_splits)
  have "pages_read 500 (sample_query lower now) 0 sigNozMaxPagesPerTick =
      Some (filter (\<lambda>(t, i). lower \<le> t \<and> t \<le> now) [(1, ''a''), (2, ''bb''), (3, ''ccc'')])" for lower
    by (simp add: sigNozMaxPagesPerTick_def eval_nat_numeral sample_query_def)
  then show "good_query sample_reader 500 now sample_query"
    by (auto simp: good_query_def sample_reader_def sample_ts_def List.map_filter_def)
qed


text \<open>
  C22: Rows of a batch that failed are not delivered again: the pull has already put their ids into the
  set, so, although the cursor was not saved and the next pull reads them again, it hands none of
  them out. (Until the set is cleared or the process restarts, they are lost to the worker.)
\<close>

theorem failed_batch_is_not_redelivered:
  assumes "good_reader ts sig_id read_row" and "good_query read_row (sn_PageSize s) now query"
    and "\<not> td_backend (sn_dedup s)" and "td_ids (sn_dedup s) = []"
    and "td_max (sn_dedup s) \<le> 0 \<or> int (length rs) \<le> td_max (sn_dedup s)"
    and "tick_rows read_row query now since s = Some rs" and "rs \<noteq> []"
    and "tickSource batchMax (\<lambda>_ w. (False, w)) be b read_row query now since (s, w) = (saved, s', w')"
    and "tick_rows read_row query' now' since s' = Some rs'" and "set (map row_id rs') \<subseteq> set (map row_id rs)"
  shows "saved = None \<and> w' = w \<and> fst (Pull be b read_row query' now' since s') = []"
proof -
  let ?rows = "map (\<lambda>(ts, i, sig). \<lparr>dr_ID = i, dr_TS = ts\<rparr>) rs"
  let ?lower = "scan_lower now since s"
  obtain rows where rows: "pages_read (sn_PageSize s) (query ?lower now) 0 sigNozMaxPagesPerTick = Some rows"
      "rs = List.map_filter read_row rows"
    using assms(6) by (auto simp: tick_rows_def)
  have low: "\<forall>r \<in> set rs. ?lower \<le> fst r" using assms(2) rows unfolding good_query_def by blast
  have row: "i \<noteq> [] \<and> t = ts i \<and> ?lower \<le> ts i" if "(t, i, sig) \<in> set rs" for t i sig
    using that assms(1) rows bspec [OF low that] by (auto simp: good_reader_def in_map_filter)
  obtain d c where d: "td_ids d = []" "td_max d \<le> 0 \<or> int (length rs) \<le> td_max d" "\<not> td_backend d"
    and P: "Pull be b read_row query now since s = (map (\<lambda>(ts, i, sig). sig) (filter (\<lambda>(ts, i, sig). \<not> td_Has (sn_dedup s) i) rs), c, False,
          s\<lparr>sn_dedup := Stage ?rows ?lower d\<rparr>)"
    using Pull_rows [OF assms(3), where read_row=read_row and query=query and now=now and since=since and be=be and b=b]
      assms(4-6) by auto
  have "filter (\<lambda>(ts, i, sig). \<not> td_Has (sn_dedup s) i) rs = rs" using assms(4) by (simp add: td_Has_def)
  then have tick: "saved = None" "w' = w" "s' = s\<lparr>sn_dedup := Stage ?rows ?lower d\<rparr>"
    using assms(7,8) P by (simp_all add: tickSource_def Let_def process_fails)
  have "(\<forall>i. gm_get (td_ids (Stage ?rows ?lower d)) i =
        (if (gm_get (td_ids d) i \<noteq> None \<or> i \<in> dr_ID ` set ?rows) \<and> (?lower = 0 \<or> ?lower \<le> ts i) then Some (ts i) else None)) \<and>
    gm_ok (td_ids (Stage ?rows ?lower d)) \<and>
    length (td_ids (Stage ?rows ?lower d)) \<le> length (td_ids d) + length ?rows \<and>
    td_max (Stage ?rows ?lower d) = td_max d \<and> td_backend (Stage ?rows ?lower d) = td_backend d"
    using row d by (intro Stage_get) auto
  moreover have "dr_ID ` set ?rows = row_id ` set rs" by force
  ultimately have st: "\<And>i. gm_get (td_ids (sn_dedup s')) i =
        (if i \<in> row_id ` set rs \<and> (?lower = 0 \<or> ?lower \<le> ts i) then Some (ts i) else None)"
      and nb: "\<not> td_backend (sn_dedup s')"
    using d by (simp_all add: tick(3))
  have has: "td_Has (sn_dedup s') (row_id r)" if r: "r \<in> set rs" for r
  proof -
    obtain t i sig where e: "r = (t, i, sig)" by (cases r)
    then have "i \<noteq> []" "?lower \<le> ts i" "i \<in> row_id ` set rs" using row r by force+
    then show ?thesis by (simp add: td_Has_def st e)
  qed
  have "td_Has (sn_dedup s') (row_id r)" if "r \<in> set rs'" for r
  proof -
    have "row_id r \<in> row_id ` set rs" using assms(10) that by auto
    then show ?thesis using has by auto
  qed
  then have none: "filter (\<lambda>(ts, i, sig). \<not> td_Has (sn_dedup s') i) rs' = []" by (auto simp: filter_empty_conv)
  obtain c' s'' where "Pull be b read_row query' now' since s' =
      (map (\<lambda>(ts, i, sig). sig) (filter (\<lambda>(ts, i, sig). \<not> td_Has (sn_dedup s') i) rs'), c', False, s'')"
    using Pull_rows [OF nb, where read_row=read_row and query=query' and now=now' and since=since and be=be and b=b] assms(9)
    by auto
  then show ?thesis using tick(1,2) none by simp
qed

theorem failed_batch_is_not_redelivered_witness:
  "\<exists>s'. tickSource 0 (\<lambda>_ w. (False, w)) no_backend () sample_reader sample_query 2 1 (sample_source, [] :: string list) =
      (None, s', []) \<and>
    tick_rows sample_reader sample_query 2 1 s' = Some [(1, ''a'', ''a''), (2, ''bb'', ''bb'')] \<and>
    fst (Pull no_backend () sample_reader sample_query 2 1 s') = []"
proof -
  let ?tick = "tickSource 0 (\<lambda>_ w. (False, w)) no_backend () sample_reader sample_query 2 1 (sample_source, [] :: string list)"
  obtain saved s' w' where tick: "?tick = (saved, s', w')" by (cases ?tick)
  have q: "good_query sample_reader (sn_PageSize sample_source) 2 sample_query"
    by (simp add: sample_source_def sample_good(2))
  have rs: "tick_rows sample_reader sample_query 2 1 sample_source = Some [(1, ''a'', ''a''), (2, ''bb'', ''bb'')]" by code_simp
  have "tick_rows sample_reader sample_query 2 1 (fst (snd ?tick)) = Some [(1, ''a'', ''a''), (2, ''bb'', ''bb'')]" by code_simp
  then have rs': "tick_rows sample_reader sample_query 2 1 s' = Some [(1, ''a'', ''a''), (2, ''bb'', ''bb'')]"
    unfolding tick by simp
  have d: "\<not> td_backend (sn_dedup sample_source)" "td_ids (sn_dedup sample_source) = []" "td_max (sn_dedup sample_source) = 50000"
    by (simp_all add: sample_source_def NewTailDedup_def defaultTailDedupMax_def)
  from failed_batch_is_not_redelivered [OF sample_good(1) q d(1,2) _ rs _ tick rs'] tick rs'
  show ?thesis by (simp add: d(3))
qed

end
