(* ===== verification/Go_Format.thy ===== *)
theory Go_Format
  imports Prelude Complex_Main
begin

text \<open>
  The formatting verbs of the standard library the program uses: decimal numbers (\<open>%d\<close>, \<open>%02d\<close>,
  \<open>strconv.FormatInt\<close>), fixed-point numbers (\<open>%.1f\<close>, \<open>%.2f\<close>), and the bytes of the characters outside
  ASCII in its messages. A float64 is an exact fraction throughout the development: rounding, NaN and the
  infinities are not modelled.
\<close>

fun show_nat :: "nat \<Rightarrow> string" where
  "show_nat n = (if n < 10 then [char_of (48 + n)] else show_nat (n div 10) @ [char_of (48 + n mod 10)])"

declare show_nat.simps [simp del]

definition show_int :: "int \<Rightarrow> string" where
  "show_int n = (if n < 0 then ''-'' @ show_nat (nat (- n)) else show_nat (nat n))"

definition zero_pad :: "nat \<Rightarrow> string \<Rightarrow> string" where
  "zero_pad w s = replicate (w - length s) CHR ''0'' @ s"

text \<open>Rounding to the nearest integer, ties to even.\<close>

definition round_even :: "rat \<Rightarrow> int" where
  "round_even x =
     (let n = floor x; r = x - of_int n
      in if r < 1 / 2 then n else if r > 1 / 2 then n + 1 else if even n then n else n + 1)"

definition show_fixed :: "nat \<Rightarrow> rat \<Rightarrow> string" where
  "show_fixed d x =
     (let q = nat (round_even (abs x * of_nat (10 ^ d)))
      in (if x < 0 then ''-'' else []) @ show_nat (q div 10 ^ d) @ ''.'' @ zero_pad d (show_nat (q mod 10 ^ d)))"

definition em_dash :: string where "em_dash = [CHR 0xE2, CHR 0x80, CHR 0x94]"
definition sigma_sign :: string where "sigma_sign = [CHR 0xCF, CHR 0x83]"
definition plus_minus :: string where "plus_minus = [CHR 0xC2, CHR 0xB1]"
definition times_sign :: string where "times_sign = [CHR 0xC3, CHR 0x97]"

end
