(* ===== verification/Ack_Token.thy ===== *)
theory Ack_Token
  imports Memory_State Go_Format
begin

text \<open>
  The tokens of acknowledgement links (\<open>pkg/services/acktoken.go\<close>): signing, verification, the link,
  and how the processes that share a store agree on one signing key.

  HMAC-SHA-256 and the base64 encoding are parameters; that nobody without the key can produce a
  signature is a property of HMAC and is not claimed. The random bytes of a key are an argument
  (\<open>None\<close> when the generator fails), and so are the failures of the store.
\<close>

subsection \<open>Tokens\<close>

datatype ack_error = ErrAckTokenMissing | ErrAckTokenExpired | ErrAckTokenInvalid

definition ackSigningKeyBlob :: string where "ackSigningKeyBlob = ''secrets/ack-signing-key''"

definition ackSigningKeyLen :: nat where "ackSigningKeyLen = 32"

definition SignAckToken :: "(string \<Rightarrow> string \<Rightarrow> string) \<Rightarrow> (string \<Rightarrow> string) \<Rightarrow> string \<Rightarrow> string \<Rightarrow> int \<Rightarrow> string" where
  "SignAckToken hmac b64enc key incidentID expiry = b64enc (hmac key (incidentID @ ''.'' @ show_int expiry))"

definition VerifyAckToken ::
  "(string \<Rightarrow> string \<Rightarrow> string) \<Rightarrow> (string \<Rightarrow> string) \<Rightarrow> string \<Rightarrow> string \<Rightarrow> int \<Rightarrow> string \<Rightarrow> time \<Rightarrow> ack_error option" where
  "VerifyAckToken hmac b64enc key incidentID expiry sig now =
     (if key = [] \<or> sig = [] then Some ErrAckTokenMissing
      else if SignAckToken hmac b64enc key incidentID expiry \<noteq> sig then Some ErrAckTokenInvalid
      else if expiry \<le> unix_of now then Some ErrAckTokenExpired
      else None)"

definition AckURL ::
  "(string \<Rightarrow> string \<Rightarrow> string) \<Rightarrow> (string \<Rightarrow> string) \<Rightarrow> string \<Rightarrow> string \<Rightarrow> string \<Rightarrow> duration \<Rightarrow> time \<Rightarrow> string" where
  "AckURL hmac b64enc key publicHost incidentID ttl now =
     (if key = [] then publicHost @ ''/api/ack/'' @ incidentID
      else
        let expiry = unix_of (now + ttl);
            sig = SignAckToken hmac b64enc key incidentID expiry
        in publicHost @ ''/api/ack/'' @ incidentID @ ''?exp='' @ show_int expiry @ ''&sig='' @ sig)"

subsection \<open>The signing key\<close>

definition generateAndPersistAckKey ::
  "('s \<Rightarrow> string \<Rightarrow> string option) \<Rightarrow> (time \<Rightarrow> string \<Rightarrow> string \<Rightarrow> 's \<Rightarrow> bool \<times> 's) \<Rightarrow>
   bool \<Rightarrow> bool \<Rightarrow> bool \<Rightarrow> string option \<Rightarrow> time \<Rightarrow> 's \<Rightarrow> string option \<times> 's" where
  "generateAndPersistAckKey rd create capable create_fails read_fails candidate now s =
     (if \<not> capable then (None, s)
      else case candidate of
        None \<Rightarrow> (None, s)
      | Some candidate \<Rightarrow>
          if create_fails then (None, s)
          else
            let (written, s) = create now ackSigningKeyBlob candidate s
            in if written then (Some candidate, s)
               else if read_fails then (None, s)
               else case rd s ackSigningKeyBlob of
                      None \<Rightarrow> (None, s)
                    | Some surviving \<Rightarrow> if surviving = [] then (None, s) else (Some surviving, s))"

text \<open>
  \<open>gatewaySecret\<close> is \<open>None\<close> without a configuration; \<open>ephemeral\<close> are the bytes of the last resort. The
  result is the key installed process-wide.
\<close>

definition InitAckSigningKey ::
  "('s \<Rightarrow> string \<Rightarrow> string option) \<Rightarrow> (time \<Rightarrow> string \<Rightarrow> string \<Rightarrow> 's \<Rightarrow> bool \<times> 's) \<Rightarrow>
   bool \<Rightarrow> bool \<Rightarrow> bool \<Rightarrow> string option \<Rightarrow> string option \<Rightarrow> string \<Rightarrow> time \<Rightarrow> 's \<Rightarrow> string \<times> 's" where
  "InitAckSigningKey rd create capable create_fails read_fails candidate gatewaySecret ephemeral now s =
     (case generateAndPersistAckKey rd create capable create_fails read_fails candidate now s of
        (Some key, s) \<Rightarrow> (key, s)
      | (None, s) \<Rightarrow>
          (case gatewaySecret of
             Some secret \<Rightarrow> if trim_space secret \<noteq> [] then (trim_space secret, s) else (ephemeral, s)
           | None \<Rightarrow> (ephemeral, s)))"

text \<open>Processes starting one after the other on one store: the keys they install.\<close>

fun boot_keys ::
  "('s \<Rightarrow> string \<Rightarrow> string option) \<Rightarrow> (time \<Rightarrow> string \<Rightarrow> string \<Rightarrow> 's \<Rightarrow> bool \<times> 's) \<Rightarrow>
   (time \<times> string \<times> string option \<times> string) list \<Rightarrow> 's \<Rightarrow> string list \<times> 's" where
  "boot_keys rd create [] s = ([], s)"
| "boot_keys rd create ((now, candidate, secret, ephemeral) # boots) s =
     (let (key, s) = InitAckSigningKey rd create True False False (Some candidate) secret ephemeral now s;
          (keys, s) = boot_keys rd create boots s
      in (key # keys, s))"

context blob_creator
begin

lemma init_elects:
  assumes "invar s" "candidate \<noteq> []" "rd s ackSigningKeyBlob \<noteq> Some []"
    and "InitAckSigningKey rd create True False False (Some candidate) secret ephemeral now s = (key, s')"
  shows "invar s' \<and> key \<noteq> [] \<and> rd s' ackSigningKeyBlob = Some key \<and>
    (\<forall>k. rd s ackSigningKeyBlob = Some k \<longrightarrow> key = k) \<and> (rd s ackSigningKeyBlob = None \<longrightarrow> key = candidate)"
proof -
  obtain won s1 where c: "create now ackSigningKeyBlob candidate s = (won, s1)" by fastforce
  have s1: "invar s1" "rd s1 ackSigningKeyBlob = Some (case rd s ackSigningKeyBlob of None \<Rightarrow> candidate | Some k \<Rightarrow> k)"
      "won \<longleftrightarrow> rd s ackSigningKeyBlob = None"
    using create_invar [OF assms(1), of now ackSigningKeyBlob candidate]
      create_read_same [OF assms(1), of now ackSigningKeyBlob candidate]
      create_won [OF assms(1), of now ackSigningKeyBlob candidate] by (simp_all add: c)
  show ?thesis
  proof (cases "rd s ackSigningKeyBlob")
    case None
    then show ?thesis using s1 c assms(2,4) by (simp add: InitAckSigningKey_def generateAndPersistAckKey_def)
  next
    case (Some k)
    then show ?thesis using s1 c assms(3,4) by (simp add: InitAckSigningKey_def generateAndPersistAckKey_def)
  qed
qed

lemma boots_agree:
  assumes "invar s" "\<forall>b \<in> set boots. fst (snd b) \<noteq> []" "rd s ackSigningKeyBlob = Some k" "k \<noteq> []"
  shows "set (fst (boot_keys rd create boots s)) \<subseteq> {k}"
  using assms
proof (induction boots arbitrary: s)
  case (Cons b boots)
  obtain now c sec e where b: "b = (now, c, sec, e)" by (cases b)
  obtain key s1 where i: "InitAckSigningKey rd create True False False (Some c) sec e now s = (key, s1)" by fastforce
  have "c \<noteq> []" using Cons.prems(2) by (simp add: b)
  with init_elects [OF Cons.prems(1) _ _ i] Cons.prems(3,4)
  have s1: "invar s1" "key = k" "rd s1 ackSigningKeyBlob = Some k" by auto
  have "set (fst (boot_keys rd create boots s1)) \<subseteq> {k}"
    using Cons.prems(2) by (intro Cons.IH [OF s1(1) _ s1(3) Cons.prems(4)]) simp
  then show ?case by (simp add: b i s1(2) split_beta)
qed simp

lemma boots_elect_one:
  assumes "invar s" "\<forall>b \<in> set boots. fst (snd b) \<noteq> []" "rd s ackSigningKeyBlob \<noteq> Some []"
  shows "\<exists>k. k \<noteq> [] \<and> set (fst (boot_keys rd create boots s)) \<subseteq> {k}"
proof (cases boots)
  case Nil
  then show ?thesis by (auto intro: exI [of _ "''k''"])
next
  case (Cons b rest)
  obtain now c sec e where b: "b = (now, c, sec, e)" by (cases b)
  obtain key s1 where i: "InitAckSigningKey rd create True False False (Some c) sec e now s = (key, s1)" by fastforce
  have "c \<noteq> []" using assms(2) by (simp add: b Cons)
  from init_elects [OF assms(1) this assms(3) i]
  have s1: "invar s1" "key \<noteq> []" "rd s1 ackSigningKeyBlob = Some key" by auto
  have "set (fst (boot_keys rd create rest s1)) \<subseteq> {key}"
    using assms(2) by (intro boots_agree [OF s1(1) _ s1(3,2)]) (simp add: Cons)
  then show ?thesis using s1(2) by (intro exI [of _ key]) (simp add: Cons b i split_beta)
qed

end

subsection \<open>Property\<close>

text \<open>
  C23: Processes that start on one store install the same key, whatever their candidates; so a link
  made by one of them is accepted by every other one until its expiry and refused as expired from
  then on, and a token for another incident or expiry is refused as invalid unless it has the very
  same signature.
\<close>

theorem ack_links_verify_on_every_replica:
  assumes "blobs_ok s" and "ReadBlob s ackSigningKeyBlob \<noteq> Some []"
    and "\<forall>b \<in> set boots. fst (snd b) \<noteq> []"
    and "\<And>d. b64enc (hmac k1 d) \<noteq> []"
    and "k1 \<in> set (fst (boot_keys ReadBlob CreateBlobIfAbsent boots s))"
    and "k2 \<in> set (fst (boot_keys ReadBlob CreateBlobIfAbsent boots s))"
    and "expiry = unix_of (made + ttl)" and "sig = SignAckToken hmac b64enc k1 incident expiry"
  shows "k2 = k1 \<and>
    AckURL hmac b64enc k1 host incident ttl made = host @ ''/api/ack/'' @ incident @ ''?exp='' @ show_int expiry @ ''&sig='' @ sig \<and>
    VerifyAckToken hmac b64enc k2 incident expiry sig now = (if unix_of now < expiry then None else Some ErrAckTokenExpired) \<and>
    (VerifyAckToken hmac b64enc k2 incident' expiry' sig' now \<in> {None, Some ErrAckTokenExpired} \<longleftrightarrow>
       sig' = SignAckToken hmac b64enc k2 incident' expiry')"
proof -
  obtain k where k: "k \<noteq> []" "set (fst (boot_keys ReadBlob CreateBlobIfAbsent boots s)) \<subseteq> {k}"
    using mem_create.boots_elect_one [where boots=boots, OF assms(1) assms(3) assms(2)] by (elim exE conjE) (rule that)
  have e: "k1 = k" "k2 = k" using subsetD [OF k(2) assms(5)] subsetD [OF k(2) assms(6)] by simp_all
  have sig: "SignAckToken hmac b64enc k i x \<noteq> []" for i x using assms(4) by (simp add: SignAckToken_def e)
  have "AckURL hmac b64enc k host incident ttl made = host @ ''/api/ack/'' @ incident @ ''?exp='' @ show_int expiry @ ''&sig='' @ sig"
    using k(1) by (simp add: AckURL_def assms(7,8) Let_def e)
  moreover have "VerifyAckToken hmac b64enc k incident expiry sig now = (if unix_of now < expiry then None else Some ErrAckTokenExpired)"
    using k(1) sig by (simp add: VerifyAckToken_def assms(8) e)
  moreover have "VerifyAckToken hmac b64enc k incident' expiry' sig' now \<in> {None, Some ErrAckTokenExpired} \<longleftrightarrow>
       sig' = SignAckToken hmac b64enc k incident' expiry'"
    using k(1) sig [of incident' expiry'] by (auto simp: VerifyAckToken_def)
  ultimately show ?thesis unfolding e by blast
qed

theorem ack_links_verify_on_every_replica_witness:
  "fst (boot_keys ReadBlob CreateBlobIfAbsent [(1, ''ka'', None, ''x''), (2, ''kb'', Some ''gw'', ''y'')] NewMemory) = [''ka'', ''ka''] \<and>
     VerifyAckToken (\<lambda>k d. k @ d) (\<lambda>m. ''t'' @ m) ''ka'' ''inc'' (unix_of (0 + 100 * second))
       (SignAckToken (\<lambda>k d. k @ d) (\<lambda>m. ''t'' @ m) ''ka'' ''inc'' (unix_of (0 + 100 * second))) (50 * second) = None"
proof -
  let ?boots = "[(1, ''ka'', None, ''x''), (2, ''kb'', Some ''gw'', ''y'')]"
  have keys: "fst (boot_keys ReadBlob CreateBlobIfAbsent ?boots NewMemory) = [''ka'', ''ka'']" by code_simp
  have a: "ReadBlob NewMemory ackSigningKeyBlob \<noteq> Some []" by (simp add: NewMemory_def ReadBlob_def)
  have mem: "''ka'' \<in> set (fst (boot_keys ReadBlob CreateBlobIfAbsent ?boots NewMemory))" by (simp only: keys list.set insertI1)
  have c: "\<forall>b \<in> set ?boots. fst (snd b) \<noteq> []" by simp
  have b: "\<And>d. (\<lambda>m. ''t'' @ m) ((\<lambda>k d. k @ d) ''ka'' d) \<noteq> []" by simp
  from ack_links_verify_on_every_replica [where hmac="\<lambda>k d. k @ d" and b64enc="\<lambda>m. ''t'' @ m", OF blobs_ok_New a c b mem mem refl refl,
      where made=0 and ttl="100 * second" and incident="''inc''" and now="50 * second"]
  show ?thesis using keys by (simp add: unix_of_def second_def)
qed

end
