(* ===== verification/Detect_Log.thy ===== *)
theory Detect_Log
  imports Memory_State Complex_Main
begin

text \<open>
  Two logs the agent keeps of its AI calls: the bounded audit log of detect-mode decisions
  (\<open>pkg/agent/detect_log.go\<close>) and the cache of findings (\<open>pkg/agent/ai/cache.go\<close>).

  The store is the blob provider of the model or none; the JSON encodings and fresh event ids are
  parameters, a failing read or write is told by a flag. Events are values: the callers do not
  change an event after recording it. The float64 numbers of an event are exact fractions.
\<close>

subsection \<open>The detect log\<close>

record DetectEvent =
  de_ID :: string
  de_Timestamp :: time
  de_Source :: string
  de_PatternID :: string
  de_Template :: string
  de_Service :: string
  de_Verdict :: string
  de_Frequency :: int
  de_Baseline :: rat
  de_BaselineStd :: rat
  de_Score :: rat
  de_Explanation :: string
  de_Samples :: "string list"
  de_RuleSeverity :: string
  de_EpisodeID :: string
  de_IncidentID :: string
  de_OccurrenceDelta :: int
  de_OccurrenceCount :: int
  de_EpisodeAction :: string
  de_NotificationOutcome :: string
  de_EpisodeError :: string
  de_Model :: string
  de_UserPrompt :: string
  de_RawResponse :: string
  de_DurationMs :: int
  de_Finding :: "AIFinding option"
  de_Outcome :: string
  de_Error :: string

record DetectLog =
  dl_store :: bool
  dl_blobName :: string
  dl_events :: "DetectEvent list"
  dl_max :: int
  dl_dirty :: bool

definition detectFileVersion :: int where "detectFileVersion = 1"
definition detectDefaultMax :: int where "detectDefaultMax = 500"
definition detectSampleMaxBytes :: nat where "detectSampleMaxBytes = 512"
definition detectPromptMaxBytes :: nat where "detectPromptMaxBytes = 8 * 1024"
definition detectResponseMaxBytes :: nat where "detectResponseMaxBytes = 8 * 1024"

text \<open>The three bytes of the ellipsis in UTF-8.\<close>

definition ellipsis :: string where "ellipsis = [CHR 0xE2, CHR 0x80, CHR 0xA6]"

definition cut :: "nat \<Rightarrow> string \<Rightarrow> string" where
  "cut n s = (if length s > n then take n s @ ellipsis else s)"

text \<open>\<open>f.Events[len(f.Events)-max:]\<close>.\<close>

definition last_n :: "int \<Rightarrow> 'a list \<Rightarrow> 'a list" where
  "last_n n xs = (if int (length xs) > n then drop (nat (int (length xs) - n)) xs else xs)"

text \<open>\<open>dec\<close> gives the events of a file; the result tells whether loading failed.\<close>

definition LoadDetectLog ::
  "(string \<Rightarrow> DetectEvent list option) \<Rightarrow> bool \<Rightarrow> memoryProvider option \<Rightarrow> int \<Rightarrow> bool \<times> DetectLog" where
  "LoadDetectLog dec read_fails store m =
     (let m = (if m \<le> 0 then detectDefaultMax else m);
          d = \<lparr>dl_store = (store \<noteq> None), dl_blobName = ''detect'', dl_events = [], dl_max = m, dl_dirty = False\<rparr>
      in case store of
           None \<Rightarrow> (False, d)
         | Some p \<Rightarrow>
             if read_fails then (True, d)
             else case ReadBlob p (dl_blobName d) of
                    None \<Rightarrow> (False, d)
                  | Some data \<Rightarrow>
                      if data = [] then (False, d)
                      else case dec data of
                             None \<Rightarrow> (True, d)
                           | Some events \<Rightarrow> (False, d\<lparr>dl_events := last_n m events\<rparr>))"

definition prepare_event :: "string \<Rightarrow> time \<Rightarrow> DetectEvent \<Rightarrow> DetectEvent" where
  "prepare_event new_id now e =
     (let e = (if de_ID e = [] then e\<lparr>de_ID := new_id\<rparr> else e);
          e = (if de_Timestamp e = 0 then e\<lparr>de_Timestamp := now\<rparr> else e)
      in e\<lparr>de_Samples := map (cut detectSampleMaxBytes) (de_Samples e),
           de_UserPrompt := cut detectPromptMaxBytes (de_UserPrompt e),
           de_RawResponse := cut detectResponseMaxBytes (de_RawResponse e)\<rparr>)"

definition Record :: "string \<Rightarrow> time \<Rightarrow> DetectEvent option \<Rightarrow> DetectLog option \<Rightarrow> DetectLog option" where
  "Record new_id now e d =
     (case (d, e) of
        (Some d, Some e) \<Rightarrow>
          Some (d\<lparr>dl_events := last_n (dl_max d) (dl_events d @ [prepare_event new_id now e]), dl_dirty := True\<rparr>)
      | _ \<Rightarrow> d)"

text \<open>Newest first; the order of events with the same time stamp is left open by the code.\<close>

definition All :: "DetectLog \<Rightarrow> DetectEvent list" where
  "All d = sort_key (\<lambda>e. - de_Timestamp e) (dl_events d)"

definition dl_Get :: "DetectLog \<Rightarrow> string \<Rightarrow> DetectEvent option" where
  "dl_Get d i = find (\<lambda>e. de_ID e = i) (dl_events d)"

definition dl_Len :: "DetectLog \<Rightarrow> nat" where "dl_Len d = length (dl_events d)"

definition inc :: "string \<Rightarrow> (string, int) gomap \<Rightarrow> (string, int) gomap" where
  "inc k m = gm_set m k (gm_get0 0 m k + 1)"

definition stat_event :: "DetectEvent \<Rightarrow> (string, int) gomap \<Rightarrow> (string, int) gomap" where
  "stat_event e stats =
     (let stats = (if de_Outcome e \<noteq> [] then inc (''outcome_'' @ de_Outcome e) stats else stats);
          stats = (if de_Verdict e = ''unknown'' then inc ''verdict_unknown'' stats
                   else if de_Verdict e = ''spike'' then inc ''verdict_spike'' stats else stats)
      in case de_Finding e of
           None \<Rightarrow> stats
         | Some f \<Rightarrow> if fi_Severity f \<noteq> [] then inc (''severity_'' @ fi_Severity f) stats else stats)"

definition dl_Stats :: "DetectLog \<Rightarrow> (string, int) gomap" where
  "dl_Stats d = fold stat_event (dl_events d) [(''events'', int (length (dl_events d)))]"

definition dl_Clear :: "DetectLog \<Rightarrow> nat \<times> DetectLog" where
  "dl_Clear d =
     (let n = length (dl_events d) in if n = 0 then (0, d) else (n, d\<lparr>dl_events := [], dl_dirty := True\<rparr>))"

definition dl_Dirty :: "DetectLog \<Rightarrow> bool" where "dl_Dirty d = dl_dirty d"

definition dl_Persist ::
  "(int \<times> time \<times> DetectEvent list \<Rightarrow> string) \<Rightarrow> bool \<Rightarrow> time \<Rightarrow> DetectLog \<times> memoryProvider \<Rightarrow>
   bool \<times> DetectLog \<times> memoryProvider" where
  "dl_Persist enc write_fails now = (\<lambda>(d, p).
     if \<not> dl_store d then (False, d, p)
     else if \<not> dl_dirty d then (False, d, p)
     else if write_fails then (True, d, p)
     else (False, d\<lparr>dl_dirty := False\<rparr>,
           WriteBlob now (dl_blobName d) (enc (detectFileVersion, now, dl_events d)) p))"

subsection \<open>The finding cache\<close>

record 'f cacheEntry =
  ce_Finding :: 'f
  ce_StoredAt :: time
  ce_PatternID :: string

record 'f ResultCache =
  rc_ttl :: duration
  rc_store :: bool
  rc_entries :: "(string, 'f cacheEntry) gomap"
  rc_dirty :: bool

definition AICacheBlobName :: string where "AICacheBlobName = ''ai_cache''"

text \<open>
  \<open>dec\<close> gives the entries of a cache blob: \<open>None\<close> when it does not parse, \<open>Some None\<close> for null.
\<close>

definition cache_load ::
  "(string \<Rightarrow> (string, 'f cacheEntry) gomap option option) \<Rightarrow> bool \<Rightarrow> time \<Rightarrow> memoryProvider option \<Rightarrow>
   'f ResultCache \<Rightarrow> 'f ResultCache" where
  "cache_load dec read_fails now store c =
     (case store of
        None \<Rightarrow> c
      | Some p \<Rightarrow>
          (case (if read_fails then None else ReadBlob p AICacheBlobName) of
             None \<Rightarrow> c
           | Some data \<Rightarrow>
               if data = [] then c
               else case dec data of
                      Some (Some entries) \<Rightarrow>
                        c\<lparr>rc_entries := fold (\<lambda>(i, e) m.
                            if rc_ttl c > 0 \<and> ce_StoredAt e < now - rc_ttl c then m else gm_set m i e) entries (rc_entries c)\<rparr>
                    | _ \<Rightarrow> c))"

definition NewResultCache ::
  "(string \<Rightarrow> (string, 'f cacheEntry) gomap option option) \<Rightarrow> bool \<Rightarrow> time \<Rightarrow> duration \<Rightarrow> memoryProvider option \<Rightarrow>
   'f ResultCache" where
  "NewResultCache dec read_fails now ttl store =
     cache_load dec read_fails now store
       \<lparr>rc_ttl = ttl, rc_store = (store \<noteq> None), rc_entries = [], rc_dirty = False\<rparr>"

definition cache_Get :: "'f ResultCache option \<Rightarrow> time \<Rightarrow> string \<Rightarrow> 'f option" where
  "cache_Get c now patternID =
     (case c of
        None \<Rightarrow> None
      | Some c \<Rightarrow>
          if rc_ttl c \<le> 0 \<or> patternID = [] then None
          else case gm_get (rc_entries c) patternID of
                 None \<Rightarrow> None
               | Some e \<Rightarrow> if now - ce_StoredAt e > rc_ttl c then None else Some (ce_Finding e))"

definition cache_Put :: "time \<Rightarrow> string \<Rightarrow> 'f option \<Rightarrow> 'f ResultCache option \<Rightarrow> 'f ResultCache option" where
  "cache_Put now patternID f c =
     (case (c, f) of
        (Some c, Some f) \<Rightarrow>
          if rc_ttl c \<le> 0 \<or> patternID = [] then Some c
          else Some (c\<lparr>rc_entries := gm_set (rc_entries c) patternID
                         \<lparr>ce_Finding = f, ce_StoredAt = now, ce_PatternID = patternID\<rparr>, rc_dirty := True\<rparr>)
      | _ \<Rightarrow> c)"

definition cache_Persist ::
  "((string, 'f cacheEntry) gomap \<Rightarrow> string) \<Rightarrow> bool \<Rightarrow> time \<Rightarrow> 'f ResultCache \<times> memoryProvider \<Rightarrow>
   bool \<times> 'f ResultCache \<times> memoryProvider" where
  "cache_Persist enc write_fails now = (\<lambda>(c, p).
     if \<not> rc_store c then (False, c, p)
     else if \<not> rc_dirty c then (False, c, p)
     else
       let c = (if rc_ttl c > 0
                then c\<lparr>rc_entries := gm_filter (\<lambda>i e. \<not> ce_StoredAt e < now - rc_ttl c) (rc_entries c)\<rparr> else c);
           c = c\<lparr>rc_dirty := False\<rparr>
       in if write_fails then (True, c, p)
          else (False, c, WriteBlob now AICacheBlobName (enc (rc_entries c)) p))"

definition cache_Flush ::
  "((string, 'f cacheEntry) gomap \<Rightarrow> string) \<Rightarrow> bool \<Rightarrow> time \<Rightarrow> 'f ResultCache \<times> memoryProvider \<Rightarrow>
   'f ResultCache \<times> memoryProvider" where
  "cache_Flush enc write_fails now = (\<lambda>(c, p).
     snd (cache_Persist enc write_fails now (c\<lparr>rc_entries := [], rc_dirty := True\<rparr>, p)))"

definition cache_Len :: "'f ResultCache option \<Rightarrow> nat" where
  "cache_Len c = (case c of None \<Rightarrow> 0 | Some c \<Rightarrow> length (rc_entries c))"

subsection \<open>The log keeps the newest events\<close>

lemma last_n_take: "n > 0 \<Longrightarrow> last_n n xs = rev (take (nat n) (rev xs))"
  by (auto simp: last_n_def take_rev nat_diff_distrib)

lemma last_n_append: "n > 0 \<Longrightarrow> last_n n (last_n n xs @ ys) = last_n n (xs @ ys)"
  by (simp add: last_n_take min_def)

lemma last_n_length: "n > 0 \<Longrightarrow> int (length (last_n n xs)) \<le> n"
  by (simp add: last_n_def)

lemma last_n_length_nat: "0 < n \<Longrightarrow> length (last_n n xs) \<le> nat n"
  by (simp add: last_n_take)

lemma last_n_short: "int (length xs) \<le> n \<Longrightarrow> last_n n xs = xs"
  by (simp add: last_n_def)

lemma cut_length: "length (cut n s) \<le> n + 3"
  by (simp add: cut_def ellipsis_def)

lemma cut_id: "length s \<le> n \<Longrightarrow> cut n s = s"
  by (simp add: cut_def)

text \<open>The events a caller records one after the other, with the fresh ids and the clock.\<close>

definition record_all :: "(string \<times> time \<times> DetectEvent) list \<Rightarrow> DetectLog \<Rightarrow> DetectLog" where
  "record_all evs d = fold (\<lambda>(i, now, e) d. the (Record i now (Some e) (Some d))) evs d"

lemma record_all_simps [simp]:
  "record_all [] d = d"
  "record_all ((i, now, e) # evs) d = record_all evs (the (Record i now (Some e) (Some d)))"
  by (simp_all add: record_all_def)

lemma record_all_frame:
  "dl_max (record_all evs d) = dl_max d" "dl_store (record_all evs d) = dl_store d"
  "dl_blobName (record_all evs d) = dl_blobName d" "dl_dirty (record_all evs d) = (dl_dirty d \<or> evs \<noteq> [])"
  by (induction evs arbitrary: d) (auto simp: Record_def)

lemma record_all_events:
  "dl_max d > 0 \<Longrightarrow> int (length (dl_events d)) \<le> dl_max d \<Longrightarrow>
   dl_events (record_all evs d) = last_n (dl_max d) (dl_events d @ map (\<lambda>(i, now, e). prepare_event i now e) evs)"
proof (induction evs arbitrary: d)
  case Nil
  then show ?case by (simp add: last_n_short)
next
  case (Cons x evs)
  obtain i now e where x: "x = (i, now, e)" by (cases x)
  have "dl_events (record_all (x # evs) d) =
      last_n (dl_max d) (last_n (dl_max d) (dl_events d @ [prepare_event i now e]) @ map (\<lambda>(i, now, e). prepare_event i now e) evs)"
    using Cons.prems by (simp add: x Record_def Cons.IH last_n_length)
  then show ?case using Cons.prems by (simp add: x last_n_append)
qed

lemma load_log_ok:
  assumes "LoadDetectLog dec rf store m = (failed, d)"
  shows "dl_max d = (if m \<le> 0 then detectDefaultMax else m) \<and> dl_max d > 0 \<and> int (length (dl_events d)) \<le> dl_max d \<and>
    dl_store d = (store \<noteq> None) \<and> \<not> dl_dirty d \<and> dl_blobName d = ''detect''"
  using assms
  by (auto simp: LoadDetectLog_def Let_def last_n_length last_n_length_nat [where n=500, simplified] detectDefaultMax_def split: option.splits if_splits)

lemma prepared_bounds:
  "length (de_UserPrompt (prepare_event i now e)) \<le> detectPromptMaxBytes + 3"
  "length (de_RawResponse (prepare_event i now e)) \<le> detectResponseMaxBytes + 3"
  "x \<in> set (de_Samples (prepare_event i now e)) \<Longrightarrow> length x \<le> detectSampleMaxBytes + 3"
  by (auto simp: prepare_event_def Let_def cut_length)

subsection \<open>The cache finds the last finding stored\<close>

definition put_all :: "(time \<times> string \<times> 'f) list \<Rightarrow> 'f ResultCache \<Rightarrow> 'f ResultCache" where
  "put_all ps c = fold (\<lambda>(now, i, f) c. the (cache_Put now i (Some f) (Some c))) ps c"

lemma put_all_simps [simp]:
  "put_all [] c = c"
  "put_all ((now, i, f) # ps) c = put_all ps (the (cache_Put now i (Some f) (Some c)))"
  by (simp_all add: put_all_def)

lemma put_frame:
  "rc_ttl (the (cache_Put t i (Some f) (Some c))) = rc_ttl c"
  "rc_store (the (cache_Put t i (Some f) (Some c))) = rc_store c"
  "rc_dirty (the (cache_Put t i (Some f) (Some c))) = (rc_dirty c \<or> rc_ttl c > 0 \<and> i \<noteq> [])"
  "gm_ok (rc_entries c) \<Longrightarrow> gm_ok (rc_entries (the (cache_Put t i (Some f) (Some c))))"
  by (auto simp: cache_Put_def)

lemma put_all_frame:
  "rc_ttl (put_all ps c) = rc_ttl c" "rc_store (put_all ps c) = rc_store c"
  "rc_dirty (put_all ps c) = (rc_dirty c \<or> rc_ttl c > 0 \<and> (\<exists>i \<in> set (map (fst \<circ> snd) ps). i \<noteq> []))"
  "gm_ok (rc_entries c) \<Longrightarrow> gm_ok (rc_entries (put_all ps c))"
  by (induction ps arbitrary: c) (simp_all add: put_frame split_paired_all, blast)

definition last_put :: "(time \<times> string \<times> 'f) list \<Rightarrow> string \<Rightarrow> (time \<times> 'f) option" where
  "last_put ps i = map_option (\<lambda>(t, j, f). (t, f)) (find (\<lambda>(t, j, f). j = i) (rev ps))"

lemma last_put_Cons:
  "last_put ((t, j, f) # ps) i = (case last_put ps i of None \<Rightarrow> if j = i then Some (t, f) else None | r \<Rightarrow> r)"
proof -
  have *: "find P (xs @ ys) = (case find P xs of None \<Rightarrow> find P ys | r \<Rightarrow> r)" for P and xs ys :: "(time \<times> string \<times> 'f) list"
    by (induction xs) auto
  show ?thesis by (auto simp: last_put_def * split: option.splits)
qed

lemma put_all_entry:
  "rc_ttl c > 0 \<Longrightarrow> i \<noteq> [] \<Longrightarrow>
   gm_get (rc_entries (put_all ps c)) i =
     (case last_put ps i of None \<Rightarrow> gm_get (rc_entries c) i
      | Some (t, f) \<Rightarrow> Some \<lparr>ce_Finding = f, ce_StoredAt = t, ce_PatternID = i\<rparr>)"
proof (induction ps arbitrary: c)
  case Nil
  then show ?case by (simp add: last_put_def)
next
  case (Cons p ps)
  obtain t j f where p: "p = (t, j, f)" by (cases p)
  show ?case
    using Cons.prems
    by (auto simp: p last_put_Cons Cons.IH cache_Put_def gm_simps split: option.splits)
qed

lemma load_entries:
  "gm_ok es \<Longrightarrow> gm_get (fold (\<lambda>(i, e) m. if P e then m else gm_set m i e) es m) k =
     (case gm_get es k of None \<Rightarrow> gm_get m k | Some e \<Rightarrow> if P e then gm_get m k else Some e)"
proof (induction es arbitrary: m)
  case (Cons x es)
  obtain i e where x: "x = (i, e)" by (cases x)
  have es: "gm_ok es" "i \<notin> fst ` set es" using Cons.prems by (simp_all add: x)
  then have "gm_get es i = None" by (simp add: map_of_eq_None_iff)
  moreover have "gm_get (fold (\<lambda>(i, e) m. if P e then m else gm_set m i e) (x # es) m) k =
      (let m' = (if P e then m else gm_set m i e)
       in case gm_get es k of None \<Rightarrow> gm_get m' k | Some e \<Rightarrow> if P e then gm_get m' k else Some e)"
    by (simp add: x Cons.IH [OF es(1)] Let_def)
  ultimately show ?case by (simp only:) (auto simp: x gm_simps split: option.split)
qed simp

lemma reload_cache:
  assumes "dec (enc es) = Some (Some es)" "enc es \<noteq> []" "gm_ok es" "ttl > 0" "g \<ge> now"
    and "ReadBlob p AICacheBlobName = Some (enc es)"
  shows "cache_Get (Some (NewResultCache dec False now ttl (Some p))) g i =
    cache_Get (Some \<lparr>rc_ttl = ttl, rc_store = True, rc_entries = es, rc_dirty = d\<rparr>) g i"
  using assms
  by (auto simp: cache_Get_def NewResultCache_def cache_load_def load_entries gm_simps split: option.splits)

lemma last_put_in: "last_put ps i = Some (t, f) \<Longrightarrow> i \<in> set (map (fst \<circ> snd) ps)"
proof (induction ps)
  case (Cons p ps)
  then show ?case by (cases p) (auto simp: last_put_Cons split: option.splits if_splits)
qed (simp add: last_put_def)

definition wit_event :: "string \<Rightarrow> DetectEvent" where
  "wit_event i = \<lparr>de_ID = i, de_Timestamp = 5, de_Source = ''s'', de_PatternID = ''p'', de_Template = ''t'', de_Service = ''svc'',
     de_Verdict = ''unknown'', de_Frequency = 1, de_Baseline = 0, de_BaselineStd = 0, de_Score = 0, de_Explanation = [], de_Samples = [''line''], de_RuleSeverity = [],
     de_EpisodeID = [], de_IncidentID = [], de_OccurrenceDelta = 0, de_OccurrenceCount = 0, de_EpisodeAction = [],
     de_NotificationOutcome = [], de_EpisodeError = [], de_Model = [], de_UserPrompt = ''u'', de_RawResponse = ''r'',
     de_DurationMs = 0, de_Finding = None, de_Outcome = [], de_Error = []\<rparr>"

subsection \<open>Properties\<close>

text \<open>
  C24: However many events are recorded after a start, the log holds the most recent ones in order, at
  most as many as configured (500 when the setting is not positive), prompts, responses and samples
  cut to their limits; and after a successful save a restart finds exactly the log that was saved.
\<close>

theorem detect_log_survives_restart:
  assumes "LoadDetectLog dec False (Some p) m = (False, d)"
    and "d1 = record_all evs d" and "dl_Persist enc False now (d1, p) = (failed, d2, p2)"
    and "enc (detectFileVersion, now, dl_events d1) \<noteq> []"
    and "dec (enc (detectFileVersion, now, dl_events d1)) = Some (dl_events d1)"
  shows "dl_events d1 = last_n (dl_max d) (dl_events d @ map (\<lambda>(i, now, e). prepare_event i now e) evs) \<and>
    int (dl_Len d1) \<le> (if m \<le> 0 then 500 else m) \<and>
    \<not> failed \<and> LoadDetectLog dec False (Some p2) m = (False, d2) \<and> dl_events d2 = dl_events d1"
proof -
  have d: "dl_max d = (if m \<le> 0 then 500 else m)" "dl_max d > 0" "int (length (dl_events d)) \<le> dl_max d"
      "dl_store d" "\<not> dl_dirty d" "dl_blobName d = ''detect''"
    using load_log_ok [OF assms(1)] by (simp_all add: detectDefaultMax_def split: if_splits)
  have ev: "dl_events d1 = last_n (dl_max d) (dl_events d @ map (\<lambda>(i, now, e). prepare_event i now e) evs)"
    unfolding assms(2) by (rule record_all_events [OF d(2,3)])
  then have len: "int (length (dl_events d1)) \<le> dl_max d" by (simp add: last_n_length d(2))
  have persist: "\<not> failed \<and> d2 = d1\<lparr>dl_dirty := False\<rparr> \<and>
      p2 = (if evs = [] then p else WriteBlob now ''detect'' (enc (detectFileVersion, now, dl_events d1)) p)"
    using assms(3) d by (simp add: dl_Persist_def assms(2) record_all_frame split: if_splits)
  have "LoadDetectLog dec False (Some p2) m = (False, d2)"
  proof (cases "evs = []")
    case True
    then show ?thesis using persist assms(1) d(5) by (simp add: assms(2))
  next
    case False
    have "d1\<lparr>dl_dirty := False\<rparr> =
        \<lparr>dl_store = True, dl_blobName = ''detect'', dl_events = dl_events d1, dl_max = dl_max d, dl_dirty = False\<rparr>"
      by (rule DetectLog.equality) (simp_all add: assms(2) record_all_frame d)
    then show ?thesis
      using False persist len d assms(4,5)
      by (simp add: LoadDetectLog_def Let_def gm_simps detectDefaultMax_def last_n_short split: if_splits)
  qed
  then show ?thesis using ev len d(1) persist by (simp add: dl_Len_def)
qed

theorem detect_log_survives_restart_witness:
  "LoadDetectLog (\<lambda>_. Some (map (prepare_event ''i'' 0) [wit_event ''b'', wit_event ''c''])) False
     (Some (WriteBlob 9 ''detect'' ''x'' NewMemory)) 2 =
   (False, \<lparr>dl_store = True, dl_blobName = ''detect'',
     dl_events = map (prepare_event ''i'' 0) [wit_event ''b'', wit_event ''c''], dl_max = 2, dl_dirty = False\<rparr>)"
proof -
  let ?dec = "\<lambda>_. Some (map (prepare_event ''i'' 0) [wit_event ''b'', wit_event ''c''])"
  let ?d = "\<lparr>dl_store = True, dl_blobName = ''detect'', dl_events = [], dl_max = 2, dl_dirty = False\<rparr>"
  let ?evs = "[(''i'', 0, wit_event ''a''), (''i'', 0, wit_event ''b''), (''i'', 0, wit_event ''c'')]"
  have load: "LoadDetectLog ?dec False (Some NewMemory) 2 = (False, ?d)"
    by (simp add: LoadDetectLog_def ReadBlob_def NewMemory_def)
  have rec: "record_all ?evs ?d = ?d\<lparr>dl_events := map (prepare_event ''i'' 0) [wit_event ''b'', wit_event ''c''], dl_dirty := True\<rparr>"
    by (simp add: Record_def last_n_def)
  have "dl_Persist (\<lambda>_. ''x'') False 9 (record_all ?evs ?d, NewMemory) =
      (False, ?d\<lparr>dl_events := map (prepare_event ''i'' 0) [wit_event ''b'', wit_event ''c'']\<rparr>, WriteBlob 9 ''detect'' ''x'' NewMemory)"
    unfolding rec by (simp add: dl_Persist_def)
  from detect_log_survives_restart [OF load refl this] show ?thesis by (simp add: rec del: record_all_simps)
qed

text \<open>
  A cache with a positive lifetime answers with the last finding stored for the pattern while
  that is not older than the lifetime, is not affected by findings for other patterns, and answers
  as before after it is saved and loaded again.
\<close>

theorem cache_hit_is_last_put:
  assumes "rc_ttl c > 0" "gm_ok (rc_entries c)" "rc_store c" "i \<noteq> []"
    and "c1 = put_all ps c" and "cache_Persist enc False now (c1, p) = (failed, c2, p2)"
    and "enc (rc_entries c2) \<noteq> []" "dec (enc (rc_entries c2)) = Some (Some (rc_entries c2))"
    and "last_put ps i = Some (t, f)" "now \<le> restart" "restart \<le> g"
  shows "cache_Get (Some c1) g i = (if g - t > rc_ttl c then None else Some f) \<and>
    (last_put ps j = None \<longrightarrow> cache_Get (Some c1) g j = cache_Get (Some c) g j) \<and>
    \<not> failed \<and> cache_Get (Some c2) g j = cache_Get (Some c1) g j \<and>
    cache_Get (Some (NewResultCache dec False restart (rc_ttl c) (Some p2))) g j = cache_Get (Some c1) g j"
proof -
  have hit: "cache_Get (Some c1) g i = (if g - t > rc_ttl c then None else Some f)"
    using assms(1,4,9) by (simp add: cache_Get_def assms(5) put_all_frame put_all_entry)
  have other: "last_put ps j = None \<longrightarrow> cache_Get (Some c1) g j = cache_Get (Some c) g j"
    using assms(1) by (simp add: cache_Get_def assms(5) put_all_frame put_all_entry split: option.split)
  from last_put_in [OF assms(9)] assms(4) have "\<exists>j \<in> set (map (fst \<circ> snd) ps). j \<noteq> []" by blast
  then have c1: "rc_ttl c1 = rc_ttl c" "rc_store c1" "rc_dirty c1" "gm_ok (rc_entries c1)"
    using assms(1,2,3) by (simp_all add: assms(5) put_all_frame)
  let ?es = "gm_filter (\<lambda>i e. \<not> ce_StoredAt e < now - rc_ttl c) (rc_entries c1)"
  have persist: "\<not> failed" "c2 = c1\<lparr>rc_entries := ?es, rc_dirty := False\<rparr>" "p2 = WriteBlob now AICacheBlobName (enc ?es) p"
    using assms(1,6) c1 by (simp_all add: cache_Persist_def Let_def)
  have c2: "cache_Get (Some c2) g j = cache_Get (Some c1) g j"
    using c1(1,4) assms(10,11) by (simp add: cache_Get_def persist(2) gm_simps split: option.split)
  have "cache_Get (Some (NewResultCache dec False restart (rc_ttl c) (Some p2))) g j =
      cache_Get (Some \<lparr>rc_ttl = rc_ttl c, rc_store = True, rc_entries = ?es, rc_dirty = False\<rparr>) g j"
    using assms(7,8) c1(4) persist(2)
    by (intro reload_cache [OF _ _ _ assms(1,11)]) (simp_all add: persist(3) gm_simps)
  also have "\<dots> = cache_Get (Some c2) g j"
    by (simp add: cache_Get_def persist(2) c1(1) split: option.split)
  finally show ?thesis using hit other c2 persist(1) by simp
qed

theorem cache_hit_is_last_put_witness:
  "cache_Get (Some (NewResultCache
       (\<lambda>_. Some (Some [(''p'', \<lparr>ce_Finding = ''new'', ce_StoredAt = 30, ce_PatternID = ''p''\<rparr>),
                      (''q'', \<lparr>ce_Finding = ''other'', ce_StoredAt = 20, ce_PatternID = ''q''\<rparr>)]))
       False 50 100 (Some (WriteBlob 40 AICacheBlobName ''x'' NewMemory)))) 60 ''p'' = Some ''new''"
proof -
  let ?c = "\<lparr>rc_ttl = 100, rc_store = True, rc_entries = [], rc_dirty = False\<rparr> :: string ResultCache"
  let ?es = "[(''p'', \<lparr>ce_Finding = ''new'', ce_StoredAt = 30, ce_PatternID = ''p''\<rparr>),
              (''q'', \<lparr>ce_Finding = ''other'', ce_StoredAt = 20, ce_PatternID = ''q''\<rparr>)]"
  let ?ps = "[(10, ''p'', ''old''), (20, ''q'', ''other''), (30, ''p'', ''new'')]"
  have "cache_Persist (\<lambda>_. ''x'') False 40 (put_all ?ps ?c, NewMemory) =
      (False, ?c\<lparr>rc_entries := ?es\<rparr>, WriteBlob 40 AICacheBlobName ''x'' NewMemory)"
    by (simp add: cache_Persist_def cache_Put_def gm_filter_def)
  from cache_hit_is_last_put [where i="''p''" and j="''p''" and t=30 and f="''new''" and g=60 and restart=50
      and dec="\<lambda>_. Some (Some ?es)", OF _ _ _ _ refl this]
  show ?thesis by (simp add: last_put_def put_all_def cache_Put_def cache_Get_def)
qed

end
