(* ===== verification/Agent_Filters.thy ===== *)
theory Agent_Filters
  imports Prelude
begin

text \<open>
  The filters a signal passes before it is learned: redaction (\<open>pkg/agent/redact.go\<close>), the regular
  expression pre-filter (\<open>pkg/agent/regex.go\<close>) and service extraction (\<open>pkg/agent/service.go\<close>).

  Expressions that come from the configuration are compiled by a parameter; a compiled expression
  is what the code uses of it. The fixed expressions of \<open>service.go\<close> are written out and matched by
  derivatives; they fold the case of ASCII letters only.
\<close>

subsection \<open>Fixed regular expressions\<close>

datatype pattern =
    PNone
  | PEmpty
  | PChar "char \<Rightarrow> bool"
  | PSeq pattern pattern
  | PAlt pattern pattern
  | PStar pattern

text \<open>The texts an expression matches as a whole.\<close>

inductive accepts :: "pattern \<Rightarrow> string \<Rightarrow> bool" where
  accepts_empty: "accepts PEmpty []"
| accepts_char: "P c \<Longrightarrow> accepts (PChar P) [c]"
| accepts_seq: "accepts p s \<Longrightarrow> accepts q t \<Longrightarrow> accepts (PSeq p q) (s @ t)"
| accepts_left: "accepts p s \<Longrightarrow> accepts (PAlt p q) s"
| accepts_right: "accepts q s \<Longrightarrow> accepts (PAlt p q) s"
| accepts_stop: "accepts (PStar p) []"
| accepts_more: "accepts p (c # s) \<Longrightarrow> accepts (PStar p) t \<Longrightarrow> accepts (PStar p) (c # s @ t)"

inductive_simps accepts_simps [simp]:
  "accepts PNone s" "accepts PEmpty s" "accepts (PChar P) s" "accepts (PSeq p q) s" "accepts (PAlt p q) s"

inductive_simps accepts_star: "accepts (PStar p) (c # s)"

primrec nullable :: "pattern \<Rightarrow> bool" where
  "nullable PNone = False"
| "nullable PEmpty = True"
| "nullable (PChar P) = False"
| "nullable (PSeq p q) = (nullable p \<and> nullable q)"
| "nullable (PAlt p q) = (nullable p \<or> nullable q)"
| "nullable (PStar p) = True"

definition seq :: "pattern \<Rightarrow> pattern \<Rightarrow> pattern" where
  "seq p q = (if p = PNone then PNone else if p = PEmpty then q else PSeq p q)"

definition alt :: "pattern \<Rightarrow> pattern \<Rightarrow> pattern" where
  "alt p q = (if p = PNone then q else if q = PNone then p else PAlt p q)"

primrec after :: "char \<Rightarrow> pattern \<Rightarrow> pattern" where
  "after c PNone = PNone"
| "after c PEmpty = PNone"
| "after c (PChar P) = (if P c then PEmpty else PNone)"
| "after c (PSeq p q) = (if nullable p then alt (seq (after c p) q) (after c q) else seq (after c p) q)"
| "after c (PAlt p q) = alt (after c p) (after c q)"
| "after c (PStar p) = seq (after c p) (PStar p)"

definition full_match :: "pattern \<Rightarrow> string \<Rightarrow> bool" where
  "full_match p s = nullable (fold after s p)"

lemma accepts_nil: "accepts p [] \<longleftrightarrow> nullable p"
  by (induction p) (auto intro: accepts_stop)

lemma accepts_seq_smart [simp]: "accepts (seq p q) s \<longleftrightarrow> accepts (PSeq p q) s"
  by (auto simp: seq_def)

lemma accepts_alt_smart [simp]: "accepts (alt p q) s \<longleftrightarrow> accepts (PAlt p q) s"
  by (auto simp: alt_def)

lemma accepts_after: "accepts (after c p) s \<longleftrightarrow> accepts p (c # s)"
proof (induction p arbitrary: s)
  case (PSeq p q)
  have "accepts (PSeq p q) (c # s) \<longleftrightarrow>
      (\<exists>t u. s = t @ u \<and> accepts p (c # t) \<and> accepts q u) \<or> accepts p [] \<and> accepts q (c # s)"
    by (auto simp: Cons_eq_append_conv)
  then show ?case using PSeq by (auto simp: accepts_nil)
next
  case (PStar p)
  then show ?case by (auto simp: accepts_star)
qed auto

lemma full_match_iff: "full_match p s \<longleftrightarrow> accepts p s"
  by (induction s arbitrary: p) (simp_all add: full_match_def accepts_nil accepts_after [symmetric])

text \<open>Literals, repetition and the character classes of the expressions.\<close>

primrec lit :: "string \<Rightarrow> pattern" where
  "lit [] = PEmpty"
| "lit (c # cs) = seq (PChar (\<lambda>d. d = c)) (lit cs)"

definition alts :: "pattern list \<Rightarrow> pattern" where "alts ps = foldr alt ps PNone"
definition seqs :: "pattern list \<Rightarrow> pattern" where "seqs ps = foldr seq ps PEmpty"
definition plus1 :: "pattern \<Rightarrow> pattern" where "plus1 p = PSeq p (PStar p)"
definition maybe :: "pattern \<Rightarrow> pattern" where "maybe p = PAlt PEmpty p"

definition is_digit_char :: "char \<Rightarrow> bool" where "is_digit_char c = (CHR ''0'' \<le> c \<and> c \<le> CHR ''9'')"
definition is_lower_char :: "char \<Rightarrow> bool" where "is_lower_char c = (CHR ''a'' \<le> c \<and> c \<le> CHR ''z'')"
definition is_letter_char :: "char \<Rightarrow> bool" where "is_letter_char c = is_lower_char (lower_char c)"

definition digits1 :: pattern where "digits1 = plus1 (PChar is_digit_char)"
definition any_text :: pattern where "any_text = PStar (PChar (\<lambda>c. c \<noteq> CHR 0x0A))"
definition dash_or_dot :: pattern where "dash_or_dot = PChar (\<lambda>c. c = CHR ''-'' \<or> c = CHR ''.'')"

subsection \<open>Service names\<close>

definition logLevelRe :: "string \<Rightarrow> bool" where
  "logLevelRe s = (to_lower s \<in> set [''trace'', ''debug'', ''info'', ''warn'', ''warning'', ''error'', ''fatal''])"

definition httpMethodRe :: "string \<Rightarrow> bool" where
  "httpMethodRe s =
     (to_lower s \<in> set [''get'', ''post'', ''put'', ''delete'', ''patch'', ''head'', ''options'', ''connect''])"

fun abbrevLoggerRe :: "string \<Rightarrow> bool" where
  "abbrevLoggerRe (a # d # b # e # _) =
     (is_letter_char a \<and> d = CHR ''.'' \<and> is_letter_char b \<and> e = CHR ''.'')"
| "abbrevLoggerRe _ = False"

definition reservedContextRe :: "string \<Rightarrow> bool" where
  "reservedContextRe s = (to_lower s \<in> set [''nest'', ''main''])"

definition hasLetterRe :: "string \<Rightarrow> bool" where
  "hasLetterRe s = list_ex is_letter_char s"

definition thread_name :: pattern where
  "thread_name = alts
     [seqs [PStar (PSeq (plus1 (PChar is_lower_char)) (lit ''-'')), digits1, lit ''-exec-'', digits1],
      seqs [lit ''exec-'', digits1],
      seqs [lit ''pool-'', digits1, lit ''-thread-'', digits1],
      seqs [lit ''thread-'', digits1],
      seqs [lit ''forkjoinpool'', dash_or_dot, any_text, lit ''worker'', maybe dash_or_dot, PStar (PChar is_digit_char)],
      seqs [lit ''taskexecutor-'', digits1],
      seqs [lit ''task-'', digits1],
      seqs [lit ''scheduling-'', digits1],
      seqs [any_text, lit ''eventloopgroup-'', digits1, lit ''-'', digits1],
      seqs [lit ''reactor-http-nio-'', digits1],
      seqs [lit ''boundedelastic-'', digits1],
      seqs [lit ''parallel-'', digits1]]"

definition threadNameRe :: "string \<Rightarrow> bool" where
  "threadNameRe s = full_match thread_name (to_lower s)"

text \<open>
  \<open>ansiEscapeRe\<close>: ESC, a bracket, parameter bytes, intermediate bytes and a final byte. The classes
  are disjoint, so the match is read off from left to right.
\<close>

definition csi_rest :: "string \<Rightarrow> string option" where
  "csi_rest s =
     (case s of
        [] \<Rightarrow> None
      | c # cs \<Rightarrow>
          if c \<noteq> CHR ''['' then None
          else case dropWhile (\<lambda>c. CHR '' '' \<le> c \<and> c \<le> CHR ''/'')
                      (dropWhile (\<lambda>c. is_digit_char c \<or> c = CHR '';'' \<or> c = CHR ''?'') cs) of
                 [] \<Rightarrow> None
               | f # rest \<Rightarrow> if CHR ''@'' \<le> f \<and> f \<le> CHR ''~'' then Some rest else None)"

lemma csi_rest_shorter: "csi_rest s = Some r \<Longrightarrow> length r < length s"
proof -
  assume a: "csi_rest s = Some r"
  then obtain c cs f where s: "s = c # cs"
      and d: "dropWhile (\<lambda>c. CHR '' '' \<le> c \<and> c \<le> CHR ''/'')
        (dropWhile (\<lambda>c. is_digit_char c \<or> c = CHR '';'' \<or> c = CHR ''?'') cs) = f # r"
    by (auto simp: csi_rest_def split: list.splits if_splits)
  have "length (f # r) \<le> length cs"
    unfolding d [symmetric] by (rule order_trans [OF length_dropWhile_le length_dropWhile_le])
  then show ?thesis by (simp add: s)
qed

function stripANSI :: "string \<Rightarrow> string" where
  "stripANSI [] = []"
| "stripANSI (c # cs) =
     (if c = CHR 0x1B then case csi_rest cs of Some rest \<Rightarrow> stripANSI rest | None \<Rightarrow> c # stripANSI cs
      else c # stripANSI cs)"
  by pat_completeness auto
termination
  by (relation "measure length") (auto dest: csi_rest_shorter)

text \<open>What the code uses of a compiled expression.\<close>

record regexp =
  re_match :: "string \<Rightarrow> bool"
  re_group1 :: "string \<Rightarrow> string option"
  re_subexp :: nat
  re_replace :: "string \<Rightarrow> string \<Rightarrow> string"

text \<open>The second result lists the positions of the patterns that were left out as invalid.\<close>

definition NewServiceMatcher :: "(string \<Rightarrow> regexp option) \<Rightarrow> string list \<Rightarrow> regexp list \<times> nat list" where
  "NewServiceMatcher compile patterns =
     foldl (\<lambda>(ms, errs) (i, p).
         if p = [] then (ms, errs)
         else case compile p of
                None \<Rightarrow> (ms, errs @ [i])
              | Some re \<Rightarrow> if re_subexp re < 1 then (ms, errs @ [i]) else (ms @ [re], errs))
       ([], []) (enumerate 0 patterns)"

definition service_capture :: "string \<Rightarrow> bool" where
  "service_capture s =
     (s \<noteq> [] \<and> \<not> logLevelRe s \<and> \<not> httpMethodRe s \<and> hasLetterRe s \<and> \<not> threadNameRe s \<and>
      \<not> abbrevLoggerRe s \<and> \<not> reservedContextRe s)"

fun extract_loop :: "regexp list \<Rightarrow> string \<Rightarrow> string" where
  "extract_loop [] message = []"
| "extract_loop (re # res) message =
     (case re_group1 re message of
        Some s \<Rightarrow> if service_capture s then s else extract_loop res message
      | None \<Rightarrow> extract_loop res message)"

definition svc_Extract :: "regexp list option \<Rightarrow> string \<Rightarrow> string" where
  "svc_Extract m message =
     (case m of
        None \<Rightarrow> []
      | Some patterns \<Rightarrow> if message = [] then [] else extract_loop patterns (stripANSI message))"

lemma Extract_never_rejected: "svc_Extract m message = s \<Longrightarrow> s \<noteq> [] \<Longrightarrow> service_capture s"
proof -
  have "extract_loop res t \<noteq> [] \<Longrightarrow> service_capture (extract_loop res t)" for res t
    by (induction res) (auto split: option.splits if_splits)
  then show "svc_Extract m message = s \<Longrightarrow> s \<noteq> [] \<Longrightarrow> service_capture s"
    by (auto simp: svc_Extract_def split: option.splits if_splits)
qed

subsection \<open>The pre-filter\<close>

record RegexMatcher =
  rx_default :: "regexp option"
  rx_rules :: "(string \<times> regexp) list"

record MatchResult =
  mr_RuleName :: string
  mr_Default :: bool

definition NewRegexMatcher ::
  "(string \<Rightarrow> regexp option) \<Rightarrow> string \<Rightarrow> (string \<times> string) list \<Rightarrow> RegexMatcher" where
  "NewRegexMatcher compile default_pattern rules =
     \<lparr>rx_default = (if default_pattern \<noteq> [] then compile default_pattern else None),
      rx_rules = List.map_filter (\<lambda>(name, p).
        if p = [] \<or> name = [] then None else map_option (\<lambda>re. (name, re)) (compile p)) rules\<rparr>"

definition Matched :: "MatchResult \<Rightarrow> bool" where "Matched r = (mr_RuleName r \<noteq> [])"

definition rx_Match :: "RegexMatcher option \<Rightarrow> string \<Rightarrow> MatchResult" where
  "rx_Match m message =
     (case m of
        None \<Rightarrow> \<lparr>mr_RuleName = [], mr_Default = False\<rparr>
      | Some m \<Rightarrow>
          if message = [] then \<lparr>mr_RuleName = [], mr_Default = False\<rparr>
          else case find (\<lambda>(name, re). re_match re message) (rx_rules m) of
                 Some (name, re) \<Rightarrow> \<lparr>mr_RuleName = name, mr_Default = False\<rparr>
               | None \<Rightarrow>
                   (case rx_default m of
                      Some re \<Rightarrow> if re_match re message then \<lparr>mr_RuleName = ''default'', mr_Default = True\<rparr>
                                 else \<lparr>mr_RuleName = [], mr_Default = False\<rparr>
                    | None \<Rightarrow> \<lparr>mr_RuleName = [], mr_Default = False\<rparr>))"

subsection \<open>Redaction\<close>

record redactRule =
  rr_name :: string
  rr_re :: regexp
  rr_repl :: string

text \<open>The built-in tables of expressions are arguments, name, expression and replacement.\<close>

definition NewRedactor ::
  "(string \<Rightarrow> regexp option) \<Rightarrow> (nat \<Rightarrow> string) \<Rightarrow> (string \<times> string \<times> string) list \<Rightarrow> (string \<times> string) list \<Rightarrow>
   bool \<Rightarrow> string list \<Rightarrow> redactRule list" where
  "NewRedactor compile itoa defaultRedactors ipRedactors redactIPs extra =
     List.map_filter (\<lambda>(name, p, repl). map_option (\<lambda>re. \<lparr>rr_name = name, rr_re = re, rr_repl = repl\<rparr>) (compile p))
       (defaultRedactors @
        (if redactIPs then map (\<lambda>(name, p). (name, p, [])) ipRedactors else []) @
        map (\<lambda>(i, p). (''custom'' @ itoa i, p, [])) (enumerate 0 extra))"

definition Scrub :: "redactRule list option \<Rightarrow> string \<Rightarrow> string" where
  "Scrub r s =
     (case r of
        None \<Rightarrow> s
      | Some rules \<Rightarrow>
          if rules = [] \<or> s = [] then s
          else fold (\<lambda>rule s.
                 re_replace (rr_re rule) s (if rr_repl rule = [] then ''<REDACTED:'' @ rr_name rule @ ''>'' else rr_repl rule))
               rules s)"

text \<open>Strings inside maps and untyped lists are scrubbed; typed string lists and other values are not.\<close>

primrec scrubValue :: "(string \<Rightarrow> string) \<Rightarrow> go_value \<Rightarrow> go_value" where
  "scrubValue f VNil = VNil"
| "scrubValue f (VBool b) = VBool b"
| "scrubValue f (VInt i) = VInt i"
| "scrubValue f (VFloat w) = VFloat w"
| "scrubValue f (VStr s) = VStr (f s)"
| "scrubValue f (VStrs ss) = VStrs ss"
| "scrubValue f (VList vs) = VList (map (scrubValue f) vs)"
| "scrubValue f (VMap m) = VMap (map (map_prod id (scrubValue f)) m)"
| "scrubValue f (VMaps ms) = VMaps ms"

definition ScrubFields :: "redactRule list option \<Rightarrow> content \<Rightarrow> content" where
  "ScrubFields r fs =
     (case (r, fs) of
        (Some rules, Some m) \<Rightarrow> Some (map (map_prod id (scrubValue (Scrub r))) m)
      | _ \<Rightarrow> fs)"

end
