(* ===== verification/Shadow_Log.thy ===== *)
theory Shadow_Log
  imports Memory_State
begin

text \<open>
  The shadow log (\<open>pkg/agent/shadow.go\<close>): what the agent would have alerted on, one event per source
  and pattern, at most \<open>max\<close> of them. The store is the blob provider of the model or none; the
  JSON encoding is a parameter. Counters are unbounded integers.
\<close>

record ShadowEvent =
  se_PatternID :: string
  se_Template :: string
  se_Source :: string
  se_Service :: string
  se_RuleName :: string
  se_Verdict :: string
  se_SampleMessage :: string
  se_Count :: int
  se_Occurrences :: int
  se_FirstSeen :: time
  se_LastSeen :: time

record ShadowLog =
  sl_store :: bool
  sl_blobName :: string
  sl_events :: "(string, ShadowEvent) gomap"
  sl_max :: int
  sl_dirty :: bool

definition shadowFileVersion :: int where "shadowFileVersion = 1"
definition shadowDefaultMax :: int where "shadowDefaultMax = 1000"
definition shadowSampleMaxBytes :: nat where "shadowSampleMaxBytes = 512"

definition shadowKey :: "string \<Rightarrow> string \<Rightarrow> string" where
  "shadowKey source patternID = source @ [CHR 0x00] @ patternID"

text \<open>\<open>dec\<close> gives the events of a file, \<open>None\<close> in the list for null; the result tells whether loading failed.\<close>

definition LoadShadowLog ::
  "(string \<Rightarrow> ShadowEvent option list option) \<Rightarrow> bool \<Rightarrow> memoryProvider option \<Rightarrow> int \<Rightarrow> bool \<times> ShadowLog" where
  "LoadShadowLog dec read_fails store m =
     (let m = (if m \<le> 0 then shadowDefaultMax else m);
          s = \<lparr>sl_store = (store \<noteq> None), sl_blobName = ''shadow'', sl_events = [], sl_max = m, sl_dirty = False\<rparr>
      in case store of
           None \<Rightarrow> (False, s)
         | Some p \<Rightarrow>
             if read_fails then (True, s)
             else case ReadBlob p (sl_blobName s) of
                    None \<Rightarrow> (False, s)
                  | Some data \<Rightarrow>
                      if data = [] then (False, s)
                      else case dec data of
                             None \<Rightarrow> (True, s)
                           | Some events \<Rightarrow>
                               (False, s\<lparr>sl_events := fold (\<lambda>e m.
                                  case e of
                                    None \<Rightarrow> m
                                  | Some e \<Rightarrow>
                                      if se_PatternID e = [] then m
                                      else gm_set m (shadowKey (se_Source e) (se_PatternID e)) e) events []\<rparr>))"

text \<open>The event with the oldest \<open>LastSeen\<close>; of several, the one the map iteration meets first.\<close>

definition oldest_event :: "(string, ShadowEvent) gomap \<Rightarrow> (string \<times> time) option" where
  "oldest_event m =
     fold (\<lambda>(k, e) best.
       case best of
         None \<Rightarrow> Some (k, se_LastSeen e)
       | Some (k', t) \<Rightarrow> if se_LastSeen e < t then Some (k, se_LastSeen e) else best) m None"

definition evictOldest :: "ShadowLog \<Rightarrow> ShadowLog" where
  "evictOldest s =
     (case oldest_event (sl_events s) of
        None \<Rightarrow> s
      | Some (k, t) \<Rightarrow> if k \<noteq> [] then s\<lparr>sl_events := gm_del (sl_events s) k\<rparr> else s)"

definition merge_hit :: "time \<Rightarrow> string \<Rightarrow> string \<Rightarrow> string \<Rightarrow> string \<Rightarrow> string \<Rightarrow> int \<Rightarrow> ShadowEvent \<Rightarrow> ShadowEvent" where
  "merge_hit now service template sample rule verdict freq e =
     e\<lparr>se_Template := template, se_Verdict := verdict,
       se_Service := (if service \<noteq> [] then service else se_Service e),
       se_RuleName := (if rule \<noteq> [] then rule else se_RuleName e),
       se_SampleMessage := (if sample \<noteq> [] then sample else se_SampleMessage e),
       se_Count := se_Count e + freq, se_Occurrences := se_Occurrences e + 1, se_LastSeen := now\<rparr>"

definition shadow_Record ::
  "time \<Rightarrow> string \<Rightarrow> string \<Rightarrow> string \<Rightarrow> string \<Rightarrow> string \<Rightarrow> string \<Rightarrow> string \<Rightarrow> int \<Rightarrow> ShadowLog \<Rightarrow> ShadowLog" where
  "shadow_Record now source patternID service template sample rule verdict freq s =
     (if patternID = [] then s
      else
        let freq = (if freq \<le> 0 then 1 else freq);
            sample = (if length sample > shadowSampleMaxBytes then take shadowSampleMaxBytes sample @ ellipsis else sample);
            k = shadowKey source patternID
        in case gm_get (sl_events s) k of
             Some e \<Rightarrow>
               s\<lparr>sl_events := gm_set (sl_events s) k (merge_hit now service template sample rule verdict freq e),
                 sl_dirty := True\<rparr>
           | None \<Rightarrow>
               let s = (if int (length (sl_events s)) \<ge> sl_max s then evictOldest s else s)
               in s\<lparr>sl_events := gm_set (sl_events s) k
                      \<lparr>se_PatternID = patternID, se_Template = template, se_Source = source, se_Service = service,
                       se_RuleName = rule, se_Verdict = verdict, se_SampleMessage = sample, se_Count = freq,
                       se_Occurrences = 1, se_FirstSeen = now, se_LastSeen = now\<rparr>,
                    sl_dirty := True\<rparr>)"

definition shadow_All :: "ShadowLog \<Rightarrow> ShadowEvent list" where
  "shadow_All s = sort_key (\<lambda>e. - se_LastSeen e) (map snd (sl_events s))"

definition shadow_Len :: "ShadowLog \<Rightarrow> nat" where "shadow_Len s = length (sl_events s)"

record shadow_stats =
  st_events :: int
  st_total_signals :: int
  st_verdict_unknown :: int
  st_verdict_spike :: int
  st_total_occurrences :: int

definition shadow_Stats :: "ShadowLog \<Rightarrow> shadow_stats" where
  "shadow_Stats s =
     fold (\<lambda>(k, e) st.
       let st = st\<lparr>st_total_signals := st_total_signals st + se_Count e,
                   st_total_occurrences := st_total_occurrences st + se_Occurrences e\<rparr>
       in if se_Verdict e = ''unknown'' then st\<lparr>st_verdict_unknown := st_verdict_unknown st + 1\<rparr>
          else if se_Verdict e = ''spike'' then st\<lparr>st_verdict_spike := st_verdict_spike st + 1\<rparr>
          else st)
     (sl_events s)
     \<lparr>st_events = int (length (sl_events s)), st_total_signals = 0, st_verdict_unknown = 0,
      st_verdict_spike = 0, st_total_occurrences = 0\<rparr>"

definition shadow_Clear :: "ShadowLog \<Rightarrow> nat \<times> ShadowLog" where
  "shadow_Clear s =
     (let n = length (sl_events s) in if n = 0 then (0, s) else (n, s\<lparr>sl_events := [], sl_dirty := True\<rparr>))"

definition shadow_Dirty :: "ShadowLog \<Rightarrow> bool" where "shadow_Dirty s = sl_dirty s"

definition shadow_Persist ::
  "(int \<times> time \<times> ShadowEvent list \<Rightarrow> string) \<Rightarrow> bool \<Rightarrow> time \<Rightarrow> ShadowLog \<times> memoryProvider \<Rightarrow>
   bool \<times> ShadowLog \<times> memoryProvider" where
  "shadow_Persist enc write_fails now = (\<lambda>(s, p).
     if \<not> sl_store s then (False, s, p)
     else if \<not> sl_dirty s then (False, s, p)
     else if write_fails then (True, s, p)
     else (False, s\<lparr>sl_dirty := False\<rparr>,
           WriteBlob now (sl_blobName s) (enc (shadowFileVersion, now, shadow_All s)) p))"

subsection \<open>The log stays bounded and coalesced\<close>

text \<open>
  Events are stored under their key, and there are at most \<open>max\<close> of them. (A file written under a
  larger limit is loaded as it is, so the bound holds from an empty log on.)
\<close>

definition shadow_ok :: "ShadowLog \<Rightarrow> bool" where
  "shadow_ok s \<longleftrightarrow> gm_ok (sl_events s) \<and> int (length (sl_events s)) \<le> sl_max s \<and> sl_max s > 0 \<and>
     (\<forall>(k, e) \<in> set (sl_events s). k = shadowKey (se_Source e) (se_PatternID e))"

lemma oldest_event_in: "oldest_event m = Some (k, t) \<Longrightarrow> \<exists>e. (k, e) \<in> set m"
proof -
  have "fold (\<lambda>(k, e) best. case best of None \<Rightarrow> Some (k, se_LastSeen e)
       | Some (k', t) \<Rightarrow> if se_LastSeen e < t then Some (k, se_LastSeen e) else best) m b = Some (k, t) \<Longrightarrow>
     (\<exists>e. (k, e) \<in> set m) \<or> b = Some (k, t)" for b
    by (induction m arbitrary: b) (force split: option.splits if_splits)+
  then show "oldest_event m = Some (k, t) \<Longrightarrow> \<exists>e. (k, e) \<in> set m"
    unfolding oldest_event_def by blast
qed

lemma oldest_event_some: "m \<noteq> [] \<Longrightarrow> oldest_event m \<noteq> None"
proof -
  have some: "fold (\<lambda>(k, e) best. case best of None \<Rightarrow> Some (k, se_LastSeen e)
       | Some (k', t) \<Rightarrow> if se_LastSeen e < t then Some (k, se_LastSeen e) else best) m (Some b) \<noteq> None" for m and b :: "string \<times> time"
    by (induction m arbitrary: b) (auto split: prod.split)
  show "m \<noteq> [] \<Longrightarrow> oldest_event m \<noteq> None"
    unfolding oldest_event_def by (cases m) (use some in \<open>auto split: prod.split\<close>)
qed

lemma del_length: "k \<in> fst ` set m \<Longrightarrow> length (gm_del m k) < length m"
  by (auto simp: AList.delete_eq intro!: length_filter_less)

lemma set_length: "length (gm_set m k v) = (if gm_has m k then length m else Suc (length m))"
  by (induction m) auto

lemma set_entries: "set (gm_set m k v) \<subseteq> insert (k, v) (set m)"
  by (induction m) auto

lemma del_entries: "set (gm_del m k) \<subseteq> set m"
  by (auto simp: AList.delete_eq)

definition keyed :: "ShadowLog \<Rightarrow> bool" where
  "keyed s \<longleftrightarrow> gm_ok (sl_events s) \<and> (\<forall>(k, e) \<in> set (sl_events s). k = shadowKey (se_Source e) (se_PatternID e))"

lemma keyed_set:
  "keyed s \<Longrightarrow> k = shadowKey (se_Source e) (se_PatternID e) \<Longrightarrow> keyed (s\<lparr>sl_events := gm_set (sl_events s) k e, sl_dirty := d\<rparr>)"
  using set_entries [of k e "sl_events s"] by (auto simp: keyed_def)

lemma evict:
  assumes "keyed s"
  shows "keyed (evictOldest s)" "sl_max (evictOldest s) = sl_max s"
    "sl_events s \<noteq> [] \<Longrightarrow> length (sl_events (evictOldest s)) < length (sl_events s)"
    "gm_get (sl_events s) k = None \<Longrightarrow> gm_get (sl_events (evictOldest s)) k = None"
proof -
  have "keyed (evictOldest s) \<and> sl_max (evictOldest s) = sl_max s \<and>
    (sl_events s \<noteq> [] \<longrightarrow> length (sl_events (evictOldest s)) < length (sl_events s)) \<and>
    (gm_get (sl_events s) k = None \<longrightarrow> gm_get (sl_events (evictOldest s)) k = None)"
  proof (cases "oldest_event (sl_events s)")
    case None
    then have "sl_events s = []" using oldest_event_some by blast
    then show ?thesis using None assms by (simp add: evictOldest_def)
  next
    case (Some kt)
    obtain o_key t where kt: "kt = (o_key, t)" by (cases kt)
    obtain e where e: "(o_key, e) \<in> set (sl_events s)" using oldest_event_in Some kt by blast
    then have "o_key \<noteq> []" using assms by (auto simp: keyed_def shadowKey_def)
    then have ev: "evictOldest s = s\<lparr>sl_events := gm_del (sl_events s) o_key\<rparr>" by (simp add: evictOldest_def Some kt)
    have "length (gm_del (sl_events s) o_key) < length (sl_events s)" using e by (intro del_length) force
    moreover have "keyed (evictOldest s)" using assms del_entries [of o_key "sl_events s"] by (auto simp: keyed_def ev)
    ultimately show ?thesis by (simp add: ev gm_simps)
  qed
  then show "keyed (evictOldest s)" "sl_max (evictOldest s) = sl_max s"
    "sl_events s \<noteq> [] \<Longrightarrow> length (sl_events (evictOldest s)) < length (sl_events s)"
    "gm_get (sl_events s) k = None \<Longrightarrow> gm_get (sl_events (evictOldest s)) k = None" by simp_all
qed

lemma shadow_Record_ok:
  assumes "shadow_ok s"
  shows "shadow_ok (shadow_Record now source i service template sample rule verdict freq s)"
proof -
  let ?k = "shadowKey source i"
  have ok: "keyed s" "int (length (sl_events s)) \<le> sl_max s" "sl_max s > 0" using assms by (simp_all add: shadow_ok_def keyed_def)
  have eq: "shadow_ok s' \<longleftrightarrow> keyed s' \<and> int (length (sl_events s')) \<le> sl_max s' \<and> sl_max s' > 0" for s'
    by (auto simp: shadow_ok_def keyed_def)
  show ?thesis
  proof (cases "gm_get (sl_events s) ?k")
    case (Some e)
    then have "(?k, e) \<in> set (sl_events s)" by (rule map_of_SomeD)
    then have key: "?k = shadowKey (se_Source e) (se_PatternID e)" using ok(1) by (auto simp: keyed_def)
    have "keyed (s\<lparr>sl_events := gm_set (sl_events s) ?k (merge_hit now service template sample' rule verdict freq' e),
        sl_dirty := True\<rparr>)" for sample' freq'
      by (rule keyed_set [OF ok(1)]) (simp add: merge_hit_def key)
    then show ?thesis using assms Some ok by (simp add: shadow_Record_def eq Let_def set_length)
  next
    case None
    define s1 where "s1 = (if int (length (sl_events s)) \<ge> sl_max s then evictOldest s else s)"
    have "int (length (sl_events s)) \<ge> sl_max s \<Longrightarrow> sl_events s \<noteq> []" using ok(3) by auto
    then have s1: "keyed s1" "sl_max s1 = sl_max s" "int (length (sl_events s1)) < sl_max s" "gm_get (sl_events s1) ?k = None"
      using evict [OF ok(1)] ok None by (auto simp: s1_def)
    have "keyed (s1\<lparr>sl_events := gm_set (sl_events s1) ?k e, sl_dirty := True\<rparr>)"
      if "se_Source e = source" "se_PatternID e = i" for e
      using keyed_set [OF s1(1), of ?k e True] that by simp
    then show ?thesis
      using assms None s1 ok(3) by (simp add: shadow_Record_def eq Let_def set_length s1_def [symmetric])
  qed
qed

end
