(* ===== verification/Spike_Detector.thy ===== *)
theory Spike_Detector
  imports Memory_State Go_Format
begin

text \<open>
  The numeric primitives of the brains (\<open>pkg/stats/ewma.go\<close>), the volume-spike detector
  (\<open>pkg/agent/spike.go\<close>) and its stored setting (\<open>pkg/agent/spikesettings.go\<close>).

  A float64 is an exact fraction; \<open>math.Sqrt\<close> is a parameter \<open>msqrt\<close>. Times are in UTC.
\<close>

subsection \<open>Exponentially weighted mean and variance\<close>

definition HoursPerDay :: int where "HoursPerDay = 24"
definition HoursPerWeek :: int where "HoursPerWeek = 7 * 24"

record EWMA =
  ew_Mean :: rat
  ew_Variance :: rat
  ew_Count :: int

definition Observe :: "rat \<Rightarrow> rat \<Rightarrow> EWMA \<Rightarrow> EWMA" where
  "Observe x alpha e =
     (if ew_Count e = 0 then e\<lparr>ew_Mean := x, ew_Variance := 0, ew_Count := 1\<rparr>
      else
        let diff = x - ew_Mean e; incr = alpha * diff
        in e\<lparr>ew_Mean := ew_Mean e + incr,
             ew_Variance := (1 - alpha) * (ew_Variance e + diff * incr),
             ew_Count := ew_Count e + 1\<rparr>)"

definition Std :: "(rat \<Rightarrow> rat) \<Rightarrow> EWMA \<Rightarrow> rat" where
  "Std msqrt e = msqrt (max 0 (ew_Variance e))"

definition ZScore :: "rat \<Rightarrow> rat \<Rightarrow> rat \<Rightarrow> rat" where
  "ZScore x mean std =
     (let floor = abs mean * (1 / 100);
          floor = (if floor < 1 / 10 ^ 9 then 1 / 10 ^ 9 else floor);
          std = (if std < floor then floor else std)
      in (x - mean) / std)"

definition ShouldReject :: "rat \<Rightarrow> rat \<Rightarrow> rat \<Rightarrow> bool \<Rightarrow> rat \<Rightarrow> bool" where
  "ShouldReject x mean std confident rejectZ =
     (if \<not> confident \<or> rejectZ \<le> 0 then False else abs (ZScore x mean std) \<ge> rejectZ)"

text \<open>The zero time is a Monday; Go numbers the weekdays from Sunday.\<close>

definition utc_hour :: "time \<Rightarrow> int" where "utc_hour t = (t div (3600 * second)) mod 24"
definition utc_weekday :: "time \<Rightarrow> int" where "utc_weekday t = (t div (86400 * second) + 1) mod 7"

definition SeasonalIndex :: "time \<Rightarrow> int \<Rightarrow> int" where
  "SeasonalIndex ts period =
     (if period \<le> 0 then 0
      else if period = HoursPerDay then utc_hour ts
      else if period = HoursPerWeek then utc_weekday ts * 24 + utc_hour ts
      else (utc_weekday ts * 24 + utc_hour ts) mod period)"

definition Expected :: "(rat \<Rightarrow> rat) \<Rightarrow> EWMA \<Rightarrow> EWMA list \<Rightarrow> time \<Rightarrow> int \<Rightarrow> int \<Rightarrow> int \<Rightarrow> rat \<times> rat \<times> bool" where
  "Expected msqrt global seasonal ts period minBucketSamples minGlobalSamples =
     (let bucket = seasonal ! nat (SeasonalIndex ts period)
      in if period > 0 \<and> int (length seasonal) = period \<and> minBucketSamples > 0 \<and> ew_Count bucket \<ge> minBucketSamples
         then (ew_Mean bucket, Std msqrt bucket, True)
         else if ew_Count global \<ge> minGlobalSamples then (ew_Mean global, Std msqrt global, True)
         else (ew_Mean global, Std msqrt global, False))"

lemma utc_hour_bounds: "0 \<le> utc_hour t" "utc_hour t < 24"
  by (simp_all add: utc_hour_def)

lemma SeasonalIndex_bounds: "period > 0 \<Longrightarrow> 0 \<le> SeasonalIndex ts period \<and> SeasonalIndex ts period < period"
proof -
  have "0 \<le> utc_weekday ts" "utc_weekday ts < 7" by (simp_all add: utc_weekday_def)
  then show "period > 0 \<Longrightarrow> 0 \<le> SeasonalIndex ts period \<and> SeasonalIndex ts period < period"
    using utc_hour_bounds [of ts] by (auto simp: SeasonalIndex_def HoursPerDay_def HoursPerWeek_def)
qed

subsection \<open>Modes and parameters\<close>

definition logMinBucketSamples :: int where "logMinBucketSamples = 5"
definition baselineModeDefault :: string where "baselineModeDefault = ''default''"
definition baselineModeAverage :: string where "baselineModeAverage = ''average''"
definition baselineModeTimeOfDay :: string where "baselineModeTimeOfDay = ''time_of_day''"

definition normalizeBaselineMode :: "string \<Rightarrow> string" where
  "normalizeBaselineMode mode =
     (let m = to_lower (trim_space mode)
      in if m = baselineModeAverage then baselineModeAverage
         else if m = baselineModeTimeOfDay then baselineModeTimeOfDay
         else baselineModeDefault)"

definition DefaultSpikeZ :: rat where "DefaultSpikeZ = 3"
definition DefaultSpikeMinFrequency :: int where "DefaultSpikeMinFrequency = 5"
definition DefaultSpikeMinBaselineCount :: int where "DefaultSpikeMinBaselineCount = 20"
definition DefaultSpikeSustainTicks :: int where "DefaultSpikeSustainTicks = 1"
definition DefaultAutoPromoteAfter :: int where "DefaultAutoPromoteAfter = 100"

text \<open>The keys of the catalog configuration the detector reads.\<close>

record AgentCatalogConfig =
  cc_AutoPromoteAfter :: int
  cc_SpikeZ :: rat
  cc_SpikeAbsCeiling :: int
  cc_SpikeSustainTicks :: int
  cc_SpikeMinFrequency :: int
  cc_SpikeMinBaselineCount :: int

record spikeParams =
  sp_Z :: rat
  sp_AbsCeiling :: int
  sp_SustainTicks :: int
  sp_MinFrequency :: int
  sp_MinBaselineCount :: int
  sp_PollSeconds :: rat
  sp_SeasonalPeriod :: int
  sp_MinBucketSamples :: int

definition resolveSpikeParams :: "AgentCatalogConfig \<Rightarrow> rat \<Rightarrow> spikeParams" where
  "resolveSpikeParams cat pollSeconds =
     \<lparr>sp_Z = (if cc_SpikeZ cat \<le> 0 then DefaultSpikeZ else cc_SpikeZ cat),
      sp_AbsCeiling = (if cc_SpikeAbsCeiling cat < 0 then 0 else cc_SpikeAbsCeiling cat),
      sp_SustainTicks = (if cc_SpikeSustainTicks cat \<le> 0 then DefaultSpikeSustainTicks else cc_SpikeSustainTicks cat),
      sp_MinFrequency = (if cc_SpikeMinFrequency cat \<le> 0 then DefaultSpikeMinFrequency else cc_SpikeMinFrequency cat),
      sp_MinBaselineCount =
        (if cc_SpikeMinBaselineCount cat \<le> 0 then DefaultSpikeMinBaselineCount else cc_SpikeMinBaselineCount cat),
      sp_PollSeconds = pollSeconds,
      sp_SeasonalPeriod = HoursPerDay,
      sp_MinBucketSamples = logMinBucketSamples\<rparr>"

record BaselineFold =
  bf_PollSeconds :: rat
  bf_RejectZ :: rat
  bf_SeasonalPeriod :: int
  bf_MinBaselineCount :: int
  bf_MinBucketSamples :: int

definition spike_fold :: "spikeParams \<Rightarrow> BaselineFold" where
  "spike_fold p =
     \<lparr>bf_PollSeconds = sp_PollSeconds p, bf_RejectZ = sp_Z p, bf_SeasonalPeriod = sp_SeasonalPeriod p,
      bf_MinBaselineCount = sp_MinBaselineCount p, bf_MinBucketSamples = sp_MinBucketSamples p\<rparr>"

subsection \<open>The detector\<close>

record spikeResult =
  sr_Spike :: bool
  sr_Ceiling :: bool
  sr_Z :: rat
  sr_Rate :: rat

definition evalSpike :: "rat \<Rightarrow> rat \<Rightarrow> int \<Rightarrow> int \<Rightarrow> spikeParams \<Rightarrow> spikeResult" where
  "evalSpike mean std prevCount tickFreq p =
     (let rate = (if sp_PollSeconds p > 0 then of_int tickFreq / sp_PollSeconds p else of_int tickFreq);
          res = \<lparr>sr_Spike = False, sr_Ceiling = False, sr_Z = ZScore rate mean std, sr_Rate = rate\<rparr>
      in if sp_AbsCeiling p > 0 \<and> tickFreq \<ge> sp_AbsCeiling p then res\<lparr>sr_Spike := True, sr_Ceiling := True\<rparr>
         else if tickFreq < sp_MinFrequency p then res
         else
           let confident = (prevCount \<ge> sp_MinBaselineCount p \<and> mean > 0)
           in if confident \<and> sr_Z res \<ge> sp_Z p then res\<lparr>sr_Spike := True\<rparr> else res)"

definition spikeReason :: "spikeResult \<Rightarrow> rat \<Rightarrow> rat \<Rightarrow> int \<Rightarrow> rat \<Rightarrow> string \<Rightarrow> string" where
  "spikeReason res mean std tickFreq pollSeconds baselineLabel =
     (if sr_Ceiling res \<and> \<not> (pollSeconds > 0 \<and> sr_Z res \<ge> 0) then
        (if pollSeconds > 0
         then show_fixed 1 (sr_Rate res) @ ''/s ('' @ show_int tickFreq @ '' matches) at or above the absolute ceiling''
         else show_int tickFreq @ '' matches at or above the absolute ceiling'')
      else
        let label = (if baselineLabel \<noteq> [] then baselineLabel @ '' '' else [])
        in if pollSeconds > 0
           then show_fixed 1 (sr_Rate res) @ ''/s = '' @ show_fixed 1 (sr_Z res) @ sigma_sign @ '' above '' @ label @
                show_fixed 1 mean @ ''/s '' @ plus_minus @ '' '' @ show_fixed 1 std
           else show_int tickFreq @ '' = '' @ show_fixed 1 (sr_Z res) @ sigma_sign @ '' above '' @ label @
                show_fixed 1 mean @ '' '' @ plus_minus @ '' '' @ show_fixed 1 std)"

subsection \<open>The stored setting\<close>

definition SpikeSettingsBlobName :: string where "SpikeSettingsBlobName = ''models/settings/spike-baseline''"

record SpikeSettings =
  ss_BaselineMode :: string

definition DefaultSpikeSettings :: SpikeSettings where
  "DefaultSpikeSettings = \<lparr>ss_BaselineMode = baselineModeDefault\<rparr>"

definition KnownBaselineMode :: "string \<Rightarrow> bool" where
  "KnownBaselineMode mode = (mode \<in> set [baselineModeDefault, baselineModeAverage, baselineModeTimeOfDay])"

definition spike_sanitize :: "SpikeSettings \<Rightarrow> SpikeSettings" where
  "spike_sanitize s = s\<lparr>ss_BaselineMode := normalizeBaselineMode (ss_BaselineMode s)\<rparr>"

text \<open>\<open>dec\<close> merges a blob over the settings it is given; \<open>None\<close> when the blob does not parse.\<close>

definition LoadSpikeSettings ::
  "(string \<Rightarrow> SpikeSettings \<Rightarrow> SpikeSettings option) \<Rightarrow> bool \<Rightarrow> memoryProvider option \<Rightarrow> SpikeSettings" where
  "LoadSpikeSettings dec read_fails st =
     (case st of
        None \<Rightarrow> DefaultSpikeSettings
      | Some p \<Rightarrow>
          (case (if read_fails then None else ReadBlob p SpikeSettingsBlobName) of
             None \<Rightarrow> DefaultSpikeSettings
           | Some data \<Rightarrow>
               if data = [] then DefaultSpikeSettings
               else case dec data DefaultSpikeSettings of
                      None \<Rightarrow> DefaultSpikeSettings
                    | Some got \<Rightarrow> spike_sanitize got))"

text \<open>The first result is False when the settings were not stored.\<close>

definition SaveSpikeSettings ::
  "(SpikeSettings \<Rightarrow> string) \<Rightarrow> bool \<Rightarrow> time \<Rightarrow> memoryProvider option \<Rightarrow> SpikeSettings \<Rightarrow> bool \<times> memoryProvider option" where
  "SaveSpikeSettings enc write_fails now st s =
     (case st of
        None \<Rightarrow> (False, None)
      | Some p \<Rightarrow>
          if write_fails then (False, Some p)
          else (True, Some (WriteBlob now SpikeSettingsBlobName (enc (spike_sanitize s)) p)))"

lemma normalize_known: "KnownBaselineMode (normalizeBaselineMode m)"
  by (simp add: KnownBaselineMode_def normalizeBaselineMode_def Let_def)

lemma normalize_idem: "normalizeBaselineMode (normalizeBaselineMode m) = normalizeBaselineMode m"
  by (auto simp: normalizeBaselineMode_def Let_def baselineModeDefault_def baselineModeAverage_def baselineModeTimeOfDay_def
      trim_space_def to_lower_def lower_char_def is_space_def)

subsection \<open>What the numbers guarantee\<close>

lemma spread_pos: "(if std < (if abs mean * (1/100) < 1 / 10 ^ 9 then 1 / 10 ^ 9 else abs mean * (1/100))
     then (if abs mean * (1/100) < 1 / 10 ^ 9 then 1 / 10 ^ 9 else abs mean * (1/100)) else std) > (0::rat)"
  by (auto intro: less_le_trans [of _ "1 / 10 ^ 9"])

lemma ZScore_mono: "x \<le> y \<Longrightarrow> ZScore x mean std \<le> ZScore y mean std"
  unfolding ZScore_def Let_def using spread_pos [of std mean] by (intro divide_right_mono) (simp_all only: diff_right_mono less_imp_le)

text \<open>A tick that is a spike by its score is held out of a confident baseline.\<close>

lemma spike_is_rejected:
  "sr_Spike (evalSpike mean std prevCount tickFreq p) \<Longrightarrow> \<not> sr_Ceiling (evalSpike mean std prevCount tickFreq p) \<Longrightarrow>
   sp_Z p > 0 \<Longrightarrow>
   prevCount \<ge> sp_MinBaselineCount p \<and> mean > 0 \<and> tickFreq \<ge> sp_MinFrequency p \<and>
   ShouldReject (if sp_PollSeconds p > 0 then of_int tickFreq / sp_PollSeconds p else of_int tickFreq) mean std True (sp_Z p)"
  by (auto simp: evalSpike_def ShouldReject_def Let_def split: if_splits)

lemma Observe_variance_nonneg:
  "0 \<le> alpha \<Longrightarrow> alpha \<le> 1 \<Longrightarrow> 0 \<le> ew_Variance e \<Longrightarrow> 0 \<le> ew_Variance (Observe x alpha e)"
  by (simp add: Observe_def Let_def mult_nonneg_nonneg)
    (metis (no_types) add_nonneg_nonneg mult.left_commute mult_nonneg_nonneg zero_le_square diff_ge_0_iff_ge)

end
