(* ===== verification/Pattern_Catalog.thy ===== *)
theory Pattern_Catalog
  imports Spike_Detector "HOL-Library.Product_Lexorder"
begin

text \<open>
  The catalog of learned patterns and services (\<open>pkg/agent/catalog.go\<close>) and the ring of sample lines
  (\<open>pkg/agent/sample.go\<close>), on the path without an installed \<open>CatalogStore\<close>, which is what the program
  runs unless an extension installs one.

  Patterns are values: the copies the code hands out are the patterns themselves. The JSON encoding
  is a parameter, a failing read or write is told by a flag.
\<close>

record Pattern =
  pt_ID :: string
  pt_OrgID :: string
  pt_Template :: string
  pt_FirstSeen :: time
  pt_LastSeen :: time
  pt_Count :: int
  pt_BaselineFrequency :: rat
  pt_BaselineVariance :: rat
  pt_BaselineAvg :: rat
  pt_Seasonal :: "EWMA list"
  pt_SpikeBaselineMode :: string
  pt_Verdict :: string
  pt_RuleName :: string
  pt_Source :: string
  pt_Service :: string
  pt_Tags :: "string list"
  pt_Samples :: "string list"

record ServiceInfo =
  si_OrgID :: string
  si_FirstSeen :: time
  si_Manual :: bool

record Catalog =
  ct_store :: bool
  ct_patterns :: "(string, Pattern) gomap"
  ct_services :: "(string, ServiceInfo) gomap"
  ct_dirty :: bool
  ct_fold :: BaselineFold

record catalogFile =
  cf_Version :: int
  cf_UpdatedAt :: time
  cf_Patterns :: "(string, Pattern) gomap option"
  cf_Services :: "(string, ServiceInfo) gomap option"

datatype catalog_error = ErrServiceExists | ErrServiceNotFound | ErrCatalogIO

definition catalogFileVersion :: int where "catalogFileVersion = 1"
definition catalogBlobName :: string where "catalogBlobName = ''patterns''"

definition no_fold :: BaselineFold where
  "no_fold = \<lparr>bf_PollSeconds = 0, bf_RejectZ = 0, bf_SeasonalPeriod = 0, bf_MinBaselineCount = 0, bf_MinBucketSamples = 0\<rparr>"

subsection \<open>Loading and saving\<close>

definition LoadCatalog ::
  "(string \<Rightarrow> catalogFile option) \<Rightarrow> bool \<Rightarrow> memoryProvider option \<Rightarrow> bool \<times> Catalog" where
  "LoadCatalog dec read_fails store =
     (let c = \<lparr>ct_store = (store \<noteq> None), ct_patterns = [], ct_services = [], ct_dirty = False, ct_fold = no_fold\<rparr>
      in case store of
           None \<Rightarrow> (False, c)
         | Some p \<Rightarrow>
             if read_fails then (True, c)
             else case ReadBlob p catalogBlobName of
                    None \<Rightarrow> (False, c)
                  | Some data \<Rightarrow>
                      if data = [] then (False, c)
                      else case dec data of
                             None \<Rightarrow> (True, c)
                           | Some f \<Rightarrow>
                               (False, c\<lparr>ct_patterns := (case cf_Patterns f of None \<Rightarrow> [] | Some ps \<Rightarrow> ps),
                                         ct_services := (case cf_Services f of None \<Rightarrow> [] | Some ss \<Rightarrow> ss)\<rparr>))"

definition cat_Persist ::
  "(catalogFile \<Rightarrow> string) \<Rightarrow> bool \<Rightarrow> time \<Rightarrow> Catalog \<times> memoryProvider \<Rightarrow> bool \<times> Catalog \<times> memoryProvider" where
  "cat_Persist enc write_fails now = (\<lambda>(c, p).
     if \<not> ct_store c then (False, c, p)
     else if \<not> ct_dirty c then (False, c, p)
     else if write_fails then (True, c, p)
     else (False, c\<lparr>ct_dirty := False\<rparr>,
           WriteBlob now catalogBlobName
             (enc \<lparr>cf_Version = catalogFileVersion, cf_UpdatedAt = now, cf_Patterns = Some (ct_patterns c),
                   cf_Services = Some (ct_services c)\<rparr>) p))"

definition cat_Dirty :: "Catalog \<Rightarrow> bool" where "cat_Dirty c = ct_dirty c"
definition cat_Len :: "Catalog \<Rightarrow> nat" where "cat_Len c = length (ct_patterns c)"
definition cat_Get :: "Catalog \<Rightarrow> string \<Rightarrow> Pattern option" where "cat_Get c i = gm_get (ct_patterns c) i"

definition SetBaselineFold :: "BaselineFold \<Rightarrow> Catalog \<Rightarrow> Catalog" where
  "SetBaselineFold f c = c\<lparr>ct_fold := f\<rparr>"

subsection \<open>Learning\<close>

definition seasonalCount :: "EWMA list \<Rightarrow> int" where
  "seasonalCount buckets = foldl (\<lambda>n b. n + ew_Count b) 0 buckets"

definition zero_ewma :: EWMA where "zero_ewma = \<lparr>ew_Mean = 0, ew_Variance = 0, ew_Count = 0\<rparr>"

text \<open>The buckets after \<open>make\<close> and \<open>copy\<close> when the length is not the period.\<close>

definition grow_buckets :: "int \<Rightarrow> EWMA list \<Rightarrow> EWMA list" where
  "grow_buckets period bs =
     (if int (length bs) \<noteq> period
      then take (nat period) bs @ replicate (nat period - length bs) zero_ewma else bs)"

definition fold_global :: "(rat \<Rightarrow> rat) \<Rightarrow> BaselineFold \<Rightarrow> rat \<Rightarrow> rat \<Rightarrow> int \<Rightarrow> Pattern \<Rightarrow> Pattern" where
  "fold_global msqrt f x alpha prevCount p =
     (if pt_BaselineFrequency p = 0 then p\<lparr>pt_BaselineFrequency := x, pt_BaselineVariance := 0\<rparr>
      else
        let std = msqrt (max 0 (pt_BaselineVariance p));
            confident = (bf_MinBaselineCount f > 0 \<and> prevCount \<ge> bf_MinBaselineCount f)
        in if ShouldReject x (pt_BaselineFrequency p) std confident (bf_RejectZ f) then p
           else let g = Observe x alpha \<lparr>ew_Mean = pt_BaselineFrequency p, ew_Variance = pt_BaselineVariance p, ew_Count = 2\<rparr>
                in p\<lparr>pt_BaselineFrequency := ew_Mean g, pt_BaselineVariance := ew_Variance g\<rparr>)"

definition fold_seasonal :: "(rat \<Rightarrow> rat) \<Rightarrow> BaselineFold \<Rightarrow> rat \<Rightarrow> rat \<Rightarrow> time \<Rightarrow> Pattern \<Rightarrow> Pattern" where
  "fold_seasonal msqrt f x alpha now p =
     (if bf_SeasonalPeriod f \<le> 0 then p
      else
        let p = p\<lparr>pt_Seasonal := grow_buckets (bf_SeasonalPeriod f) (pt_Seasonal p)\<rparr>;
            idx = nat (SeasonalIndex now (bf_SeasonalPeriod f));
            bucket = pt_Seasonal p ! idx;
            bConfident = (bf_MinBucketSamples f > 0 \<and> ew_Count bucket \<ge> bf_MinBucketSamples f)
        in if ShouldReject x (ew_Mean bucket) (Std msqrt bucket) bConfident (bf_RejectZ f) then p
           else
             let p = p\<lparr>pt_Seasonal := (pt_Seasonal p)[idx := Observe x alpha bucket]\<rparr>;
                 n = seasonalCount (pt_Seasonal p)
             in if n > 0 then p\<lparr>pt_BaselineAvg := pt_BaselineAvg p + (x - pt_BaselineAvg p) / of_int n\<rparr> else p)"

definition foldBaseline :: "(rat \<Rightarrow> rat) \<Rightarrow> BaselineFold \<Rightarrow> int \<Rightarrow> rat \<Rightarrow> time \<Rightarrow> int \<Rightarrow> Pattern \<Rightarrow> Pattern" where
  "foldBaseline msqrt f tickCount alpha now prevCount p =
     (if bf_PollSeconds f \<le> 0 \<and> bf_SeasonalPeriod f \<le> 0 \<and> bf_RejectZ f \<le> 0 then
        (if pt_BaselineFrequency p = 0 then p\<lparr>pt_BaselineFrequency := of_int tickCount\<rparr>
         else p\<lparr>pt_BaselineFrequency := alpha * of_int tickCount + (1 - alpha) * pt_BaselineFrequency p\<rparr>)
      else
        let x = (if bf_PollSeconds f > 0 then of_int tickCount / bf_PollSeconds f else of_int tickCount)
        in fold_seasonal msqrt f x alpha now (fold_global msqrt f x alpha prevCount p))"

definition new_pattern :: "string \<Rightarrow> string \<Rightarrow> string \<Rightarrow> string \<Rightarrow> string \<Rightarrow> time \<Rightarrow> Pattern" where
  "new_pattern patternID template source ruleName service now =
     \<lparr>pt_ID = patternID, pt_OrgID = DefaultOrgID, pt_Template = template, pt_FirstSeen = now, pt_LastSeen = now,
      pt_Count = 0, pt_BaselineFrequency = 0, pt_BaselineVariance = 0, pt_BaselineAvg = 0, pt_Seasonal = [],
      pt_SpikeBaselineMode = [], pt_Verdict = [], pt_RuleName = ruleName, pt_Source = source, pt_Service = service,
      pt_Tags = [], pt_Samples = []\<rparr>"

definition refresh_pattern :: "string \<Rightarrow> string \<Rightarrow> Pattern \<Rightarrow> Pattern" where
  "refresh_pattern ruleName service p =
     (let p = (if ruleName \<noteq> [] \<and> ruleName \<noteq> ''default'' \<and> pt_RuleName p \<noteq> ruleName then p\<lparr>pt_RuleName := ruleName\<rparr>
               else if pt_RuleName p = [] \<and> ruleName \<noteq> [] then p\<lparr>pt_RuleName := ruleName\<rparr> else p)
      in if service \<noteq> [] \<and> service \<noteq> ''_unknown'' then p\<lparr>pt_Service := service\<rparr> else p)"

definition Upsert ::
  "(rat \<Rightarrow> rat) \<Rightarrow> time \<Rightarrow> string \<Rightarrow> string \<Rightarrow> string \<Rightarrow> int \<Rightarrow> rat \<Rightarrow> string \<Rightarrow> string \<Rightarrow> Catalog \<Rightarrow> Catalog" where
  "Upsert msqrt now patternID template source tickCount alpha ruleName service c =
     (let p = (case gm_get (ct_patterns c) patternID of
                 None \<Rightarrow> new_pattern patternID template source ruleName service now
               | Some p \<Rightarrow> refresh_pattern ruleName service p);
          prevCount = pt_Count p;
          p = p\<lparr>pt_Template := template, pt_LastSeen := now, pt_Count := pt_Count p + tickCount\<rparr>;
          alpha = (if alpha \<le> 0 then 1 / 5 else alpha);
          p = foldBaseline msqrt (ct_fold c) tickCount alpha now prevCount p
      in c\<lparr>ct_patterns := gm_set (ct_patterns c) patternID p, ct_dirty := True\<rparr>)"

definition SampleRingCap :: nat where "SampleRingCap = 10"
definition SampleMaxLen :: int where "SampleMaxLen = 512"

definition PushSample :: "string list \<Rightarrow> string \<Rightarrow> (string \<Rightarrow> string) option \<Rightarrow> string list" where
  "PushSample ring sample scrub =
     (let sample = (case scrub of None \<Rightarrow> sample | Some f \<Rightarrow> f sample);
          sample = OneLine sample SampleMaxLen
      in if sample = [] then ring
         else let ring = ring @ [sample]
              in if length ring > SampleRingCap then drop (length ring - SampleRingCap) ring else ring)"

definition RecordSample :: "string \<Rightarrow> string \<Rightarrow> (string \<Rightarrow> string) option \<Rightarrow> Catalog \<Rightarrow> Catalog" where
  "RecordSample patternID sample scrub c =
     (if sample = [] then c
      else case gm_get (ct_patterns c) patternID of
             None \<Rightarrow> c
           | Some p \<Rightarrow>
               c\<lparr>ct_patterns := gm_set (ct_patterns c) patternID (p\<lparr>pt_Samples := PushSample (pt_Samples p) sample scrub\<rparr>),
                 ct_dirty := True\<rparr>)"

subsection \<open>Curation\<close>

definition edit_pattern :: "string \<Rightarrow> (Pattern \<Rightarrow> Pattern) \<Rightarrow> Catalog \<Rightarrow> Catalog" where
  "edit_pattern patternID f c =
     (case gm_get (ct_patterns c) patternID of
        None \<Rightarrow> c
      | Some p \<Rightarrow> c\<lparr>ct_patterns := gm_set (ct_patterns c) patternID (f p), ct_dirty := True\<rparr>)"

definition MarkKnown :: "string \<Rightarrow> Catalog \<Rightarrow> bool \<times> Catalog" where
  "MarkKnown patternID c =
     (case gm_get (ct_patterns c) patternID of
        None \<Rightarrow> (False, c)
      | Some p \<Rightarrow>
          if pt_Verdict p \<noteq> ''known'' then (True, edit_pattern patternID (\<lambda>p. p\<lparr>pt_Verdict := ''known''\<rparr>) c) else (False, c))"

definition RepointService :: "string \<Rightarrow> string \<Rightarrow> Catalog \<Rightarrow> bool \<times> Catalog" where
  "RepointService patternID service c =
     (if service = [] \<or> service = ''_unknown'' then (False, c)
      else case gm_get (ct_patterns c) patternID of
             None \<Rightarrow> (False, c)
           | Some p \<Rightarrow>
               if pt_Service p = service then (False, c)
               else (True, edit_pattern patternID (\<lambda>p. p\<lparr>pt_Service := service\<rparr>) c))"

definition Label :: "string \<Rightarrow> string option \<Rightarrow> string list option \<Rightarrow> Catalog \<Rightarrow> bool \<times> Catalog" where
  "Label patternID verdict tags c =
     (case gm_get (ct_patterns c) patternID of
        None \<Rightarrow> (False, c)
      | Some p \<Rightarrow>
          (True, edit_pattern patternID (\<lambda>p.
             let p = (case verdict of None \<Rightarrow> p | Some v \<Rightarrow> p\<lparr>pt_Verdict := v\<rparr>)
             in case tags of None \<Rightarrow> p | Some ts \<Rightarrow> p\<lparr>pt_Tags := ts\<rparr>) c))"

definition cat_Delete :: "string \<Rightarrow> Catalog \<Rightarrow> bool \<times> Catalog" where
  "cat_Delete patternID c =
     (case gm_get (ct_patterns c) patternID of
        None \<Rightarrow> (False, c)
      | Some p \<Rightarrow> (True, c\<lparr>ct_patterns := gm_del (ct_patterns c) patternID, ct_dirty := True\<rparr>))"

definition ResetPatterns ::
  "(catalogFile \<Rightarrow> string) \<Rightarrow> bool \<Rightarrow> time \<Rightarrow> Catalog \<times> memoryProvider \<Rightarrow> nat \<times> bool \<times> Catalog \<times> memoryProvider" where
  "ResetPatterns enc write_fails now = (\<lambda>(c, p).
     (length (ct_patterns c), cat_Persist enc write_fails now (c\<lparr>ct_patterns := [], ct_dirty := True\<rparr>, p)))"

definition ResetServices ::
  "(catalogFile \<Rightarrow> string) \<Rightarrow> bool \<Rightarrow> time \<Rightarrow> Catalog \<times> memoryProvider \<Rightarrow> nat \<times> bool \<times> Catalog \<times> memoryProvider" where
  "ResetServices enc write_fails now = (\<lambda>(c, p).
     (length (ct_services c), cat_Persist enc write_fails now (c\<lparr>ct_services := [], ct_dirty := True\<rparr>, p)))"

subsection \<open>Bounded lists\<close>

definition DefaultCatalogPageSize :: int where "DefaultCatalogPageSize = 1000"

record CatalogPageOptions =
  po_Offset :: int
  po_Limit :: int
  po_Search :: string
  po_Service :: string

record ServiceRow =
  sv_Name :: string
  sv_Info :: ServiceInfo

definition sliceBounds :: "int \<Rightarrow> CatalogPageOptions \<Rightarrow> int" where
  "sliceBounds n opts =
     (let offset = (if po_Offset opts < 0 then 0 else po_Offset opts) in if offset > n then n else offset)"

definition sliceEnd :: "int \<Rightarrow> CatalogPageOptions \<Rightarrow> int" where
  "sliceEnd n opts =
     (let limit = (if po_Limit opts \<le> 0 then DefaultCatalogPageSize else po_Limit opts);
          e = sliceBounds n opts + limit
      in if e > n then n else e)"

definition slice :: "'a list \<Rightarrow> CatalogPageOptions \<Rightarrow> 'a list" where
  "slice xs opts =
     (let n = int (length xs)
      in take (nat (sliceEnd n opts) - nat (sliceBounds n opts)) (drop (nat (sliceBounds n opts)) xs))"

definition search_key :: "CatalogPageOptions \<Rightarrow> string" where
  "search_key opts = to_lower (trim_space (po_Search opts))"

definition pattern_matches :: "CatalogPageOptions \<Rightarrow> Pattern \<Rightarrow> bool" where
  "pattern_matches opts p =
     ((search_key opts = [] \<or> sublist (search_key opts) (to_lower (pt_Template p)) \<or>
       sublist (search_key opts) (to_lower (pt_ID p)) \<or> sublist (search_key opts) (to_lower (pt_Service p))) \<and>
      (trim_space (po_Service opts) = [] \<or> pt_Service p = trim_space (po_Service opts)))"

definition pattern_before :: "Pattern \<Rightarrow> Pattern \<Rightarrow> bool" where
  "pattern_before p q = (if pt_Count p \<noteq> pt_Count q then pt_Count p > pt_Count q else pt_ID p < pt_ID q)"

definition pagePatterns :: "Pattern list \<Rightarrow> CatalogPageOptions \<Rightarrow> Pattern list \<times> nat" where
  "pagePatterns all opts =
     (let rows = sort_key (\<lambda>p. (- pt_Count p, pt_ID p)) (filter (pattern_matches opts) all)
      in (slice rows opts, length rows))"

definition PatternsPage :: "Catalog \<Rightarrow> CatalogPageOptions \<Rightarrow> Pattern list \<times> nat" where
  "PatternsPage c opts = pagePatterns (map snd (ct_patterns c)) opts"

text \<open>By count, the most frequent first; the order of equal counts is left open by the code.\<close>

definition cat_All :: "Catalog \<Rightarrow> Pattern list" where
  "cat_All c = sort_key (\<lambda>p. - pt_Count p) (map snd (ct_patterns c))"

definition pageServices :: "(string, ServiceInfo) gomap \<Rightarrow> CatalogPageOptions \<Rightarrow> ServiceRow list \<times> nat" where
  "pageServices all opts =
     (let rows = sort_key (\<lambda>r. (si_FirstSeen (sv_Info r), sv_Name r))
            (map (\<lambda>(name, info). \<lparr>sv_Name = name, sv_Info = info\<rparr>)
              (filter (\<lambda>(name, info). search_key opts = [] \<or> sublist (search_key opts) (to_lower name)) all))
      in (slice rows opts, length rows))"

definition ServicesPage :: "Catalog \<Rightarrow> CatalogPageOptions \<Rightarrow> ServiceRow list \<times> nat" where
  "ServicesPage c opts = pageServices (ct_services c) opts"

subsection \<open>Services\<close>

definition new_service :: "time \<Rightarrow> bool \<Rightarrow> ServiceInfo" where
  "new_service now manual = \<lparr>si_OrgID = DefaultOrgID, si_FirstSeen = now, si_Manual = manual\<rparr>"

definition add_service :: "string \<Rightarrow> ServiceInfo \<Rightarrow> Catalog \<Rightarrow> Catalog" where
  "add_service name info c = c\<lparr>ct_services := gm_set (ct_services c) name info, ct_dirty := True\<rparr>"

definition RegisterService :: "time \<Rightarrow> string \<Rightarrow> Catalog \<Rightarrow> bool \<times> Catalog" where
  "RegisterService now name c =
     (if gm_has (ct_services c) name then (False, c) else (True, add_service name (new_service now False) c))"

definition IsServiceInGrace :: "time \<Rightarrow> string \<Rightarrow> duration \<Rightarrow> Catalog \<Rightarrow> bool \<times> Catalog" where
  "IsServiceInGrace now name graceDuration c =
     (if graceDuration \<le> 0 then (False, c)
      else
        let (svc, c) = (case gm_get (ct_services c) name of
                          Some svc \<Rightarrow> (svc, c)
                        | None \<Rightarrow> (new_service now False, add_service name (new_service now False) c))
        in (now < si_FirstSeen svc + graceDuration, c))"

definition AllServices :: "Catalog \<Rightarrow> (string, ServiceInfo) gomap" where "AllServices c = ct_services c"

definition cat_Service :: "Catalog \<Rightarrow> string \<Rightarrow> ServiceInfo option" where
  "cat_Service c name = gm_get (AllServices c) name"

definition setServiceFirstSeen :: "string \<Rightarrow> time \<Rightarrow> Catalog \<Rightarrow> Catalog" where
  "setServiceFirstSeen name firstSeen c =
     (case gm_get (ct_services c) name of
        None \<Rightarrow> c
      | Some svc \<Rightarrow> c\<lparr>ct_services := gm_set (ct_services c) name (svc\<lparr>si_FirstSeen := firstSeen\<rparr>)\<rparr>)"

definition EndServiceGrace :: "string \<Rightarrow> Catalog \<Rightarrow> bool \<times> Catalog" where
  "EndServiceGrace name c =
     (case gm_get (ct_services c) name of
        None \<Rightarrow> (False, c)
      | Some svc \<Rightarrow> (True, add_service name (svc\<lparr>si_FirstSeen := 0\<rparr>) c))"

definition RestartServiceGrace :: "time \<Rightarrow> string \<Rightarrow> Catalog \<Rightarrow> bool \<times> Catalog" where
  "RestartServiceGrace now name c =
     (case gm_get (ct_services c) name of
        None \<Rightarrow> (False, c)
      | Some svc \<Rightarrow> (True, add_service name (svc\<lparr>si_FirstSeen := now\<rparr>) c))"

text \<open>A manual change is saved at once; when that fails the change stays in memory, marked as unsaved.\<close>

definition save_change ::
  "(catalogFile \<Rightarrow> string) \<Rightarrow> bool \<Rightarrow> time \<Rightarrow> Catalog \<times> memoryProvider \<Rightarrow> catalog_error option \<times> Catalog \<times> memoryProvider" where
  "save_change enc write_fails now s =
     (case cat_Persist enc write_fails now s of (failed, s') \<Rightarrow> (if failed then Some ErrCatalogIO else None, s'))"

definition CreateService ::
  "(catalogFile \<Rightarrow> string) \<Rightarrow> bool \<Rightarrow> time \<Rightarrow> string \<Rightarrow> Catalog \<times> memoryProvider \<Rightarrow>
   catalog_error option \<times> Catalog \<times> memoryProvider" where
  "CreateService enc write_fails now name = (\<lambda>(c, p).
     if gm_has (ct_services c) name then (Some ErrServiceExists, c, p)
     else save_change enc write_fails now (add_service name (new_service now True) c, p))"

definition RenameService ::
  "(catalogFile \<Rightarrow> string) \<Rightarrow> bool \<Rightarrow> time \<Rightarrow> string \<Rightarrow> string \<Rightarrow> Catalog \<times> memoryProvider \<Rightarrow>
   catalog_error option \<times> Catalog \<times> memoryProvider" where
  "RenameService enc write_fails now oldName newName = (\<lambda>(c, p).
     case gm_get (ct_services c) oldName of
       None \<Rightarrow> (Some ErrServiceNotFound, c, p)
     | Some svc \<Rightarrow>
         if gm_has (ct_services c) newName then (Some ErrServiceExists, c, p)
         else save_change enc write_fails now
                (c\<lparr>ct_services := gm_set (gm_del (ct_services c) oldName) newName svc, ct_dirty := True\<rparr>, p))"

definition DeleteService ::
  "(catalogFile \<Rightarrow> string) \<Rightarrow> bool \<Rightarrow> time \<Rightarrow> string \<Rightarrow> Catalog \<times> memoryProvider \<Rightarrow> bool \<times> Catalog \<times> memoryProvider" where
  "DeleteService enc write_fails now name = (\<lambda>(c, p).
     case gm_get (ct_services c) name of
       None \<Rightarrow> (False, c, p)
     | Some svc \<Rightarrow>
         let (failed, s) = cat_Persist enc write_fails now (c\<lparr>ct_services := gm_del (ct_services c) name, ct_dirty := True\<rparr>, p)
         in (\<not> failed, s))"

end
