(* ===== verification/Agent_Types.thy ===== *)
theory Agent_Types
  imports Records Complex_Main
begin

text \<open>
  The types the agent's parts exchange (\<open>pkg/core/agent_signal.go\<close>, \<open>pkg/core/typed_signal.go\<close>,
  \<open>pkg/core/service_health.go\<close>). A float64 is an exact fraction.
\<close>

definition FieldService :: string where "FieldService = ''service''"
definition FieldSignal :: string where "FieldSignal = ''signal''"

record Signal =
  sg_Source :: string
  sg_Timestamp :: time
  sg_Severity :: string
  sg_Message :: string
  sg_Fields :: content
  sg_Raw :: content

datatype AgentVerdict = VerdictKnownPattern | VerdictUnknown | VerdictSpike

definition verdict_String :: "AgentVerdict \<Rightarrow> string" where
  "verdict_String v =
     (case v of VerdictKnownPattern \<Rightarrow> ''known'' | VerdictUnknown \<Rightarrow> ''unknown'' | VerdictSpike \<Rightarrow> ''spike'')"

record Observation =
  ob_Key :: string
  ob_Service :: string
  ob_Signal :: string
  ob_Timestamp :: time
  ob_Value :: rat
  ob_Frequency :: int
  ob_Samples :: "Signal list"
  ob_StrongestSeverity :: string
  ob_IsNew :: bool

record TypedVerdict =
  tv_Class :: AgentVerdict
  tv_Confident :: bool
  tv_Score :: rat
  tv_Baseline :: rat
  tv_Reason :: string

record DetectionEmissionResult =
  em_Fingerprint :: string
  em_EpisodeID :: string
  em_IncidentID :: string
  em_OccurrenceDelta :: int
  em_OccurrenceCount :: int
  em_EpisodeAction :: string
  em_NotificationOutcome :: string
  em_EpisodeError :: string

record AgentResult =
  ar_Verdict :: AgentVerdict
  ar_PatternID :: string
  ar_Template :: string
  ar_SampleSignals :: "Signal list"
  ar_Frequency :: int
  ar_Baseline :: rat
  ar_AgentKind :: string
  ar_SignalKind :: string
  ar_DetectionEmission :: DetectionEmissionResult
  ar_RuleSeverity :: string

record LogHealthObservation =
  lh_OrgID :: string
  lh_SourceID :: string
  lh_Service :: string
  lh_PatternID :: string
  lh_ObservedAt :: time
  lh_Frequency :: int
  lh_StrongestSeverity :: string
  lh_NewPattern :: bool
  lh_InGrace :: bool
  lh_ExpectedRate :: rat
  lh_ExpectedSpread :: rat
  lh_LifecycleClass :: string
  lh_LifecycleClassified :: bool

record SourceHealthObservation =
  sh_OrgID :: string
  sh_SourceID :: string
  sh_AttemptedAt :: time
  sh_Succeeded :: bool
  sh_ErrorClass :: string

subsection \<open>Severities of signals\<close>

text \<open>\<open>strongestSeverity\<close>, \<open>observationSeverity\<close> and \<open>clampSeverityFloor\<close> of \<open>pkg/agent/worker.go\<close>.\<close>

definition strongestSeverity :: "Signal list \<Rightarrow> string" where
  "strongestSeverity signals =
     fst (foldl (\<lambda>(best, bestRank) s.
         let r = SeverityRank (sg_Severity s)
         in if r > bestRank then (NormalizeSeverity (sg_Severity s), r) else (best, bestRank))
       ([], 0) signals)"

definition observationSeverity :: "Observation \<Rightarrow> string" where
  "observationSeverity obs =
     (if SeverityRank (ob_StrongestSeverity obs) > 0 then NormalizeSeverity (ob_StrongestSeverity obs)
      else strongestSeverity (ob_Samples obs))"

definition clampSeverityFloor :: "AIFinding \<Rightarrow> string \<Rightarrow> AIFinding" where
  "clampSeverityFloor f lowest =
     (if lowest = [] then f
      else if SeverityRank lowest > SeverityRank (fi_Severity f) then f\<lparr>fi_Severity := NormalizeSeverity lowest\<rparr>
      else f)"

lemma clamp_floor: "SeverityRank lowest \<le> SeverityRank (fi_Severity (clampSeverityFloor f lowest))"
  by (auto simp: clampSeverityFloor_def SeverityRank_Normalize)

lemma clamp_never_lowers: "SeverityRank (fi_Severity f) \<le> SeverityRank (fi_Severity (clampSeverityFloor f lowest))"
  by (auto simp: clampSeverityFloor_def SeverityRank_Normalize)

lemma clamp_other_fields: "clampSeverityFloor f lowest = f\<lparr>fi_Severity := fi_Severity (clampSeverityFloor f lowest)\<rparr>"
  by (simp add: clampSeverityFloor_def)

lemma clamp_idem [simp]: "clampSeverityFloor (clampSeverityFloor f lowest) lowest = clampSeverityFloor f lowest"
  using clamp_floor [of lowest f] by (simp add: clampSeverityFloor_def)

text \<open>The result is the maximum: no signal of the group is stronger, and some signal has it.\<close>

lemma strongest_step:
  "best = [] \<and> r = 0 \<or> SeverityRank best = r \<Longrightarrow>
   (let (b, r') = foldl (\<lambda>(best, bestRank) s.
         let r = SeverityRank (sg_Severity s)
         in if r > bestRank then (NormalizeSeverity (sg_Severity s), r) else (best, bestRank)) (best, r) signals
    in SeverityRank b = r' \<and> r \<le> r' \<and> (\<forall>s \<in> set signals. SeverityRank (sg_Severity s) \<le> r'))"
proof (induction signals arbitrary: best r)
  case Nil
  then show ?case by (auto simp: Let_def)
next
  case (Cons s signals)
  show ?case
  proof (cases "SeverityRank (sg_Severity s) > r")
    case True
    then show ?thesis
      using Cons.IH [of "NormalizeSeverity (sg_Severity s)" "SeverityRank (sg_Severity s)"]
      by (auto simp: Let_def SeverityRank_Normalize split: prod.splits)
  next
    case False
    then show ?thesis using Cons.IH [OF Cons.prems] by (auto simp: Let_def split: prod.splits)
  qed
qed

lemma strongestSeverity_max: "s \<in> set signals \<Longrightarrow> SeverityRank (sg_Severity s) \<le> SeverityRank (strongestSeverity signals)"
  using strongest_step [of "[]" 0 signals] by (auto simp: strongestSeverity_def Let_def split: prod.splits)

end
