(* ===== verification/Log_Brain.thy ===== *)
theory Log_Brain
  imports Pattern_Catalog Agent_Types Agent_Filters Miner
begin

text \<open>
  The brain of log sources (\<open>pkg/agent/brain_log.go\<close>): it groups the signals of a tick by mined
  template, folds them into the catalog, and classifies each group against the baseline from before
  the tick. \<open>msqrt\<close> is the square root, \<open>sha\<close> the hash that names clusters, \<open>override\<close> the installed
  resolver of manual attributions (\<open>pkg/agent/override.go\<close>), \<open>globalMode\<close> the stored baseline mode
  (\<open>LoadSpikeSettings\<close>).
\<close>

record ServiceOverrideInput =
  so_SourceType :: string
  so_Service :: string
  so_Signal :: string
  so_Pattern :: string
  so_Message :: string

definition OverrideSourceLog :: string where "OverrideSourceLog = ''log''"

text \<open>\<open>None\<close> for no resolver; the resolver's \<open>None\<close> is its negative answer.\<close>

definition ResolveServiceOverride ::
  "(ServiceOverrideInput \<Rightarrow> string option) option \<Rightarrow> ServiceOverrideInput \<Rightarrow> string" where
  "ResolveServiceOverride r inp =
     (case r of
        None \<Rightarrow> so_Service inp
      | Some f \<Rightarrow> (case f inp of Some svc \<Rightarrow> if svc \<noteq> [] then svc else so_Service inp | None \<Rightarrow> so_Service inp))"

record logBrain =
  lb_source :: string
  lb_matcher :: "RegexMatcher option"
  lb_services :: "regexp list option"
  lb_ewmaAlpha :: rat
  lb_cat :: AgentCatalogConfig
  lb_params :: spikeParams
  lb_scrubber :: "(string \<Rightarrow> string) option"

text \<open>What the brain changes: the shared miner and catalog, and its own streaks.\<close>

record brain_state =
  bs_miner :: Miner
  bs_catalog :: Catalog
  bs_streak :: "(string, int) gomap"

definition newLogBrain ::
  "string \<Rightarrow> RegexMatcher option \<Rightarrow> regexp list option \<Rightarrow> rat \<Rightarrow> AgentCatalogConfig \<Rightarrow> (string \<Rightarrow> string) option \<Rightarrow> rat \<Rightarrow> logBrain" where
  "newLogBrain source matcher services ewmaAlpha cat scrub pollSeconds =
     \<lparr>lb_source = source, lb_matcher = matcher, lb_services = services,
      lb_ewmaAlpha = (if ewmaAlpha \<le> 0 then 1 / 5 else ewmaAlpha), lb_cat = cat,
      lb_params = resolveSpikeParams cat pollSeconds, lb_scrubber = scrub\<rparr>"

definition log_Kind :: string where "log_Kind = ''logs''"

subsection \<open>Grouping\<close>

record log_bucket =
  bk_template :: string
  bk_isNew :: bool
  bk_service :: string
  bk_signals :: "Signal list"

text \<open>
  The buckets are listed in the order their first signals came in: a new key of a list map goes to
  its end, so the map carries the code's \<open>order\<close>.
\<close>

definition group_signal ::
  "(string \<Rightarrow> string) \<Rightarrow> (ServiceOverrideInput \<Rightarrow> string option) option \<Rightarrow> logBrain \<Rightarrow> Signal \<Rightarrow>
   (string, log_bucket) gomap \<times> Miner \<Rightarrow> (string, log_bucket) gomap \<times> Miner" where
  "group_signal sha override b sig = (\<lambda>(buckets, m).
     if sg_Message sig = [] then (buckets, m)
     else if lb_matcher b \<noteq> None \<and> \<not> Matched (rx_Match (lb_matcher b) (sg_Message sig)) then (buckets, m)
     else
       let (i, template, isNew, m) = Cluster sha (sg_Message sig) m
       in if i = [] then (buckets, m)
          else
            let bk = (case gm_get buckets i of
                        Some bk \<Rightarrow> bk
                      | None \<Rightarrow>
                          let svc = svc_Extract (lb_services b) (sg_Message sig);
                              svc = (if svc = [] then ''_unknown'' else svc);
                              svc = ResolveServiceOverride override
                                \<lparr>so_SourceType = OverrideSourceLog, so_Service = svc, so_Signal = [], so_Pattern = i,
                                 so_Message = sg_Message sig\<rparr>
                          in \<lparr>bk_template = template, bk_isNew = isNew, bk_service = svc, bk_signals = []\<rparr>)
            in (gm_set buckets i (bk\<lparr>bk_signals := bk_signals bk @ [sig]\<rparr>), m))"

definition bucket_observation :: "time \<Rightarrow> string \<times> log_bucket \<Rightarrow> Observation" where
  "bucket_observation now = (\<lambda>(i, bk).
     \<lparr>ob_Key = i, ob_Service = bk_service bk, ob_Signal = bk_template bk, ob_Timestamp = now,
      ob_Value = of_nat (length (bk_signals bk)), ob_Frequency = int (length (bk_signals bk)),
      ob_Samples = bk_signals bk, ob_StrongestSeverity = strongestSeverity (bk_signals bk), ob_IsNew = bk_isNew bk\<rparr>)"

definition log_Group ::
  "(string \<Rightarrow> string) \<Rightarrow> (ServiceOverrideInput \<Rightarrow> string option) option \<Rightarrow> time \<Rightarrow> logBrain \<Rightarrow> Signal list \<Rightarrow> brain_state \<Rightarrow>
   Observation list \<times> brain_state" where
  "log_Group sha override now b batch s =
     (let (buckets, m) = fold (group_signal sha override b) batch ([], bs_miner s)
      in (map (bucket_observation now) buckets, s\<lparr>bs_miner := m\<rparr>))"

subsection \<open>Expectation and learning\<close>

definition resolveBaseline ::
  "(rat \<Rightarrow> rat) \<Rightarrow> string \<Rightarrow> logBrain \<Rightarrow> Pattern \<Rightarrow> time \<Rightarrow> rat \<times> rat \<times> string" where
  "resolveBaseline msqrt globalMode b p ts =
     (let global = \<lparr>ew_Mean = pt_BaselineFrequency p, ew_Variance = pt_BaselineVariance p, ew_Count = pt_Count p\<rparr>;
          mode = (if pt_SpikeBaselineMode p \<noteq> [] then normalizeBaselineMode (pt_SpikeBaselineMode p) else globalMode)
      in if mode = baselineModeAverage then (pt_BaselineAvg p, Std msqrt global, ''the average baseline'')
         else if mode = baselineModeTimeOfDay then
           (let idx = SeasonalIndex ts HoursPerDay; bucket = pt_Seasonal p ! nat idx
            in if int (length (pt_Seasonal p)) = HoursPerDay \<and> ew_Count bucket \<ge> sp_MinBucketSamples (lb_params b)
               then (ew_Mean bucket, Std msqrt bucket, ''the '' @ zero_pad 2 (show_int idx) @ '':00 baseline'')
               else (ew_Mean global, Std msqrt global, ''the baseline''))
         else (ew_Mean global, Std msqrt global, []))"

definition log_Expected ::
  "(rat \<Rightarrow> rat) \<Rightarrow> string \<Rightarrow> logBrain \<Rightarrow> string \<Rightarrow> time \<Rightarrow> brain_state \<Rightarrow> rat \<times> rat \<times> bool" where
  "log_Expected msqrt globalMode b key ts s =
     (case cat_Get (bs_catalog s) key of
        None \<Rightarrow> (0, 0, True)
      | Some p \<Rightarrow> (case resolveBaseline msqrt globalMode b p ts of (mean, std, label) \<Rightarrow> (mean, std, True)))"

definition learn_one :: "(rat \<Rightarrow> rat) \<Rightarrow> time \<Rightarrow> logBrain \<Rightarrow> Observation \<Rightarrow> Catalog \<Rightarrow> Catalog" where
  "learn_one msqrt now b obs c =
     (let ruleName = (case ob_Samples obs of
                        [] \<Rightarrow> []
                      | sig # _ \<Rightarrow> if lb_matcher b \<noteq> None then mr_RuleName (rx_Match (lb_matcher b) (sg_Message sig)) else []);
          c = Upsert msqrt now (ob_Key obs) (ob_Signal obs) (lb_source b) (ob_Frequency obs) (lb_ewmaAlpha b) ruleName
                (ob_Service obs) c
      in case ob_Samples obs of
           [] \<Rightarrow> c
         | sig # _ \<Rightarrow> RecordSample (ob_Key obs) (sg_Message sig) (lb_scrubber b) c)"

definition log_Learn :: "(rat \<Rightarrow> rat) \<Rightarrow> time \<Rightarrow> logBrain \<Rightarrow> Observation list \<Rightarrow> brain_state \<Rightarrow> brain_state" where
  "log_Learn msqrt now b obs s = s\<lparr>bs_catalog := fold (learn_one msqrt now b) obs (bs_catalog s)\<rparr>"

subsection \<open>Classification and promotion\<close>

definition effectiveAutoPromote :: "int \<Rightarrow> int" where
  "effectiveAutoPromote n = (if n \<le> 0 then DefaultAutoPromoteAfter else n)"

definition isLogKnown :: "string \<Rightarrow> int \<Rightarrow> int \<Rightarrow> bool" where
  "isLogKnown prevVerdict seen autoPromoteAfter =
     (prevVerdict = ''known'' \<or> seen \<ge> effectiveAutoPromote autoPromoteAfter)"

definition confirmSpike :: "logBrain \<Rightarrow> string \<Rightarrow> spikeResult \<Rightarrow> brain_state \<Rightarrow> bool \<times> brain_state" where
  "confirmSpike b key res s =
     (if \<not> sr_Spike res then (False, s\<lparr>bs_streak := gm_del (bs_streak s) key\<rparr>)
      else if sr_Ceiling res then (True, s)
      else
        let n = gm_get0 0 (bs_streak s) key + 1
        in (n \<ge> sp_SustainTicks (lb_params b), s\<lparr>bs_streak := gm_set (bs_streak s) key n\<rparr>))"

definition log_Classify ::
  "(rat \<Rightarrow> rat) \<Rightarrow> string \<Rightarrow> logBrain \<Rightarrow> Observation \<Rightarrow> rat \<Rightarrow> rat \<Rightarrow> bool \<Rightarrow> brain_state \<Rightarrow> TypedVerdict \<times> brain_state" where
  "log_Classify msqrt globalMode b obs mean std confident s =
     (let plain = (\<lambda>cls. \<lparr>tv_Class = cls, tv_Confident = True, tv_Score = 0, tv_Baseline = mean, tv_Reason = []\<rparr>)
      in case cat_Get (bs_catalog s) (ob_Key obs) of
           None \<Rightarrow> (plain VerdictUnknown, s)
         | Some p \<Rightarrow>
             let tickFreq = ob_Frequency obs;
                 prevCount = pt_Count p - tickFreq
             in if isLogKnown (pt_Verdict p) prevCount (cc_AutoPromoteAfter (lb_cat b)) then
                  (let res = evalSpike mean std prevCount tickFreq (lb_params b);
                       (confirmed, s) = confirmSpike b (ob_Key obs) res s
                   in if confirmed then
                        (case resolveBaseline msqrt globalMode b p (ob_Timestamp obs) of (_, _, label) \<Rightarrow>
                           (\<lparr>tv_Class = VerdictSpike, tv_Confident = True, tv_Score = sr_Z res, tv_Baseline = mean,
                             tv_Reason = spikeReason res mean std tickFreq (sp_PollSeconds (lb_params b)) label\<rparr>, s))
                      else (plain VerdictKnownPattern, s))
                else (plain VerdictUnknown, s))"

definition log_Promote :: "logBrain \<Rightarrow> string \<Rightarrow> brain_state \<Rightarrow> brain_state" where
  "log_Promote b key s =
     (case cat_Get (bs_catalog s) key of
        None \<Rightarrow> s
      | Some p \<Rightarrow>
          if pt_Verdict p \<noteq> ''known'' \<and> isLogKnown (pt_Verdict p) (pt_Count p) (cc_AutoPromoteAfter (lb_cat b))
          then s\<lparr>bs_catalog := snd (MarkKnown key (bs_catalog s))\<rparr> else s)"



text \<open>
  What the worker does with one observation of a log source: read the expectation, learn,
  classify against it, promote (\<open>processSourceBatch\<close> and \<open>handleObservation\<close> of \<open>pkg/agent/worker.go\<close>).
\<close>

definition log_tick ::
  "(rat \<Rightarrow> rat) \<Rightarrow> string \<Rightarrow> logBrain \<Rightarrow> time \<Rightarrow> Observation \<Rightarrow> brain_state \<Rightarrow> TypedVerdict \<times> brain_state" where
  "log_tick msqrt globalMode b now obs s =
     (let (mean, std, confident) = log_Expected msqrt globalMode b (ob_Key obs) (ob_Timestamp obs) s;
          s = log_Learn msqrt now b [obs] s;
          (v, s) = log_Classify msqrt globalMode b obs mean std confident s
      in (v, log_Promote b (ob_Key obs) s))"

fun log_ticks ::
  "(rat \<Rightarrow> rat) \<Rightarrow> string \<Rightarrow> logBrain \<Rightarrow> (time \<times> Observation) list \<Rightarrow> brain_state \<Rightarrow> TypedVerdict list \<times> brain_state" where
  "log_ticks msqrt globalMode b [] s = ([], s)"
| "log_ticks msqrt globalMode b ((now, obs) # ticks) s =
     (let (v, s) = log_tick msqrt globalMode b now obs s;
          (vs, s) = log_ticks msqrt globalMode b ticks s
      in (v # vs, s))"

subsection \<open>How a tick changes the catalog\<close>

lemma fold_seasonal_keeps:
  "pt_Verdict (fold_seasonal msqrt f x a now p) = pt_Verdict p" "pt_Count (fold_seasonal msqrt f x a now p) = pt_Count p"
  "pt_SpikeBaselineMode (fold_seasonal msqrt f x a now p) = pt_SpikeBaselineMode p"
  "pt_BaselineFrequency (fold_seasonal msqrt f x a now p) = pt_BaselineFrequency p"
  "pt_BaselineVariance (fold_seasonal msqrt f x a now p) = pt_BaselineVariance p"
  by (simp_all add: fold_seasonal_def Let_def)

lemma fold_global_keeps:
  "pt_Verdict (fold_global msqrt f x a n p) = pt_Verdict p" "pt_Count (fold_global msqrt f x a n p) = pt_Count p"
  "pt_SpikeBaselineMode (fold_global msqrt f x a n p) = pt_SpikeBaselineMode p"
  by (simp_all add: fold_global_def Let_def)

lemma foldBaseline_keeps:
  "pt_Verdict (foldBaseline msqrt f n a now c p) = pt_Verdict p" "pt_Count (foldBaseline msqrt f n a now c p) = pt_Count p"
  "pt_SpikeBaselineMode (foldBaseline msqrt f n a now c p) = pt_SpikeBaselineMode p"
  by (simp_all add: foldBaseline_def Let_def fold_seasonal_keeps fold_global_keeps)

lemma refresh_keeps:
  "pt_Verdict (refresh_pattern r svc p) = pt_Verdict p" "pt_Count (refresh_pattern r svc p) = pt_Count p"
  "pt_SpikeBaselineMode (refresh_pattern r svc p) = pt_SpikeBaselineMode p"
  "pt_BaselineFrequency (refresh_pattern r svc p) = pt_BaselineFrequency p"
  "pt_BaselineVariance (refresh_pattern r svc p) = pt_BaselineVariance p"
  by (simp_all add: refresh_pattern_def Let_def)

lemma Upsert_get:
  "gm_get (ct_patterns c) i = Some p \<Longrightarrow>
   \<exists>q. gm_get (ct_patterns (Upsert msqrt now i tmpl src n a r svc c)) i =
       Some (foldBaseline msqrt (ct_fold c) n (if a \<le> 0 then 1 / 5 else a) now (pt_Count p) q) \<and>
     pt_Verdict q = pt_Verdict p \<and> pt_Count q = pt_Count p + n \<and> pt_SpikeBaselineMode q = pt_SpikeBaselineMode p \<and>
     pt_BaselineFrequency q = pt_BaselineFrequency p \<and> pt_BaselineVariance q = pt_BaselineVariance p"
  by (rule exI [of _ "(refresh_pattern r svc p)\<lparr>pt_Template := tmpl, pt_LastSeen := now,
        pt_Count := pt_Count (refresh_pattern r svc p) + n\<rparr>"])
    (simp add: Upsert_def Let_def gm_simps refresh_keeps)

lemma Upsert_frame:
  "j \<noteq> i \<Longrightarrow> gm_get (ct_patterns (Upsert msqrt now i tmpl src n a r svc c)) j = gm_get (ct_patterns c) j"
  "ct_fold (Upsert msqrt now i tmpl src n a r svc c) = ct_fold c"
  "ct_services (Upsert msqrt now i tmpl src n a r svc c) = ct_services c"
  by (simp_all add: Upsert_def Let_def gm_simps)

lemma RecordSample_frame:
  "j \<noteq> i \<Longrightarrow> gm_get (ct_patterns (RecordSample i smp scrub c)) j = gm_get (ct_patterns c) j"
  "ct_fold (RecordSample i smp scrub c) = ct_fold c"
  "ct_services (RecordSample i smp scrub c) = ct_services c"
  "gm_get (ct_patterns c) i = Some p \<Longrightarrow>
   \<exists>ss. gm_get (ct_patterns (RecordSample i smp scrub c)) i = Some (p\<lparr>pt_Samples := ss\<rparr>)"
  by (auto simp: RecordSample_def gm_simps split: option.split intro: exI [of _ "pt_Samples p"])

lemma learn_one_frame:
  "j \<noteq> ob_Key obs \<Longrightarrow> gm_get (ct_patterns (learn_one msqrt now b obs c)) j = gm_get (ct_patterns c) j"
  "ct_fold (learn_one msqrt now b obs c) = ct_fold c"
  "ct_services (learn_one msqrt now b obs c) = ct_services c"
  by (simp_all add: learn_one_def Let_def Upsert_frame RecordSample_frame split: list.split)

text \<open>What the detector reads of a pattern after learning: the baseline is folded, the rest is kept.\<close>

lemma learn_one_get:
  assumes "gm_get (ct_patterns c) (ob_Key obs) = Some p"
  obtains q where "gm_get (ct_patterns (learn_one msqrt now b obs c)) (ob_Key obs) = Some q"
    "pt_Verdict q = pt_Verdict p" "pt_Count q = pt_Count p + ob_Frequency obs" "pt_SpikeBaselineMode q = pt_SpikeBaselineMode p"
    "\<exists>r a. pt_BaselineFrequency r = pt_BaselineFrequency p \<and> pt_BaselineVariance r = pt_BaselineVariance p \<and>
       (let g = foldBaseline msqrt (ct_fold c) (ob_Frequency obs) a now (pt_Count p) r
        in pt_BaselineFrequency q = pt_BaselineFrequency g \<and> pt_BaselineVariance q = pt_BaselineVariance g)"
proof -
  define rn where "rn = (case ob_Samples obs of [] \<Rightarrow> []
      | sig # _ \<Rightarrow> if lb_matcher b \<noteq> None then mr_RuleName (rx_Match (lb_matcher b) (sg_Message sig)) else [])"
  define c1 where "c1 = Upsert msqrt now (ob_Key obs) (ob_Signal obs) (lb_source b) (ob_Frequency obs) (lb_ewmaAlpha b) rn
      (ob_Service obs) c"
  define a where "a = (if lb_ewmaAlpha b \<le> 0 then 1 / 5 else lb_ewmaAlpha b)"
  obtain r where r: "gm_get (ct_patterns c1) (ob_Key obs) = Some (foldBaseline msqrt (ct_fold c) (ob_Frequency obs) a now (pt_Count p) r)"
      "pt_Verdict r = pt_Verdict p" "pt_Count r = pt_Count p + ob_Frequency obs" "pt_SpikeBaselineMode r = pt_SpikeBaselineMode p"
      "pt_BaselineFrequency r = pt_BaselineFrequency p" "pt_BaselineVariance r = pt_BaselineVariance p"
    using Upsert_get [OF assms, of msqrt now "ob_Signal obs" "lb_source b" "ob_Frequency obs" "lb_ewmaAlpha b" rn "ob_Service obs"]
    unfolding c1_def a_def by blast
  have "\<exists>ss. gm_get (ct_patterns (learn_one msqrt now b obs c)) (ob_Key obs) =
      Some ((foldBaseline msqrt (ct_fold c) (ob_Frequency obs) a now (pt_Count p) r)\<lparr>pt_Samples := ss\<rparr>)"
  proof (cases "ob_Samples obs")
    case Nil
    then show ?thesis using r(1)
      by (intro exI [of _ "pt_Samples (foldBaseline msqrt (ct_fold c) (ob_Frequency obs) a now (pt_Count p) r)"])
        (simp add: learn_one_def Let_def c1_def rn_def)
  next
    case (Cons sig rest)
    then show ?thesis using RecordSample_frame(4) [OF r(1)] by (simp add: learn_one_def Let_def c1_def rn_def)
  qed
  then obtain ss where q: "gm_get (ct_patterns (learn_one msqrt now b obs c)) (ob_Key obs) =
      Some ((foldBaseline msqrt (ct_fold c) (ob_Frequency obs) a now (pt_Count p) r)\<lparr>pt_Samples := ss\<rparr>)" by blast
  show ?thesis
    by (rule that [OF q]) (auto simp: foldBaseline_keeps r Let_def intro!: exI [of _ r] exI [of _ a])
qed

lemma confirm_frame:
  "bs_catalog (snd (confirmSpike b key res s)) = bs_catalog s"
  "j \<noteq> key \<Longrightarrow> gm_get0 0 (bs_streak (snd (confirmSpike b key res s))) j = gm_get0 0 (bs_streak s) j"
  by (simp_all add: confirmSpike_def Let_def gm_get0_def gm_simps)

lemma Classify_frame:
  "bs_catalog (snd (log_Classify msqrt g b obs mean std cf s)) = bs_catalog s"
  "j \<noteq> ob_Key obs \<Longrightarrow> gm_get0 0 (bs_streak (snd (log_Classify msqrt g b obs mean std cf s))) j = gm_get0 0 (bs_streak s) j"
  by (auto simp: log_Classify_def Let_def confirm_frame split: option.split prod.split dest: arg_cong [where f=snd])
    (metis confirm_frame snd_conv)+

lemma Promote_frame:
  "bs_streak (log_Promote b key s) = bs_streak s"
  "ct_fold (bs_catalog (log_Promote b key s)) = ct_fold (bs_catalog s)"
  "j \<noteq> key \<Longrightarrow> gm_get (ct_patterns (bs_catalog (log_Promote b key s))) j = gm_get (ct_patterns (bs_catalog s)) j"
  "gm_get (ct_patterns (bs_catalog s)) key = Some p \<Longrightarrow>
   gm_get (ct_patterns (bs_catalog (log_Promote b key s))) key =
     Some (if isLogKnown (pt_Verdict p) (pt_Count p) (cc_AutoPromoteAfter (lb_cat b)) then p\<lparr>pt_Verdict := ''known''\<rparr> else p)"
  by (auto simp: log_Promote_def MarkKnown_def edit_pattern_def cat_Get_def gm_simps isLogKnown_def split: option.split)

subsection \<open>A burst\<close>

text \<open>
  A pattern that is known, has a confident baseline with mean \<open>m\<close> and variance \<open>v\<close>, and is scored
  against it (the default mode).
\<close>

definition settled_pattern :: "logBrain \<Rightarrow> string \<Rightarrow> rat \<Rightarrow> rat \<Rightarrow> brain_state \<Rightarrow> bool" where
  "settled_pattern b key m v s \<longleftrightarrow>
     ct_fold (bs_catalog s) = spike_fold (lb_params b) \<and>
     (case gm_get (ct_patterns (bs_catalog s)) key of
        None \<Rightarrow> False
      | Some p \<Rightarrow>
          pt_BaselineFrequency p = m \<and> pt_BaselineVariance p = v \<and> pt_SpikeBaselineMode p = [] \<and>
          isLogKnown (pt_Verdict p) (pt_Count p) (cc_AutoPromoteAfter (lb_cat b)) \<and>
          pt_Count p \<ge> sp_MinBaselineCount (lb_params b))"

text \<open>A tick whose rate is at least the score threshold above the baseline, and above the noise limit.\<close>

definition burst_tick :: "(rat \<Rightarrow> rat) \<Rightarrow> logBrain \<Rightarrow> rat \<Rightarrow> rat \<Rightarrow> Observation \<Rightarrow> bool" where
  "burst_tick msqrt b m v obs \<longleftrightarrow>
     ob_Frequency obs \<ge> sp_MinFrequency (lb_params b) \<and>
     ZScore (if sp_PollSeconds (lb_params b) > 0 then of_int (ob_Frequency obs) / sp_PollSeconds (lb_params b)
             else of_int (ob_Frequency obs)) m (msqrt (max 0 v)) \<ge> sp_Z (lb_params b)"

lemma held_out:
  assumes "burst_tick msqrt b m v obs" "m > 0" "sp_Z (lb_params b) > 0" "sp_MinBaselineCount (lb_params b) > 0"
    and "n \<ge> sp_MinBaselineCount (lb_params b)" "pt_BaselineFrequency r = m" "pt_BaselineVariance r = v"
  shows "pt_BaselineFrequency (foldBaseline msqrt (spike_fold (lb_params b)) (ob_Frequency obs) a now n r) = m"
    "pt_BaselineVariance (foldBaseline msqrt (spike_fold (lb_params b)) (ob_Frequency obs) a now n r) = v"
proof -
  let ?x = "if sp_PollSeconds (lb_params b) > 0 then of_int (ob_Frequency obs) / sp_PollSeconds (lb_params b)
     else of_int (ob_Frequency obs)"
  have "ZScore ?x m (msqrt (max 0 v)) \<ge> sp_Z (lb_params b)" using assms(1) by (simp add: burst_tick_def)
  then have "ShouldReject ?x m (msqrt (max 0 v)) True (sp_Z (lb_params b))"
    using assms(3) by (simp add: ShouldReject_def)
  then have "fold_global msqrt (spike_fold (lb_params b)) ?x a n r = r"
    using assms by (simp add: fold_global_def spike_fold_def Let_def)
  then show "pt_BaselineFrequency (foldBaseline msqrt (spike_fold (lb_params b)) (ob_Frequency obs) a now n r) = m"
    "pt_BaselineVariance (foldBaseline msqrt (spike_fold (lb_params b)) (ob_Frequency obs) a now n r) = v"
    using assms(3,6,7) by (cases "sp_PollSeconds (lb_params b) > 0";
        simp add: foldBaseline_def spike_fold_def Let_def fold_seasonal_keeps)+
qed

text \<open>One tick of the burst: flagged when it has lasted long enough, and not learned.\<close>

lemma burst_step:
  assumes set: "settled_pattern b (ob_Key obs) m v s" and burst: "burst_tick msqrt b m v obs"
    and par: "m > 0" "sp_Z (lb_params b) > 0" "sp_MinBaselineCount (lb_params b) > 0" "sp_MinFrequency (lb_params b) > 0"
      "sp_AbsCeiling (lb_params b) = 0"
    and tick: "log_tick msqrt baselineModeDefault b now obs s = (verdict, s')"
  shows "settled_pattern b (ob_Key obs) m v s' \<and>
    gm_get0 0 (bs_streak s') (ob_Key obs) = gm_get0 0 (bs_streak s) (ob_Key obs) + 1 \<and>
    tv_Class verdict = (if gm_get0 0 (bs_streak s) (ob_Key obs) + 1 \<ge> sp_SustainTicks (lb_params b) then VerdictSpike
                        else VerdictKnownPattern)"
proof -
  let ?k = "ob_Key obs" and ?P = "lb_params b" and ?std = "msqrt (max 0 v)"
  obtain p where p: "gm_get (ct_patterns (bs_catalog s)) ?k = Some p" "pt_BaselineFrequency p = m" "pt_BaselineVariance p = v"
      "pt_SpikeBaselineMode p = []" "isLogKnown (pt_Verdict p) (pt_Count p) (cc_AutoPromoteAfter (lb_cat b))"
      "pt_Count p \<ge> sp_MinBaselineCount ?P" and f: "ct_fold (bs_catalog s) = spike_fold ?P"
    using set by (auto simp: settled_pattern_def split: option.splits)
  have exp: "log_Expected msqrt baselineModeDefault b ?k (ob_Timestamp obs) s = (m, ?std, True)"
    using p by (simp add: log_Expected_def cat_Get_def resolveBaseline_def Std_def baselineModeDefault_def
        baselineModeAverage_def baselineModeTimeOfDay_def)
  define s1 where "s1 = log_Learn msqrt now b [obs] s"
  have cat1: "bs_catalog s1 = learn_one msqrt now b obs (bs_catalog s)" "bs_streak s1 = bs_streak s" "bs_miner s1 = bs_miner s"
    by (simp_all add: s1_def log_Learn_def)
  obtain q where q: "gm_get (ct_patterns (bs_catalog s1)) ?k = Some q" "pt_Verdict q = pt_Verdict p"
      "pt_Count q = pt_Count p + ob_Frequency obs" "pt_SpikeBaselineMode q = []"
      and base: "\<exists>r a. pt_BaselineFrequency r = m \<and> pt_BaselineVariance r = v \<and>
       (let g = foldBaseline msqrt (spike_fold ?P) (ob_Frequency obs) a now (pt_Count p) r
        in pt_BaselineFrequency q = pt_BaselineFrequency g \<and> pt_BaselineVariance q = pt_BaselineVariance g)"
    using learn_one_get [OF p(1), of msqrt now b] p f unfolding cat1 by metis
  have qb: "pt_BaselineFrequency q = m" "pt_BaselineVariance q = v"
    using base held_out [OF burst par(1-3) p(6)] by (auto simp: Let_def)
  have known: "isLogKnown (pt_Verdict q) (pt_Count q - ob_Frequency obs) (cc_AutoPromoteAfter (lb_cat b))"
    using p(5) q by simp
  let ?res = "evalSpike m ?std (pt_Count q - ob_Frequency obs) (ob_Frequency obs) ?P"
  have res: "sr_Spike ?res" "\<not> sr_Ceiling ?res"
    using burst p(6) par q(3) by (auto simp: evalSpike_def burst_tick_def Let_def)
  let ?n = "gm_get0 0 (bs_streak s) ?k + 1"
  have conf: "confirmSpike b ?k ?res s1 = (?n \<ge> sp_SustainTicks ?P, s1\<lparr>bs_streak := gm_set (bs_streak s) ?k ?n\<rparr>)"
    using res by (simp add: confirmSpike_def Let_def cat1)
  let ?s2 = "s1\<lparr>bs_streak := gm_set (bs_streak s) ?k ?n\<rparr>"
  obtain l1 l2 label where label: "resolveBaseline msqrt baselineModeDefault b q (ob_Timestamp obs) = (l1, l2, label)"
    by (metis prod_cases3)
  obtain c where c: "log_Classify msqrt baselineModeDefault b obs m ?std True s1 = (c, ?s2)"
      "tv_Class c = (if ?n \<ge> sp_SustainTicks ?P then VerdictSpike else VerdictKnownPattern)"
    using q(1) known conf
    by (cases "?n \<ge> sp_SustainTicks ?P") (simp_all add: log_Classify_def cat_Get_def Let_def label)
  have s': "verdict = c" "s' = log_Promote b ?k ?s2"
    using tick by (simp_all add: log_tick_def exp s1_def [symmetric] c(1))
  have q2: "gm_get (ct_patterns (bs_catalog ?s2)) ?k = Some q" using q(1) by simp
  have known2: "isLogKnown (pt_Verdict q) (pt_Count q) (cc_AutoPromoteAfter (lb_cat b))"
    using known burst par(4) by (auto simp: isLogKnown_def burst_tick_def)
  have "settled_pattern b ?k m v s'"
    using Promote_frame(4) [OF q2, of b] known2 qb q(3,4) p(6) burst par(4) f
    by (auto simp: settled_pattern_def s' Promote_frame isLogKnown_def burst_tick_def cat1 learn_one_frame)
  then show ?thesis using c(2) by (simp add: s' Promote_frame gm_get0_def gm_simps)
qed

lemma other_step:
  assumes "log_tick msqrt g b now obs s = (verdict, s')" "ob_Key obs \<noteq> key"
  shows "settled_pattern b key m v s' = settled_pattern b key m v s"
    "gm_get0 0 (bs_streak s') key = gm_get0 0 (bs_streak s) key"
proof -
  obtain m' std' cf where e: "log_Expected msqrt g b (ob_Key obs) (ob_Timestamp obs) s = (m', std', cf)" by (metis prod_cases3)
  define s1 where "s1 = log_Learn msqrt now b [obs] s"
  define s2 where "s2 = snd (log_Classify msqrt g b obs m' std' cf s1)"
  have s': "s' = log_Promote b (ob_Key obs) s2"
    using assms(1) by (simp add: log_tick_def e s1_def [symmetric] s2_def split_beta)
  have "gm_get (ct_patterns (bs_catalog s')) key = gm_get (ct_patterns (bs_catalog s)) key"
      "ct_fold (bs_catalog s') = ct_fold (bs_catalog s)"
    using assms(2) by (simp_all add: s' Promote_frame s2_def Classify_frame s1_def log_Learn_def learn_one_frame)
  then show "settled_pattern b key m v s' = settled_pattern b key m v s" by (simp add: settled_pattern_def)
  show "gm_get0 0 (bs_streak s') key = gm_get0 0 (bs_streak s) key"
    using assms(2) by (simp add: s' Promote_frame s2_def Classify_frame s1_def log_Learn_def)
qed

text \<open>The classes given to the observations of one pattern.\<close>

definition classes_of :: "string \<Rightarrow> (time \<times> Observation) list \<Rightarrow> TypedVerdict list \<Rightarrow> AgentVerdict list" where
  "classes_of key ticks vs = map (tv_Class \<circ> snd) (filter (\<lambda>((now, obs), v). ob_Key obs = key) (zip ticks vs))"

lemma burst_run:
  assumes "settled_pattern b key m v s" and "\<forall>t \<in> set ticks. ob_Key (snd t) = key \<longrightarrow> burst_tick msqrt b m v (snd t)"
    and par: "m > 0" "sp_Z (lb_params b) > 0" "sp_MinBaselineCount (lb_params b) > 0" "sp_MinFrequency (lb_params b) > 0"
      "sp_AbsCeiling (lb_params b) = 0"
    and "log_ticks msqrt baselineModeDefault b ticks s = (vs, s')"
  shows "settled_pattern b key m v s' \<and>
    classes_of key ticks vs =
      map (\<lambda>i. if gm_get0 0 (bs_streak s) key + int i + 1 \<ge> sp_SustainTicks (lb_params b) then VerdictSpike else VerdictKnownPattern)
        [0..<length (filter (\<lambda>t. ob_Key (snd t) = key) ticks)]"
  using assms(1,2,8)
proof (induction ticks arbitrary: s vs)
  case Nil
  then show ?case by (simp add: classes_of_def)
next
  case (Cons t ticks)
  obtain now obs where t: "t = (now, obs)" by (cases t)
  obtain w s1 where w: "log_tick msqrt baselineModeDefault b now obs s = (w, s1)" by fastforce
  obtain ws where ws: "log_ticks msqrt baselineModeDefault b ticks s1 = (ws, s')" "vs = w # ws"
    using Cons.prems(3) by (auto simp: t w split: prod.splits)
  have rest: "\<forall>t \<in> set ticks. ob_Key (snd t) = key \<longrightarrow> burst_tick msqrt b m v (snd t)" using Cons.prems(2) by simp
  let ?S = "sp_SustainTicks (lb_params b)" and ?n = "length (filter (\<lambda>t. ob_Key (snd t) = key) ticks)"
  show ?case
  proof (cases "ob_Key obs = key")
    case False
    note o = other_step [OF w False]
    show ?thesis using Cons.IH [OF _ rest ws(1)] Cons.prems(1) False o by (simp add: t ws(2) classes_of_def)
  next
    case True
    have "burst_tick msqrt b m v obs" using Cons.prems(2) True by (simp add: t)
    from burst_step [OF _ this par w] Cons.prems(1) True
    have o: "settled_pattern b key m v s1" "gm_get0 0 (bs_streak s1) key = gm_get0 0 (bs_streak s) key + 1"
        "tv_Class w = (if gm_get0 0 (bs_streak s) key + 1 \<ge> ?S then VerdictSpike else VerdictKnownPattern)" by auto
    have "map (\<lambda>i. if gm_get0 0 (bs_streak s) key + int i + 1 \<ge> ?S then VerdictSpike else VerdictKnownPattern) [0..<Suc ?n] =
        tv_Class w # map (\<lambda>i. if gm_get0 0 (bs_streak s1) key + int i + 1 \<ge> ?S then VerdictSpike else VerdictKnownPattern) [0..<?n]"
      by (simp add: upt_conv_Cons map_Suc_upt [symmetric] o(2,3) add.assoc del: upt_Suc map_Suc_upt)
    then show ?thesis using Cons.IH [OF o(1) rest ws(1)] True by (simp add: t ws(2) classes_of_def)
  qed
qed

subsection \<open>Verdict and readiness\<close>





subsection \<open>Properties\<close>

text \<open>
  C25: A burst does not teach itself to the detector. While every tick of a known, confidently learned
  pattern lies at least the configured score above its baseline, the global mean and variance stay
  what they were, and from the configured number of consecutive ticks on every tick is reported as a
  spike, however long the burst lasts and whatever other patterns are seen in between. (The absolute
  ceiling is off, and the pattern is scored in the default mode.)
\<close>

theorem burst_is_flagged_until_it_ends:
  assumes "b = newLogBrain source matcher services alpha cat scrub pollSeconds" "cc_SpikeAbsCeiling cat \<le> 0"
    and "settled_pattern b key m v s" "m > 0" "gm_get0 0 (bs_streak s) key = 0"
    and "\<forall>t \<in> set ticks. ob_Key (snd t) = key \<longrightarrow> burst_tick msqrt b m v (snd t)"
    and "log_ticks msqrt baselineModeDefault b ticks s = (vs, s')"
  shows "settled_pattern b key m v s' \<and>
    classes_of key ticks vs =
      map (\<lambda>i. if int i + 1 \<ge> sp_SustainTicks (lb_params b) then VerdictSpike else VerdictKnownPattern)
        [0..<length (filter (\<lambda>t. ob_Key (snd t) = key) ticks)]"
proof -
  have "sp_Z (lb_params b) > 0" "sp_MinBaselineCount (lb_params b) > 0" "sp_MinFrequency (lb_params b) > 0"
      "sp_AbsCeiling (lb_params b) = 0"
    using assms(2) by (simp_all add: assms(1) newLogBrain_def resolveSpikeParams_def DefaultSpikeZ_def
        DefaultSpikeMinBaselineCount_def DefaultSpikeMinFrequency_def)
  from burst_run [OF assms(3,6,4) this assms(7)] show ?thesis by (simp add: assms(5))
qed

definition wit_cat :: AgentCatalogConfig where
  "wit_cat = \<lparr>cc_AutoPromoteAfter = 0, cc_SpikeZ = 0, cc_SpikeAbsCeiling = 0, cc_SpikeSustainTicks = 2,
     cc_SpikeMinFrequency = 0, cc_SpikeMinBaselineCount = 0\<rparr>"

definition wit_brain :: logBrain where "wit_brain = newLogBrain ''src'' None None 0 wit_cat None 10"

definition wit_state :: brain_state where
  "wit_state = \<lparr>bs_miner = NewMiner 0 0 0,
     bs_catalog = \<lparr>ct_store = False,
       ct_patterns = [(''p'', (new_pattern ''p'' ''t'' ''src'' [] ''svc'' 0)\<lparr>pt_Count := 500, pt_BaselineFrequency := 2,
         pt_BaselineVariance := 4\<rparr>)],
       ct_services = [], ct_dirty = False, ct_fold = spike_fold (lb_params wit_brain)\<rparr>, bs_streak = []\<rparr>"

definition wit_obs :: "string \<Rightarrow> int \<Rightarrow> Observation" where
  "wit_obs key n = \<lparr>ob_Key = key, ob_Service = ''svc'', ob_Signal = ''t'', ob_Timestamp = 0, ob_Value = of_int n,
     ob_Frequency = n, ob_Samples = [], ob_StrongestSeverity = [], ob_IsNew = False\<rparr>"

lemmas wit_params = wit_brain_def newLogBrain_def resolveSpikeParams_def wit_cat_def DefaultSpikeZ_def
  DefaultSpikeMinBaselineCount_def DefaultSpikeMinFrequency_def

theorem burst_is_flagged_until_it_ends_witness:
  "classes_of ''p'' [(1, wit_obs ''p'' 900), (2, wit_obs ''q'' 3), (3, wit_obs ''p'' 1000), (4, wit_obs ''p'' 900)]
     (fst (log_ticks (\<lambda>x. x / 2) baselineModeDefault wit_brain
       [(1, wit_obs ''p'' 900), (2, wit_obs ''q'' 3), (3, wit_obs ''p'' 1000), (4, wit_obs ''p'' 900)] wit_state)) =
   [VerdictKnownPattern, VerdictSpike, VerdictSpike]"
proof -
  let ?ticks = "[(1 :: time, wit_obs ''p'' 900), (2, wit_obs ''q'' 3), (3, wit_obs ''p'' 1000), (4, wit_obs ''p'' 900)]"
  obtain vs s' where run: "log_ticks (\<lambda>x. x / 2) baselineModeDefault wit_brain ?ticks wit_state = (vs, s')" by fastforce
  have "settled_pattern wit_brain ''p'' 2 4 wit_state"
    by (simp add: settled_pattern_def wit_state_def new_pattern_def isLogKnown_def effectiveAutoPromote_def
        DefaultAutoPromoteAfter_def wit_params)
  moreover have "\<forall>t \<in> set ?ticks. ob_Key (snd t) = ''p'' \<longrightarrow> burst_tick (\<lambda>x. x / 2) wit_brain 2 4 (snd t)"
    by (simp add: burst_tick_def wit_obs_def wit_params ZScore_def)
  ultimately have "classes_of ''p'' ?ticks vs = map (\<lambda>i. if int i + 1 \<ge> sp_SustainTicks (lb_params wit_brain) then VerdictSpike
      else VerdictKnownPattern) [0..<length (filter (\<lambda>t. ob_Key (snd t) = ''p'') ?ticks)]"
    using burst_is_flagged_until_it_ends [OF wit_brain_def, of "''p''" 2 4 wit_state ?ticks "\<lambda>x. x / 2" vs s'] run
    by (simp add: wit_cat_def wit_state_def gm_get0_def)
  also have "\<dots> = [VerdictKnownPattern, VerdictSpike, VerdictSpike]"
    by (simp add: wit_params wit_obs_def upt_conv_Cons)
  finally show ?thesis by (simp only: run fst_conv)
qed



end
