(* ===== verification/Detect_Emission.thy ===== *)
theory Detect_Emission
  imports Agent_Types Detect_Log Go_Format
begin

text \<open>
  What the agent does with an anomaly in detect mode (\<open>emitDetect\<close>, \<open>send\<close> and their helpers in
  \<open>pkg/agent/worker.go\<close>, \<open>pkg/agent/deterministic_finding.go\<close>): enrich it through the AI when that is
  possible, fall back to a finding built from the numbers otherwise, and hand it to the emitter.

  The world \<open>'x\<close> is what the model does not look into: the AI service, the hourly limiter, the
  emitter's channels. Its operations are the fields of an environment; the clock and fresh ids of
  one call are read once. A float64 is an exact fraction, \<open>bits\<close> its encoding.
\<close>

text \<open>The tool calls of an \<open>AICallResult\<close> are nil for the detect analyzer.\<close>

record AICallResult =
  dc_Finding :: AIFinding
  dc_Model :: string
  dc_UserPrompt :: string
  dc_RawResponse :: string
  dc_DurationMs :: int

text \<open>
  \<open>en_ai_enabled\<close> is the answer of the runtime settings resolver (\<open>None\<close> without one or without an
  opinion); an analyzer answers with an error text or a call; an emitter returns what it noted about
  the emission and whether it failed. The function fields are \<open>None\<close> where the code has nil.
\<close>

record 'x env =
  en_now :: "'x \<Rightarrow> time"
  en_fresh :: "'x \<Rightarrow> string"
  en_bits :: "rat \<Rightarrow> 64 word"
  en_ai_enabled :: "'x \<Rightarrow> bool option"
  en_allow :: "'x \<Rightarrow> bool \<times> 'x"
  en_detect :: "(AgentResult \<Rightarrow> 'x \<Rightarrow> (string + AICallResult) \<times> 'x) option"
  en_emitter :: "(AIFinding \<Rightarrow> AgentResult \<Rightarrow> string \<Rightarrow> string \<Rightarrow> 'x \<Rightarrow> (DetectionEmissionResult \<times> bool) \<times> 'x) option"

record 'x emission_state =
  es_cache :: "AIFinding ResultCache option"
  es_detect :: "DetectLog option"
  es_world :: 'x

definition effectiveAIEnabled :: "('x, 'z) env_scheme \<Rightarrow> 'x \<Rightarrow> bool" where
  "effectiveAIEnabled env x = (case en_ai_enabled env x of Some enabled \<Rightarrow> enabled | None \<Rightarrow> True)"

subsection \<open>Helpers\<close>

definition truncateString :: "string \<Rightarrow> nat \<Rightarrow> string" where
  "truncateString s n = (if length s \<le> n then s else take n s @ ellipsis)"

definition sampleMessages :: "Signal list \<Rightarrow> nat \<Rightarrow> string list" where
  "sampleMessages signals n = take n (filter (\<lambda>m. m \<noteq> []) (map sg_Message signals))"

definition empty_emission :: DetectionEmissionResult where
  "empty_emission = \<lparr>em_Fingerprint = [], em_EpisodeID = [], em_IncidentID = [], em_OccurrenceDelta = 0,
     em_OccurrenceCount = 0, em_EpisodeAction = [], em_NotificationOutcome = [], em_EpisodeError = []\<rparr>"

subsection \<open>The deterministic finding\<close>

definition heuristicMarker :: string where
  "heuristicMarker = ''Heuristic detection '' @ em_dash @ '' AI enrichment not configured or unavailable.''"

definition deviationSigma :: "rat \<Rightarrow> rat \<Rightarrow> rat" where
  "deviationSigma score baselineStd = (if baselineStd \<le> 0 then 0 else abs (score / baselineStd))"

definition severityFromSigma :: "rat \<Rightarrow> rat \<Rightarrow> string" where
  "severityFromSigma baselineStd sigma =
     (if baselineStd \<le> 0 then ''medium''
      else if sigma \<ge> 5 then ''critical''
      else if sigma \<ge> 3 then ''high''
      else ''medium'')"

definition heuristicConfidence :: "rat \<Rightarrow> rat \<Rightarrow> rat" where
  "heuristicConfidence baselineStd sigma =
     (if baselineStd \<le> 0 then 1 / 2
      else
        let c = 1 / 2 + 9 / 100 * sigma;
            c = (if c > 95 / 100 then 95 / 100 else c)
        in if c < 1 / 2 then 1 / 2 else c)"

definition resolveSubjectService :: "AgentResult \<Rightarrow> string \<Rightarrow> string" where
  "resolveSubjectService result service =
     (if service \<noteq> [] then service
      else case find (\<lambda>s. sg_Source s \<noteq> []) (ar_SampleSignals result) of
             Some s \<Rightarrow> sg_Source s
           | None \<Rightarrow> if ar_PatternID result \<noteq> [] then ar_PatternID result else ''unknown-service'')"

text \<open>\<open>fields[name].(string)\<close>, the empty string when that fails.\<close>

definition field_string :: "content \<Rightarrow> string \<Rightarrow> string" where
  "field_string fs name =
     (case fs of
        None \<Rightarrow> []
      | Some m \<Rightarrow> (case gm_get m name of Some (VStr s) \<Rightarrow> s | _ \<Rightarrow> []))"

definition titleSubject :: "AgentResult \<Rightarrow> string" where
  "titleSubject result =
     (case find (\<lambda>s. field_string (sg_Fields s) FieldSignal \<noteq> []) (ar_SampleSignals result) of
        Some s \<Rightarrow> field_string (sg_Fields s) FieldSignal
      | None \<Rightarrow>
          if ar_Template result \<noteq> [] then ar_Template result
          else if ar_PatternID result \<noteq> [] then ar_PatternID result
          else ''anomaly'')"

definition deterministicTitle :: "AgentResult \<Rightarrow> string \<Rightarrow> rat \<Rightarrow> rat \<Rightarrow> string" where
  "deterministicTitle result svc sigma baselineStd =
     (let subject = truncateString (titleSubject result) 120
      in if baselineStd > 0
         then ''Anomaly: '' @ svc @ '' '' @ em_dash @ '' '' @ subject @ '' ('' @ show_fixed 1 sigma @ sigma_sign @
              '' above baseline '' @ show_fixed 2 (ar_Baseline result) @ plus_minus @ show_fixed 2 baselineStd @ '')''
         else ''Anomaly: '' @ svc @ '' '' @ em_dash @ '' '' @ subject @ '' '' @ times_sign @ show_int (ar_Frequency result))"

text \<open>Upper case of an ASCII first letter; the labels it is used on are ASCII.\<close>

definition capitalize :: "string \<Rightarrow> string" where
  "capitalize s =
     (case s of
        [] \<Rightarrow> []
      | c # cs \<Rightarrow> (if CHR ''a'' \<le> c \<and> c \<le> CHR ''z'' then char_of ((of_char c :: nat) - 32) else c) # cs)"

definition newline :: string where "newline = [CHR 0x0A]"

definition deterministicSummary :: "AgentResult \<Rightarrow> AgentVerdict \<Rightarrow> string \<Rightarrow> string \<Rightarrow> string" where
  "deterministicSummary result verdict svc explanation =
     (let line = (if explanation = []
                  then capitalize (verdict_String verdict) @ '' anomaly on '' @ svc @ '' (frequency '' @
                       show_int (ar_Frequency result) @ '').''
                  else explanation);
          samples = sampleMessages (ar_SampleSignals result) 3
      in line @ newline @ heuristicMarker @
         (if samples \<noteq> []
          then newline @ ''Sample signals:'' @ concat (map (\<lambda>s. newline @ ''- '' @ truncateString s 200) samples) else []))"

definition deterministicSampleIDs :: "AgentResult \<Rightarrow> string list" where
  "deterministicSampleIDs result = (if ar_PatternID result = [] then [] else [ar_PatternID result])"

definition deterministicFinding ::
  "(rat \<Rightarrow> 64 word) \<Rightarrow> AgentResult \<Rightarrow> AgentVerdict \<Rightarrow> string \<Rightarrow> rat \<Rightarrow> rat \<Rightarrow> string \<Rightarrow> AIFinding" where
  "deterministicFinding bits result verdict service score baselineStd explanation =
     (let svc = resolveSubjectService result service;
          sigma = deviationSigma score baselineStd;
          f = \<lparr>fi_Title = deterministicTitle result svc sigma baselineStd,
               fi_Summary = deterministicSummary result verdict svc explanation,
               fi_Severity = severityFromSigma baselineStd sigma,
               fi_Category = ''anomaly'',
               fi_Confidence = bits (heuristicConfidence baselineStd sigma),
               fi_Suggestions =
                 [''Review the sampled signals above and correlate with recent deploys or config changes.'',
                  ''Configure an AI key to enrich future detections with automated triage.''],
               fi_SampleIDs = deterministicSampleIDs result,
               fi_RootCauseHypotheses = [], fi_Evidence = [], fi_RelatedPatternIDs = [], fi_NextSteps = []\<rparr>
      in clampSeverityFloor f (ar_RuleSeverity result))"

lemma heuristicConfidence_bounds:
  "1 / 2 \<le> heuristicConfidence baselineStd sigma" "heuristicConfidence baselineStd sigma \<le> 95 / 100"
  by (simp_all add: heuristicConfidence_def Let_def)

subsection \<open>Sending and recording\<close>

definition recordDetectEvent ::
  "('x, 'z) env_scheme \<Rightarrow> DetectEvent \<Rightarrow> DetectionEmissionResult \<Rightarrow> ('x, 'y) emission_state_scheme \<Rightarrow> ('x, 'y) emission_state_scheme" where
  "recordDetectEvent env event emission w =
     w\<lparr>es_detect := Record (en_fresh env (es_world w)) (en_now env (es_world w))
         (Some (event\<lparr>de_EpisodeID := em_EpisodeID emission, de_IncidentID := em_IncidentID emission,
                      de_OccurrenceDelta := em_OccurrenceDelta emission, de_OccurrenceCount := em_OccurrenceCount emission,
                      de_EpisodeAction := em_EpisodeAction emission, de_NotificationOutcome := em_NotificationOutcome emission,
                      de_EpisodeError := em_EpisodeError emission\<rparr>))
         (es_detect w)\<rparr>"

text \<open>The outcome, the finding as it was sent, what the emitter noted, and the new state.\<close>

definition send ::
  "('x, 'z) env_scheme \<Rightarrow> AIFinding \<Rightarrow> AgentResult \<Rightarrow> string \<Rightarrow> string \<Rightarrow> string \<Rightarrow> ('x, 'y) emission_state_scheme \<Rightarrow>
   string \<times> AIFinding \<times> DetectionEmissionResult \<times> ('x, 'y) emission_state_scheme" where
  "send env finding result source service okLabel w =
     (let finding = clampSeverityFloor finding (ar_RuleSeverity result)
      in case en_emitter env of
           None \<Rightarrow> (okLabel, finding, ar_DetectionEmission result, w)
         | Some emitter \<Rightarrow>
             let ((emission, failed), x) = emitter finding result source service (es_world w)
             in (if failed then ''send_error'' else okLabel, finding, emission, w\<lparr>es_world := x\<rparr>))"

text \<open>
  The steps the paths of \<open>emitDetect\<close> share: send, stamp the event with the finding and the outcome,
  and with an error text when sending failed (\<open>[]\<close> where the path keeps the event's own), record it.
\<close>

definition send_and_record ::
  "('x, 'z) env_scheme \<Rightarrow> AIFinding \<Rightarrow> AgentResult \<Rightarrow> string \<Rightarrow> string \<Rightarrow> string \<Rightarrow> DetectEvent \<Rightarrow> string \<Rightarrow>
   ('x, 'y) emission_state_scheme \<Rightarrow> string \<times> ('x, 'y) emission_state_scheme" where
  "send_and_record env finding result source service okLabel evt errText w =
     (let (outcome, finding, emission, w) = send env finding result source service okLabel w;
          evt = evt\<lparr>de_Finding := Some finding, de_Outcome := outcome\<rparr>;
          evt = (if outcome = ''send_error'' \<and> errText \<noteq> [] then evt\<lparr>de_Error := errText\<rparr> else evt)
      in (outcome, recordDetectEvent env evt emission w))"

definition rule_severity :: "Signal list \<Rightarrow> string list \<Rightarrow> string" where
  "rule_severity signals full =
     (let ruleSeverity = strongestSeverity signals
      in case full of
           [] \<Rightarrow> ruleSeverity
         | s # _ \<Rightarrow> if SeverityRank s > SeverityRank ruleSeverity then NormalizeSeverity s else ruleSeverity)"

definition detect_result ::
  "string \<Rightarrow> string \<Rightarrow> string \<Rightarrow> int \<Rightarrow> Signal list \<Rightarrow> AgentVerdict \<Rightarrow> rat \<Rightarrow> string \<Rightarrow> AgentResult" where
  "detect_result signalKind patternID template frequency signals verdict prevBaseline ruleSeverity =
     \<lparr>ar_Verdict = verdict, ar_PatternID = patternID, ar_Template = template, ar_SampleSignals = signals,
      ar_Frequency = frequency, ar_Baseline = prevBaseline, ar_AgentKind = ''detect'', ar_SignalKind = signalKind,
      ar_DetectionEmission = empty_emission, ar_RuleSeverity = ruleSeverity\<rparr>"

definition empty_event :: DetectEvent where
  "empty_event = \<lparr>de_ID = [], de_Timestamp = 0, de_Source = [], de_PatternID = [], de_Template = [], de_Service = [],
     de_Verdict = [], de_Frequency = 0, de_Baseline = 0, de_BaselineStd = 0, de_Score = 0, de_Explanation = [],
     de_Samples = [], de_RuleSeverity = [], de_EpisodeID = [], de_IncidentID = [], de_OccurrenceDelta = 0,
     de_OccurrenceCount = 0, de_EpisodeAction = [], de_NotificationOutcome = [], de_EpisodeError = [], de_Model = [],
     de_UserPrompt = [], de_RawResponse = [], de_DurationMs = 0, de_Finding = None, de_Outcome = [], de_Error = []\<rparr>"

definition emitDetect ::
  "('x, 'z) env_scheme \<Rightarrow> string \<Rightarrow> string \<Rightarrow> string \<Rightarrow> string \<Rightarrow> string \<Rightarrow> int \<Rightarrow> Signal list \<Rightarrow> AgentVerdict \<Rightarrow>
   rat \<Rightarrow> rat \<Rightarrow> rat \<Rightarrow> string \<Rightarrow> string list \<Rightarrow> ('x, 'y) emission_state_scheme \<Rightarrow> string \<times> ('x, 'y) emission_state_scheme" where
  "emitDetect env source signalKind patternID template service frequency signals verdict prevBaseline score baselineStd
     explanation fullObservationSeverity w =
     (let ruleSeverity = rule_severity signals fullObservationSeverity;
          result = detect_result signalKind patternID template frequency signals verdict prevBaseline ruleSeverity;
          evt = empty_event\<lparr>de_Source := source, de_PatternID := patternID, de_Template := template, de_Service := service,
            de_Verdict := verdict_String verdict, de_Frequency := frequency, de_Baseline := prevBaseline,
            de_BaselineStd := baselineStd, de_Score := score, de_Explanation := explanation,
            de_Samples := sampleMessages signals 3, de_RuleSeverity := ruleSeverity\<rparr>;
          basic = deterministicFinding (en_bits env) result verdict service score baselineStd explanation
      in case (if effectiveAIEnabled env (es_world w) then en_detect env else None) of
           None \<Rightarrow>
             send_and_record env basic result source service ''emitted_basic'' (evt\<lparr>de_Model := ''heuristic''\<rparr>)
               ''emitter returned error'' w
         | Some run \<Rightarrow>
             (case cache_Get (es_cache w) (en_now env (es_world w)) patternID of
                Some cached \<Rightarrow>
                  send_and_record env cached result source service ''cached'' evt ''emitter returned error (see logs)'' w
              | None \<Rightarrow>
                  let (allowed, x) = en_allow env (es_world w); w = w\<lparr>es_world := x\<rparr>
                  in if \<not> allowed then
                       send_and_record env basic result source service ''emitted_basic_quota'' (evt\<lparr>de_Model := ''heuristic''\<rparr>)
                         ''emitter returned error'' w
                     else
                       (case run result (es_world w) of
                          (Inl err, x) \<Rightarrow>
                            send_and_record env basic result source service ''emitted_basic_error''
                              (evt\<lparr>de_Model := ''heuristic'', de_Error := err\<rparr>) [] (w\<lparr>es_world := x\<rparr>)
                        | (Inr call, x) \<Rightarrow>
                            let w = w\<lparr>es_world := x,
                                  es_cache := cache_Put (en_now env x) patternID (Some (dc_Finding call)) (es_cache w)\<rparr>
                            in send_and_record env (dc_Finding call) result source service ''emitted''
                                 (evt\<lparr>de_Model := dc_Model call, de_UserPrompt := dc_UserPrompt call,
                                      de_RawResponse := dc_RawResponse call, de_DurationMs := dc_DurationMs call\<rparr>)
                                 ''emitter returned error (see logs)'' w)))"

subsection \<open>An anomaly is never dropped\<close>

text \<open>
  Which finding is sent, under which label, and the state it is sent from: the specification of the
  four paths.
\<close>

definition chosen_finding ::
  "('x, 'z) env_scheme \<Rightarrow> AgentResult \<Rightarrow> AIFinding \<Rightarrow> ('x, 'y) emission_state_scheme \<Rightarrow>
   string \<times> AIFinding \<times> ('x, 'y) emission_state_scheme" where
  "chosen_finding env result basic w =
     (if en_detect env = None \<or> \<not> effectiveAIEnabled env (es_world w) then (''emitted_basic'', basic, w)
      else case cache_Get (es_cache w) (en_now env (es_world w)) (ar_PatternID result) of
             Some f \<Rightarrow> (''cached'', f, w)
           | None \<Rightarrow>
               (case en_allow env (es_world w) of
                  (False, x) \<Rightarrow> (''emitted_basic_quota'', basic, w\<lparr>es_world := x\<rparr>)
                | (True, x) \<Rightarrow>
                    (case the (en_detect env) result x of
                       (Inl err, y) \<Rightarrow> (''emitted_basic_error'', basic, w\<lparr>es_world := y\<rparr>)
                     | (Inr call, y) \<Rightarrow>
                         (''emitted'', dc_Finding call,
                          w\<lparr>es_world := y,
                            es_cache := cache_Put (en_now env y) (ar_PatternID result) (Some (dc_Finding call)) (es_cache w)\<rparr>))))"

lemma send_and_record_spec:
  assumes "en_emitter env = Some emitter" "es_detect w = Some d"
    and "emitter (clampSeverityFloor f (ar_RuleSeverity result)) result source service (es_world w) = ((emission, failed), x)"
    and "send_and_record env f result source service label evt errText w = (outcome, w')"
  shows "outcome = (if failed then ''send_error'' else label) \<and>
    es_world w' = x \<and> es_cache w' = es_cache w \<and> emission_state.more w' = emission_state.more w \<and>
    (\<exists>e. es_detect w' = Record (en_fresh env x) (en_now env x) (Some e) (Some d) \<and>
       de_Source e = de_Source evt \<and> de_PatternID e = de_PatternID evt \<and> de_Finding e = Some (clampSeverityFloor f (ar_RuleSeverity result)) \<and>
       de_Outcome e = outcome \<and> de_EpisodeID e = em_EpisodeID emission \<and> de_IncidentID e = em_IncidentID emission \<and>
       de_NotificationOutcome e = em_NotificationOutcome emission)"
proof -
  have send: "send env f result source service label w =
      (if failed then ''send_error'' else label, clampSeverityFloor f (ar_RuleSeverity result), emission, w\<lparr>es_world := x\<rparr>)"
    using assms(1,3) by (simp add: send_def Let_def)
  show ?thesis using assms(2,4) by (auto simp: send_and_record_def send recordDetectEvent_def Let_def)
qed

lemma emitDetect_chosen:
  assumes "chosen_finding env result (deterministicFinding (en_bits env) result verdict service score baselineStd explanation) w = (label, f, w1)"
    and "result = detect_result signalKind patternID template frequency signals verdict prevBaseline (rule_severity signals full)"
  shows "\<exists>evt errText. de_Source evt = source \<and> de_PatternID evt = patternID \<and>
    emitDetect env source signalKind patternID template service frequency signals verdict prevBaseline score baselineStd
      explanation full w = send_and_record env f result source service label evt errText w1"
proof -
  have id: "ar_PatternID result = patternID" by (simp add: assms(2) detect_result_def)
  have eq: "send_and_record env f result source service label evt errText w1 = send_and_record env f' result source service label' evt errText w2"
    if "(label, f, w1) = (label', f', w2)" for label' f' w2 evt errText using that by simp
  consider (off) "\<not> effectiveAIEnabled env (es_world w) \<or> en_detect env = None"
    | (on) run where "effectiveAIEnabled env (es_world w)" "en_detect env = Some run" by fastforce
  then show ?thesis
  proof cases
    case off
    then have "(if effectiveAIEnabled env (es_world w) then en_detect env else None) = None" by auto
    then show ?thesis using assms(1) off
      unfolding emitDetect_def Let_def assms(2) [symmetric] chosen_finding_def
      by (auto simp: empty_event_def intro!: exI)
  next
    case on
    show ?thesis
    proof (cases "cache_Get (es_cache w) (en_now env (es_world w)) patternID")
      case (Some c)
      then show ?thesis using assms(1) on
        unfolding emitDetect_def Let_def assms(2) [symmetric] chosen_finding_def
        by (auto simp: id empty_event_def intro!: exI)
    next
      case None
      obtain allowed x where al: "en_allow env (es_world w) = (allowed, x)" by fastforce
      obtain r y where run: "run result x = (r, y)" by fastforce
      show ?thesis using assms(1) on None
        unfolding emitDetect_def Let_def assms(2) [symmetric] chosen_finding_def
        by (cases allowed; cases r) (auto simp: id al run empty_event_def intro!: exI)
    qed
  qed
qed

lemma rule_severity_max:
  "s \<in> set signals \<Longrightarrow> SeverityRank (sg_Severity s) \<le> SeverityRank (rule_severity signals full)"
  "SeverityRank s' \<le> SeverityRank (rule_severity signals (s' # full))"
  using strongestSeverity_max [of s signals]
  by (auto simp: rule_severity_def Let_def SeverityRank_Normalize split: list.split)

subsection \<open>Property\<close>

text \<open>
  C27: An anomaly is never dropped. Whatever the state of the AI, its cache, its quota and its answer,
  one finding is handed to the emitter, exactly once and from the state the chosen path leaves; it is
  at least as severe as every signal of the group and as the severity computed over the whole
  observation, a failing emitter is reported as the outcome, and exactly one event with this finding
  and outcome goes into the detect log.
\<close>

theorem anomaly_is_never_dropped:
  assumes "en_emitter env = Some emitter" and "es_detect w = Some d"
    and "result = detect_result signalKind patternID template frequency signals verdict prevBaseline
          (rule_severity signals [observed])"
    and "chosen_finding env result (deterministicFinding (en_bits env) result verdict service score baselineStd explanation) w
          = (label, f, w1)"
    and "sent = clampSeverityFloor f (ar_RuleSeverity result)"
    and "emitter sent result source service (es_world w1) = ((emission, failed), x)"
    and "emitDetect env source signalKind patternID template service frequency signals verdict prevBaseline score baselineStd
           explanation [observed] w = (outcome, w')"
  shows "es_world w' = x \<and> es_cache w' = es_cache w1 \<and>
    outcome = (if failed then ''send_error'' else label) \<and>
    (\<forall>s. s \<in> set signals \<longrightarrow> SeverityRank (sg_Severity s) \<le> SeverityRank (fi_Severity sent)) \<and>
    SeverityRank observed \<le> SeverityRank (fi_Severity sent) \<and> SeverityRank (fi_Severity f) \<le> SeverityRank (fi_Severity sent) \<and>
    (\<exists>e. es_detect w' = Record (en_fresh env x) (en_now env x) (Some e) (Some d) \<and>
       de_Source e = source \<and> de_PatternID e = patternID \<and> de_Finding e = Some sent \<and> de_Outcome e = outcome \<and>
       de_EpisodeID e = em_EpisodeID emission \<and> de_IncidentID e = em_IncidentID emission)"
proof -
  obtain evt errText where e: "de_Source evt = source" "de_PatternID evt = patternID"
      "emitDetect env source signalKind patternID template service frequency signals verdict prevBaseline score baselineStd
        explanation [observed] w = send_and_record env f result source service label evt errText w1"
    using emitDetect_chosen [OF assms(4,3), of source] by blast
  have d1: "es_detect w1 = Some d"
    using assms(2,4) by (auto simp: chosen_finding_def split: if_splits option.splits prod.splits bool.splits sum.splits)
  have floor: "SeverityRank (rule_severity signals [observed]) \<le> SeverityRank (fi_Severity sent)"
    unfolding assms(5) using clamp_floor [of "ar_RuleSeverity result" f] by (simp add: assms(3) detect_result_def)
  note max = order_trans [OF rule_severity_max(1) floor] order_trans [OF rule_severity_max(2) floor]
  note spec = send_and_record_spec [OF assms(1) d1 assms(6) [unfolded assms(5)], of label evt errText outcome w']
  show ?thesis
    using spec assms(7) e max clamp_never_lowers [of f "ar_RuleSeverity result"] by (auto simp: assms(5))
qed

definition wit_emitter :: "AIFinding \<Rightarrow> AgentResult \<Rightarrow> string \<Rightarrow> string \<Rightarrow> string list \<Rightarrow> (DetectionEmissionResult \<times> bool) \<times> string list" where
  "wit_emitter f r source service x = ((empty_emission, False), x @ [fi_Severity f])"

text \<open>The AI is on and within its quota, but its call fails.\<close>

definition wit_env :: "string list env" where
  "wit_env = \<lparr>en_now = (\<lambda>_. 5), en_fresh = (\<lambda>_. ''id''), en_bits = (\<lambda>_. 0), en_ai_enabled = (\<lambda>_. None),
     en_allow = (\<lambda>x. (True, x)), en_detect = Some (\<lambda>r x. (Inl ''timeout'', x)), en_emitter = Some wit_emitter\<rparr>"

definition wit_log :: DetectLog where
  "wit_log = \<lparr>dl_store = False, dl_blobName = ''detect'', dl_events = [], dl_max = 10, dl_dirty = False\<rparr>"

definition wit_emission :: "string list emission_state" where
  "wit_emission = \<lparr>es_cache = None, es_detect = Some wit_log, es_world = []\<rparr>"

definition wit_signal :: Signal where
  "wit_signal = \<lparr>sg_Source = ''s'', sg_Timestamp = 0, sg_Severity = ''critical'', sg_Message = ''m'', sg_Fields = None, sg_Raw = None\<rparr>"

definition wit_result :: AgentResult where
  "wit_result = detect_result ''logs'' ''p'' ''t'' 7 [wit_signal] VerdictUnknown 0 (rule_severity [wit_signal] [''high''])"

definition wit_basic :: AIFinding where
  "wit_basic = deterministicFinding (en_bits wit_env) wit_result VerdictUnknown ''svc'' 0 0 []"

theorem anomaly_is_never_dropped_witness:
  "\<exists>w'. emitDetect wit_env ''src'' ''logs'' ''p'' ''t'' ''svc'' 7 [wit_signal] VerdictUnknown 0 0 0 [] [''high''] wit_emission =
      (''emitted_basic_error'', w') \<and> es_world w' = [''critical'']"
proof -
  obtain outcome w' where run: "emitDetect wit_env ''src'' ''logs'' ''p'' ''t'' ''svc'' 7 [wit_signal] VerdictUnknown 0 0 0 []
      [''high''] wit_emission = (outcome, w')" by fastforce
  have a: "en_emitter wit_env = Some wit_emitter" "es_detect wit_emission = Some wit_log"
    by (simp_all add: wit_env_def wit_emission_def)
  have c: "chosen_finding wit_env wit_result wit_basic wit_emission = (''emitted_basic_error'', wit_basic, wit_emission)"
    by (simp add: chosen_finding_def wit_env_def wit_emission_def effectiveAIEnabled_def cache_Get_def)
  have sev: "fi_Severity (clampSeverityFloor wit_basic (ar_RuleSeverity wit_result)) = ''critical''" by code_simp
  have e: "wit_emitter (clampSeverityFloor wit_basic (ar_RuleSeverity wit_result)) wit_result ''src'' ''svc'' (es_world wit_emission)
      = ((empty_emission, False), [''critical''])"
    by (simp add: wit_emitter_def wit_emission_def sev)
  from anomaly_is_never_dropped [OF a wit_result_def c [unfolded wit_basic_def] refl e [unfolded wit_basic_def] run]
  show ?thesis using run by auto
qed

end
