(* ===== verification/Agent_Worker.thy ===== *)
theory Agent_Worker
  imports Detect_Emission Log_Brain Shadow_Log Memory_State
begin

text \<open>
  How the worker processes one batch of signals (\<open>processSourceBatch\<close>, \<open>handleObservation\<close> and their
  helpers in \<open>pkg/agent/worker.go\<close>), which mode it runs in (\<open>pkg/agent/mode.go\<close>), which kind a source
  has (\<open>pkg/signalsources/kind.go\<close>) and which brain serves it (\<open>pkg/agent/brain.go\<close>).

  The brain of a source is behind the interfaces \<open>SignalLearner\<close> and \<open>SignalDetector\<close>: a record of
  operations on the shared catalog and a private state. \<open>log_typed_brain\<close> is the built-in one; brains
  for metrics and traces are registered from outside the repository. The clock of the model is read
  once per batch (\<open>now\<close>), the clock of the emission through the world.
\<close>

subsection \<open>Modes\<close>

definition isValidMode :: "string \<Rightarrow> bool" where
  "isValidMode m = (m \<in> {''training'', ''shadow'', ''detect''})"

text \<open>A resolver is \<open>None\<close> when none is installed; its own \<open>None\<close> is \<open>ok = false\<close>.\<close>

definition EffectiveModeForOrg :: "(string \<Rightarrow> string option) option option \<Rightarrow> string \<Rightarrow> string \<Rightarrow> string" where
  "EffectiveModeForOrg resolver org yamlFloor =
     (case resolver of
        Some (Some get) \<Rightarrow> (case get org of Some m \<Rightarrow> if isValidMode m then m else yamlFloor | None \<Rightarrow> yamlFloor)
      | _ \<Rightarrow> yamlFloor)"

definition effectiveMode :: "(string \<Rightarrow> string option) option \<Rightarrow> string \<Rightarrow> string" where
  "effectiveMode resolver cfgMode =
     (let yaml = (if cfgMode = [] then ''training'' else cfgMode)
      in case resolver of
           None \<Rightarrow> yaml
         | Some get \<Rightarrow> (case get [] of Some m \<Rightarrow> if isValidMode m then m else yaml | None \<Rightarrow> yaml))"

lemma effectiveMode_valid:
  "isValidMode cfgMode \<or> cfgMode = [] \<Longrightarrow> isValidMode (effectiveMode resolver cfgMode)"
  by (auto simp: effectiveMode_def Let_def isValidMode_def split: option.split)

text \<open>\<open>parse\<close> is \<open>time.ParseDuration\<close>, \<open>None\<close> for its error.\<close>

definition parseDurationOr :: "(string \<Rightarrow> duration option) \<Rightarrow> string \<Rightarrow> duration \<Rightarrow> duration" where
  "parseDurationOr parse s dflt =
     (if s = [] then dflt
      else case parse s of Some d \<Rightarrow> if d \<le> 0 then dflt else d | None \<Rightarrow> dflt)"

subsection \<open>Kinds of sources\<close>

definition KindUnknown :: string where "KindUnknown = ''unknown''"
definition KindLogs :: string where "KindLogs = ''logs''"
definition KindMetrics :: string where "KindMetrics = ''metrics''"
definition KindTraces :: string where "KindTraces = ''traces''"

text \<open>\<open>None\<close> is the panic of a second or an empty registration.\<close>

definition RegisterKind :: "string \<Rightarrow> string \<Rightarrow> (string, string) gomap \<Rightarrow> (string, string) gomap option" where
  "RegisterKind sourceType kind registry =
     (if sourceType = [] \<or> kind = [] \<or> gm_has registry sourceType then None
      else Some (gm_set registry sourceType kind))"

definition KindOf :: "(string, string) gomap \<Rightarrow> string \<Rightarrow> string" where
  "KindOf registry sourceType = gm_get0 KindUnknown registry sourceType"

definition builtin_kinds :: "(string, string) gomap" where
  "builtin_kinds = map (\<lambda>t. (t, KindLogs))
     [''elasticsearch'', ''file'', ''loki'', ''cloudwatchlogs'', ''graylog'', ''splunk'', ''signoz'']"

lemma builtin_kinds_registered:
  "foldl (\<lambda>r t. Option.bind r (RegisterKind t KindLogs)) (Some [])
     [''elasticsearch'', ''file'', ''loki'', ''cloudwatchlogs'', ''graylog'', ''splunk'', ''signoz''] = Some builtin_kinds"
  by code_simp

definition MatchesConfiguredName :: "string \<Rightarrow> string \<Rightarrow> bool" where
  "MatchesConfiguredName sourceID configuredName =
     (sourceID = configuredName \<or> configuredName \<noteq> [] \<and> suffix (CHR '':'' # configuredName) sourceID)"

text \<open>
  The kinds \<open>NewWorker\<close> stores: those of the enabled configured names, then those of the sources by
  the first enabled configuration whose name fits. A configuration is name, type and enabled.
\<close>

definition kinds_by_name ::
  "(string, string) gomap \<Rightarrow> (string \<times> string \<times> bool) list \<Rightarrow> string list \<Rightarrow> (string, string) gomap" where
  "kinds_by_name registry configured sources =
     (let kinds = fold (\<lambda>(name, ty, enabled) m. if enabled then gm_set m name (KindOf registry ty) else m) configured []
      in fold (\<lambda>source m.
           case find (\<lambda>(name, ty, enabled). enabled \<and> MatchesConfiguredName source name) configured of
             Some (name, ty, enabled) \<Rightarrow> gm_set m source (KindOf registry ty)
           | None \<Rightarrow> m) sources kinds)"

subsection \<open>The worker\<close>

record learn_exclusion =
  lx_Learning :: "string \<Rightarrow> string \<Rightarrow> bool"
  lx_LogPattern :: "string \<Rightarrow> string \<Rightarrow> bool"

record worker_cfg =
  wc_orgID :: string
  wc_newServiceGrace :: duration
  wc_owns_health :: bool
  wc_redactor :: "redactRule list option"
  wc_exclusion :: "learn_exclusion option"
  wc_services :: "regexp list option"
  wc_matcher :: "RegexMatcher option"
  wc_matchAll :: "RegexMatcher option"
  wc_metricsMatcher :: "RegexMatcher option"
  wc_tracesMatcher :: "RegexMatcher option"
  wc_kindByName :: "(string, string) gomap"

definition sourceKind :: "worker_cfg \<Rightarrow> string \<Rightarrow> string" where
  "sourceKind cfg name =
     (let kind = gm_get0 [] (wc_kindByName cfg) name in if kind \<noteq> [] then kind else KindUnknown)"

definition matcherForSource :: "worker_cfg \<Rightarrow> string \<Rightarrow> RegexMatcher option" where
  "matcherForSource cfg name =
     (let kind = gm_get0 [] (wc_kindByName cfg) name
      in if kind = KindMetrics then (if wc_metricsMatcher cfg \<noteq> None then wc_metricsMatcher cfg else wc_matchAll cfg)
         else if kind = KindTraces then (if wc_tracesMatcher cfg \<noteq> None then wc_tracesMatcher cfg else wc_matchAll cfg)
         else wc_matcher cfg)"

definition preBrainMatcher :: "worker_cfg \<Rightarrow> string \<Rightarrow> RegexMatcher option" where
  "preBrainMatcher cfg name =
     (let kind = gm_get0 [] (wc_kindByName cfg) name
      in if kind = KindMetrics then wc_metricsMatcher cfg
         else if kind = KindTraces then wc_tracesMatcher cfg
         else None)"

definition shadowTag :: "worker_cfg \<Rightarrow> Observation \<Rightarrow> string" where
  "shadowTag cfg obs =
     (case ob_Samples obs of
        [] \<Rightarrow> []
      | sig # _ \<Rightarrow> if wc_matcher cfg = None then [] else mr_RuleName (rx_Match (wc_matcher cfg) (sg_Message sig)))"

text \<open>
  A typed brain. \<open>tb_Group\<close> answers \<open>None\<close> for an error, \<open>tb_Learn\<close> says whether it failed;
  \<open>tb_Promote\<close> is \<open>None\<close> for a brain without that capability.
\<close>

record 'p typed_brain =
  tb_Kind :: string
  tb_DetectorKind :: string
  tb_Group :: "Signal list \<Rightarrow> Catalog \<times> 'p \<Rightarrow> Observation list option \<times> Catalog \<times> 'p"
  tb_Expected :: "string \<Rightarrow> time \<Rightarrow> Catalog \<times> 'p \<Rightarrow> rat \<times> rat \<times> bool"
  tb_Learn :: "Observation list \<Rightarrow> Catalog \<times> 'p \<Rightarrow> bool \<times> Catalog \<times> 'p"
  tb_Classify :: "Observation \<Rightarrow> rat \<Rightarrow> rat \<Rightarrow> bool \<Rightarrow> Catalog \<times> 'p \<Rightarrow> TypedVerdict \<times> Catalog \<times> 'p"
  tb_Promote :: "(string \<Rightarrow> Catalog \<times> 'p \<Rightarrow> Catalog \<times> 'p) option"

definition promoteByCount :: "'p typed_brain \<Rightarrow> string \<Rightarrow> Catalog \<times> 'p \<Rightarrow> Catalog \<times> 'p" where
  "promoteByCount tb key m = (case tb_Promote tb of Some promote \<Rightarrow> promote key m | None \<Rightarrow> m)"

text \<open>The log brain behind the interface; its private state is the miner and the streaks.\<close>

type_synonym log_private = "Miner \<times> (string, int) gomap"

definition to_brain :: "Catalog \<times> log_private \<Rightarrow> brain_state" where
  "to_brain = (\<lambda>(c, m, streak). \<lparr>bs_miner = m, bs_catalog = c, bs_streak = streak\<rparr>)"

definition of_brain :: "brain_state \<Rightarrow> Catalog \<times> log_private" where
  "of_brain s = (bs_catalog s, bs_miner s, bs_streak s)"

definition log_typed_brain ::
  "(string \<Rightarrow> string) \<Rightarrow> (ServiceOverrideInput \<Rightarrow> string option) option \<Rightarrow> (rat \<Rightarrow> rat) \<Rightarrow> string \<Rightarrow> time \<Rightarrow> logBrain \<Rightarrow>
   log_private typed_brain" where
  "log_typed_brain sha override msqrt globalMode now b =
     \<lparr>tb_Kind = log_Kind, tb_DetectorKind = log_Kind,
      tb_Group = (\<lambda>sigs m. let (obs, s) = log_Group sha override now b sigs (to_brain m) in (Some obs, of_brain s)),
      tb_Expected = (\<lambda>key ts m. log_Expected msqrt globalMode b key ts (to_brain m)),
      tb_Learn = (\<lambda>obs m. (False, of_brain (log_Learn msqrt now b obs (to_brain m)))),
      tb_Classify = (\<lambda>obs mean std confident m.
        let (v, s) = log_Classify msqrt globalMode b obs mean std confident (to_brain m) in (v, of_brain s)),
      tb_Promote = Some (\<lambda>key m. of_brain (log_Promote b key (to_brain m)))\<rparr>"

definition brainFor :: "(string \<Rightarrow> 'b) \<Rightarrow> string \<Rightarrow> (string, 'b) gomap \<Rightarrow> 'b \<times> (string, 'b) gomap" where
  "brainFor new_log_brain name brains =
     (case gm_get brains name of
        Some b \<Rightarrow> (b, brains)
      | None \<Rightarrow> (new_log_brain name, gm_set brains name (new_log_brain name)))"

text \<open>
  The collaborators outside this part: the recorder of detection occurrences and the one of health
  projections (\<open>None\<close> where the code has nil; the second component is its source-health method).
\<close>

datatype episode_error = EpisodeNotFound | EpisodeUnsupported | EpisodeFailed string

record 'x worker_env = "'x env" +
  en_continue :: "(DetectionOccurrence \<Rightarrow> 'x \<Rightarrow> (episode_error + DetectionEpisodeDecision) \<times> 'x) option"
  en_health :: "((LogHealthObservation \<Rightarrow> 'x \<Rightarrow> bool \<times> 'x) \<times> (SourceHealthObservation \<Rightarrow> 'x \<Rightarrow> bool \<times> 'x)) option"

record ('x, 'p) worker =
  wk_es :: "'x emission_state"
  wk_shadow :: "ShadowLog option"
  wk_model :: "Catalog \<times> 'p"

subsection \<open>Continuing an episode\<close>

definition action_string :: "DetectionEpisodeAction \<Rightarrow> string" where
  "action_string a =
     (case a of
        NoAction \<Rightarrow> []
      | DetectionEpisodeOpened \<Rightarrow> ''opened''
      | DetectionEpisodeCoalesced \<Rightarrow> ''coalesced''
      | DetectionEpisodeEscalated \<Rightarrow> ''escalated''
      | DetectionEpisodeReopened \<Rightarrow> ''reopened'')"

definition setDetectionEmissionFromDecision ::
  "DetectionEpisodeDecision \<Rightarrow> DetectionEmissionResult \<Rightarrow> DetectionEmissionResult" where
  "setDetectionEmissionFromDecision d e =
     e\<lparr>em_Fingerprint := dd_Fingerprint d, em_EpisodeID := dd_EpisodeID d, em_IncidentID := dd_IncidentID d,
       em_OccurrenceDelta := dd_OccurrenceDelta d, em_OccurrenceCount := dd_OccurrenceCount d,
       em_EpisodeAction := action_string (dd_Action d)\<rparr>"

definition continuation_occurrence :: "string \<Rightarrow> string \<Rightarrow> Observation \<Rightarrow> DetectionOccurrence" where
  "continuation_occurrence source signalKind obs =
     \<lparr>oc_Identity = \<lparr>id_Version = [], id_AgentKind = ''detect'', id_Source = source, id_Service = ob_Service obs,
        id_SignalKind = signalKind, id_ConditionKey = ob_Key obs\<rparr>,
      oc_Frequency = ob_Frequency obs, oc_Severity = observationSeverity obs, oc_ReceivedAt = ob_Timestamp obs,
      oc_QuietPeriod = 0, oc_ClaimOwner = [], oc_ClaimLease = 0, oc_ExistingOnly = True\<rparr>"

definition recordKnownDetectionContinuation ::
  "'x worker_env \<Rightarrow> string \<Rightarrow> string \<Rightarrow> Observation \<Rightarrow> 'x emission_state \<Rightarrow> 'x emission_state" where
  "recordKnownDetectionContinuation env source signalKind obs w =
     (case en_continue env of
        None \<Rightarrow> w
      | Some continue \<Rightarrow>
          if ob_Frequency obs \<le> 0 then w
          else
            let (r, x) = continue (continuation_occurrence source signalKind obs) (es_world w);
                w = w\<lparr>es_world := x\<rparr>;
                event = empty_event\<lparr>de_Source := source, de_PatternID := ob_Key obs, de_Service := ob_Service obs,
                  de_Verdict := verdict_String VerdictKnownPattern, de_Frequency := ob_Frequency obs,
                  de_Timestamp := ob_Timestamp obs\<rparr>;
                emission = empty_emission\<lparr>em_NotificationOutcome := ''not_applicable''\<rparr>
            in case r of
                 Inl EpisodeNotFound \<Rightarrow> w
               | Inl EpisodeUnsupported \<Rightarrow> w
               | Inl (EpisodeFailed message) \<Rightarrow>
                   recordDetectEvent env event
                     (emission\<lparr>em_EpisodeAction := ''episode_error'', em_EpisodeError := take 256 message\<rparr>) w
               | Inr decision \<Rightarrow> recordDetectEvent env event (setDetectionEmissionFromDecision decision emission) w)"

subsection \<open>Health projections\<close>

text \<open>An error is what \<open>errors.Is\<close> says about deadline and cancellation, and its text.\<close>

definition sourceHealthErrorClass :: "(bool \<times> string) option \<Rightarrow> string" where
  "sourceHealthErrorClass err =
     (case err of
        None \<Rightarrow> []
      | Some (timed_out, text) \<Rightarrow>
          if timed_out then ''timeout''
          else
            let has = (\<lambda>part. sublist part (to_lower text))
            in if has ''unauthorized'' \<or> has ''authentication'' then ''authentication''
               else if has ''forbidden'' \<or> has ''permission'' then ''permission''
               else if has ''rate limit'' \<or> has ''too many requests'' then ''rate_limit''
               else if has ''connect'' \<or> has ''network'' then ''connection''
               else ''unavailable'')"

definition record_pull_health ::
  "'x worker_env \<Rightarrow> worker_cfg \<Rightarrow> time \<Rightarrow> string \<Rightarrow> (bool \<times> string) option \<Rightarrow> 'x \<Rightarrow> 'x" where
  "record_pull_health env cfg now src err x =
     (case en_health env of
        None \<Rightarrow> x
      | Some (record_log, record_source) \<Rightarrow>
          if wc_owns_health cfg \<and> sourceKind cfg src = KindLogs
          then snd (record_source \<lparr>sh_OrgID = wc_orgID cfg, sh_SourceID = src, sh_AttemptedAt = now,
                      sh_Succeeded = (err = None), sh_ErrorClass = sourceHealthErrorClass err\<rparr> x)
          else x)"

definition record_log_health ::
  "'x worker_env \<Rightarrow> worker_cfg \<Rightarrow> string \<Rightarrow> time \<Rightarrow> string \<Rightarrow> Observation \<Rightarrow> rat \<Rightarrow> rat \<Rightarrow> TypedVerdict \<times> bool \<times> bool \<Rightarrow>
   'x \<Rightarrow> 'x" where
  "record_log_health env cfg kind now src obs mean std = (\<lambda>(verdict, classified, inGrace) x.
     case en_health env of
       None \<Rightarrow> x
     | Some (record_log, record_source) \<Rightarrow>
         if wc_owns_health cfg \<and> kind = ''logs'' then
           let (failed, x) = record_log
                 \<lparr>lh_OrgID = wc_orgID cfg, lh_SourceID = src, lh_Service = ob_Service obs, lh_PatternID = ob_Key obs,
                  lh_ObservedAt = ob_Timestamp obs, lh_Frequency = ob_Frequency obs,
                  lh_StrongestSeverity = ob_StrongestSeverity obs, lh_NewPattern = ob_IsNew obs, lh_InGrace = inGrace,
                  lh_ExpectedRate = mean, lh_ExpectedSpread = std,
                  lh_LifecycleClass = (if classified then verdict_String (tv_Class verdict) else []),
                  lh_LifecycleClassified = classified\<rparr> x
           in if failed
              then snd (record_source \<lparr>sh_OrgID = wc_orgID cfg, sh_SourceID = src, sh_AttemptedAt = now,
                          sh_Succeeded = False, sh_ErrorClass = ''unavailable''\<rparr> x)
              else x
         else x)"

subsection \<open>One observation\<close>

definition zero_verdict :: TypedVerdict where
  "zero_verdict = \<lparr>tv_Class = VerdictKnownPattern, tv_Confident = False, tv_Score = 0, tv_Baseline = 0, tv_Reason = []\<rparr>"

definition first_sample :: "Observation \<Rightarrow> string" where
  "first_sample obs = (case ob_Samples obs of [] \<Rightarrow> [] | sig # _ \<Rightarrow> sg_Message sig)"

definition check_grace :: "worker_cfg \<Rightarrow> time \<Rightarrow> Observation \<Rightarrow> Catalog \<Rightarrow> bool \<times> Catalog" where
  "check_grace cfg now obs c =
     (if wc_newServiceGrace cfg > 0 then IsServiceInGrace now (ob_Service obs) (wc_newServiceGrace cfg) c else (False, c))"

text \<open>The result is the verdict, whether the observation was classified, and whether it was in grace.\<close>

definition handleObservation ::
  "'x worker_env \<Rightarrow> worker_cfg \<Rightarrow> 'p typed_brain \<Rightarrow> time \<Rightarrow> string \<Rightarrow> string \<Rightarrow> Observation \<Rightarrow> rat \<Rightarrow> rat \<Rightarrow> bool \<Rightarrow>
   (string, int) gomap \<Rightarrow> ('x, 'p) worker \<Rightarrow>
   (TypedVerdict \<times> bool \<times> bool) \<times> (string, int) gomap \<times> ('x, 'p) worker" where
  "handleObservation env cfg tb now mode src obs mean std confident verdicts w =
     (if mode = ''training'' then ((zero_verdict, False, False), inc ''learned'' verdicts, w)
      else if mode = ''shadow'' \<or> mode = ''detect'' then
        (let (inGrace, c) = check_grace cfg now obs (fst (wk_model w));
             w = w\<lparr>wk_model := (c, snd (wk_model w))\<rparr>
         in if inGrace then ((zero_verdict, False, True), inc ''grace'' verdicts, w)
            else
              let (v, m) = tb_Classify tb obs mean std confident (wk_model w);
                  w = w\<lparr>wk_model := m\<rparr>;
                  verdicts = inc (verdict_String (tv_Class v)) verdicts
              in if \<not> tv_Confident v then ((v, True, False), verdicts, w)
                 else if tv_Class v = VerdictKnownPattern then
                   ((v, True, False), verdicts,
                    if mode = ''detect''
                    then w\<lparr>wk_es := recordKnownDetectionContinuation env src (tb_DetectorKind tb) obs (wk_es w)\<rparr>
                    else w)
                 else if mode = ''shadow'' then
                   ((v, True, False), verdicts,
                    w\<lparr>wk_shadow := map_option (shadow_Record now src (ob_Key obs) (ob_Service obs) (ob_Signal obs)
                        (first_sample obs) (shadowTag cfg obs) (verdict_String (tv_Class v)) (ob_Frequency obs)) (wk_shadow w)\<rparr>)
                 else
                   let (outcome, es) = emitDetect env src (tb_DetectorKind tb) (ob_Key obs) (ob_Signal obs) (ob_Service obs)
                         (ob_Frequency obs) (ob_Samples obs) (tv_Class v) (tv_Baseline v) (tv_Score v) std (tv_Reason v)
                         [observationSeverity obs] (wk_es w)
                   in ((v, True, False), inc (''emit_'' @ outcome) verdicts, w\<lparr>wk_es := es\<rparr>))
      else ((zero_verdict, False, False), inc ''learned'' verdicts, w))"

text \<open>The body of the loop over the observations of a batch; \<open>matched\<close> counts their signals.\<close>

definition register_service :: "time \<Rightarrow> Observation \<Rightarrow> Catalog \<Rightarrow> Catalog" where
  "register_service now obs c =
     (if ob_Service obs \<noteq> [] \<and> ob_Service obs \<noteq> ''_unknown'' then snd (RegisterService now (ob_Service obs) c) else c)"

definition observe_step ::
  "'x worker_env \<Rightarrow> worker_cfg \<Rightarrow> 'p typed_brain \<Rightarrow> time \<Rightarrow> string \<Rightarrow> string \<Rightarrow> Observation \<Rightarrow>
   int \<times> (string, int) gomap \<times> ('x, 'p) worker \<Rightarrow> int \<times> (string, int) gomap \<times> ('x, 'p) worker" where
  "observe_step env cfg tb now mode src obs = (\<lambda>(matched, verdicts, w).
     let matched = matched + ob_Frequency obs;
         m = (register_service now obs (fst (wk_model w)), snd (wk_model w));
         (mean, std, confident) = tb_Expected tb (ob_Key obs) (ob_Timestamp obs) m;
         (failed, m) = tb_Learn tb [obs] m;
         w = w\<lparr>wk_model := m\<rparr>
     in if failed then (matched, verdicts, w)
        else
          let (result, verdicts, w) = handleObservation env cfg tb now mode src obs mean std confident verdicts w;
              w = w\<lparr>wk_es := (wk_es w)\<lparr>es_world :=
                      record_log_health env cfg (tb_Kind tb) now src obs mean std result (es_world (wk_es w))\<rparr>\<rparr>
          in (matched, verdicts, w\<lparr>wk_model := promoteByCount tb (ob_Key obs) (wk_model w)\<rparr>))"

subsection \<open>One batch\<close>

definition redact_signal :: "worker_cfg \<Rightarrow> Signal \<Rightarrow> Signal" where
  "redact_signal cfg sig =
     (if wc_redactor cfg = None then sig
      else sig\<lparr>sg_Message := Scrub (wc_redactor cfg) (sg_Message sig), sg_Fields := ScrubFields (wc_redactor cfg) (sg_Fields sig)\<rparr>)"

definition excluded_from_learning :: "worker_cfg \<Rightarrow> Signal \<Rightarrow> bool" where
  "excluded_from_learning cfg sig =
     (case wc_exclusion cfg of
        None \<Rightarrow> False
      | Some lx \<Rightarrow>
          let svc = field_string (sg_Fields sig) FieldService;
              svc = (if svc = [] then svc_Extract (wc_services cfg) (sg_Message sig) else svc);
              svc = (if svc = [] then ''_unknown'' else svc)
          in lx_Learning lx svc (field_string (sg_Fields sig) FieldSignal))"

definition passes_pre_filter :: "worker_cfg \<Rightarrow> string \<Rightarrow> Signal \<Rightarrow> bool" where
  "passes_pre_filter cfg src sig =
     (case preBrainMatcher cfg src of None \<Rightarrow> True | Some pf \<Rightarrow> Matched (rx_Match (Some pf) (sg_Message sig)))"

definition excluded_pattern :: "worker_cfg \<Rightarrow> string \<Rightarrow> Observation \<Rightarrow> bool" where
  "excluded_pattern cfg kind obs =
     (case wc_exclusion cfg of None \<Rightarrow> False | Some lx \<Rightarrow> kind = ''logs'' \<and> lx_LogPattern lx (ob_Service obs) (ob_Key obs))"

text \<open>The numbers of the line logged at the end of a batch.\<close>

record tick_stats =
  ts_signals :: int
  ts_matched :: int
  ts_patterns :: int
  ts_skipped_no_match :: int
  ts_skipped_excluded :: int
  ts_verdicts :: "(string, int) gomap"

definition freq_sum :: "Observation list \<Rightarrow> int" where "freq_sum obs = sum_list (map ob_Frequency obs)"

text \<open>\<open>None\<close> is the result \<open>false\<close> of a batch that could not be grouped.\<close>

definition processSourceBatch ::
  "'x worker_env \<Rightarrow> worker_cfg \<Rightarrow> 'p typed_brain \<Rightarrow> time \<Rightarrow> string \<Rightarrow> string \<Rightarrow> Signal list \<Rightarrow> ('x, 'p) worker \<Rightarrow>
   tick_stats option \<times> ('x, 'p) worker" where
  "processSourceBatch env cfg tb now mode src signals w =
     (let signals = map (redact_signal cfg) signals;
          excluded = length (filter (excluded_from_learning cfg) signals);
          signals = filter (\<lambda>sig. \<not> excluded_from_learning cfg sig) signals;
          pulled = length signals;
          signals = filter (passes_pre_filter cfg src) signals;
          (grouped, m) = tb_Group tb signals (wk_model w);
          w = w\<lparr>wk_model := m\<rparr>
      in case grouped of
           None \<Rightarrow> (None, w)
         | Some observations \<Rightarrow>
             let excludedPatternFreq = freq_sum (filter (excluded_pattern cfg (tb_Kind tb)) observations);
                 observations = filter (\<lambda>obs. \<not> excluded_pattern cfg (tb_Kind tb) obs) observations;
                 (matched, verdicts, w) = fold (observe_step env cfg tb now mode src) observations (0, [], w)
             in (Some \<lparr>ts_signals = int pulled, ts_matched = matched, ts_patterns = int (length observations),
                       ts_skipped_no_match = int pulled - matched - excludedPatternFreq,
                       ts_skipped_excluded = int excluded + excludedPatternFreq, ts_verdicts = verdicts\<rparr>, w))"

end
