(* ===== verification/Worker_Modes.thy ===== *)
theory Worker_Modes
  imports Agent_Worker
begin

text \<open>
  What the modes of the worker have in common: shadow mode previews detect mode action by action, and
  what is learned does not depend on the mode.
\<close>

subsection \<open>The actions of a batch\<close>

text \<open>
  The specification of the shared part of shadow and detect: a batch decides, from the model alone, a
  list of actions. Shadow and detect only execute them differently.
\<close>

datatype action =
    Surface Observation rat TypedVerdict
  | Continue Observation
  | Health Observation rat rat TypedVerdict bool bool

definition verdict_actions :: "Observation \<Rightarrow> rat \<Rightarrow> TypedVerdict \<Rightarrow> action list" where
  "verdict_actions obs std v =
     (if \<not> tv_Confident v then []
      else if tv_Class v = VerdictKnownPattern then [Continue obs] else [Surface obs std v])"

definition plan_observation ::
  "worker_cfg \<Rightarrow> 'p typed_brain \<Rightarrow> time \<Rightarrow> Observation \<Rightarrow> Catalog \<times> 'p \<Rightarrow> action list \<times> Catalog \<times> 'p" where
  "plan_observation cfg tb now obs m =
     (let m = (register_service now obs (fst m), snd m);
          (mean, std, confident) = tb_Expected tb (ob_Key obs) (ob_Timestamp obs) m;
          (failed, m) = tb_Learn tb [obs] m
      in if failed then ([], m)
         else
           let (inGrace, c) = check_grace cfg now obs (fst m);
               m = (c, snd m)
           in if inGrace then ([Health obs mean std zero_verdict False True], promoteByCount tb (ob_Key obs) m)
              else
                let (v, m) = tb_Classify tb obs mean std confident m
                in (verdict_actions obs std v @ [Health obs mean std v True False], promoteByCount tb (ob_Key obs) m))"

fun plan_observations ::
  "worker_cfg \<Rightarrow> 'p typed_brain \<Rightarrow> time \<Rightarrow> Observation list \<Rightarrow> Catalog \<times> 'p \<Rightarrow> action list \<times> Catalog \<times> 'p" where
  "plan_observations cfg tb now [] m = ([], m)"
| "plan_observations cfg tb now (obs # rest) m =
     (let (acts, m) = plan_observation cfg tb now obs m;
          (more, m) = plan_observations cfg tb now rest m
      in (acts @ more, m))"

definition do_health ::
  "'x worker_env \<Rightarrow> worker_cfg \<Rightarrow> string \<Rightarrow> time \<Rightarrow> string \<Rightarrow> Observation \<Rightarrow> rat \<Rightarrow> rat \<Rightarrow> TypedVerdict \<times> bool \<times> bool \<Rightarrow>
   'x emission_state \<Rightarrow> 'x emission_state" where
  "do_health env cfg kind now src obs mean std result es =
     es\<lparr>es_world := record_log_health env cfg kind now src obs mean std result (es_world es)\<rparr>"

primrec exec_detect ::
  "'x worker_env \<Rightarrow> worker_cfg \<Rightarrow> 'p typed_brain \<Rightarrow> time \<Rightarrow> string \<Rightarrow> action \<Rightarrow> 'x emission_state \<Rightarrow> 'x emission_state" where
  "exec_detect env cfg tb now src (Surface obs std v) es =
     snd (emitDetect env src (tb_DetectorKind tb) (ob_Key obs) (ob_Signal obs) (ob_Service obs) (ob_Frequency obs)
       (ob_Samples obs) (tv_Class v) (tv_Baseline v) (tv_Score v) std (tv_Reason v) [observationSeverity obs] es)"
| "exec_detect env cfg tb now src (Continue obs) es = recordKnownDetectionContinuation env src (tb_DetectorKind tb) obs es"
| "exec_detect env cfg tb now src (Health obs mean std v classified inGrace) es =
     do_health env cfg (tb_Kind tb) now src obs mean std (v, classified, inGrace) es"

primrec exec_shadow ::
  "'x worker_env \<Rightarrow> worker_cfg \<Rightarrow> 'p typed_brain \<Rightarrow> time \<Rightarrow> string \<Rightarrow> action \<Rightarrow>
   'x emission_state \<times> ShadowLog option \<Rightarrow> 'x emission_state \<times> ShadowLog option" where
  "exec_shadow env cfg tb now src (Surface obs std v) s =
     (fst s, map_option (shadow_Record now src (ob_Key obs) (ob_Service obs) (ob_Signal obs) (first_sample obs)
        (shadowTag cfg obs) (verdict_String (tv_Class v)) (ob_Frequency obs)) (snd s))"
| "exec_shadow env cfg tb now src (Continue obs) s = s"
| "exec_shadow env cfg tb now src (Health obs mean std v classified inGrace) s =
     (do_health env cfg (tb_Kind tb) now src obs mean std (v, classified, inGrace) (fst s), snd s)"

text \<open>Apart from health projections shadow leaves the emission side alone.\<close>

lemma exec_shadow_emission:
  "en_health env = None \<Longrightarrow> fst (fold (exec_shadow env cfg tb now src) acts s) = fst s"
proof (induction acts arbitrary: s)
  case (Cons a acts)
  then show ?case by (cases a) (simp_all add: do_health_def record_log_health_def)
qed simp

subsection \<open>One observation\<close>

lemma shadow_step:
  assumes "plan_observation cfg tb now obs (wk_model w) = (acts, m)"
  shows "\<exists>vd w'. observe_step env cfg tb now ''shadow'' src obs (k, verdicts, w) = (k + ob_Frequency obs, vd, w') \<and>
    wk_model w' = m \<and> (wk_es w', wk_shadow w') = fold (exec_shadow env cfg tb now src) acts (wk_es w, wk_shadow w)"
proof -
  let ?m0 = "(register_service now obs (fst (wk_model w)), snd (wk_model w))"
  obtain mean std confident where ex: "tb_Expected tb (ob_Key obs) (ob_Timestamp obs) ?m0 = (mean, std, confident)"
    by (cases "tb_Expected tb (ob_Key obs) (ob_Timestamp obs) ?m0") auto
  obtain failed m1 where le: "tb_Learn tb [obs] ?m0 = (failed, m1)" by (cases "tb_Learn tb [obs] ?m0") auto
  obtain inGrace c where gr: "check_grace cfg now obs (fst m1) = (inGrace, c)" by fastforce
  obtain v m2 where cl: "tb_Classify tb obs mean std confident (c, snd m1) = (v, m2)"
    by (cases "tb_Classify tb obs mean std confident (c, snd m1)") auto
  show ?thesis
    using assms
    by (cases failed; cases inGrace)
      (auto simp: plan_observation_def observe_step_def handleObservation_def Let_def ex le gr cl verdict_actions_def
        do_health_def split: if_splits)
qed

lemma detect_step:
  assumes "plan_observation cfg tb now obs (wk_model w) = (acts, m)"
  shows "\<exists>vd w'. observe_step env cfg tb now ''detect'' src obs (k, verdicts, w) = (k + ob_Frequency obs, vd, w') \<and>
    wk_model w' = m \<and> wk_es w' = fold (exec_detect env cfg tb now src) acts (wk_es w) \<and> wk_shadow w' = wk_shadow w"
proof -
  let ?m0 = "(register_service now obs (fst (wk_model w)), snd (wk_model w))"
  obtain mean std confident where ex: "tb_Expected tb (ob_Key obs) (ob_Timestamp obs) ?m0 = (mean, std, confident)"
    by (cases "tb_Expected tb (ob_Key obs) (ob_Timestamp obs) ?m0") auto
  obtain failed m1 where le: "tb_Learn tb [obs] ?m0 = (failed, m1)" by (cases "tb_Learn tb [obs] ?m0") auto
  obtain inGrace c where gr: "check_grace cfg now obs (fst m1) = (inGrace, c)" by fastforce
  obtain v m2 where cl: "tb_Classify tb obs mean std confident (c, snd m1) = (v, m2)"
    by (cases "tb_Classify tb obs mean std confident (c, snd m1)") auto
  show ?thesis
    using assms
    by (cases failed; cases inGrace)
      (auto simp: plan_observation_def observe_step_def handleObservation_def Let_def ex le gr cl verdict_actions_def
        do_health_def split: if_splits prod.splits)
qed

subsection \<open>A batch\<close>

lemma shadow_steps:
  "plan_observations cfg tb now obs (wk_model w) = (acts, m) \<Longrightarrow>
   \<exists>vd w'. fold (observe_step env cfg tb now ''shadow'' src) obs (k, verdicts, w) = (k + freq_sum obs, vd, w') \<and>
     wk_model w' = m \<and> (wk_es w', wk_shadow w') = fold (exec_shadow env cfg tb now src) acts (wk_es w, wk_shadow w)"
proof (induction obs arbitrary: k verdicts w acts)
  case Nil
  then show ?case by (simp add: freq_sum_def)
next
  case (Cons o1 obs)
  obtain a1 m1 where p1: "plan_observation cfg tb now o1 (wk_model w) = (a1, m1)" by (meson surj_pair)
  obtain vd1 w1 where s1: "observe_step env cfg tb now ''shadow'' src o1 (k, verdicts, w) = (k + ob_Frequency o1, vd1, w1)"
    "wk_model w1 = m1" "(wk_es w1, wk_shadow w1) = fold (exec_shadow env cfg tb now src) a1 (wk_es w, wk_shadow w)"
    using shadow_step [OF p1] by blast
  obtain a2 where p2: "plan_observations cfg tb now obs (wk_model w1) = (a2, m)" and acts: "acts = a1 @ a2"
    using Cons.prems by (auto simp: p1 s1(2) split: prod.splits)
  show ?case using Cons.IH [OF p2, of "k + ob_Frequency o1" vd1] s1 by (auto simp: acts freq_sum_def add.assoc)
qed

lemma detect_steps:
  "plan_observations cfg tb now obs (wk_model w) = (acts, m) \<Longrightarrow>
   \<exists>vd w'. fold (observe_step env cfg tb now ''detect'' src) obs (k, verdicts, w) = (k + freq_sum obs, vd, w') \<and>
     wk_model w' = m \<and> wk_es w' = fold (exec_detect env cfg tb now src) acts (wk_es w) \<and> wk_shadow w' = wk_shadow w"
proof (induction obs arbitrary: k verdicts w acts)
  case Nil
  then show ?case by (simp add: freq_sum_def)
next
  case (Cons o1 obs)
  obtain a1 m1 where p1: "plan_observation cfg tb now o1 (wk_model w) = (a1, m1)" by (meson surj_pair)
  obtain vd1 w1 where s1: "observe_step env cfg tb now ''detect'' src o1 (k, verdicts, w) = (k + ob_Frequency o1, vd1, w1)"
    "wk_model w1 = m1" "wk_es w1 = fold (exec_detect env cfg tb now src) a1 (wk_es w)" "wk_shadow w1 = wk_shadow w"
    using detect_step [OF p1] by blast
  obtain a2 where p2: "plan_observations cfg tb now obs (wk_model w1) = (a2, m)" and acts: "acts = a1 @ a2"
    using Cons.prems by (auto simp: p1 s1(2) split: prod.splits)
  show ?case using Cons.IH [OF p2, of "k + ob_Frequency o1" vd1] s1 by (auto simp: acts freq_sum_def add.assoc)
qed

text \<open>What is surfaced is confident and not a known pattern, what is continued belongs to the batch.\<close>

definition action_ok :: "action \<Rightarrow> bool" where
  "action_ok a = (case a of Surface obs std v \<Rightarrow> tv_Confident v \<and> tv_Class v \<noteq> VerdictKnownPattern | _ \<Rightarrow> True)"

lemma plan_ok: "plan_observations cfg tb now obs m = (acts, m') \<Longrightarrow> list_all action_ok acts"
proof (induction obs arbitrary: m acts)
  case (Cons o1 obs)
  obtain a1 m1 where p1: "plan_observation cfg tb now o1 m = (a1, m1)" by (meson surj_pair)
  have "list_all action_ok a1"
    using p1 by (auto simp: plan_observation_def verdict_actions_def action_ok_def Let_def split: if_splits prod.splits)
  moreover obtain a2 where "plan_observations cfg tb now obs m1 = (a2, m')" "acts = a1 @ a2"
    using Cons.prems by (auto simp: p1 split: prod.splits)
  ultimately show ?case using Cons.IH by simp
qed simp

definition same_line :: "tick_stats \<Rightarrow> tick_stats \<Rightarrow> bool" where
  "same_line s t \<longleftrightarrow> ts_signals s = ts_signals t \<and> ts_matched s = ts_matched t \<and> ts_patterns s = ts_patterns t \<and>
     ts_skipped_no_match s = ts_skipped_no_match t \<and> ts_skipped_excluded s = ts_skipped_excluded t"

text \<open>A batch is filtered, grouped, filtered by pattern, and folded.\<close>

definition batch_signals :: "worker_cfg \<Rightarrow> string \<Rightarrow> Signal list \<Rightarrow> Signal list" where
  "batch_signals cfg src signals =
     filter (passes_pre_filter cfg src) (filter (\<lambda>sig. \<not> excluded_from_learning cfg sig) (map (redact_signal cfg) signals))"

definition batch_observations :: "worker_cfg \<Rightarrow> string \<Rightarrow> Observation list \<Rightarrow> Observation list" where
  "batch_observations cfg kind obs = filter (\<lambda>obs. \<not> excluded_pattern cfg kind obs) obs"

lemma upd_model:
  "wk_es (w\<lparr>wk_model := m\<rparr>) = wk_es w" "wk_shadow (w\<lparr>wk_model := m\<rparr>) = wk_shadow w"
  "wk_model (w\<lparr>wk_model := m\<rparr>) = m"
  by simp_all

lemma batch_failed:
  assumes "tb_Group tb (batch_signals cfg src signals) (wk_model w) = (None, m)"
  shows "processSourceBatch env cfg tb now mode src signals w = (None, w\<lparr>wk_model := m\<rparr>)"
  using assms unfolding batch_signals_def processSourceBatch_def Let_def by simp

definition batch_line ::
  "worker_cfg \<Rightarrow> string \<Rightarrow> Signal list \<Rightarrow> Observation list \<Rightarrow> int \<Rightarrow> (string, int) gomap \<Rightarrow> tick_stats" where
  "batch_line cfg kind signals observations matched vd =
     (let redacted = map (redact_signal cfg) signals;
          pulled = int (length (filter (\<lambda>sig. \<not> excluded_from_learning cfg sig) redacted));
          excluded = int (length (filter (excluded_from_learning cfg) redacted));
          lost = freq_sum (filter (excluded_pattern cfg kind) observations)
      in \<lparr>ts_signals = pulled, ts_matched = matched, ts_patterns = int (length (batch_observations cfg kind observations)),
          ts_skipped_no_match = pulled - matched - lost, ts_skipped_excluded = excluded + lost, ts_verdicts = vd\<rparr>)"

lemma same_line_batch: "same_line (batch_line cfg kind signals obs n vd) (batch_line cfg kind signals obs n vd')"
  by (simp add: same_line_def batch_line_def Let_def)

lemma batch_folded:
  assumes "tb_Group tb (batch_signals cfg src signals) (wk_model w) = (Some observations, m)"
    and "fold (observe_step env cfg tb now mode src) (batch_observations cfg (tb_Kind tb) observations)
           (0, [], w\<lparr>wk_model := m\<rparr>) = (matched, vd, w')"
  shows "processSourceBatch env cfg tb now mode src signals w =
    (Some (batch_line cfg (tb_Kind tb) signals observations matched vd), w')"
  using assms
  by (simp only: processSourceBatch_def Let_def batch_signals_def batch_observations_def batch_line_def split_conv
      option.case)

subsection \<open>What a brain learns\<close>

text \<open>
  The contract of a brain whose learned part \<open>learned\<close> is not touched by scoring or by the service
  registry, and evolves by itself under grouping, learning and promotion.
\<close>

locale learning_brain =
  fixes tb :: "'p typed_brain" and learned :: "Catalog \<times> 'p \<Rightarrow> 'l"
  assumes services: "learned (c\<lparr>ct_services := s, ct_dirty := d\<rparr>, p) = learned (c, p)"
    and group: "learned m = learned m' \<Longrightarrow>
      fst (tb_Group tb sigs m) = fst (tb_Group tb sigs m') \<and> learned (snd (tb_Group tb sigs m)) = learned (snd (tb_Group tb sigs m'))"
    and learn: "learned m = learned m' \<Longrightarrow>
      fst (tb_Learn tb obs m) = fst (tb_Learn tb obs m') \<and> learned (snd (tb_Learn tb obs m)) = learned (snd (tb_Learn tb obs m'))"
    and classify: "learned (snd (tb_Classify tb ob mean std confident m)) = learned m"
    and promote: "learned m = learned m' \<Longrightarrow> learned (promoteByCount tb key m) = learned (promoteByCount tb key m')"
begin

lemma registered: "learned (register_service now ob c, p) = learned (c, p)"
  by (simp add: register_service_def RegisterService_def add_service_def services)

lemma grace: "learned (snd (check_grace cfg now ob c), p) = learned (c, p)"
  by (simp add: check_grace_def IsServiceInGrace_def add_service_def Let_def services split: option.split)

lemma handled:
  assumes "handleObservation env cfg tb now mode src ob mean std confident vd w = (r, vd', w')"
  shows "learned (wk_model w') = learned (wk_model w)"
proof -
  obtain inGrace c where gr: "check_grace cfg now ob (fst (wk_model w)) = (inGrace, c)" by fastforce
  obtain v m where cl: "tb_Classify tb ob mean std confident (c, snd (wk_model w)) = (v, m)" by (meson surj_pair)
  have "learned (c, snd (wk_model w)) = learned (wk_model w)"
    using grace [of cfg now ob "fst (wk_model w)" "snd (wk_model w)"] by (simp add: gr)
  moreover have "learned m = learned (c, snd (wk_model w))"
    using classify [of ob mean std confident "(c, snd (wk_model w))"] by (simp add: cl)
  ultimately show ?thesis
    using assms by (auto simp: handleObservation_def gr cl Let_def split: if_splits prod.splits)
qed

lemma step_alike:
  assumes "learned (wk_model w) = learned (wk_model u)"
    and "observe_step env cfg tb now mode src ob (k, vd, w) = (k1, vd1, w')"
    and "observe_step env' cfg tb now' mode' src ob (k, vd', u) = (k2, vd2, u')"
  shows "learned (wk_model w') = learned (wk_model u') \<and> k1 = k2"
proof -
  have one: "k1 = k + ob_Frequency ob \<and> learned (wk_model w') =
      (let (failed, m) = tb_Learn tb [ob] (register_service now ob (fst (wk_model w)), snd (wk_model w))
       in learned (if failed then m else promoteByCount tb (ob_Key ob) m))"
    if "observe_step env cfg tb now mode src ob (k, vd, w) = (k1, vd1, w')"
    for env :: "'x worker_env" and now mode vd vd1 k1 and w w' :: "('x, 'p) worker"
  proof -
    let ?m0 = "(register_service now ob (fst (wk_model w)), snd (wk_model w))"
    obtain failed m1 where le: "tb_Learn tb [ob] ?m0 = (failed, m1)" by (meson surj_pair)
    obtain mean std confident where ex: "tb_Expected tb (ob_Key ob) (ob_Timestamp ob) ?m0 = (mean, std, confident)"
      by (metis prod_cases3)
    obtain r vd2 w2 where h: "handleObservation env cfg tb now mode src ob mean std confident vd (w\<lparr>wk_model := m1\<rparr>) = (r, vd2, w2)"
      by (metis prod_cases3)
    show ?thesis
      using that promote [OF handled [OF h], of "ob_Key ob"]
      by (auto simp: observe_step_def Let_def le ex h split: if_splits)
  qed
  let ?m = "(register_service now ob (fst (wk_model w)), snd (wk_model w))"
  let ?n = "(register_service now' ob (fst (wk_model u)), snd (wk_model u))"
  have same: "learned ?m = learned ?n" using assms(1) by (simp add: registered)
  obtain f m1 where a: "tb_Learn tb [ob] ?m = (f, m1)" by (meson surj_pair)
  obtain f' n1 where b: "tb_Learn tb [ob] ?n = (f', n1)" by (meson surj_pair)
  have e: "f' = f" "learned m1 = learned n1" using learn [OF same, of "[ob]"] by (simp_all add: a b)
  show ?thesis
    using one [OF assms(2), unfolded a] one [OF assms(3), unfolded b] e promote [OF e(2), of "ob_Key ob"] by (cases f) simp_all
qed

lemma steps_alike:
  assumes "learned (wk_model w) = learned (wk_model u)"
    and "fold (observe_step env cfg tb now mode src) obs (k, vd, w) = (k1, vd1, w')"
    and "fold (observe_step env' cfg tb now' mode' src) obs (k, vd', u) = (k2, vd2, u')"
  shows "learned (wk_model w') = learned (wk_model u')"
  using assms
proof (induction obs arbitrary: k vd vd' w u)
  case (Cons o1 obs)
  obtain ka va wa where a: "observe_step env cfg tb now mode src o1 (k, vd, w) = (ka, va, wa)" by (metis prod_cases3)
  obtain kb vb ub where b: "observe_step env' cfg tb now' mode' src o1 (k, vd', u) = (kb, vb, ub)" by (metis prod_cases3)
  have s: "learned (wk_model wa) = learned (wk_model ub)" "ka = kb" using step_alike [OF Cons.prems(1) a b] by simp_all
  show ?case using Cons.IH [OF s(1)] Cons.prems(2,3) by (simp add: a b s(2))
qed simp

lemma batch_alike:
  assumes "learned (wk_model w) = learned (wk_model u)"
  shows "learned (wk_model (snd (processSourceBatch env cfg tb now mode src sigs w))) =
    learned (wk_model (snd (processSourceBatch env' cfg tb now' mode' src sigs u)))"
proof -
  obtain g m where a: "tb_Group tb (batch_signals cfg src sigs) (wk_model w) = (g, m)" by (meson surj_pair)
  obtain g' m' where b: "tb_Group tb (batch_signals cfg src sigs) (wk_model u) = (g', m')" by (meson surj_pair)
  have e: "g' = g" "learned m = learned m'" using group [OF assms, of "batch_signals cfg src sigs"] by (simp_all add: a b)
  show ?thesis
  proof (cases g)
    case None
    then show ?thesis using batch_failed [OF a [unfolded None]] batch_failed [OF b [unfolded e(1) None]] e(2) by simp
  next
    case (Some obs)
    let ?obs = "batch_observations cfg (tb_Kind tb) obs"
    obtain k1 v1 w1 where f: "fold (observe_step env cfg tb now mode src) ?obs (0, [], w\<lparr>wk_model := m\<rparr>) = (k1, v1, w1)"
      by (metis prod_cases3)
    obtain k2 v2 u2 where f': "fold (observe_step env' cfg tb now' mode' src) ?obs (0, [], u\<lparr>wk_model := m'\<rparr>) = (k2, v2, u2)"
      by (metis prod_cases3)
    have "learned (wk_model w1) = learned (wk_model u2)" using steps_alike [OF _ f f'] e(2) by simp
    then show ?thesis
      using batch_folded [OF a [unfolded Some] f] batch_folded [OF b [unfolded e(1) Some] f'] by simp
  qed
qed

end

text \<open>The log brain learns the patterns, under the fold of the catalog, and the templates of the miner.\<close>

definition log_learned :: "Catalog \<times> log_private \<Rightarrow> (string, Pattern) gomap \<times> BaselineFold \<times> Miner" where
  "log_learned m = (ct_patterns (fst m), ct_fold (fst m), fst (snd m))"

lemma patterns_upd: "ct_patterns (c\<lparr>ct_patterns := x, ct_dirty := d\<rparr>) = x"
  by simp

lemma Upsert_patterns:
  "ct_patterns c = ct_patterns c' \<Longrightarrow> ct_fold c = ct_fold c' \<Longrightarrow>
   ct_patterns (Upsert msqrt now i tmpl src n a r svc c) = ct_patterns (Upsert msqrt now i tmpl src n a r svc c')"
  by (simp only: Upsert_def Let_def patterns_upd)

lemma RecordSample_patterns:
  "ct_patterns c = ct_patterns c' \<Longrightarrow>
   ct_patterns (RecordSample i smp scrub c) = ct_patterns (RecordSample i smp scrub c')"
  by (cases "gm_get (ct_patterns c') i") (simp_all add: RecordSample_def)

lemma learn_one_patterns:
  assumes "ct_patterns c = ct_patterns c'" "ct_fold c = ct_fold c'"
  shows "ct_patterns (learn_one msqrt now b ob c) = ct_patterns (learn_one msqrt now b ob c')"
  using Upsert_patterns [OF assms] RecordSample_patterns [OF Upsert_patterns [OF assms]]
  by (cases "ob_Samples ob") (simp_all only: learn_one_def Let_def list.case)

lemma learn_patterns:
  "ct_patterns c = ct_patterns c' \<Longrightarrow> ct_fold c = ct_fold c' \<Longrightarrow>
   ct_patterns (fold (learn_one msqrt now b) obs c) = ct_patterns (fold (learn_one msqrt now b) obs c') \<and>
   ct_fold (fold (learn_one msqrt now b) obs c) = ct_fold (fold (learn_one msqrt now b) obs c')"
proof (induction obs arbitrary: c c')
  case (Cons ob obs)
  have "ct_fold (learn_one msqrt now b ob c) = ct_fold (learn_one msqrt now b ob c')"
    using Cons.prems(2) by (simp add: learn_one_frame)
  from Cons.IH [OF learn_one_patterns [OF Cons.prems] this] show ?case by (simp only: fold_Cons o_apply)
qed simp

lemma Classify_miner: "bs_miner (snd (log_Classify msqrt g b ob mean std cf s)) = bs_miner s"
  by (auto simp: log_Classify_def confirmSpike_def Let_def split: option.split prod.split)

interpretation log_brain: learning_brain "log_typed_brain sha override msqrt globalMode now b" log_learned
proof
  fix c :: Catalog and s d and p :: log_private
  show "log_learned (c\<lparr>ct_services := s, ct_dirty := d\<rparr>, p) = log_learned (c, p)"
    by (simp add: log_learned_def)
next
  fix m m' :: "Catalog \<times> log_private" and sigs obs ob key mean std confident
  let ?tb = "log_typed_brain sha override msqrt globalMode now b"
  show "log_learned (snd (tb_Classify ?tb ob mean std confident m)) = log_learned m"
    using Classify_frame(1) [of msqrt globalMode b ob mean std confident "to_brain m"]
      Classify_miner [of msqrt globalMode b ob mean std confident "to_brain m"]
    by (auto simp: log_typed_brain_def of_brain_def Let_def to_brain_def log_learned_def split: prod.splits)
  assume e: "log_learned m = log_learned m'"
  show "fst (tb_Group ?tb sigs m) = fst (tb_Group ?tb sigs m') \<and>
      log_learned (snd (tb_Group ?tb sigs m)) = log_learned (snd (tb_Group ?tb sigs m'))"
    using e by (auto simp: log_typed_brain_def log_Group_def of_brain_def Let_def to_brain_def log_learned_def
        split: prod.splits)
  show "fst (tb_Learn ?tb obs m) = fst (tb_Learn ?tb obs m') \<and>
      log_learned (snd (tb_Learn ?tb obs m)) = log_learned (snd (tb_Learn ?tb obs m'))"
    using e learn_patterns [of "fst m" "fst m'" msqrt now b obs]
    by (auto simp: log_typed_brain_def log_Learn_def of_brain_def to_brain_def log_learned_def split: prod.splits)
  show "log_learned (promoteByCount ?tb key m) = log_learned (promoteByCount ?tb key m')"
    using e by (auto simp: log_typed_brain_def promoteByCount_def log_Promote_def MarkKnown_def edit_pattern_def cat_Get_def
        of_brain_def to_brain_def log_learned_def split: prod.splits option.splits)
qed

text \<open>A run of a worker over the batches of one source, each with its time and the mode it runs under.\<close>

fun run_batches ::
  "'x worker_env \<Rightarrow> worker_cfg \<Rightarrow> (time \<Rightarrow> 'p typed_brain) \<Rightarrow> string \<Rightarrow> (time \<times> string \<times> Signal list) list \<Rightarrow>
   ('x, 'p) worker \<Rightarrow> ('x, 'p) worker" where
  "run_batches env cfg brain src [] w = w"
| "run_batches env cfg brain src ((now, mode, sigs) # batches) w =
     run_batches env cfg brain src batches (snd (processSourceBatch env cfg (brain now) now mode src sigs w))"

lemma runs_alike:
  assumes "log_learned (wk_model w) = log_learned (wk_model u)" and "map fst batches = map fst batches'"
    and "map (snd \<circ> snd) batches = map (snd \<circ> snd) batches'"
  shows "log_learned (wk_model (run_batches env cfg (\<lambda>now. log_typed_brain sha override msqrt g now b) src batches w)) =
    log_learned (wk_model (run_batches env' cfg (\<lambda>now. log_typed_brain sha override msqrt g now b) src batches' u))"
  using assms
proof (induction batches arbitrary: batches' w u)
  case (Cons t rest)
  obtain now mode sigs where t: "t = (now, mode, sigs)" by (metis prod_cases3)
  obtain mode' rest' where t': "batches' = (now, mode', sigs) # rest'"
    using Cons.prems(2,3) t by (cases batches') auto
  have "log_learned (wk_model (snd (processSourceBatch env cfg (log_typed_brain sha override msqrt g now b) now mode src sigs w))) =
      log_learned (wk_model (snd (processSourceBatch env' cfg (log_typed_brain sha override msqrt g now b) now mode' src sigs u)))"
    using log_brain.batch_alike [OF Cons.prems(1)] .
  from Cons.IH [OF this, of rest'] Cons.prems(2,3) show ?case by (simp add: t t')
qed simp

subsection \<open>A concrete worker\<close>

definition wit_wenv :: "string list worker_env" where
  "wit_wenv = env.extend wit_env \<lparr>en_continue = None, en_health = None\<rparr>"

definition wit_cfg :: worker_cfg where
  "wit_cfg = \<lparr>wc_orgID = ''default'', wc_newServiceGrace = 0, wc_owns_health = True, wc_redactor = None,
     wc_exclusion = None, wc_services = None, wc_matcher = None, wc_matchAll = None, wc_metricsMatcher = None,
     wc_tracesMatcher = None, wc_kindByName = [(''src'', KindLogs)]\<rparr>"

definition wit_worker :: "(string list, log_private) worker" where
  "wit_worker = \<lparr>wk_es = wit_emission,
     wk_shadow = Some \<lparr>sl_store = False, sl_blobName = ''shadow'', sl_events = [], sl_max = 10, sl_dirty = False\<rparr>,
     wk_model = (\<lparr>ct_store = False, ct_patterns = [], ct_services = [], ct_dirty = False,
       ct_fold = spike_fold (lb_params wit_brain)\<rparr>, NewMiner 0 0 0, [])\<rparr>"

abbreviation wit_logs :: "time \<Rightarrow> log_private typed_brain" where
  "wit_logs now \<equiv> log_typed_brain (\<lambda>s. s) None (\<lambda>x. x) baselineModeDefault now wit_brain"

abbreviation wit_batch :: "string \<Rightarrow> tick_stats option \<times> (string list, log_private) worker" where
  "wit_batch mode \<equiv> processSourceBatch wit_wenv wit_cfg (wit_logs 9) 9 mode ''src'' [wit_signal] wit_worker"

abbreviation wit_run :: "(time \<times> string \<times> Signal list) list \<Rightarrow> (string list, log_private) worker" where
  "wit_run batches \<equiv> run_batches wit_wenv wit_cfg wit_logs ''src'' batches wit_worker"

subsection \<open>Properties\<close>

text \<open>
  C28: Shadow mode is a faithful preview of detect mode. From the same state and on the same batch both
  fail together, report the same line (up to the verdict counts), and leave the same model; and there
  is one list of actions, surfacing only confident anomalies, such that detect mode emits exactly
  these, in this order, while shadow mode notes exactly these in its log, emits nothing, and without a
  health recorder leaves the emission side as it was.
\<close>

theorem shadow_previews_detect:
  assumes "processSourceBatch env cfg tb now ''shadow'' src signals w = (st1, w1)"
    and "processSourceBatch env cfg tb now ''detect'' src signals w = (st2, w2)"
  shows "rel_option same_line st1 st2 \<and> wk_model w1 = wk_model w2 \<and> wk_shadow w2 = wk_shadow w \<and>
    (\<exists>acts. list_all action_ok acts \<and>
       wk_es w2 = fold (exec_detect env cfg tb now src) acts (wk_es w) \<and>
       (wk_es w1, wk_shadow w1) = fold (exec_shadow env cfg tb now src) acts (wk_es w, wk_shadow w) \<and>
       (en_health env = None \<longrightarrow> wk_es w1 = wk_es w))"
proof -
  obtain grouped m where gr: "tb_Group tb (batch_signals cfg src signals) (wk_model w) = (grouped, m)" by (meson surj_pair)
  show ?thesis
  proof (cases grouped)
    case None
    then show ?thesis using assms batch_failed [OF gr [unfolded None]] by (intro conjI exI [of _ "[]"]) auto
  next
    case (Some observations)
    define obs where "obs = batch_observations cfg (tb_Kind tb) observations"
    obtain acts m' where plan: "plan_observations cfg tb now obs m = (acts, m')" by (meson surj_pair)
    have plan': "plan_observations cfg tb now obs (wk_model (w\<lparr>wk_model := m\<rparr>)) = (acts, m')" using plan by simp
    obtain vs1 u1 where s: "fold (observe_step env cfg tb now ''shadow'' src) obs (0, [], w\<lparr>wk_model := m\<rparr>) =
        (freq_sum obs, vs1, u1)" "wk_model u1 = m'"
        "(wk_es u1, wk_shadow u1) = fold (exec_shadow env cfg tb now src) acts (wk_es w, wk_shadow w)"
      using shadow_steps [OF plan', of env src 0 "[]"] by (simp only: add_0 upd_model) blast
    obtain vs2 u2 where d: "fold (observe_step env cfg tb now ''detect'' src) obs (0, [], w\<lparr>wk_model := m\<rparr>) =
        (freq_sum obs, vs2, u2)" "wk_model u2 = m'"
        "wk_es u2 = fold (exec_detect env cfg tb now src) acts (wk_es w)" "wk_shadow u2 = wk_shadow w"
      using detect_steps [OF plan', of env src 0 "[]"] by (simp only: add_0 upd_model) blast
    note line = batch_folded [OF gr [unfolded Some], folded obs_def]
    have e: "w1 = u1" "w2 = u2" "rel_option same_line st1 st2"
      using line [OF s(1)] line [OF d(1)] assms by (simp_all add: same_line_batch)
    moreover have "en_health env = None \<Longrightarrow> wk_es u1 = wk_es w"
      using exec_shadow_emission [of env cfg tb now src acts "(wk_es w, wk_shadow w)"] s(3) by (metis fst_conv)
    moreover have "wk_model u1 = wk_model u2" using s(2) d(2) by simp
    ultimately show ?thesis
      unfolding e(1,2) by (intro conjI exI [of _ acts] impI plan_ok [OF plan] e(3) s(3) d(3) d(4))
  qed
qed

theorem shadow_previews_detect_witness:
  "wk_model (snd (wit_batch ''shadow'')) = wk_model (snd (wit_batch ''detect'')) \<and>
   wk_es (snd (wit_batch ''shadow'')) = wk_es wit_worker \<and>
   map_option (map (se_Verdict \<circ> snd) \<circ> sl_events) (wk_shadow (snd (wit_batch ''shadow''))) = Some [''unknown''] \<and>
   es_world (wk_es (snd (wit_batch ''detect''))) = [''critical'']"
proof (intro conjI)
  note run = shadow_previews_detect [OF surjective_pairing surjective_pairing,
      of wit_wenv wit_cfg "wit_logs 9" 9 "''src''" "[wit_signal]" wit_worker]
  show "wk_model (snd (wit_batch ''shadow'')) = wk_model (snd (wit_batch ''detect''))" using run by blast
  have "en_health wit_wenv = None" by (simp add: wit_wenv_def env.defs)
  then show "wk_es (snd (wit_batch ''shadow'')) = wk_es wit_worker" using run by blast
  show "map_option (map (se_Verdict \<circ> snd) \<circ> sl_events) (wk_shadow (snd (wit_batch ''shadow''))) = Some [''unknown'']"
    by code_simp
  show "es_world (wk_es (snd (wit_batch ''detect''))) = [''critical'']" by code_simp
qed

text \<open>
  C29: What a worker learns from logs does not depend on its mode. Two workers that start from the same
  patterns and templates and see the same batches at the same times, whatever mode each batch is run
  under and whatever emitters, analyzers, episode stores and recorders are attached, end with the same
  patterns (baselines, verdicts, samples) and templates; so a switch of modes finds the model that a
  run in the other mode would have.
\<close>

theorem learning_is_mode_independent:
  assumes "ct_patterns (fst (wk_model w)) = ct_patterns (fst (wk_model u))" "ct_fold (fst (wk_model w)) = ct_fold (fst (wk_model u))"
    and "fst (snd (wk_model w)) = fst (snd (wk_model u))"
    and "map fst batches = map fst batches'" and "map (snd \<circ> snd) batches = map (snd \<circ> snd) batches'"
    and "w' = run_batches env cfg (\<lambda>now. log_typed_brain sha override msqrt g now b) src batches w"
    and "u' = run_batches env' cfg (\<lambda>now. log_typed_brain sha override msqrt g now b) src batches' u"
  shows "ct_patterns (fst (wk_model w')) = ct_patterns (fst (wk_model u')) \<and>
    fst (snd (wk_model w')) = fst (snd (wk_model u'))"
proof -
  have "log_learned (wk_model w) = log_learned (wk_model u)"
    using assms(1-3) by (simp add: log_learned_def)
  from runs_alike [OF this assms(4,5), of env cfg sha override msqrt g b src env']
  show ?thesis by (simp add: assms(6,7) log_learned_def)
qed

theorem learning_is_mode_independent_witness:
  "ct_patterns (fst (wk_model (wit_run [(9, ''training'', [wit_signal]), (10, ''detect'', [wit_signal])]))) =
     ct_patterns (fst (wk_model (wit_run [(9, ''detect'', [wit_signal]), (10, ''shadow'', [wit_signal])]))) \<and>
   map fst (ct_patterns (fst (wk_model (wit_run [(9, ''training'', [wit_signal]), (10, ''detect'', [wit_signal])])))) = [''p-m'']"
proof
  show "ct_patterns (fst (wk_model (wit_run [(9, ''training'', [wit_signal]), (10, ''detect'', [wit_signal])]))) =
     ct_patterns (fst (wk_model (wit_run [(9, ''detect'', [wit_signal]), (10, ''shadow'', [wit_signal])])))"
    by (rule conjunct1 [OF learning_is_mode_independent [OF refl refl refl _ _ refl refl]]) simp_all
  show "map fst (ct_patterns (fst (wk_model (wit_run [(9, ''training'', [wit_signal]), (10, ''detect'', [wit_signal])])))) = [''p-m'']"
    by code_simp
qed

end
