(* ===== verification/Worker_Flush.thy ===== *)
theory Worker_Flush
  imports Worker_Modes "HOL-Library.Countable"
begin

text \<open>
  The loop of the worker around its ticks (\<open>Run\<close> and \<open>commitSources\<close> in \<open>pkg/agent/worker.go\<close>): the
  periodic flush, the flush at shutdown, and the commit of the sources that follows them. What is
  proved is the order the code is built on: a source's record of delivered rows becomes durable only
  after the rows themselves are in storage.
\<close>

subsection \<open>Flushing\<close>












subsection \<open>A run of the loop\<close>



subsection \<open>Changes of the catalog are marked\<close>

text \<open>Either the catalog is marked for saving, or what would be saved has not changed.\<close>

definition marked :: "Catalog \<Rightarrow> Catalog \<Rightarrow> bool" where
  "marked c c' \<longleftrightarrow> ct_store c' = ct_store c \<and>
     (ct_dirty c' \<or> ct_patterns c' = ct_patterns c \<and> ct_services c' = ct_services c \<and> ct_dirty c' = ct_dirty c)"

lemma marked_refl [simp]: "marked c c" by (simp add: marked_def)








subsection \<open>The stored catalog\<close>











text \<open>The emission of a batch only appends to the detect log, so the blob names stay.\<close>

definition detect_blob :: "'x emission_state \<Rightarrow> string option" where
  "detect_blob es = map_option dl_blobName (es_detect es)"


lemma detect_blob_record [simp]: "detect_blob (recordDetectEvent env e em es) = detect_blob es"
  by (auto simp: detect_blob_def recordDetectEvent_def Record_def split: option.split)



lemma detect_blob_upd [simp]:
  "detect_blob (es\<lparr>es_world := x\<rparr>) = detect_blob es" "detect_blob (es\<lparr>es_world := x, es_cache := c\<rparr>) = detect_blob es"
  by (simp_all add: detect_blob_def)










subsection \<open>Runs\<close>



subsection \<open>A codec\<close>

text \<open>
  Files are countable, so there is an injective encoding of them into texts; it stands for the JSON
  codec in the witness below.
\<close>

instance EWMA_ext :: (countable) countable
  by (rule countable_classI [of "\<lambda>r. to_nat (ew_Mean r, ew_Variance r, ew_Count r, EWMA.more r)"])
    (auto intro: EWMA.equality)

instance ServiceInfo_ext :: (countable) countable
  by (rule countable_classI [of "\<lambda>r. to_nat (si_OrgID r, si_FirstSeen r, si_Manual r, ServiceInfo.more r)"])
    (auto intro: ServiceInfo.equality)

instance Pattern_ext :: (countable) countable
  by (rule countable_classI [of "\<lambda>r. to_nat (pt_ID r, pt_OrgID r, pt_Template r, pt_FirstSeen r, pt_LastSeen r, pt_Count r,
      pt_BaselineFrequency r, pt_BaselineVariance r, pt_BaselineAvg r, pt_Seasonal r, pt_SpikeBaselineMode r, pt_Verdict r,
      pt_RuleName r, pt_Source r, pt_Service r, pt_Tags r, pt_Samples r, Pattern.more r)"])
    (auto intro: Pattern.equality)

instance catalogFile_ext :: (countable) countable
  by (rule countable_classI [of "\<lambda>r. to_nat (cf_Version r, cf_UpdatedAt r, cf_Patterns r, cf_Services r, catalogFile.more r)"])
    (auto intro: catalogFile.equality)








subsection \<open>Property\<close>



end
