(* ===== verification/Emit_Interceptor.thy ===== *)
theory Emit_Interceptor
  imports Alert_Payload
begin

text \<open>
  The interception point every alert passes (\<open>pkg/services/emit_interceptor.go\<close>) and the fan-out over
  the channels (\<open>pkg/core/alert.go\<close>). The interceptor comes from outside the repository: a parameter
  that may panic. A channel is its name and an operation on a world \<open>'x\<close> that answers with an error
  text or not.
\<close>

subsection \<open>Decisions\<close>

datatype EmitAction = EmitProceed | EmitDivert | EmitSuppress | EmitGroup | EmitDelay

record EmitDecision =
  ed_Action :: EmitAction
  ed_Reason :: string
  ed_DivertChannels :: "string list"
  ed_DeliveryHandled :: bool
  ed_DeliveryError :: "string option"

definition proceed :: EmitDecision where
  "proceed = \<lparr>ed_Action = EmitProceed, ed_Reason = [], ed_DivertChannels = [], ed_DeliveryHandled = False,
     ed_DeliveryError = None\<rparr>"

text \<open>\<open>None\<close> for no interceptor; the \<open>None\<close> of a call is a panic.\<close>

definition resolveEmitDecision ::
  "((string, go_value) gomap \<Rightarrow> string \<Rightarrow> EmitDecision option) option \<Rightarrow> (string, go_value) gomap \<Rightarrow> string \<Rightarrow> EmitDecision" where
  "resolveEmitDecision interceptor content teamID =
     (case interceptor of
        None \<Rightarrow> proceed
      | Some i \<Rightarrow> (case i content teamID of None \<Rightarrow> proceed | Some d \<Rightarrow> d))"

subsection \<open>Channels\<close>

record ('i, 'x) channel =
  ch_Name :: string
  ch_Send :: "'i \<Rightarrow> 'x \<Rightarrow> string option \<times> 'x"

definition filterProvidersByChannel :: "('i, 'x) channel list \<Rightarrow> string list \<Rightarrow> ('i, 'x) channel list" where
  "filterProvidersByChannel providers names =
     filter (\<lambda>p. to_lower (ch_Name p) \<in> set (map (\<lambda>n. to_lower (trim_space n)) names)) providers"

definition applyEmitRouting :: "EmitDecision \<Rightarrow> ('i, 'x) channel list \<Rightarrow> ('i, 'x) channel list" where
  "applyEmitRouting decision providers =
     (if ed_Action decision = EmitDivert then filterProvidersByChannel providers (ed_DivertChannels decision)
      else providers)"

record AlertResult =
  al_Succeeded :: "string list"
  al_Failed :: "(string, string) gomap"
  al_Err :: "string option"

text \<open>\<open>errors.Join\<close> of the texts.\<close>

definition newline_char :: char where "newline_char = CHR 0x0A"

definition join_errors :: "string list \<Rightarrow> string option" where
  "join_errors errs = (if errs = [] then None else Some (join_with [newline_char] errs))"

definition send_one ::
  "'i \<Rightarrow> ('i, 'x) channel \<Rightarrow> string list \<times> (string, string) gomap \<times> string list \<times> 'x \<Rightarrow>
   string list \<times> (string, string) gomap \<times> string list \<times> 'x" where
  "send_one incident p = (\<lambda>(ok, failed, errs, x).
     case ch_Send p incident x of
       (Some err, x) \<Rightarrow> (ok, gm_set failed (ch_Name p) err, errs @ [ch_Name p @ '': '' @ err], x)
     | (None, x) \<Rightarrow> (ok @ [ch_Name p], failed, errs, x))"

definition SendAllAlerts :: "('i, 'x) channel list \<Rightarrow> 'i \<Rightarrow> 'x \<Rightarrow> AlertResult \<times> 'x" where
  "SendAllAlerts providers incident x =
     (let (ok, failed, errs, x) = fold (send_one incident) providers ([], [], [], x)
      in (\<lparr>al_Succeeded = ok, al_Failed = failed, al_Err = join_errors errs\<rparr>, x))"

definition SendAlert :: "('i, 'x) channel list \<Rightarrow> 'i \<Rightarrow> 'x \<Rightarrow> string option \<times> 'x" where
  "SendAlert providers incident x = (let (res, x) = SendAllAlerts providers incident x in (al_Err res, x))"

subsection \<open>Fingerprints\<close>








subsection \<open>Escaping is injective\<close>







subsection \<open>The fan-out\<close>

text \<open>Running every channel, whatever the others answer: the specification of the fan-out.\<close>

fun run_channels :: "('i, 'x) channel list \<Rightarrow> 'i \<Rightarrow> 'x \<Rightarrow> (string \<times> string option) list \<times> 'x" where
  "run_channels [] incident x = ([], x)"
| "run_channels (p # ps) incident x =
     (let (err, x) = ch_Send p incident x; (outs, x) = run_channels ps incident x in ((ch_Name p, err) # outs, x))"

lemma fold_send_one:
  "fold (send_one i) ps (ok, failed, errs, x) =
     (let (outs, x) = run_channels ps i x
      in (ok @ map fst (filter (\<lambda>p. snd p = None) outs),
          fold (\<lambda>(n, e) m. case e of None \<Rightarrow> m | Some t \<Rightarrow> gm_set m n t) outs failed,
          errs @ List.map_filter (\<lambda>(n, e). map_option (\<lambda>t. n @ '': '' @ t) e) outs, x))"
proof (induction ps arbitrary: ok failed errs x)
  case (Cons p ps)
  obtain e y where s: "ch_Send p i x = (e, y)" by fastforce
  obtain outs z where r: "run_channels ps i y = (outs, z)" by fastforce
  have "fold (send_one i) (p # ps) (ok, failed, errs, x) = fold (send_one i) ps (send_one i p (ok, failed, errs, x))" by simp
  also have "send_one i p (ok, failed, errs, x) =
      (case e of Some err \<Rightarrow> (ok, gm_set failed (ch_Name p) err, errs @ [ch_Name p @ '': '' @ err], y)
               | None \<Rightarrow> (ok @ [ch_Name p], failed, errs, y))"
    by (simp add: send_one_def s split: option.split)
  finally show ?case by (cases e) (simp_all add: s r Cons.IH map_filter_simps)
qed (simp add: map_filter_simps)

lemma SendAllAlerts_runs_all:
  assumes "run_channels ps i x = (outs, y)" "SendAllAlerts ps i x = (res, z)"
  shows "z = y \<and> al_Succeeded res = map fst (filter (\<lambda>p. snd p = None) outs) \<and>
    (al_Err res = None \<longleftrightarrow> (\<forall>p \<in> set outs. snd p = None)) \<and> map fst outs = map ch_Name ps"
proof -
  have names: "map fst outs = map ch_Name ps"
    using assms(1) by (induction ps arbitrary: x outs) (auto split: prod.splits)
  have none: "List.map_filter (\<lambda>(n, e). map_option (\<lambda>t. n @ '': '' @ t) e) xs = [] \<longleftrightarrow> (\<forall>p \<in> set xs. snd p = None)"
    for xs :: "(string \<times> string option) list"
    by (induction xs) (auto simp: map_filter_simps split: option.splits)
  show ?thesis
    using assms(2) by (auto simp: SendAllAlerts_def fold_send_one assms(1) join_errors_def none [simplified] names split: if_splits)
qed

subsection \<open>Property\<close>


end
