(* ===== verification/Incident_Delivery.thy ===== *)
theory Incident_Delivery
  imports Emit_Interceptor Detection_Episodes Ack_Token
begin

text \<open>
  From an alert to a stored incident and its notifications (\<open>pkg/services/incident.go\<close>,
  \<open>pkg/services/intakesettings.go\<close>, \<open>pkg/models/incident.go\<close>, \<open>pkg/utils/agent_template.go\<close>).

  The store is the in-memory provider or absent. Channels and the on-call workflow act on a world
  \<open>'x\<close>; the configuration of an incident, the channels it builds, the clock and fresh ids are
  parameters. A payload is a map, never nil.
\<close>

type_synonym payload = "(string, go_value) gomap"

subsection \<open>Intake settings\<close>

definition IntakeSettingsBlobName :: string where "IntakeSettingsBlobName = ''models/settings/intake-settings''"

record IntakeSettings =
  is_AutoResolveWebhook :: bool

definition DefaultIntakeSettings :: IntakeSettings where
  "DefaultIntakeSettings = \<lparr>is_AutoResolveWebhook = True\<rparr>"

text \<open>\<open>dec\<close> decodes a text onto settings, \<open>None\<close> for an error; \<open>read_fails\<close> says whether the read fails.\<close>

definition LoadIntakeSettings ::
  "(string \<Rightarrow> IntakeSettings \<Rightarrow> IntakeSettings option) \<Rightarrow> bool \<Rightarrow> memoryProvider option \<Rightarrow> IntakeSettings" where
  "LoadIntakeSettings dec read_fails st =
     (case st of
        None \<Rightarrow> DefaultIntakeSettings
      | Some p \<Rightarrow>
          if read_fails then DefaultIntakeSettings
          else case ReadBlob p IntakeSettingsBlobName of
                 None \<Rightarrow> DefaultIntakeSettings
               | Some data \<Rightarrow>
                   if data = [] then DefaultIntakeSettings
                   else (case dec data DefaultIntakeSettings of None \<Rightarrow> DefaultIntakeSettings | Some got \<Rightarrow> got))"

datatype intake_error = ErrIntakeNoStorage | ErrIntakeEncode

definition SaveIntakeSettings ::
  "(IntakeSettings \<Rightarrow> string option) \<Rightarrow> time \<Rightarrow> IntakeSettings \<Rightarrow> memoryProvider option \<Rightarrow> intake_error option \<times> memoryProvider option" where
  "SaveIntakeSettings enc now s st =
     (case st of
        None \<Rightarrow> (Some ErrIntakeNoStorage, st)
      | Some p \<Rightarrow>
          (case enc s of
             None \<Rightarrow> (Some ErrIntakeEncode, st)
           | Some data \<Rightarrow> (None, Some (WriteBlob now IntakeSettingsBlobName data p))))"

subsection \<open>Reading a payload\<close>

definition text_field :: "payload \<Rightarrow> string \<Rightarrow> string option" where
  "text_field c name = (case gm_get c name of Some (VStr s) \<Rightarrow> Some s | _ \<Rightarrow> None)"

definition IsAgentIncident :: "content \<Rightarrow> bool" where
  "IsAgentIncident content =
     (case content of
        None \<Rightarrow> False
      | Some c \<Rightarrow>
          (case text_field c ''PatternID'' of Some v \<Rightarrow> v \<noteq> [] | None \<Rightarrow> False) \<or>
          (case text_field c ''Source'' of Some v \<Rightarrow> length v \<ge> 6 \<and> take 6 v = ''agent:'' | None \<Rightarrow> False))"

definition webhookSource :: string where "webhookSource = ''webhook''"
definition sourceHintKey :: string where "sourceHintKey = ''incident_source''"

definition sourceHint :: "(string, string) gomap option \<Rightarrow> string" where
  "sourceHint params = (case params of None \<Rightarrow> [] | Some m \<Rightarrow> trim_space (gm_get0 [] m sourceHintKey))"

definition resolveSource :: "content \<Rightarrow> string \<Rightarrow> string" where
  "resolveSource content hint =
     (if IsAgentIncident content then (if ExtractSource content \<noteq> [] then ExtractSource content else ''agent'')
      else if hint \<noteq> [] then hint else webhookSource)"

definition shouldAutoResolveWebhook :: "bool \<Rightarrow> string \<Rightarrow> IntakeSettings \<Rightarrow> bool" where
  "shouldAutoResolveWebhook alreadyResolved source settings =
     (if alreadyResolved then False
      else if \<not> is_AutoResolveWebhook settings then False
      else source = webhookSource)"

text \<open>The first status field that holds a text decides.\<close>

definition isResolved :: "payload \<Rightarrow> bool" where
  "isResolved content =
     (case first_some (text_field content) [''status'', ''state'', ''alertState''] of
        Some s \<Rightarrow> equal_fold s ''resolved''
      | None \<Rightarrow> False)"

subsection \<open>Configuration and environment\<close>

record delivery_cfg =
  cg_Slack :: bool
  cg_Telegram :: bool
  cg_Viber :: bool
  cg_Email :: bool
  cg_MSTeams :: bool
  cg_Lark :: bool
  cg_OnCallEnable :: bool
  cg_OnCallWaitMinutes :: int
  cg_PublicHost :: string

definition enabledChannels :: "delivery_cfg \<Rightarrow> string list" where
  "enabledChannels cfg =
     (if cg_Slack cfg then [''slack''] else []) @ (if cg_Telegram cfg then [''telegram''] else []) @
     (if cg_Viber cfg then [''viber''] else []) @ (if cg_Email cfg then [''email''] else []) @
     (if cg_MSTeams cfg then [''msteams''] else []) @ (if cg_Lark cfg then [''lark''] else [])"

record Incident =
  in_ID :: string
  in_TeamID :: string
  in_Content :: payload
  in_Resolved :: bool

text \<open>
  \<open>iv_config\<close> resolves the configuration for the routing parameters, \<open>iv_providers\<close> builds the channels
  or fails, \<open>iv_oncall\<close> starts the on-call workflow (\<open>None\<close> when it was never initialised).
\<close>

record 'x delivery_env =
  iv_interceptor :: "(payload \<Rightarrow> string \<Rightarrow> EmitDecision option) option"
  iv_config :: "(string, string) gomap option \<Rightarrow> delivery_cfg"
  iv_providers :: "delivery_cfg \<Rightarrow> string + (Incident, 'x) channel list"
  iv_now :: "'x \<Rightarrow> time"
  iv_uuid :: "'x \<Rightarrow> string"
  iv_ackURL :: "string \<Rightarrow> string \<Rightarrow> duration \<Rightarrow> time \<Rightarrow> string"
  iv_oncall :: "(string \<Rightarrow> delivery_cfg \<Rightarrow> 'x \<Rightarrow> string option \<times> 'x) option"
  iv_intake :: "memoryProvider option \<Rightarrow> IntakeSettings"
  iv_error_text :: "storage_error \<Rightarrow> string"

record 'x delivery =
  dv_world :: 'x
  dv_store :: "memoryProvider option"

record incidentCreateOptions =
  co_IncidentID :: string
  co_Detection :: "DetectionEpisodeDecision option"
  co_SkipOnCall :: bool

definition no_options :: incidentCreateOptions where
  "no_options = \<lparr>co_IncidentID = [], co_Detection = None, co_SkipOnCall = False\<rparr>"

record incidentCreateResult =
  cr_IncidentID :: string
  cr_Decision :: EmitDecision
  cr_NotifyStatus :: string
  cr_Err :: "string option"

definition join_error :: "string option \<Rightarrow> string option \<Rightarrow> string option" where
  "join_error a b = join_errors (List.map_filter id [a, b])"

subsection \<open>Records\<close>

definition applyDetectionDecision :: "DetectionEpisodeDecision \<Rightarrow> IncidentRecord \<Rightarrow> IncidentRecord" where
  "applyDetectionDecision d rec =
     (let rec = rec\<lparr>ir_DetectionFingerprint := dd_Fingerprint d, ir_DetectionEpisodeID := dd_EpisodeID d,
            ir_OccurrenceCount := dd_OccurrenceCount d, ir_DetectionFirstSeen := Some (dd_FirstSeen d),
            ir_DetectionLastSeen := Some (dd_LastSeen d), ir_HighestObservedSeverity := dd_HighestObservedSeverity d\<rparr>;
          rec = (if dd_HighestNotifiedSeverity d \<noteq> []
                 then rec\<lparr>ir_HighestNotifiedSeverity := dd_HighestNotifiedSeverity d\<rparr> else rec);
          c = content_set (ir_Content rec) ''Frequency'' (VInt (dd_OccurrenceCount d));
          severity = NormalizeSeverity (dd_HighestObservedSeverity d);
          severity = (if SeverityRank (dd_HighestNotifiedSeverity d) > SeverityRank severity
                      then NormalizeSeverity (dd_HighestNotifiedSeverity d) else severity)
      in rec\<lparr>ir_Content := (if severity \<noteq> [] then content_set c ''Severity'' (VStr severity) else c)\<rparr>)"

text \<open>An empty record: the zero values of Go.\<close>

definition zero_record :: IncidentRecord where
  "zero_record = \<lparr>ir_ID = [], ir_OrgID = [], ir_TeamID = [], ir_Title = [], ir_Source = [], ir_Service = [],
     ir_Origin = [], ir_Resolved = False, ir_ChannelsEnabled = [], ir_ChannelsNotified = [], ir_OnCallTriggered = False,
     ir_OnCallError = [], ir_NotifyStatus = [], ir_NotifyError = [], ir_CreatedAt = zero_time, ir_AckedAt = None,
     ir_ResolvedAt = None, ir_DetectionFingerprint = [], ir_DetectionEpisodeID = [], ir_OccurrenceCount = 0,
     ir_DetectionFirstSeen = None, ir_DetectionLastSeen = None, ir_HighestObservedSeverity = [],
     ir_HighestNotifiedSeverity = [], ir_Content = None, ir_AssignedTeamID = [], ir_AssignedMemberIDs = []\<rparr>"

definition buildIncidentRecord ::
  "time \<Rightarrow> Incident \<Rightarrow> delivery_cfg \<Rightarrow> content \<Rightarrow> bool \<Rightarrow> string \<Rightarrow> IncidentRecord" where
  "buildIncidentRecord now incident cfg content resolved hint =
     zero_record\<lparr>ir_ID := in_ID incident, ir_OrgID := DefaultOrgID, ir_TeamID := in_TeamID incident,
       ir_Title := ExtractTitle content, ir_Service := ExtractService content, ir_Source := resolveSource content hint,
       ir_Origin := (if IsAgentIncident content then OriginAIDetect else OriginWebhook), ir_Resolved := resolved,
       ir_ChannelsEnabled := enabledChannels cfg, ir_OnCallTriggered := (\<not> resolved \<and> cg_OnCallEnable cfg),
       ir_CreatedAt := now, ir_Content := content\<rparr>"

text \<open>Entries of the second map win.\<close>

definition merge_content :: "content \<Rightarrow> payload \<Rightarrow> content" where
  "merge_content old new = Some (fold (\<lambda>(k, v) m. gm_set m k v) new (case old of None \<Rightarrow> [] | Some m \<Rightarrow> m))"

definition saveIncidentRecord :: "IncidentRecord \<Rightarrow> bool \<Rightarrow> memoryProvider \<Rightarrow> storage_error option \<times> memoryProvider" where
  "saveIncidentRecord rec detection m =
     (if detection then (case SaveDetectionIncident (Some rec) m of Inl e \<Rightarrow> (Some e, m) | Inr m \<Rightarrow> (None, m))
      else (None, SaveIncident rec m))"

subsection \<open>Findings the interceptor has handled\<close>

definition buildHandledDetectionIncident ::
  "time \<Rightarrow> string \<Rightarrow> payload \<Rightarrow> incidentCreateOptions \<Rightarrow> EmitDecision \<Rightarrow> DetectionEpisodeDecision \<Rightarrow> memoryProvider \<Rightarrow>
   storage_error + IncidentRecord" where
  "buildHandledDetectionIncident now teamID content options decision d m =
     (let notifyStatus = (if ed_Action decision = EmitSuppress then ''suppressed''
                          else if ed_Action decision = EmitGroup then ''grouped'' else ''diverted'');
          (notifyStatus, notifyError) =
            (case ed_DeliveryError decision of None \<Rightarrow> (notifyStatus, []) | Some e \<Rightarrow> (''failed'', e));
          build = (\<lambda>rec.
            let rec = rec\<lparr>ir_Content := merge_content (ir_Content rec) content\<rparr>;
                rec = rec\<lparr>ir_Title := ExtractTitle (ir_Content rec), ir_Service := ExtractService (ir_Content rec),
                  ir_Source := resolveSource (ir_Content rec) [], ir_NotifyStatus := notifyStatus,
                  ir_NotifyError := notifyError\<rparr>
            in applyDetectionDecision d rec)
      in case GetIncident m (co_IncidentID options) of
           Inr rec \<Rightarrow> Inr (build rec)
         | Inl e \<Rightarrow>
             if e \<noteq> ErrNotFound then Inl e
             else Inr (build (zero_record\<lparr>ir_ID := co_IncidentID options, ir_OrgID := DefaultOrgID, ir_TeamID := teamID,
                     ir_Origin := OriginAIDetect, ir_CreatedAt := now, ir_Content := Some []\<rparr>)))"

definition persistTerminalDetectionIncident ::
  "'x delivery_env \<Rightarrow> string \<Rightarrow> payload \<Rightarrow> incidentCreateOptions \<Rightarrow> EmitDecision \<Rightarrow> DetectionEpisodeDecision \<Rightarrow>
   incidentCreateResult \<Rightarrow> time \<Rightarrow> memoryProvider \<Rightarrow> incidentCreateResult \<times> memoryProvider" where
  "persistTerminalDetectionIncident env teamID content options decision d res now m =
     (case buildHandledDetectionIncident now teamID content options decision d m of
        Inl e \<Rightarrow> (res\<lparr>cr_NotifyStatus := ''failed'', cr_Err := join_error (cr_Err res) (Some (iv_error_text env e))\<rparr>, m)
      | Inr rec \<Rightarrow>
          let res = res\<lparr>cr_IncidentID := ir_ID rec, cr_NotifyStatus := ir_NotifyStatus rec\<rparr>
          in case saveIncidentRecord rec True m of
               (Some e, m) \<Rightarrow>
                 (res\<lparr>cr_NotifyStatus := ''failed'', cr_Err := join_error (cr_Err res) (Some (iv_error_text env e))\<rparr>, m)
             | (None, m) \<Rightarrow> (res, m))"

subsection \<open>Delivery\<close>

text \<open>
  The record as it is saved before the fan-out; the second result says that it is new, so that its
  content is the map the message shows.
\<close>

definition first_record ::
  "time \<Rightarrow> delivery_cfg \<Rightarrow> Incident \<Rightarrow> payload \<Rightarrow> incidentCreateOptions \<Rightarrow> string \<Rightarrow> memoryProvider \<Rightarrow> IncidentRecord \<times> bool" where
  "first_record now cfg incident clone options hint m =
     (let resolved = in_Resolved incident;
          rec = buildIncidentRecord now incident cfg (Some clone) resolved hint;
          (rec, fresh) =
            (case co_Detection options of
               None \<Rightarrow> (rec, True)
             | Some d \<Rightarrow>
                 (case GetIncident m (in_ID incident) of
                    Inr existing \<Rightarrow>
                      (applyDetectionDecision d (existing\<lparr>ir_Title := ExtractTitle (Some clone),
                         ir_Service := ExtractService (Some clone), ir_Source := resolveSource (Some clone) hint,
                         ir_Content := merge_content (ir_Content existing) clone\<rparr>), False)
                  | Inl e \<Rightarrow> (applyDetectionDecision d rec, True)));
          rec = (if \<not> co_SkipOnCall options
                 then rec\<lparr>ir_OnCallTriggered := (\<not> resolved \<and> cg_OnCallEnable cfg)\<rparr> else rec)
      in (rec\<lparr>ir_NotifyStatus := ''pending''\<rparr>, fresh))"

definition fanout_status :: "AlertResult \<Rightarrow> string \<times> string" where
  "fanout_status fan =
     (case al_Err fan of
        None \<Rightarrow> (''sent'', [])
      | Some e \<Rightarrow> if al_Succeeded fan = [] then (''failed'', e) else (''partial'', e))"

definition stamp_outcome ::
  "bool \<Rightarrow> AlertResult \<Rightarrow> IncidentRecord \<times> memoryProvider \<Rightarrow> IncidentRecord \<times> memoryProvider" where
  "stamp_outcome detection fan = (\<lambda>(rec, m).
     let rec = (if detection then (case GetIncident m (ir_ID rec) of Inr latest \<Rightarrow> latest | Inl e \<Rightarrow> rec) else rec);
         (status, err) = fanout_status fan;
         rec = rec\<lparr>ir_ChannelsNotified := al_Succeeded fan, ir_NotifyStatus := status, ir_NotifyError := err\<rparr>
     in (rec, snd (saveIncidentRecord rec detection m)))"

text \<open>On-call: \<open>None\<close> without a store or record.\<close>

definition escalate ::
  "'x delivery_env \<Rightarrow> delivery_cfg \<Rightarrow> string \<Rightarrow> bool \<Rightarrow> (IncidentRecord \<times> memoryProvider) option \<Rightarrow> 'x \<Rightarrow>
   string option \<times> (IncidentRecord \<times> memoryProvider) option \<times> 'x" where
  "escalate env cfg incidentID detection st x =
     (case iv_oncall env of
        None \<Rightarrow>
          (None,
           map_option (\<lambda>(rec, m).
             if ir_OnCallTriggered rec
             then let rec = rec\<lparr>ir_OnCallTriggered := False\<rparr> in (rec, snd (saveIncidentRecord rec detection m))
             else (rec, m)) st, x)
      | Some start \<Rightarrow>
          (case start incidentID cfg x of
             (None, x) \<Rightarrow> (None, st, x)
           | (Some err, x) \<Rightarrow>
               (Some err,
                map_option (\<lambda>(rec, m).
                  let rec = rec\<lparr>ir_OnCallTriggered := False, ir_OnCallError := err\<rparr>
                  in (rec, snd (saveIncidentRecord rec detection m))) st, x)))"

definition auto_resolve :: "bool \<Rightarrow> time \<Rightarrow> IncidentRecord \<times> memoryProvider \<Rightarrow> IncidentRecord \<times> memoryProvider" where
  "auto_resolve detection now = (\<lambda>(rec, m).
     let rec = rec\<lparr>ir_Resolved := True, ir_ResolvedAt := Some now\<rparr> in (rec, snd (saveIncidentRecord rec detection m)))"

definition delivery_error :: "string option \<Rightarrow> string option \<Rightarrow> string option" where
  "delivery_error sendErr oncallErr =
     (case (sendErr, oncallErr) of
        (Some s, Some e) \<Rightarrow> Some (''send: '' @ s @ ''; oncall: '' @ e)
      | (Some s, None) \<Rightarrow> Some s
      | (None, e) \<Rightarrow> e)"

text \<open>The part of \<open>createIncident\<close> behind the interceptor, with the channels \<open>providers\<close> already chosen.\<close>

definition deliver ::
  "'x delivery_env \<Rightarrow> delivery_cfg \<Rightarrow> (Incident, 'x) channel list \<Rightarrow> EmitDecision \<Rightarrow> string \<Rightarrow> payload \<Rightarrow>
   incidentCreateOptions \<Rightarrow> (string, string) gomap option \<Rightarrow> 'x delivery \<Rightarrow> incidentCreateResult \<times> 'x delivery" where
  "deliver env cfg providers decision teamID content options params s =
     (let now = iv_now env (dv_world s);
          detection = (co_Detection options \<noteq> None);
          resolved = isResolved content;
          hint = sourceHint params;
          autoResolve = shouldAutoResolveWebhook resolved (resolveSource (Some content) hint) (iv_intake env (dv_store s));
          incidentID = (if co_IncidentID options \<noteq> [] then co_IncidentID options else iv_uuid env (dv_world s));
          incident = \<lparr>in_ID = incidentID, in_TeamID = teamID, in_Content = content, in_Resolved = resolved\<rparr>;
          acked = (\<not> resolved \<and> cg_OnCallEnable cfg \<and> \<not> co_SkipOnCall options \<and> cg_OnCallWaitMinutes cfg > 0);
          clone = (if acked
                   then gm_set content ''AckURL''
                          (VStr (iv_ackURL env (cg_PublicHost cfg) incidentID (cg_OnCallWaitMinutes cfg * minute) now))
                   else content);
          first = map_option (\<lambda>m. (first_record now cfg incident clone options hint m, m)) (dv_store s);
          st = map_option (\<lambda>((rec, fresh), m). (rec, snd (saveIncidentRecord rec detection m))) first;
          shown = (case first of Some ((rec, True), m) \<Rightarrow> (case ir_Content rec of Some c \<Rightarrow> c | None \<Rightarrow> clone) | _ \<Rightarrow> clone);
          incident = incident\<lparr>in_Content := (if acked then shown else content)\<rparr>;
          (fan, x) = SendAllAlerts providers incident (dv_world s);
          st = map_option (stamp_outcome detection fan) st;
          notifyStatus = (case st of None \<Rightarrow> [] | Some (rec, m) \<Rightarrow> ir_NotifyStatus rec);
          (oncallErr, st, x) =
            (if \<not> resolved \<and> cg_OnCallEnable cfg \<and> \<not> co_SkipOnCall options \<and>
                (case st of None \<Rightarrow> True | Some (rec, m) \<Rightarrow> \<not> ir_Resolved rec)
             then escalate env cfg incidentID detection st x else (None, st, x));
          st = (if autoResolve then map_option (auto_resolve detection (iv_now env x)) st else st)
      in (\<lparr>cr_IncidentID = incidentID, cr_Decision = decision, cr_NotifyStatus = notifyStatus,
           cr_Err = delivery_error (al_Err fan) oncallErr\<rparr>,
          s\<lparr>dv_world := x, dv_store := map_option snd st\<rparr>))"

definition createIncident ::
  "'x delivery_env \<Rightarrow> string \<Rightarrow> payload \<Rightarrow> incidentCreateOptions \<Rightarrow> (string, string) gomap option \<Rightarrow> 'x delivery \<Rightarrow>
   incidentCreateResult \<times> 'x delivery" where
  "createIncident env teamID content options params s =
     (let decision = resolveEmitDecision (iv_interceptor env) content teamID;
          res = \<lparr>cr_IncidentID = [], cr_Decision = decision, cr_NotifyStatus = [], cr_Err = None\<rparr>;
          persist = (\<lambda>res d. case dv_store s of
             None \<Rightarrow> (res, s)
           | Some m \<Rightarrow>
               let (res, m) = persistTerminalDetectionIncident env teamID content options decision d res (iv_now env (dv_world s)) m
               in (res, s\<lparr>dv_store := Some m\<rparr>));
          go_on = (let cfg = iv_config env params
                   in case iv_providers env cfg of
                        Inl err \<Rightarrow> (res\<lparr>cr_Err := Some (''failed to create providers: '' @ err)\<rparr>, s)
                      | Inr providers \<Rightarrow>
                          deliver env cfg (applyEmitRouting decision providers) decision teamID content options params s)
      in case ed_Action decision of
           EmitProceed \<Rightarrow> go_on
         | EmitDelay \<Rightarrow> (res, s)
         | EmitDivert \<Rightarrow>
             (case co_Detection options of
                Some d \<Rightarrow> if ed_DeliveryHandled decision then persist (res\<lparr>cr_Err := ed_DeliveryError decision\<rparr>) d else go_on
              | None \<Rightarrow> go_on)
         | _ \<Rightarrow> (case co_Detection options of Some d \<Rightarrow> persist res d | None \<Rightarrow> (res, s)))"

definition CreateIncident ::
  "'x delivery_env \<Rightarrow> string \<Rightarrow> payload \<Rightarrow> (string, string) gomap option \<Rightarrow> 'x delivery \<Rightarrow> string option \<times> 'x delivery" where
  "CreateIncident env teamID content params s =
     (let (res, s) = createIncident env teamID content no_options params s in (cr_Err res, s))"

subsection \<open>The stored record of an alert\<close>

text \<open>The store holds \<open>rec\<close> under its id, and otherwise what \<open>m0\<close> holds.\<close>

definition holds :: "memoryProvider \<Rightarrow> IncidentRecord \<Rightarrow> memoryProvider \<Rightarrow> bool" where
  "holds m0 rec m \<longleftrightarrow> history_ok m \<and> GetIncident m (ir_ID rec) = Inr rec \<and>
     (\<forall>i. i \<noteq> ir_ID rec \<longrightarrow> GetIncident m i = GetIncident m0 i)"

definition plain_record :: "string \<Rightarrow> IncidentRecord \<Rightarrow> bool" where
  "plain_record i rec \<longleftrightarrow> ir_ID rec = i \<and> ir_OrgID rec = DefaultOrgID \<and> ir_DetectionEpisodeID rec = []"

lemma NormalizeOrgID_Default: "NormalizeOrgID DefaultOrgID = DefaultOrgID"
  by (simp add: NormalizeOrgID_def DefaultOrgID_def)

lemma save_plain:
  assumes "history_ok m" "plain_record i rec" "\<And>j. j \<noteq> i \<Longrightarrow> GetIncident m j = GetIncident m0 j"
  shows "holds m0 rec (snd (saveIncidentRecord rec False m))"
proof -
  have r: "rec\<lparr>ir_OrgID := NormalizeOrgID (ir_OrgID rec)\<rparr> = rec" "ir_ID rec = i" "ir_DetectionEpisodeID rec = []"
    using assms(2) by (simp_all add: plain_record_def NormalizeOrgID_Default)
  have merge: "mergeDetectionIncident old rec = rec" for old
    by (simp add: mergeDetectionIncident_def same_episode_def r(3))
  show ?thesis
    using assms(1,3) history_ok_SaveIncident [OF assms(1)] Get_SaveIncident [OF assms(1), of rec]
    by (auto simp: holds_def saveIncidentRecord_def Let_def r merge split: sum.splits)
qed

lemma save_held:
  assumes "holds m0 old m" "plain_record i old" "plain_record i rec"
  shows "holds m0 rec (snd (saveIncidentRecord rec False m))"
  using assms by (intro save_plain [OF _ assms(3)]) (auto simp: holds_def plain_record_def)

text \<open>What the steps of \<open>deliver\<close> do to the record of an alert that is no detection.\<close>

definition told :: "AlertResult \<Rightarrow> IncidentRecord \<Rightarrow> IncidentRecord" where
  "told fan rec = rec\<lparr>ir_ChannelsNotified := al_Succeeded fan, ir_NotifyStatus := fst (fanout_status fan),
     ir_NotifyError := snd (fanout_status fan)\<rparr>"

lemma stamp_plain:
  assumes "holds m0 rec m" "plain_record i rec" "stamp_outcome False fan (rec, m) = (rec', m')"
  shows "rec' = told fan rec \<and> holds m0 rec' m' \<and> plain_record i rec'"
proof -
  have r: "rec' = told fan rec" "m' = snd (saveIncidentRecord rec' False m)"
    using assms(3) by (auto simp: stamp_outcome_def told_def Let_def split: prod.splits)
  have p: "plain_record i rec'" using assms(2) by (simp add: r(1) told_def plain_record_def)
  show ?thesis using r p save_held [OF assms(1,2) p] by simp
qed

definition escalated :: "string option option \<Rightarrow> IncidentRecord \<Rightarrow> IncidentRecord" where
  "escalated answer rec =
     (case answer of
        None \<Rightarrow> rec\<lparr>ir_OnCallTriggered := False\<rparr>
      | Some None \<Rightarrow> rec
      | Some (Some err) \<Rightarrow> rec\<lparr>ir_OnCallTriggered := False, ir_OnCallError := err\<rparr>)"

lemma escalate_plain:
  assumes "holds m0 rec m" "plain_record i rec"
    and "escalate env cfg i False (Some (rec, m)) x = (err, Some (rec', m'), y)"
  shows "holds m0 rec' m' \<and> plain_record i rec' \<and>
    (case iv_oncall env of
       None \<Rightarrow> err = None \<and> y = x \<and> rec' = escalated None rec
     | Some start \<Rightarrow> start i cfg x = (err, y) \<and> rec' = escalated (Some err) rec)"
proof (cases "iv_oncall env")
  case None
  have p: "plain_record i (rec\<lparr>ir_OnCallTriggered := False\<rparr>)" using assms(2) by (simp add: plain_record_def)
  have "\<not> ir_OnCallTriggered rec \<Longrightarrow> rec\<lparr>ir_OnCallTriggered := False\<rparr> = rec" by (cases rec) simp
  then show ?thesis
    using assms None save_held [OF assms(1,2) p] p by (auto simp: escalate_def escalated_def Let_def split: if_splits)
next
  case (Some start)
  obtain e z where s: "start i cfg x = (e, z)" by fastforce
  show ?thesis
  proof (cases e)
    case None
    then show ?thesis using assms Some s by (simp add: escalate_def escalated_def)
  next
    case (Some t)
    have p: "plain_record i (rec\<lparr>ir_OnCallTriggered := False, ir_OnCallError := t\<rparr>)"
      using assms(2) by (simp add: plain_record_def)
    show ?thesis
      using assms(3) Some s \<open>iv_oncall env = Some start\<close> save_held [OF assms(1,2) p] p
      by (auto simp: escalate_def escalated_def Let_def)
  qed
qed

lemma resolve_plain:
  assumes "holds m0 rec m" "plain_record i rec" "auto_resolve False now (rec, m) = (rec', m')"
  shows "rec' = rec\<lparr>ir_Resolved := True, ir_ResolvedAt := Some now\<rparr> \<and> holds m0 rec' m' \<and> plain_record i rec'"
proof -
  have r: "rec' = rec\<lparr>ir_Resolved := True, ir_ResolvedAt := Some now\<rparr>" "m' = snd (saveIncidentRecord rec' False m)"
    using assms(3) by (auto simp: auto_resolve_def Let_def)
  have p: "plain_record i rec'" using assms(2) by (simp add: r(1) plain_record_def)
  show ?thesis using r p save_held [OF assms(1,2) p] by simp
qed


lemma first_plain:
  assumes "first_record now cfg incident clone no_options hint m = (rec, fresh)"
  shows "plain_record (in_ID incident) rec \<and> fresh \<and> ir_Resolved rec = in_Resolved incident \<and>
    ir_OnCallTriggered rec = (\<not> in_Resolved incident \<and> cg_OnCallEnable cfg) \<and> ir_Content rec = Some clone"
  using assms by (auto simp: first_record_def no_options_def buildIncidentRecord_def zero_record_def plain_record_def Let_def)

text \<open>How a delivery ends, as the record and the answer show it.\<close>

definition outcome_status :: "(string \<times> string option) list \<Rightarrow> string" where
  "outcome_status outs =
     (if list_all (\<lambda>p. snd p = None) outs then ''sent''
      else if list_ex (\<lambda>p. snd p = None) outs then ''partial'' else ''failed'')"

lemma fanout_status_outs:
  assumes "run_channels ps i x = (outs, y)" "SendAllAlerts ps i x = (fan, z)"
  shows "fst (fanout_status fan) = outcome_status outs"
proof -
  have "al_Succeeded fan = [] \<longleftrightarrow> \<not> list_ex (\<lambda>p. snd p = None) outs"
    using SendAllAlerts_runs_all [OF assms] by (auto simp: list_ex_iff filter_empty_conv)
  moreover have "al_Err fan = None \<longleftrightarrow> list_all (\<lambda>p. snd p = None) outs"
    using SendAllAlerts_runs_all [OF assms] by (auto simp: list_all_iff)
  ultimately show ?thesis by (auto simp: fanout_status_def outcome_status_def split: option.splits)
qed

definition paged :: "'x delivery_env \<Rightarrow> delivery_cfg \<Rightarrow> string \<Rightarrow> 'x \<Rightarrow> bool" where
  "paged env cfg i x = (case iv_oncall env of None \<Rightarrow> False | Some start \<Rightarrow> fst (start i cfg x) = None)"

lemma deliver_plain:
  assumes "dv_store s = Some m" "history_ok m" "deliver env cfg ps d team content no_options params s = (res, s')"
  shows "\<exists>rec m' shown outs x. dv_store s' = Some m' \<and> holds m rec m' \<and>
     ir_ID rec = iv_uuid env (dv_world s) \<and> cr_IncidentID res = ir_ID rec \<and>
     in_ID shown = ir_ID rec \<and> in_TeamID shown = team \<and> in_Resolved shown = isResolved content \<and>
     run_channels ps shown (dv_world s) = (outs, x) \<and>
     ir_ChannelsNotified rec = map fst (filter (\<lambda>p. snd p = None) outs) \<and>
     ir_NotifyStatus rec = outcome_status outs \<and> cr_NotifyStatus res = outcome_status outs \<and>
     ir_OnCallTriggered rec = (\<not> isResolved content \<and> cg_OnCallEnable cfg \<and> paged env cfg (ir_ID rec) x) \<and>
     ir_Resolved rec = (isResolved content \<or>
       shouldAutoResolveWebhook (isResolved content) (resolveSource (Some content) (sourceHint params)) (iv_intake env (Some m)))"
proof -
  define i where "i = iv_uuid env (dv_world s)"
  define r where "r = isResolved content"
  define auto where "auto = shouldAutoResolveWebhook r (resolveSource (Some content) (sourceHint params)) (iv_intake env (Some m))"
  define acked where "acked = (\<not> r \<and> cg_OnCallEnable cfg \<and> cg_OnCallWaitMinutes cfg > 0)"
  define clone where "clone = (if acked then gm_set content ''AckURL''
     (VStr (iv_ackURL env (cg_PublicHost cfg) i (cg_OnCallWaitMinutes cfg * minute) (iv_now env (dv_world s)))) else content)"
  define inc where "inc = \<lparr>in_ID = i, in_TeamID = team, in_Content = content, in_Resolved = r\<rparr>"
  obtain rec0 fresh where f: "first_record (iv_now env (dv_world s)) cfg inc clone no_options (sourceHint params) m = (rec0, fresh)"
    by (meson surj_pair)
  note f0 = first_plain [OF f]
  then have f1: "plain_record i rec0" "fresh" "ir_Resolved rec0 = r" "ir_OnCallTriggered rec0 = (\<not> r \<and> cg_OnCallEnable cfg)"
    "ir_Content rec0 = Some clone" by (simp_all add: inc_def)
  define m0 where "m0 = snd (saveIncidentRecord rec0 False m)"
  have h0: "holds m rec0 m0" unfolding m0_def by (rule save_plain [OF assms(2) f1(1)]) simp
  define shown where "shown = inc\<lparr>in_Content := (if acked then clone else content)\<rparr>"
  obtain fan x where fan: "SendAllAlerts ps shown (dv_world s) = (fan, x)" by (meson surj_pair)
  obtain outs y where outs: "run_channels ps shown (dv_world s) = (outs, y)" by (meson surj_pair)
  note sent = SendAllAlerts_runs_all [OF outs fan]
  obtain rec1 m1 where st: "stamp_outcome False fan (rec0, m0) = (rec1, m1)" by (meson surj_pair)
  note st1 = stamp_plain [OF h0 f1(1) st]
  obtain oe st2 z where esc: "(if \<not> r \<and> cg_OnCallEnable cfg \<and> \<not> ir_Resolved rec1
       then escalate env cfg i False (Some (rec1, m1)) x else (None, Some (rec1, m1), x)) = (oe, st2, z)"
    by (meson prod_cases3)
  have st2: "\<exists>rec2 m2. st2 = Some (rec2, m2)"
    using esc by (auto simp: escalate_def Let_def split: if_splits option.splits prod.splits)
  then obtain rec2 m2 where rec2: "st2 = Some (rec2, m2)" by blast
  have same: "ir_Resolved rec1 = r" "ir_OnCallTriggered rec1 = (\<not> r \<and> cg_OnCallEnable cfg)"
    using st1 f1 by (simp_all add: told_def)
  have e2: "holds m rec2 m2 \<and> plain_record i rec2 \<and> ir_Resolved rec2 = r \<and>
     ir_ChannelsNotified rec2 = al_Succeeded fan \<and> ir_NotifyStatus rec2 = fst (fanout_status fan) \<and>
     ir_OnCallTriggered rec2 = (\<not> r \<and> cg_OnCallEnable cfg \<and> paged env cfg i x)"
  proof (cases "\<not> r \<and> cg_OnCallEnable cfg")
    case True
    then have "escalate env cfg i False (Some (rec1, m1)) x = (oe, Some (rec2, m2), z)" using esc same rec2 by simp
    from escalate_plain [OF _ _ this] st1
    have "holds m rec2 m2 \<and> plain_record i rec2 \<and> (case iv_oncall env of
       None \<Rightarrow> oe = None \<and> z = x \<and> rec2 = escalated None rec1
     | Some start \<Rightarrow> start i cfg x = (oe, z) \<and> rec2 = escalated (Some oe) rec1)" by blast
    then show ?thesis using True st1 same
      by (auto simp: escalated_def paged_def told_def split: option.splits)
  next
    case False
    then show ?thesis using esc rec2 st1 same by (auto simp: told_def)
  qed
  obtain rec3 m3 where fin: "(if auto then auto_resolve False (iv_now env z) (rec2, m2) else (rec2, m2)) = (rec3, m3)"
    by (meson surj_pair)
  have e3: "holds m rec3 m3 \<and> plain_record i rec3 \<and> ir_Resolved rec3 = (r \<or> auto) \<and>
     ir_ChannelsNotified rec3 = al_Succeeded fan \<and> ir_NotifyStatus rec3 = fst (fanout_status fan) \<and>
     ir_OnCallTriggered rec3 = (\<not> r \<and> cg_OnCallEnable cfg \<and> paged env cfg i x)"
    using fin e2 resolve_plain [of m rec2 m2 i "iv_now env z" rec3 m3] by (auto split: if_splits)
  have run: "res = \<lparr>cr_IncidentID = i, cr_Decision = d, cr_NotifyStatus = ir_NotifyStatus rec1,
      cr_Err = delivery_error (al_Err fan) oe\<rparr> \<and> dv_store s' = Some m3"
  proof -
    have c: "(\<not> r \<and> cg_OnCallEnable cfg \<and> \<not> co_SkipOnCall no_options \<and> cg_OnCallWaitMinutes cfg > 0) = acked"
      "co_IncidentID no_options = []" "co_Detection no_options = None" "co_SkipOnCall no_options = False"
      by (simp_all add: acked_def no_options_def)
    have fin': "map_option snd (if auto then map_option (auto_resolve False (iv_now env z)) (Some (rec2, m2))
        else Some (rec2, m2)) = Some m3"
      using fin by (auto split: if_splits)
    show ?thesis
    proof (cases acked)
      case True
      then have cl: "clone = gm_set content ''AckURL'' (VStr (iv_ackURL env (cg_PublicHost cfg) i
          (cg_OnCallWaitMinutes cfg * minute) (iv_now env (dv_world s))))"
        by (simp add: clone_def)
      have sh: "\<lparr>in_ID = i, in_TeamID = team, in_Content = clone, in_Resolved = r\<rparr> = shown"
        using True by (simp add: shown_def inc_def)
      show ?thesis
        using assms(3) esc rec2 f1 True
        by (auto simp add: deliver_def assms(1) c(2-) f fan st sh fin'
          simp flip: r_def i_def auto_def acked_def cl inc_def m0_def)
    next
      case False
      then have cl: "clone = content" by (simp add: clone_def)
      have sh: "inc = shown" using False by (simp add: shown_def inc_def)
      show ?thesis
        using assms(3) esc rec2 f1 False
        by (auto simp add: deliver_def assms(1) c(2-) f [unfolded cl sh] fan st sh fin'
          simp flip: r_def i_def auto_def acked_def inc_def m0_def)
    qed
  qed
  have outs_ok: "al_Succeeded fan = map fst (filter (\<lambda>p. snd p = None) outs)" "x = y" using sent by simp_all
  have status: "fst (fanout_status fan) = outcome_status outs" by (rule fanout_status_outs [OF outs fan])
  have rec1: "ir_NotifyStatus rec1 = outcome_status outs" using st1 status by (simp add: told_def)
  have "in_ID shown = i" "in_TeamID shown = team" "in_Resolved shown = r" by (simp_all add: shown_def inc_def)
  then show ?thesis
    using run e3 rec1 status outs outs_ok
    by (intro exI [of _ rec3] exI [of _ m3] exI [of _ shown] exI [of _ outs] exI [of _ x])
       (simp add: plain_record_def auto_def flip: i_def r_def)
qed

text \<open>
  The outcome of the fan-out is written over whatever was stored meanwhile: an acknowledgement that
  arrives while the channels are contacted does not survive the next save.
\<close>

lemma ack_during_fanout_is_lost:
  assumes "holds m0 rec m" "plain_record i rec" "ir_AckedAt rec = None"
    and "UpdateIncidentAck i t m = Inr m1" "stamp_outcome False fan (rec, m1) = (rec', m2)"
  shows "(\<exists>acked. GetIncident m1 i = Inr acked \<and> ir_AckedAt acked = Some t) \<and>
    (\<exists>r. GetIncident m2 i = Inr r \<and> ir_AckedAt r = None)"
proof -
  have ok: "history_ok m1" using assms(1,4) history_ok_Ack by (auto simp: holds_def)
  have i: "ir_ID rec = i" using assms(2) by (simp add: plain_record_def)
  have acked: "GetIncident m1 i = Inr (rec\<lparr>ir_AckedAt := Some t\<rparr>)"
    using assms(1,4) i find_update_first [of "\<lambda>r. ir_ID r = i" "\<lambda>r. r\<lparr>ir_AckedAt := Some t\<rparr>" "mp_incidents m"]
    by (auto simp: holds_def GetIncident_def UpdateIncidentAck_def split: option.splits if_splits)
  have out: "rec' = told fan rec" "m2 = snd (saveIncidentRecord rec' False m1)"
    using assms(5) by (auto simp: stamp_outcome_def told_def Let_def split: prod.splits)
  have "plain_record i rec'" using assms(2) by (simp add: out(1) told_def plain_record_def)
  from save_plain [OF ok this refl] out have "holds m1 rec' m2" by simp
  then show ?thesis using acked i assms(3) out(1) by (auto simp: holds_def told_def)
qed

subsection \<open>Property\<close>

text \<open>
  C33: The stored record of an alert tells the truth about its delivery. Whatever the channels answer,
  an alert that is let through (or diverted to some channels) is stored under the id that is returned and
  touches no other record; its list of notified channels is exactly the chosen channels that answered without
  an error, its status is sent, partial or failed accordingly and is the status returned; it counts
  as escalated exactly when it is unresolved, on-call is enabled and the workflow started; and it is
  resolved exactly when the alert says so or plain webhooks resolve themselves.
\<close>

theorem alert_is_recorded_truthfully:
  assumes "dv_store s = Some m" "history_ok m"
    and "resolveEmitDecision (iv_interceptor env) content team = d" "ed_Action d \<in> {EmitProceed, EmitDivert}"
    and "iv_config env params = cfg" "iv_providers env cfg = Inr ps"
    and "createIncident env team content no_options params s = (res, s')"
  shows "\<exists>rec m' shown outs x. dv_store s' = Some m' \<and> holds m rec m' \<and>
     ir_ID rec = iv_uuid env (dv_world s) \<and> cr_IncidentID res = ir_ID rec \<and>
     in_ID shown = ir_ID rec \<and> in_TeamID shown = team \<and> in_Resolved shown = isResolved content \<and>
     run_channels (applyEmitRouting d ps) shown (dv_world s) = (outs, x) \<and>
     ir_ChannelsNotified rec = map fst (filter (\<lambda>p. snd p = None) outs) \<and>
     ir_NotifyStatus rec = outcome_status outs \<and> cr_NotifyStatus res = outcome_status outs \<and>
     ir_OnCallTriggered rec = (\<not> isResolved content \<and> cg_OnCallEnable cfg \<and> paged env cfg (ir_ID rec) x) \<and>
     ir_Resolved rec = (isResolved content \<or>
       shouldAutoResolveWebhook (isResolved content) (resolveSource (Some content) (sourceHint params)) (iv_intake env (Some m)))"
proof -
  have "deliver env cfg (applyEmitRouting d ps) d team content no_options params s = (res, s')"
    using assms(3-7) by (auto simp: createIncident_def Let_def no_options_def)
  then show ?thesis by (rule deliver_plain [OF assms(1,2)])
qed

definition demo_channel :: "string \<Rightarrow> string option \<Rightarrow> (Incident, string list) channel" where
  "demo_channel name answer = \<lparr>ch_Name = name, ch_Send = (\<lambda>incident x. (answer, x @ [name]))\<rparr>"

definition demo_delivery_cfg :: delivery_cfg where
  "demo_delivery_cfg = \<lparr>cg_Slack = True, cg_Telegram = False, cg_Viber = False, cg_Email = True, cg_MSTeams = False,
     cg_Lark = False, cg_OnCallEnable = True, cg_OnCallWaitMinutes = 3, cg_PublicHost = ''https://versus''\<rparr>"

definition demo_delivery_env :: "string list delivery_env" where
  "demo_delivery_env = \<lparr>iv_interceptor = None, iv_config = (\<lambda>params. demo_delivery_cfg),
     iv_providers = (\<lambda>cfg. Inr [demo_channel ''slack'' None, demo_channel ''email'' (Some ''refused'')]),
     iv_now = (\<lambda>x. 5), iv_uuid = (\<lambda>x. ''i-1''), iv_ackURL = (\<lambda>host i ttl now. host @ ''/ack/'' @ i),
     iv_oncall = Some (\<lambda>i cfg x. (None, x @ [''on-call''])), iv_intake = (\<lambda>st. DefaultIntakeSettings),
     iv_error_text = (\<lambda>e. ''storage'')\<rparr>"

theorem alert_is_recorded_truthfully_witness:
  "\<exists>rec m'. dv_store (snd (createIncident demo_delivery_env ''team-1'' [(''status'', VStr ''firing'')] no_options None
       \<lparr>dv_world = [], dv_store = Some NewMemory\<rparr>)) = Some m' \<and> holds NewMemory rec m' \<and>
     ir_ID rec = ''i-1'' \<and> ir_ChannelsNotified rec = [''slack''] \<and> ir_NotifyStatus rec = ''partial'' \<and>
     ir_OnCallTriggered rec \<and> ir_Resolved rec"
proof -
  let ?s = "\<lparr>dv_world = [], dv_store = Some NewMemory\<rparr> :: string list delivery"
  let ?c = "[(''status'', VStr ''firing'')] :: payload"
  obtain res s' where run: "createIncident demo_delivery_env ''team-1'' ?c no_options None ?s = (res, s')" by (meson surj_pair)
  have c: "resolveEmitDecision (iv_interceptor demo_delivery_env) ?c ''team-1'' = proceed"
    "ed_Action proceed \<in> {EmitProceed, EmitDivert}" "iv_config demo_delivery_env None = demo_delivery_cfg"
    "iv_providers demo_delivery_env demo_delivery_cfg = Inr [demo_channel ''slack'' None, demo_channel ''email'' (Some ''refused'')]"
    "isResolved ?c = False" "applyEmitRouting proceed ps = ps" for ps :: "(Incident, string list) channel list"
    by (simp_all add: demo_delivery_env_def resolveEmitDecision_def proceed_def applyEmitRouting_def) code_simp
  have auto: "shouldAutoResolveWebhook False (resolveSource (Some ?c) (sourceHint None)) DefaultIntakeSettings" by code_simp
  from alert_is_recorded_truthfully [OF _ history_ok_New c(1-4) run]
  obtain rec m' where "dv_store s' = Some m'" "holds NewMemory rec m'" "ir_ID rec = ''i-1''"
      "ir_ChannelsNotified rec = [''slack'']" "ir_NotifyStatus rec = ''partial''" "ir_OnCallTriggered rec" "ir_Resolved rec"
    by (auto simp: c(5,6) auto demo_channel_def outcome_status_def paged_def demo_delivery_cfg_def demo_delivery_env_def)
  moreover have "snd (createIncident demo_delivery_env ''team-1'' ?c no_options None ?s) = s'" using run by simp
  ultimately show ?thesis by metis
qed

end
