(* ===== verification/Finding_Delivery.thy ===== *)
theory Finding_Delivery
  imports Incident_Delivery Detect_Emission Provider_Runs
begin

text \<open>
  From a finding of the agent to an incident (\<open>pkg/services/agent.go\<close>): the finding is counted in the
  detection episode of its condition; only the holder of the episode's notification claim creates or
  escalates an incident, all others bring the open incident up to date.

  While the incident is delivered, a heartbeat renews the claim from another goroutine. It touches only
  the episodes and the delivery only the incidents, so the renewals stand after the delivery here;
  \<open>fe_ticks\<close> gives the times of those that happen between two worlds. The emission record of a result is present, as
  the worker provides it.
\<close>

record 'x finding_env =
  fe_delivery :: "'x delivery_env"
  fe_digest :: "DetectionIdentity \<Rightarrow> string"
  fe_fresh :: "'x \<Rightarrow> fresh_ids"
  fe_bits :: "rat \<Rightarrow> 64 word"
  fe_ticks :: "'x \<Rightarrow> 'x \<Rightarrow> time list"

subsection \<open>The content of a finding\<close>

definition finding_content ::
  "(rat \<Rightarrow> 64 word) \<Rightarrow> AIFinding \<Rightarrow> AgentResult \<Rightarrow> string \<Rightarrow> string \<Rightarrow> payload" where
  "finding_content bits f r source service =
     [(''AlertName'', VStr (fi_Title f)), (''Summary'', VStr (fi_Summary f)), (''Severity'', VStr (fi_Severity f)),
      (''Category'', VStr (fi_Category f)), (''Confidence'', VFloat (fi_Confidence f)),
      (''Suggestions'', VStrs (fi_Suggestions f)), (''PatternID'', VStr (ar_PatternID r)),
      (''PatternTemplate'', VStr (ar_Template r)), (''Frequency'', VInt (ar_Frequency r)),
      (''Baseline'', VFloat (bits (ar_Baseline r))), (''Verdict'', VStr (verdict_String (ar_Verdict r))),
      (''ServiceName'', VStr service), (''Service'', VStr service), (''Source'', VStr source),
      (''Logs'', VStr (case ar_SampleSignals r of [] \<Rightarrow> [] | s # ss \<Rightarrow> sg_Message s)),
      (''description'', VStr (fi_Summary f)), (''Status'', VStr ''firing'')]"

definition finding_params :: "AIFinding \<Rightarrow> (string, string) gomap" where
  "finding_params f =
     [(''oncall_enable'', if fi_Severity f = ''critical'' \<or> fi_Severity f = ''high'' then ''true'' else ''false'')]"

definition finding_service :: "string \<Rightarrow> string" where
  "finding_service service = (if service = [] then ''_unknown'' else service)"

definition finding_occurrence ::
  "AIFinding \<Rightarrow> AgentResult \<Rightarrow> string \<Rightarrow> string \<Rightarrow> duration \<Rightarrow> time \<Rightarrow> DetectionOccurrence" where
  "finding_occurrence f r source service lease now =
     (let agentKind = (if trim_space (ar_AgentKind r) = [] then ''detect'' else trim_space (ar_AgentKind r));
          signalKind = (if trim_space (ar_SignalKind r) = [] then ''logs'' else trim_space (ar_SignalKind r))
      in \<lparr>oc_Identity = \<lparr>id_Version = [], id_AgentKind = agentKind, id_Source = source, id_Service = service, id_SignalKind = signalKind,
            id_ConditionKey = ar_PatternID r\<rparr>,
          oc_Frequency = ar_Frequency r, oc_Severity = fi_Severity f, oc_ReceivedAt = now, oc_QuietPeriod = 0,
          oc_ClaimOwner = [], oc_ClaimLease = lease, oc_ExistingOnly = False\<rparr>)"

subsection \<open>What the caller is told about the emission\<close>

definition action_text :: "DetectionEpisodeAction \<Rightarrow> string" where
  "action_text a =
     (case a of
        NoAction \<Rightarrow> [] | DetectionEpisodeOpened \<Rightarrow> ''opened'' | DetectionEpisodeCoalesced \<Rightarrow> ''coalesced''
      | DetectionEpisodeEscalated \<Rightarrow> ''escalated'' | DetectionEpisodeReopened \<Rightarrow> ''reopened'')"

definition setDetectionEmissionDecision ::
  "DetectionEmissionResult \<Rightarrow> DetectionEpisodeDecision \<Rightarrow> DetectionEmissionResult" where
  "setDetectionEmissionDecision em d =
     em\<lparr>em_Fingerprint := dd_Fingerprint d, em_EpisodeID := dd_EpisodeID d, em_IncidentID := dd_IncidentID d,
        em_OccurrenceDelta := dd_OccurrenceDelta d, em_OccurrenceCount := dd_OccurrenceCount d,
        em_EpisodeAction := action_text (dd_Action d)\<rparr>"

definition setDetectionEmissionError :: "DetectionEmissionResult \<Rightarrow> string \<Rightarrow> DetectionEmissionResult" where
  "setDetectionEmissionError em err = em\<lparr>em_EpisodeAction := ''episode_error'', em_EpisodeError := take 256 err\<rparr>"

definition detectionNotificationOutcome :: "incidentCreateResult \<Rightarrow> string" where
  "detectionNotificationOutcome result =
     (let rest = (if cr_NotifyStatus result \<noteq> [] then cr_NotifyStatus result
                  else if cr_Err result \<noteq> None then ''failed'' else ''sent'')
      in if cr_NotifyStatus result = ''failed'' then ''failed''
         else case ed_Action (cr_Decision result) of
                EmitSuppress \<Rightarrow> ''suppressed''
              | EmitDelay \<Rightarrow> ''delayed''
              | EmitGroup \<Rightarrow> ''grouped''
              | EmitDivert \<Rightarrow> if cr_Err result = None then ''diverted'' else rest
              | EmitProceed \<Rightarrow> rest)"

subsection \<open>The heartbeat of a claim\<close>

text \<open>The errors it keeps, first one first; a lost claim ends it.\<close>

fun claim_heartbeat ::
  "string \<Rightarrow> string \<Rightarrow> duration \<Rightarrow> time list \<Rightarrow> storage_error list \<Rightarrow> memoryProvider \<Rightarrow> storage_error list \<times> memoryProvider" where
  "claim_heartbeat episode token lease [] errs m = (errs, m)"
| "claim_heartbeat episode token lease (t # ts) errs m =
     (case RenewDetectionNotificationClaim t
             \<lparr>dr_EpisodeID = episode, dr_ClaimToken = token, dr_ClaimLease = lease, dr_RenewedAt = t\<rparr> m of
        (None, m) \<Rightarrow> claim_heartbeat episode token lease ts errs m
      | (Some e, m) \<Rightarrow>
          let errs = (if errs = [] then [e] else errs)
          in if e = ErrDetectionClaimLost \<or> e = ErrNotFound
             then (if e \<in> set errs then errs else errs @ [e], m)
             else claim_heartbeat episode token lease ts errs m)"

definition heartbeat_lease :: "duration \<Rightarrow> duration" where
  "heartbeat_lease lease = (if lease \<le> 0 then DefaultDetectionNotificationLease else lease)"

definition renewal_text :: "'x finding_env \<Rightarrow> storage_error list \<Rightarrow> string option" where
  "renewal_text env errs =
     join_errors (map (\<lambda>e. ''renew detection notification claim: '' @ iv_error_text (fe_delivery env) e) errs)"

subsection \<open>Operations\<close>

definition updateCoalescedDetectionIncident ::
  "DetectionEpisodeDecision \<Rightarrow> payload \<Rightarrow> memoryProvider \<Rightarrow> storage_error option \<times> memoryProvider" where
  "updateCoalescedDetectionIncident d content m =
     (case GetIncident m (dd_IncidentID d) of
        Inl e \<Rightarrow> (if e = ErrNotFound then None else Some e, m)
      | Inr rec \<Rightarrow>
          let merged = merge_content (ir_Content rec) content;
              rec = rec\<lparr>ir_Content := merged, ir_Title := ExtractTitle merged, ir_Service := ExtractService merged\<rparr>;
              rec = (applyDetectionDecision d rec)\<lparr>ir_NotifyStatus := []\<rparr>
          in case SaveDetectionIncident (Some rec) m of Inl e \<Rightarrow> (Some e, m) | Inr m \<Rightarrow> (None, m))"

definition ContinueDetectionEpisode ::
  "'x finding_env \<Rightarrow> DetectionOccurrence \<Rightarrow> 'x delivery \<Rightarrow> (storage_error + DetectionEpisodeDecision) \<times> 'x delivery" where
  "ContinueDetectionEpisode env occurrence s =
     (case dv_store s of
        None \<Rightarrow> (Inl ErrUnsupported, s)
      | Some m \<Rightarrow>
          let (res, m) = RecordDetectionOccurrence (fe_digest env) (iv_now (fe_delivery env) (dv_world s))
                (fe_fresh env (dv_world s)) (occurrence\<lparr>oc_ExistingOnly := True\<rparr>) m
          in (res, s\<lparr>dv_store := Some m\<rparr>))"

definition complete_claim ::
  "'x finding_env \<Rightarrow> DetectionEpisodeDecision \<Rightarrow> string \<Rightarrow> 'x \<Rightarrow> memoryProvider \<Rightarrow> storage_error option \<times> memoryProvider" where
  "complete_claim env d outcome x m =
     CompleteDetectionNotification
       \<lparr>dc_EpisodeID = dd_EpisodeID d, dc_ClaimToken = dd_ClaimToken d, dc_Outcome = outcome,
        dc_CompletedAt = iv_now (fe_delivery env) x\<rparr> m"

text \<open>The holder of the claim: deliver, stop the heartbeat, complete the notification.\<close>

definition notify_claimed ::
  "'x finding_env \<Rightarrow> DetectionEpisodeDecision \<Rightarrow> payload \<Rightarrow> (string, string) gomap \<Rightarrow> duration \<Rightarrow>
   DetectionEmissionResult \<Rightarrow> 'x \<Rightarrow> memoryProvider \<Rightarrow> string option \<times> DetectionEmissionResult \<times> 'x delivery" where
  "notify_claimed env d content params lease em x m =
     (let lease = heartbeat_lease lease;
          beat = (\<lambda>y m. claim_heartbeat (dd_EpisodeID d) (dd_ClaimToken d) lease (fe_ticks env x y) [] m);
          text = iv_error_text (fe_delivery env);
          inspected = (if dd_NotificationKind d = DetectionNotificationEscalation
            then (case GetIncident m (dd_IncidentID d) of
                    Inr existing \<Rightarrow> Inr (ir_OnCallTriggered existing)
                  | Inl e \<Rightarrow> if e = ErrNotFound then Inr False else Inl e)
            else Inr False)
      in case inspected of
           Inl getErr \<Rightarrow>
             let (renewals, m) = beat x m;
                 (completionErr, m) = complete_claim env d ''failed'' x m
             in (join_errors (List.map_filter id [Some (''inspect escalation incident: '' @ text getErr),
                   renewal_text env renewals, map_option text completionErr]),
                 em\<lparr>em_NotificationOutcome := ''failed''\<rparr>, \<lparr>dv_world = x, dv_store = Some m\<rparr>)
         | Inr skipOnCall \<Rightarrow>
             let (result, s) = createIncident (fe_delivery env) [] content
                   \<lparr>co_IncidentID = dd_IncidentID d, co_Detection = Some d, co_SkipOnCall = skipOnCall\<rparr>
                   (Some params) \<lparr>dv_world = x, dv_store = Some m\<rparr>;
                 outcome = detectionNotificationOutcome result;
                 m = (case dv_store s of Some m \<Rightarrow> m | None \<Rightarrow> m);
                 (renewals, m) = beat (dv_world s) m;
                 (completionErr, m) = complete_claim env d outcome (dv_world s) m
             in (if completionErr \<noteq> None \<or> ErrDetectionClaimLost \<in> set renewals \<or> ErrNotFound \<in> set renewals
                 then join_errors (List.map_filter id [cr_Err result, renewal_text env renewals, map_option text completionErr])
                 else cr_Err result,
                 em\<lparr>em_NotificationOutcome := outcome\<rparr>, s\<lparr>dv_store := Some m\<rparr>))"

definition createIncidentFromFindingWithLease ::
  "'x finding_env \<Rightarrow> AIFinding option \<Rightarrow> AgentResult \<Rightarrow> string \<Rightarrow> string \<Rightarrow> duration \<Rightarrow> 'x delivery \<Rightarrow>
   string option \<times> DetectionEmissionResult \<times> 'x delivery" where
  "createIncidentFromFindingWithLease env f_opt r source service lease s =
     (let em = ar_DetectionEmission r in
      case f_opt of
        None \<Rightarrow> (None, em, s)
      | Some f \<Rightarrow>
          let service = finding_service service;
              content = finding_content (fe_bits env) f r source service;
              params = finding_params f;
              x = dv_world s;
              plain = (let (err, s) = CreateIncident (fe_delivery env) [] content (Some params) s in (err, em, s))
          in case dv_store s of
               None \<Rightarrow> plain
             | Some m \<Rightarrow>
                 if trim_space (ar_PatternID r) = [] \<or> ar_Frequency r \<le> 0 then plain
                 else
                   let now = iv_now (fe_delivery env) x;
                       (res, m) = RecordDetectionOccurrence (fe_digest env) now (fe_fresh env x)
                         (finding_occurrence f r source service lease now) m;
                       s = s\<lparr>dv_store := Some m\<rparr>
                   in case res of
                        Inl err \<Rightarrow>
                          let em = (if err \<noteq> ErrUnsupported
                                    then setDetectionEmissionError em (iv_error_text (fe_delivery env) err) else em);
                              (result, s) = createIncident (fe_delivery env) [] content no_options (Some params) s
                          in (cr_Err result, em\<lparr>em_NotificationOutcome := detectionNotificationOutcome result\<rparr>, s)
                      | Inr d \<Rightarrow>
                          let em = setDetectionEmissionDecision em d;
                              content = gm_set content ''Frequency'' (VInt (dd_OccurrenceCount d))
                          in if \<not> dd_NotificationClaimed d
                             then let (err, m) = updateCoalescedDetectionIncident d content m
                                  in (map_option (iv_error_text (fe_delivery env)) err,
                                      em\<lparr>em_NotificationOutcome := ''not_applicable''\<rparr>, s\<lparr>dv_store := Some m\<rparr>)
                             else notify_claimed env d content params lease em x m)"

definition CreateIncidentFromFinding ::
  "'x finding_env \<Rightarrow> AIFinding option \<Rightarrow> AgentResult \<Rightarrow> string \<Rightarrow> string \<Rightarrow> 'x delivery \<Rightarrow>
   string option \<times> DetectionEmissionResult \<times> 'x delivery" where
  "CreateIncidentFromFinding env f r source service s =
     createIncidentFromFindingWithLease env f r source service DefaultDetectionNotificationLease s"

subsection \<open>A condition whose notification has been handled\<close>

text \<open>
  The active episode of the condition has no claim in flight, what it has seen has been handled, and its
  incident is stored and unresolved.
\<close>

definition handled_episode :: "memoryProvider \<Rightarrow> string \<Rightarrow> memoryDetectionEpisode \<Rightarrow> bool" where
  "handled_episode m fp ep \<longleftrightarrow>
     act_at m fp = Some (ep_EpisodeID ep) \<and> ep_at m (ep_EpisodeID ep) = Some ep \<and>
     ep_PendingToken ep = [] \<and> ep_HighestHandledSeverity ep \<noteq> [] \<and>
     SeverityRank (ep_HighestObservedSeverity ep) \<le> SeverityRank (ep_HighestHandledSeverity ep) \<and>
     ep_IncidentID ep \<noteq> [] \<and>
     (case GetIncident m (ep_IncidentID ep) of Inl e \<Rightarrow> False | Inr stored \<Rightarrow> \<not> ir_Resolved stored)"

lemma incidentState_Get:
  "incidentState m i = (case GetIncident m i of Inl e \<Rightarrow> (False, False) | Inr stored \<Rightarrow> (True, ir_Resolved stored))"
  by (simp add: incidentState_def GetIncident_def split: option.split)

lemma prune_Get [simp]: "GetIncident (pruneClosedDetectionEpisodes m) i = GetIncident m i"
  by (simp add: GetIncident_def)

lemma put_Get [simp]: "GetIncident (put_episode ep m) i = GetIncident m i"
  by (simp add: GetIncident_def put_episode_def)

lemma observed_handled:
  assumes "SeverityRank (canonicalDetectionSeverity (oc_Severity oc)) \<le> SeverityRank (ep_HighestHandledSeverity ep)"
    and "SeverityRank (ep_HighestObservedSeverity ep) \<le> SeverityRank (ep_HighestHandledSeverity ep)"
  shows "SeverityRank (ep_HighestObservedSeverity (observe oc now ep)) \<le> SeverityRank (ep_HighestHandledSeverity ep)"
  using assms by (simp add: observe_def Let_def)

lemma record_handled:
  assumes ok: "episodes_ok m" and h: "handled_episode m fp ep"
    and fp: "DetectionIdentityFingerprint digest (oc_Identity oc) = Some fp" and pos: "0 < oc_Frequency oc"
    and oc: "\<not> oc_ExistingOnly oc" "oc_QuietPeriod oc = 0" "oc_ReceivedAt oc = now"
    and sev: "SeverityRank (canonicalDetectionSeverity (oc_Severity oc)) \<le> SeverityRank (ep_HighestHandledSeverity ep)"
    and quiet: "now < ep_LastSeen ep + DefaultDetectionEpisodeQuietPeriod"
  shows "\<exists>d. RecordDetectionOccurrence digest now fr oc m =
       (Inr d, pruneClosedDetectionEpisodes (put_episode (observe oc now ep) m)) \<and>
     \<not> dd_NotificationClaimed d \<and> dd_IncidentID d = ep_IncidentID ep \<and>
     dd_OccurrenceCount d = ep_OccurrenceCount ep + oc_Frequency oc"
proof -
  let ?q = "DefaultDetectionEpisodeQuietPeriod"
  define ident where "ident = normalizeDetectionIdentity (oc_Identity oc)"
  have at: "ep_at m (ep_EpisodeID ep) = Some ep" "act_at m fp = Some (ep_EpisodeID ep)" using h by (simp_all add: handled_episode_def)
  obtain ep1 where a: "activeDetectionEpisode fp ident m = (Some ep1, m)" "ep_at m (ep_EpisodeID ep) = Some ep1"
      "ep_ClosedAt ep1 = None" "ep_Fingerprint ep1 = fp"
    using activeDetectionEpisode_found [OF ok at(2), of ident] by blast
  have e: "ep1 = ep" using a(2) at(1) by simp
  have inc: "incidentState m (ep_IncidentID ep) = (True, False)"
    using h by (auto simp: incidentState_Get handled_episode_def split: sum.splits)
  have s: "settled fp oc now ?q m = (Some ep, True, m)"
    using a inc e quiet
    by (simp add: settled_def Let_def flip: ident_def)
       (simp add: close_resolved_def close_orphaned_def close_quiet_def incidentExists_def)
  have c: "choose_claim now (observe oc now ep) = (NoKind, DetectionEpisodeCoalesced, observe oc now ep)"
    using h observed_handled [OF sev, of now] by (simp add: handled_episode_def choose_claim_def detectionSeverityHigher_def not_less)
  have "coalesce oc now lease fr ep m =
      ((detectionEpisodeDecision (observe oc now ep))\<lparr>dd_Action := DetectionEpisodeCoalesced, dd_OccurrenceDelta := oc_Frequency oc\<rparr>,
       put_episode (observe oc now ep) m)" for lease
    using oc(1) by (simp add: coalesce_def Let_def c)
  moreover have t: "(if oc_ReceivedAt oc = zero_time then now else oc_ReceivedAt oc) = now"
    "(if oc_QuietPeriod oc \<le> 0 then ?q else oc_QuietPeriod oc) = ?q" using oc by simp_all
  ultimately show ?thesis
    unfolding RecordDetectionOccurrence_def Let_def t
    using fp pos by (simp add: record_locked_settled s detectionEpisodeDecision_def)
qed

lemma detection_update_keeps_open:
  "ir_Resolved (detectionIncidentUpdate (Some old) rec) = ir_Resolved old"
  by (simp add: detectionIncidentUpdate_def Let_def mergeProgress_keeps)

lemma update_coalesced_open:
  assumes "history_ok m" "GetIncident m (dd_IncidentID d) = Inr old" "dd_IncidentID d \<noteq> []"
  shows "\<exists>m' stored. updateCoalescedDetectionIncident d content m = (None, m') \<and> history_ok m' \<and>
     GetIncident m' (dd_IncidentID d) = Inr stored \<and> ir_Resolved stored = ir_Resolved old \<and> episode_part m' = episode_part m"
proof -
  let ?c = "merge_content (ir_Content old) content"
  define rec where "rec = (applyDetectionDecision d (old\<lparr>ir_Content := ?c, ir_Title := ExtractTitle ?c,
      ir_Service := ExtractService ?c\<rparr>))\<lparr>ir_NotifyStatus := []\<rparr>"
  have old: "ir_ID old = dd_IncidentID d" using GetIncident_iff [OF assms(1)] assms(2) by blast
  have recID: "ir_ID rec = dd_IncidentID d" by (simp add: rec_def applyDetectionDecision_def Let_def old)
  with assms(3) have "ir_ID rec \<noteq> []" by simp
  from Get_SaveDetectionIncident [OF assms(1) this, of "dd_IncidentID d"]
  obtain m' where m': "SaveDetectionIncident (Some rec) m = Inr m'"
      "GetIncident m' (dd_IncidentID d) = Inr (detectionIncidentUpdate (Some old) (rec\<lparr>ir_OrgID := NormalizeOrgID (ir_OrgID rec)\<rparr>))"
    by (auto simp: Let_def recID assms(2))
  have "updateCoalescedDetectionIncident d content m = (None, m')"
    by (simp add: updateCoalescedDetectionIncident_def assms(2) Let_def m'(1) flip: rec_def)
  moreover have "history_ok m'" using history_ok_SaveDetectionIncident [OF assms(1)] m'(1) by blast
  moreover have "episode_part m' = episode_part m"
    using m'(1) by (auto simp: SaveDetectionIncident_def Let_def episode_part_def split: if_splits)
  ultimately show ?thesis using m'(2) detection_update_keeps_open by blast
qed

lemma observed_episode_handled:
  assumes ok: "episodes_ok m" and h: "handled_episode m fp ep" and pos: "0 < oc_Frequency oc"
    and sev: "SeverityRank (canonicalDetectionSeverity (oc_Severity oc)) \<le> SeverityRank (ep_HighestHandledSeverity ep)"
    and m1_def: "m1 = pruneClosedDetectionEpisodes (put_episode (observe oc now ep) m)"
  shows "episodes_ok m1 \<and> handled_episode m1 fp (observe oc now ep)"
proof -
  let ?o = "observe oc now ep"
  let ?m = "put_episode ?o m"
  have at: "ep_at m (ep_EpisodeID ep) = Some ep" "act_at m fp = Some (ep_EpisodeID ep)" using h by (simp_all add: handled_episode_def)
  from episodes_okD(7) [OF ok at(2)] at(1) have ep: "ep_ClosedAt ep = None" "ep_Fingerprint ep = fp" by auto
  have "ep_inv ?o" using ep_inv_observe episodes_okD(5) [OF ok at(1)] pos by blast
  then have ok': "episodes_ok ?m" using at(1) ep by (intro episodes_ok_put [OF ok, of _ ep]) simp_all
  have put: "ep_at ?m (ep_EpisodeID ?o) = Some ?o" by (simp add: ep_at_put)
  have "ep_at (pruneClosedDetectionEpisodes ?m) (ep_EpisodeID ?o) = Some ?o"
    by (rule open_not_pruned [OF ok' put]) (simp add: ep(1))
  moreover have "act_at (pruneClosedDetectionEpisodes ?m) fp = Some (ep_EpisodeID ?o)"
    using at(2) by (simp add: act_at_def put_episode_def)
  ultimately show ?thesis
    unfolding m1_def using h observed_handled [OF sev] episodes_ok_prune [OF ok']
    by (simp add: handled_episode_def)
qed

lemma handled_episode_part:
  assumes "episode_part m' = episode_part m" "handled_episode m fp ep"
    and "GetIncident m' (ep_IncidentID ep) = Inr stored" "\<not> ir_Resolved stored"
  shows "handled_episode m' fp ep"
  using assms by (simp add: handled_episode_def act_at_def ep_at_def episode_part_def)

text \<open>Another finding of a handled condition, not more severe and within the quiet period.\<close>

definition repeats ::
  "'x finding_env \<Rightarrow> string \<Rightarrow> string \<Rightarrow> string \<Rightarrow> nat \<Rightarrow> AIFinding \<Rightarrow> AgentResult \<Rightarrow> bool" where
  "repeats env source service fp rank f r \<longleftrightarrow>
     DetectionIdentityFingerprint (fe_digest env) (oc_Identity (finding_occurrence f r source (finding_service service) 0 0)) = Some fp \<and>
     trim_space (ar_PatternID r) \<noteq> [] \<and> 0 < ar_Frequency r \<and>
     SeverityRank (canonicalDetectionSeverity (fi_Severity f)) \<le> rank"

lemma repeat_is_counted:
  assumes ok: "episodes_ok m" "history_ok m" and h: "handled_episode m fp ep"
    and rep: "repeats env source service fp (SeverityRank (ep_HighestHandledSeverity ep)) f r"
    and quiet: "iv_now (fe_delivery env) x < ep_LastSeen ep + DefaultDetectionEpisodeQuietPeriod"
  shows "\<exists>em m' ep'. CreateIncidentFromFinding env (Some f) r source service \<lparr>dv_world = x, dv_store = Some m\<rparr> =
       (None, em, \<lparr>dv_world = x, dv_store = Some m'\<rparr>) \<and>
     em_NotificationOutcome em = ''not_applicable'' \<and> em_IncidentID em = ep_IncidentID ep \<and>
     episodes_ok m' \<and> history_ok m' \<and> handled_episode m' fp ep' \<and>
     ep_EpisodeID ep' = ep_EpisodeID ep \<and> ep_IncidentID ep' = ep_IncidentID ep \<and>
     ep_HighestHandledSeverity ep' = ep_HighestHandledSeverity ep \<and>
     ep_LastSeen ep' = iv_now (fe_delivery env) x \<and> ep_OccurrenceCount ep' = ep_OccurrenceCount ep + ar_Frequency r"
proof -
  let ?now = "iv_now (fe_delivery env) x"
  define oc where "oc = finding_occurrence f r source (finding_service service) DefaultDetectionNotificationLease ?now"
  have oc: "oc_Identity oc = oc_Identity (finding_occurrence f r source (finding_service service) 0 0)"
    "oc_Frequency oc = ar_Frequency r" "oc_Severity oc = fi_Severity f" "oc_ReceivedAt oc = ?now"
    "oc_QuietPeriod oc = 0" "\<not> oc_ExistingOnly oc"
    by (simp_all add: oc_def finding_occurrence_def Let_def)
  note r = rep [unfolded repeats_def]
  let ?o = "observe oc ?now ep"
  let ?m1 = "pruneClosedDetectionEpisodes (put_episode ?o m)"
  obtain d where d: "RecordDetectionOccurrence (fe_digest env) ?now (fe_fresh env x) oc m = (Inr d, ?m1)"
      "\<not> dd_NotificationClaimed d" "dd_IncidentID d = ep_IncidentID ep"
    using record_handled [OF ok(1) h, of "fe_digest env" oc ?now "fe_fresh env x"] r oc quiet by auto
  have m1: "episodes_ok ?m1" "handled_episode ?m1 fp ?o"
    using observed_episode_handled [OF ok(1) h, of oc ?m1 ?now] r oc by simp_all
  have "same_rest m ?m1" by (rule same_rest_prune) (simp add: same_rest_def episode_ops_part)
  then have hist: "history_ok ?m1" using same_rest_ok ok(2) by blast
  obtain old where old: "GetIncident ?m1 (dd_IncidentID d) = Inr old" "\<not> ir_Resolved old" "dd_IncidentID d \<noteq> []"
    using m1(2) by (auto simp: handled_episode_def d(3) split: sum.splits)
  let ?c = "gm_set (finding_content (fe_bits env) f r source (finding_service service)) ''Frequency'' (VInt (dd_OccurrenceCount d))"
  obtain m' stored where m': "updateCoalescedDetectionIncident d ?c ?m1 = (None, m')" "history_ok m'"
      "GetIncident m' (dd_IncidentID d) = Inr stored" "ir_Resolved stored = ir_Resolved old" "episode_part m' = episode_part ?m1"
    using update_coalesced_open [OF hist old(1,3)] by blast
  have "handled_episode m' fp ?o" using handled_episode_part [OF m'(5) m1(2)] m'(3,4) old(2) d(3) by simp
  moreover have "episodes_ok m'" using episodes_ok_part(1) [OF m'(5)] m1(1) by simp
  moreover have "ep_LastSeen ?o = ?now" by (simp add: observe_def Let_def)
  moreover have "CreateIncidentFromFinding env (Some f) r source service \<lparr>dv_world = x, dv_store = Some m\<rparr> =
      (None, (setDetectionEmissionDecision (ar_DetectionEmission r) d)\<lparr>em_NotificationOutcome := ''not_applicable''\<rparr>,
       \<lparr>dv_world = x, dv_store = Some m'\<rparr>)"
    using r by (simp add: CreateIncidentFromFinding_def createIncidentFromFindingWithLease_def Let_def d(1,2) m'(1) flip: oc_def)
  ultimately show ?thesis
    using m'(2) d(3) oc(2) by (auto simp: setDetectionEmissionDecision_def)
qed

text \<open>A run of findings; each comes with the world at its time, and yields what its caller is told.\<close>

fun storm ::
  "'x finding_env \<Rightarrow> string \<Rightarrow> string \<Rightarrow> ('x \<times> AIFinding \<times> AgentResult) list \<Rightarrow> memoryProvider option \<Rightarrow>
   (string option \<times> DetectionEmissionResult \<times> 'x) list \<times> memoryProvider option" where
  "storm env source service [] st = ([], st)"
| "storm env source service ((x, f, r) # fs) st =
     (let (err, em, s) = CreateIncidentFromFinding env (Some f) r source service \<lparr>dv_world = x, dv_store = st\<rparr>;
          (outs, st) = storm env source service fs (dv_store s)
      in ((err, em, dv_world s) # outs, st))"

fun no_pause :: "time \<Rightarrow> time list \<Rightarrow> bool" where
  "no_pause seen [] = True"
| "no_pause seen (t # ts) = (t < seen + DefaultDetectionEpisodeQuietPeriod \<and> no_pause t ts)"

subsection \<open>Delivery runs operations of the provider\<close>

lemma reach_save:
  assumes "provider_reach digest m"
  shows "provider_reach digest (snd (saveIncidentRecord rec detection m))"
proof -
  have "provider_reach digest (provider_step digest (OpSaveIncident rec) m)"
    "provider_reach digest (provider_step digest (OpSaveDetection (Some rec)) m)"
    by (rule reach_step [OF assms], simp)+
  then show ?thesis by (auto simp: saveIncidentRecord_def keep_on_error_def split: sum.splits)
qed

lemma reach_stamp:
  "provider_reach digest (snd st) \<Longrightarrow> provider_reach digest (snd (stamp_outcome detection fan st))"
  by (auto simp: stamp_outcome_def Let_def split_beta intro: reach_save)

lemma reach_resolve:
  "provider_reach digest (snd st) \<Longrightarrow> provider_reach digest (snd (auto_resolve detection now st))"
  by (auto simp: auto_resolve_def Let_def split_beta intro: reach_save)

lemma reach_escalate:
  assumes "provider_reach digest (snd st)"
  shows "\<exists>rec m. fst (snd (escalate env cfg i detection (Some st) x)) = Some (rec, m) \<and> provider_reach digest m"
  using assms by (cases st) (auto simp: escalate_def Let_def split_beta split: option.splits intro: reach_save)

lemma reach_end:
  assumes "provider_reach digest (snd st)"
    and "st2 = fst (snd (if C then escalate env cfg i detection (Some st) x else (None, Some st, x)))"
  shows "\<exists>m'. map_option snd (if auto then map_option (auto_resolve d now) st2 else st2) = Some m' \<and>
    provider_reach digest m'"
proof -
  have "\<exists>rec m. st2 = Some (rec, m) \<and> provider_reach digest m"
    using assms reach_escalate [OF assms(1)] by (cases st) auto
  then obtain rec m where st2: "st2 = Some (rec, m)" "provider_reach digest m" by blast
  have "provider_reach digest (snd (auto_resolve d now (rec, m)))" by (rule reach_resolve) (simp add: st2(2))
  then show ?thesis using st2 by (cases "auto_resolve d now (rec, m)") auto
qed

lemma store_upd: "dv_store (s\<lparr>dv_world := x, dv_store := st\<rparr>) = st" by simp

lemma reach_deliver:
  assumes "dv_store s = Some m" "provider_reach digest m"
  shows "\<exists>m'. dv_store (snd (deliver env cfg ps d team content options params s)) = Some m' \<and> provider_reach digest m'"
  unfolding deliver_def Let_def split_beta assms(1) option.map snd_conv fst_conv store_upd
  by (rule reach_end [OF _ refl]) (rule reach_stamp, simp add: reach_save [OF assms(2)])

lemma reach_persist:
  assumes "provider_reach digest m"
  shows "provider_reach digest (snd (persistTerminalDetectionIncident env team content options decision d res now m))"
  using assms reach_save [OF assms, of _ True]
  by (auto simp: persistTerminalDetectionIncident_def Let_def split_beta split: sum.split option.split)

lemma reach_createIncident:
  assumes "dv_store s = Some m" "provider_reach digest m"
  shows "\<exists>m'. dv_store (snd (createIncident env team content options params s)) = Some m' \<and> provider_reach digest m'"
proof -
  note p = reach_persist [OF assms(2), of env team content options]
  show ?thesis
    using assms reach_deliver [OF assms] p
    by (auto simp: createIncident_def Let_def split_beta split: EmitAction.split option.split sum.split)
qed

lemma reach_heartbeat:
  "provider_reach digest m \<Longrightarrow> provider_reach digest (snd (claim_heartbeat e token lease ts errs m))"
proof (induction ts arbitrary: errs m)
  case (Cons t ts)
  let ?rn = "\<lparr>dr_EpisodeID = e, dr_ClaimToken = token, dr_ClaimLease = lease, dr_RenewedAt = t\<rparr>"
  have "provider_reach digest (provider_step digest (OpRenew t ?rn) m)" by (rule reach_step [OF Cons.prems]) simp
  then have "provider_reach digest (snd (RenewDetectionNotificationClaim t ?rn m))" by simp
  then show ?case using Cons.IH by (auto simp: Let_def split: prod.split option.split)
qed simp

lemma reach_complete:
  assumes "provider_reach digest m"
  shows "provider_reach digest (snd (complete_claim env d outcome x m))"
proof -
  have "provider_reach digest (provider_step digest (OpComplete dc) m)" for dc by (rule reach_step [OF assms]) simp
  then show ?thesis by (simp add: complete_claim_def)
qed

lemma reach_notify:
  assumes "provider_reach digest m"
  shows "\<exists>m'. dv_store (snd (snd (notify_claimed env d content params lease em x m))) = Some m' \<and> provider_reach digest m'"
proof -
  have create: "\<exists>m'. dv_store (snd (createIncident env' team content options params \<lparr>dv_world = x, dv_store = Some m\<rparr>)) = Some m' \<and>
      provider_reach digest m'" for env' team content options params
    by (rule reach_createIncident [OF _ assms]) simp
  show ?thesis
  proof (cases "dd_NotificationKind d = DetectionNotificationEscalation \<and> (\<exists>e. GetIncident m (dd_IncidentID d) = Inl e \<and> e \<noteq> ErrNotFound)")
    case True
    then show ?thesis using assms
      by (auto simp: notify_claimed_def Let_def split_beta intro!: reach_complete reach_heartbeat)
  next
    case False
    then have "\<exists>skip. (if dd_NotificationKind d = DetectionNotificationEscalation
            then (case GetIncident m (dd_IncidentID d) of
                    Inr existing \<Rightarrow> Inr (ir_OnCallTriggered existing)
                  | Inl e \<Rightarrow> if e = ErrNotFound then Inr False else Inl e)
            else Inr False) = Inr skip"
      by (auto split: sum.split)
    then obtain skip where skip: "(if dd_NotificationKind d = DetectionNotificationEscalation
            then (case GetIncident m (dd_IncidentID d) of
                    Inr existing \<Rightarrow> Inr (ir_OnCallTriggered existing)
                  | Inl e \<Rightarrow> if e = ErrNotFound then Inr False else Inl e)
            else Inr False) = Inr skip" by blast
    let ?c = "createIncident (fe_delivery env) [] content
        \<lparr>co_IncidentID = dd_IncidentID d, co_Detection = Some d, co_SkipOnCall = skip\<rparr> (Some params)
        \<lparr>dv_world = x, dv_store = Some m\<rparr>"
    obtain m1 where m1: "dv_store (snd ?c) = Some m1" "provider_reach digest m1" using create by blast
    show ?thesis
      unfolding notify_claimed_def Let_def skip sum.case split_beta snd_conv m1(1) option.case
      by (auto intro!: reach_complete reach_heartbeat m1(2))
  qed
qed

lemma reach_coalesced:
  assumes "provider_reach digest m"
  shows "provider_reach digest (snd (updateCoalescedDetectionIncident d content m))"
proof -
  have "provider_reach digest (provider_step digest (OpSaveDetection ro) m)" for ro by (rule reach_step [OF assms]) simp
  then have "SaveDetectionIncident ro m = Inr m' \<Longrightarrow> provider_reach digest m'" for ro m'
    using keep_on_error_def provider_step.simps(5) by (metis sum.simps(6))
  then show ?thesis using assms by (auto simp: updateCoalescedDetectionIncident_def Let_def split: sum.split)
qed


lemma reach_finding:
  assumes "provider_reach (fe_digest env) m" "fresh_ok (fe_fresh env x) m"
  shows "\<exists>m'. dv_store (snd (snd (CreateIncidentFromFinding env f r source service \<lparr>dv_world = x, dv_store = Some m\<rparr>))) = Some m' \<and>
    provider_reach (fe_digest env) m'"
proof (cases f)
  case None
  then show ?thesis using assms(1) by (simp add: CreateIncidentFromFinding_def createIncidentFromFindingWithLease_def Let_def)
next
  case (Some g)
  define oc where "oc = finding_occurrence g r source (finding_service service) DefaultDetectionNotificationLease (iv_now (fe_delivery env) x)"
  obtain res m1 where rec: "RecordDetectionOccurrence (fe_digest env) (iv_now (fe_delivery env) x) (fe_fresh env x) oc m = (res, m1)"
    by (meson surj_pair)
  have "provider_reach (fe_digest env) (provider_step (fe_digest env) (OpRecord (iv_now (fe_delivery env) x) (fe_fresh env x) oc) m)"
    by (rule reach_step [OF assms(1)]) (simp add: assms(2))
  then have m1: "provider_reach (fe_digest env) m1" by (simp add: rec)
  have create: "\<exists>m'. dv_store (snd (createIncident e team content options params \<lparr>dv_world = x, dv_store = Some m2\<rparr>)) = Some m' \<and>
      provider_reach (fe_digest env) m'" if "provider_reach (fe_digest env) m2" for e team content options params m2
    by (rule reach_createIncident [OF _ that]) simp
  show ?thesis
  proof (cases "trim_space (ar_PatternID r) = [] \<or> ar_Frequency r \<le> 0")
    case True
    then show ?thesis using create [OF assms(1)]
      by (simp add: CreateIncidentFromFinding_def createIncidentFromFindingWithLease_def Let_def Some CreateIncident_def split_beta)
  next
    case False
    show ?thesis
    proof (cases res)
      case (Inl e)
      then show ?thesis using False create [OF m1]
        by (simp add: CreateIncidentFromFinding_def createIncidentFromFindingWithLease_def Let_def Some rec split_beta flip: oc_def)
    next
      case (Inr d)
      then show ?thesis using False reach_notify [OF m1] reach_coalesced [OF m1]
        by (auto simp: CreateIncidentFromFinding_def createIncidentFromFindingWithLease_def Let_def Some rec split_beta simp flip: oc_def)
    qed
  qed
qed

subsection \<open>Properties\<close>

text \<open>
  C31: A storm of findings pages nobody twice. Once a condition has been notified at some severity and
  its incident is open, any number of further findings of that condition at no higher severity,
  with no pause as long as the quiet period between them, contacts no channel and starts no
  escalation (the world is left as it was), fails nowhere, refers to the same incident, and every
  occurrence is counted in the episode, which stays open.
\<close>

theorem storm_pages_nobody:
  assumes "episodes_ok m" "history_ok m" "handled_episode m fp ep"
    and "list_all (\<lambda>(x, f, r). repeats env source service fp (SeverityRank (ep_HighestHandledSeverity ep)) f r) fs"
    and "no_pause (ep_LastSeen ep) (map (\<lambda>e. iv_now (fe_delivery env) (fst e)) fs)"
    and "storm env source service fs (Some m) = (outs, st)"
  shows "map (\<lambda>(err, em, x). (err, em_NotificationOutcome em, em_IncidentID em, x)) outs =
       map (\<lambda>(x, f, r). (None, ''not_applicable'', ep_IncidentID ep, x)) fs \<and>
     (\<exists>m' ep'. st = Some m' \<and> handled_episode m' fp ep' \<and> ep_EpisodeID ep' = ep_EpisodeID ep \<and>
        ep_OccurrenceCount ep' = ep_OccurrenceCount ep + sum_list (map (\<lambda>(x, f, r). ar_Frequency r) fs))"
  using assms
proof (induction fs arbitrary: m ep outs st)
  case Nil
  then show ?case by auto
next
  case (Cons xfr fs)
  obtain x f r where xfr: "xfr = (x, f, r)" by (cases xfr)
  from repeat_is_counted [OF Cons.prems(1-3), of env source service f r x] Cons.prems(4,5)
  obtain em m1 ep1 where one:
    "CreateIncidentFromFinding env (Some f) r source service \<lparr>dv_world = x, dv_store = Some m\<rparr> =
       (None, em, \<lparr>dv_world = x, dv_store = Some m1\<rparr>)"
    "em_NotificationOutcome em = ''not_applicable''" "em_IncidentID em = ep_IncidentID ep"
    "episodes_ok m1" "history_ok m1" "handled_episode m1 fp ep1"
    "ep_EpisodeID ep1 = ep_EpisodeID ep" "ep_IncidentID ep1 = ep_IncidentID ep"
    "ep_HighestHandledSeverity ep1 = ep_HighestHandledSeverity ep"
    "ep_LastSeen ep1 = iv_now (fe_delivery env) x" "ep_OccurrenceCount ep1 = ep_OccurrenceCount ep + ar_Frequency r"
    by (auto simp: xfr)
  obtain outs1 where rest: "storm env source service fs (Some m1) = (outs1, st)" "outs = (None, em, x) # outs1"
    using Cons.prems(6) by (auto simp: xfr one(1) split: prod.splits)
  have "list_all (\<lambda>(x, f, r). repeats env source service fp (SeverityRank (ep_HighestHandledSeverity ep1)) f r) fs"
    "no_pause (ep_LastSeen ep1) (map (\<lambda>e. iv_now (fe_delivery env) (fst e)) fs)"
    using Cons.prems(4,5) by (simp_all add: xfr one)
  from Cons.IH [OF one(4-6) this rest(1)] show ?case
    using one by (auto simp: xfr rest(2) add.assoc)
qed

definition storm_env :: "(time \<times> string list) finding_env" where
  "storm_env = \<lparr>fe_delivery = \<lparr>iv_interceptor = None,
       iv_config = (\<lambda>params. demo_delivery_cfg\<lparr>cg_OnCallEnable := False\<rparr>),
       iv_providers = (\<lambda>cfg. Inr [\<lparr>ch_Name = ''slack'', ch_Send = (\<lambda>incident (t, trace). (None, (t, trace @ [''slack''])))\<rparr>]),
       iv_now = fst, iv_uuid = (\<lambda>x. ''u''), iv_ackURL = (\<lambda>host i ttl now. host), iv_oncall = None,
       iv_intake = (\<lambda>st. DefaultIntakeSettings), iv_error_text = (\<lambda>e. ''storage'')\<rparr>,
     fe_digest = id_ConditionKey,
     fe_fresh = (\<lambda>x. \<lparr>fr_EpisodeID = ''e-1'', fr_IncidentID = ''i-1'', fr_Owner = ''w'', fr_Token = ''k''\<rparr>),
     fe_bits = (\<lambda>q. 0), fe_ticks = (\<lambda>x y. [])\<rparr>"

definition storm_finding :: AIFinding where
  "storm_finding = \<lparr>fi_Title = ''disk full'', fi_Summary = [], fi_Severity = ''high'', fi_Category = [], fi_Confidence = 0,
     fi_Suggestions = [], fi_SampleIDs = [], fi_RootCauseHypotheses = [], fi_Evidence = [], fi_RelatedPatternIDs = [],
     fi_NextSteps = []\<rparr>"

definition storm_result :: "int \<Rightarrow> AgentResult" where
  "storm_result n = \<lparr>ar_Verdict = VerdictSpike, ar_PatternID = ''p1'', ar_Template = ''disk full'', ar_SampleSignals = [],
     ar_Frequency = n, ar_Baseline = 0, ar_AgentKind = [], ar_SignalKind = [], ar_DetectionEmission = empty_emission,
     ar_RuleSeverity = []\<rparr>"

text \<open>A store in which the first finding has been notified: recorded, its incident saved, its claim completed.\<close>

definition storm_ops :: "provider_op list" where
  "storm_ops =
     [OpRecord 100 (fe_fresh storm_env (100, []))
        (finding_occurrence storm_finding (storm_result 3) ''agent:logs'' ''shop'' DefaultDetectionNotificationLease 100),
      OpSaveDetection (Some (zero_record\<lparr>ir_ID := ''i-1'', ir_OrgID := DefaultOrgID, ir_DetectionEpisodeID := ''e-1''\<rparr>)),
      OpComplete \<lparr>dc_EpisodeID = ''e-1'', dc_ClaimToken = ''k'', dc_Outcome = ''sent'', dc_CompletedAt = 101\<rparr>]"

definition storm_store :: memoryProvider where
  "storm_store = fold (provider_step (fe_digest storm_env)) storm_ops NewMemory"

definition storm_episode :: memoryDetectionEpisode where
  "storm_episode = hd (map snd (mp_episodes storm_store))"

lemma storm_start: "provider_reach (fe_digest storm_env) NewMemory" "fresh_ok (fe_fresh storm_env x) NewMemory"
  by (rule reach_new) (simp add: storm_env_def fresh_ok_def NewMemory_def ep_at_def)

lemma storm_store_reached: "provider_reach (fe_digest storm_env) storm_store"
  using reach_step [OF reach_step [OF reach_step [OF storm_start(1), of "storm_ops ! 0"], of "storm_ops ! 1"], of "storm_ops ! 2"]
    storm_start(2) [of "(100, [])"]
  by (simp add: storm_store_def storm_ops_def)

theorem storm_pages_nobody_witness:
  "map (\<lambda>(err, em, x). (err, em_NotificationOutcome em, em_IncidentID em, x))
     (fst (storm storm_env ''agent:logs'' ''shop''
        [((200, []), storm_finding, storm_result 4), ((300, []), storm_finding, storm_result 5)] (Some storm_store))) =
     [(None, ''not_applicable'', ''i-1'', (200, [])), (None, ''not_applicable'', ''i-1'', (300, []))] \<and>
   (\<exists>m' ep'. snd (storm storm_env ''agent:logs'' ''shop''
        [((200, []), storm_finding, storm_result 4), ((300, []), storm_finding, storm_result 5)] (Some storm_store)) = Some m' \<and>
      handled_episode m' ''p1'' ep' \<and> ep_OccurrenceCount ep' = 12)"
proof -
  let ?fs = "[((200, []), storm_finding, storm_result 4), ((300, []), storm_finding, storm_result 5)]
     :: ((time \<times> string list) \<times> AIFinding \<times> AgentResult) list"
  have ok: "episodes_ok storm_store" "history_ok storm_store"
    using provider_reach_ok [OF storm_store_reached] by (simp_all add: provider_ok_def)
  have h: "handled_episode storm_store ''p1'' storm_episode" by code_simp
  have e: "ep_IncidentID storm_episode = ''i-1''" "ep_OccurrenceCount storm_episode = 3" by code_simp+
  have r: "list_all (\<lambda>(x, f, r). repeats storm_env ''agent:logs'' ''shop'' ''p1''
      (SeverityRank (ep_HighestHandledSeverity storm_episode)) f r) ?fs" by code_simp
  have p: "no_pause (ep_LastSeen storm_episode) (map (\<lambda>e. iv_now (fe_delivery storm_env) (fst e)) ?fs)" by code_simp
  have sums: "ar_Frequency (storm_result n) = n" for n by (simp add: storm_result_def)
  from storm_pages_nobody [OF ok h r p prod.collapse [symmetric]]
  show ?thesis by (auto simp: e sums)
qed

text \<open>A first finding on an empty store.\<close>

definition storm_first :: "string option \<times> DetectionEmissionResult \<times> (time \<times> string list) delivery" where
  "storm_first = CreateIncidentFromFinding storm_env (Some storm_finding) (storm_result 3) ''agent:logs'' ''shop''
     \<lparr>dv_world = (100, []), dv_store = Some NewMemory\<rparr>"

text \<open>
  C32: Delivering findings is safe for the store. Whatever the interceptor, the channels, on-call and
  the renewals of the heartbeat do, a finding handled on a state the provider can reach leaves a state the
  provider can reach by its own operations, so every invariant of the provider (its index of blobs,
  unique ids, one open episode per condition, ordered severities, the bound on closed episodes) holds
  after it.
\<close>

theorem delivery_keeps_store_reachable:
  assumes "provider_reach (fe_digest env) m" "fresh_ok (fe_fresh env x) m"
    and "CreateIncidentFromFinding env f r source service \<lparr>dv_world = x, dv_store = Some m\<rparr> = (err, em, s')"
  shows "\<exists>m'. dv_store s' = Some m' \<and> provider_reach (fe_digest env) m' \<and> provider_ok m'"
  using reach_finding [OF assms(1,2), of f r source service] provider_reach_ok assms(3) by auto

theorem delivery_keeps_store_reachable_witness:
  "\<exists>m'. dv_store (snd (snd storm_first)) = Some m' \<and> provider_reach (fe_digest storm_env) m' \<and> provider_ok m'"
proof -
  obtain err em s' where run: "storm_first = (err, em, s')" by (metis prod_cases3)
  show ?thesis
    using delivery_keeps_store_reachable [OF storm_start run [unfolded storm_first_def]] by (simp add: run)
qed

end
