(* ===== verification/On_Call.thy ===== *)
theory On_Call
  imports Incident_Delivery
begin

text \<open>
  The on-call workflow (\<open>pkg/core/oncall.go\<close>). Starting it marks the incident as pending in Redis and
  leaves a goroutine behind that sleeps for the wait period and then asks the provider to page if the mark is
  still there; acknowledging removes the mark. Redis is a map from keys to expiry times that may fail;
  the sleeping goroutines are a list of timers. A run is a sequence of calls, of the passing of time and
  of timers that go off, in any order.
\<close>

record OnCallConfig =
  oc_Enable :: bool
  oc_WaitMinutes :: int

text \<open>A timer: when it is due, the incident, the configuration its goroutine captured.\<close>

record oncall_timer =
  ti_Due :: time
  ti_Incident :: string
  ti_Config :: OnCallConfig

record oncall_state =
  os_Now :: time
  os_Redis :: "(string, time) gomap"
  os_Timers :: "oncall_timer list"
  os_Pages :: "string list"

text \<open>
  \<open>wf_Trigger\<close> is the provider (\<open>None\<close> for nil), \<open>wf_Client\<close> says whether there is a Redis client; the
  others give the error of a Redis command on a key at a time. \<open>os_Pages\<close> lists the calls of the provider.
\<close>

record OnCallWorkflow =
  wf_Trigger :: "(string \<Rightarrow> OnCallConfig \<Rightarrow> string option) option"
  wf_Client :: bool
  wf_SetErr :: "time \<Rightarrow> string \<Rightarrow> string option"
  wf_ExistsErr :: "time \<Rightarrow> string \<Rightarrow> string option"
  wf_DelErr :: "time \<Rightarrow> string \<Rightarrow> string option"

definition redis_exists :: "oncall_state \<Rightarrow> string \<Rightarrow> bool" where
  "redis_exists s key = (case gm_get (os_Redis s) key of None \<Rightarrow> False | Some expiry \<Rightarrow> os_Now s < expiry)"

definition redis_del :: "string \<Rightarrow> oncall_state \<Rightarrow> oncall_state" where
  "redis_del key s = s\<lparr>os_Redis := gm_del (os_Redis s) key\<rparr>"

definition triggerProvider ::
  "(string \<Rightarrow> OnCallConfig \<Rightarrow> string option) \<Rightarrow> string \<Rightarrow> OnCallConfig \<Rightarrow> oncall_state \<Rightarrow> string option \<times> oncall_state" where
  "triggerProvider trigger incidentID cfg s = (trigger incidentID cfg, s\<lparr>os_Pages := os_Pages s @ [incidentID]\<rparr>)"

definition Start ::
  "OnCallWorkflow option \<Rightarrow> string \<Rightarrow> OnCallConfig \<Rightarrow> oncall_state \<Rightarrow> string option \<times> oncall_state" where
  "Start w_opt incidentID cfg s =
     (case w_opt of
        None \<Rightarrow> (Some ''the on-call workflow hasn't been properly initialized'', s)
      | Some w \<Rightarrow>
          if \<not> wf_Client w then (Some ''the on-call workflow hasn't been properly initialized'', s)
          else case wf_Trigger w of
                 None \<Rightarrow> (Some ''no on-call provider available'', s)
               | Some trigger \<Rightarrow>
                   if oc_WaitMinutes cfg = 0 then triggerProvider trigger incidentID cfg s
                   else
                     let expiration = oc_WaitMinutes cfg * minute + 1 * minute
                     in case wf_SetErr w (os_Now s) incidentID of
                          Some err \<Rightarrow> (Some (''failed to store incident '' @ incidentID @ '' in Redis: '' @ err), s)
                        | None \<Rightarrow>
                            (None, s\<lparr>os_Redis := gm_set (os_Redis s) incidentID (os_Now s + expiration),
                                     os_Timers := os_Timers s @ [\<lparr>ti_Due = os_Now s + oc_WaitMinutes cfg * minute,
                                       ti_Incident = incidentID, ti_Config = cfg\<rparr>]\<rparr>))"

text \<open>The body of the goroutine once its timer has gone off; its errors are logged only.\<close>

definition timer_body :: "OnCallWorkflow \<Rightarrow> oncall_timer \<Rightarrow> oncall_state \<Rightarrow> oncall_state" where
  "timer_body w t s =
     (case wf_ExistsErr w (os_Now s) (ti_Incident t) of
        Some err \<Rightarrow> s
      | None \<Rightarrow>
          if redis_exists s (ti_Incident t)
          then let s = (case wf_Trigger w of
                          None \<Rightarrow> s
                        | Some trigger \<Rightarrow> snd (triggerProvider trigger (ti_Incident t) (ti_Config t) s))
               in (case wf_DelErr w (os_Now s) (ti_Incident t) of Some err \<Rightarrow> s | None \<Rightarrow> redis_del (ti_Incident t) s)
          else s)"

text \<open>An error of the look-up counts as "not there".\<close>

definition Ack :: "OnCallWorkflow option \<Rightarrow> string \<Rightarrow> oncall_state \<Rightarrow> string option \<times> oncall_state" where
  "Ack w_opt incidentID s =
     (case w_opt of
        None \<Rightarrow> (Some ''the on-call workflow hasn't been properly initialized'', s)
      | Some w \<Rightarrow>
          if \<not> wf_Client w then (Some ''the on-call workflow hasn't been properly initialized'', s)
          else if wf_ExistsErr w (os_Now s) incidentID = None \<and> redis_exists s incidentID then
            (case wf_DelErr w (os_Now s) incidentID of
               Some err \<Rightarrow> (Some (''failed to acknowledge incident '' @ incidentID @ '': '' @ err), s)
             | None \<Rightarrow> (None, redis_del incidentID s))
          else (Some ''incident does not exist or was already acknowledged'', s))"

subsection \<open>Runs\<close>

datatype oncall_event = EvStart string OnCallConfig | EvAck string | EvPass duration | EvFire string

text \<open>\<open>EvFire i\<close>: the first due timer of the incident \<open>i\<close>, if there is one, goes off.\<close>

definition due_for :: "oncall_state \<Rightarrow> string \<Rightarrow> oncall_timer \<Rightarrow> bool" where
  "due_for s i t \<longleftrightarrow> ti_Incident t = i \<and> ti_Due t \<le> os_Now s"

definition fire_timer :: "OnCallWorkflow \<Rightarrow> string \<Rightarrow> oncall_state \<Rightarrow> oncall_state" where
  "fire_timer w i s =
     (case find (due_for s i) (os_Timers s) of
        None \<Rightarrow> s
      | Some t \<Rightarrow> timer_body w t (s\<lparr>os_Timers := remove1 t (os_Timers s)\<rparr>))"

fun oncall_step :: "OnCallWorkflow \<Rightarrow> oncall_event \<Rightarrow> oncall_state \<Rightarrow> oncall_state" where
  "oncall_step w (EvStart i cfg) s = snd (Start (Some w) i cfg s)"
| "oncall_step w (EvAck i) s = snd (Ack (Some w) i s)"
| "oncall_step w (EvPass d) s = s\<lparr>os_Now := os_Now s + max 0 d\<rparr>"
| "oncall_step w (EvFire i) s = fire_timer w i s"

definition oncall_run :: "OnCallWorkflow \<Rightarrow> oncall_event list \<Rightarrow> oncall_state \<Rightarrow> oncall_state" where
  "oncall_run w es s = fold (oncall_step w) es s"

lemma oncall_run_simps [simp]:
  "oncall_run w [] s = s"
  "oncall_run w (e # es) s = oncall_run w es (oncall_step w e s)"
  "oncall_run w (es @ es') s = oncall_run w es' (oncall_run w es s)"
  by (simp_all add: oncall_run_def)

definition pages_of :: "string \<Rightarrow> oncall_state \<Rightarrow> nat" where
  "pages_of i s = count_list (os_Pages s) i"

definition timers_of :: "string \<Rightarrow> oncall_state \<Rightarrow> oncall_timer list" where
  "timers_of i s = filter (\<lambda>t. ti_Incident t = i) (os_Timers s)"

text \<open>The mark of an incident while it lasts.\<close>

definition mark_of :: "string \<Rightarrow> oncall_state \<Rightarrow> time option" where
  "mark_of i s = gm_get (os_Redis s) i"

definition healthy :: "OnCallWorkflow \<Rightarrow> bool" where
  "healthy w \<longleftrightarrow> wf_Client w \<and> wf_Trigger w \<noteq> None \<and>
     (\<forall>t i. wf_SetErr w t i = None \<and> wf_ExistsErr w t i = None \<and> wf_DelErr w t i = None)"

text \<open>Which events concern an incident.\<close>

fun event_of :: "oncall_event \<Rightarrow> string option" where
  "event_of (EvStart i cfg) = Some i"
| "event_of (EvAck i) = Some i"
| "event_of (EvPass d) = None"
| "event_of (EvFire i) = Some i"

definition view_of :: "string \<Rightarrow> oncall_state \<Rightarrow> nat \<times> oncall_timer list \<times> time option" where
  "view_of i s = (pages_of i s, timers_of i s, mark_of i s)"

lemma timer_body_other:
  "ti_Incident t \<noteq> i \<Longrightarrow> view_of i (timer_body w t s) = view_of i s"
  "os_Now (timer_body w t s) = os_Now s" "os_Timers (timer_body w t s) = os_Timers s"
  by (simp_all add: timer_body_def view_of_def pages_of_def timers_of_def mark_of_def triggerProvider_def redis_del_def
      Let_def gm_simps split: option.split)

lemma fire_find:
  assumes "find (due_for s i) (os_Timers s) = Some t"
  shows "ti_Incident t = i" "ti_Due t \<le> os_Now s" "t \<in> set (os_Timers s)"
  using find_in [OF assms] by (auto simp: due_for_def)

lemma filter_remove1_other: "\<not> P t \<Longrightarrow> filter P (remove1 t xs) = filter P xs"
  by (induction xs) auto

lemma step_other:
  assumes "event_of e \<noteq> Some i"
  shows "view_of i (oncall_step w e s) = view_of i s"
proof (cases e)
  case (EvStart j cfg)
  with assms show ?thesis
    by (simp add: Start_def triggerProvider_def view_of_def pages_of_def timers_of_def mark_of_def Let_def gm_simps split: option.split)
next
  case (EvAck j)
  with assms show ?thesis
    by (simp add: Ack_def redis_del_def view_of_def pages_of_def timers_of_def mark_of_def gm_simps split: option.split)
next
  case (EvPass d)
  then show ?thesis by (simp add: view_of_def pages_of_def timers_of_def mark_of_def)
next
  case (EvFire j)
  show ?thesis
  proof (cases "find (due_for s j) (os_Timers s)")
    case None
    then show ?thesis using EvFire by (simp add: fire_timer_def)
  next
    case (Some t)
    have j: "ti_Incident t \<noteq> i" using fire_find(1) [OF Some] assms EvFire by auto
    have "view_of i (s\<lparr>os_Timers := remove1 t (os_Timers s)\<rparr>) = view_of i s"
      using j by (simp add: view_of_def pages_of_def timers_of_def mark_of_def filter_remove1_other)
    then show ?thesis using EvFire Some timer_body_other(1) [OF j] by (simp add: fire_timer_def)
  qed
qed

lemma step_now: "os_Now s \<le> os_Now (oncall_step w e s)"
  by (cases e) (auto simp: Start_def triggerProvider_def Ack_def redis_del_def fire_timer_def timer_body_other(2) Let_def
      split: option.split)

subsection \<open>Waiting for an acknowledgement\<close>

definition no_start :: "string \<Rightarrow> oncall_event list \<Rightarrow> bool" where
  "no_start i es \<longleftrightarrow> list_all (\<lambda>e. case e of EvStart j cfg \<Rightarrow> j \<noteq> i | _ \<Rightarrow> True) es"

lemma no_start_simps [simp]:
  "no_start i []" "no_start i (es @ es') \<longleftrightarrow> no_start i es \<and> no_start i es'"
  "no_start i (e # es) \<longleftrightarrow> (\<forall>cfg. e \<noteq> EvStart i cfg) \<and> no_start i es"
  by (auto simp: no_start_def split: oncall_event.split)

text \<open>Without a timer nothing pages.\<close>

lemma run_idle:
  "timers_of i s = [] \<Longrightarrow> no_start i es \<Longrightarrow>
   pages_of i (oncall_run w es s) = pages_of i s \<and> timers_of i (oncall_run w es s) = []"
proof (induction es arbitrary: s)
  case (Cons e es)
  have "pages_of i (oncall_step w e s) = pages_of i s \<and> timers_of i (oncall_step w e s) = []"
  proof (cases "event_of e = Some i")
    case False
    from step_other [OF this, of w s] Cons.prems show ?thesis by (simp add: view_of_def)
  next
    case True
    show ?thesis
    proof (cases e)
      case (EvFire j)
      with True Cons.prems(1) have "find (due_for s i) (os_Timers s) = None"
        by (auto simp: timers_of_def find_None_iff due_for_def filter_empty_conv)
      with EvFire True Cons.prems show ?thesis by (simp add: fire_timer_def)
    next
      case (EvAck j)
      with Cons.prems show ?thesis
        by (auto simp: Ack_def redis_del_def pages_of_def timers_of_def split: option.split)
    qed (use True Cons.prems in auto)
  qed
  with Cons.IH [of "oncall_step w e s"] Cons.prems show ?case by simp
qed simp

text \<open>The events of the wait: anything but a new start of the incident and its timer.\<close>

lemma run_waiting:
  assumes "healthy w" "no_start i es" "EvFire i \<notin> set es"
    and "mark_of i s = None \<or> mark_of i s = Some expiry" "os_Now (oncall_run w es s) < expiry"
  shows "pages_of i (oncall_run w es s) = pages_of i s \<and> timers_of i (oncall_run w es s) = timers_of i s \<and>
    mark_of i (oncall_run w es s) = (if EvAck i \<in> set es then None else mark_of i s)"
  using assms(2-)
proof (induction es arbitrary: s)
  case (Cons e es)
  let ?s = "oncall_step w e s"
  have mono: "os_Now s \<le> os_Now (oncall_run w es s)" for es s
    by (induction es arbitrary: s) (auto intro: order_trans step_now)
  have now: "os_Now s < expiry" using mono [of s "e # es"] Cons.prems(4) by simp
  have step: "pages_of i ?s = pages_of i s \<and> timers_of i ?s = timers_of i s \<and>
    mark_of i ?s = (if e = EvAck i then None else mark_of i s)"
  proof (cases "event_of e = Some i")
    case False
    from step_other [OF this, of w s] False show ?thesis by (auto simp: view_of_def)
  next
    case True
    then have "e = EvAck i" using Cons.prems by (cases e) auto
    then show ?thesis
      using assms(1) Cons.prems(3) now
      by (auto simp: Ack_def healthy_def redis_exists_def redis_del_def pages_of_def timers_of_def mark_of_def gm_simps
          split: option.splits)
  qed
  have "pages_of i (oncall_run w es ?s) = pages_of i ?s \<and> timers_of i (oncall_run w es ?s) = timers_of i ?s \<and>
    mark_of i (oncall_run w es ?s) = (if EvAck i \<in> set es then None else mark_of i ?s)"
    by (rule Cons.IH) (use Cons.prems step in auto)
  then show ?case using step by auto
qed simp

lemma fire_once:
  assumes "healthy w" "timers_of i s = [t]" "ti_Due t \<le> os_Now s"
    and "case mark_of i s of None \<Rightarrow> True | Some e \<Rightarrow> os_Now s < e"
  shows "pages_of i (fire_timer w i s) = pages_of i s + (if mark_of i s = None then 0 else 1) \<and>
    timers_of i (fire_timer w i s) = []"
proof -
  have t: "ti_Incident t = i" "t \<in> set (os_Timers s)"
    using assms(2) by (auto simp: timers_of_def dest: filter_eq_ConsD)
  have "find (due_for s i) (os_Timers s) \<noteq> None"
    using t assms(3) by (auto simp: find_None_iff due_for_def)
  then obtain u where u: "find (due_for s i) (os_Timers s) = Some u" by blast
  from fire_find [OF u] have "u \<in> set (timers_of i s)" by (simp add: timers_of_def)
  then have u': "u = t" using assms(2) by simp
  have "filter (\<lambda>t. ti_Incident t = i) (remove1 t (os_Timers s)) = remove1 t (timers_of i s)"
    by (simp add: timers_of_def filter_remove1)
  then have rest: "timers_of i (s\<lparr>os_Timers := remove1 t (os_Timers s)\<rparr>) = []"
    using assms(2) by (simp add: timers_of_def)
  obtain trigger where trig: "wf_Trigger w = Some trigger" using assms(1) by (auto simp: healthy_def)
  show ?thesis
    using assms(1,4) rest t(1) trig
    by (auto simp: fire_timer_def u u' timer_body_def healthy_def redis_exists_def redis_del_def triggerProvider_def
        pages_of_def timers_of_def mark_of_def Let_def split: option.splits)
qed

subsection \<open>Property\<close>

text \<open>
  C34: On-call pages exactly when nobody acknowledged in time. After a successful start with a wait period,
  whatever happens to other incidents, when the timer goes off after the wait period and within the
  minute for which the mark outlives it, the provider is called once if the incident was not
  acknowledged during the wait and never if it was; nothing later pages for this start again.
\<close>

theorem pages_unless_acknowledged:
  assumes "healthy w" "timers_of i s = []" "0 < oc_WaitMinutes cfg"
    and "Start (Some w) i cfg s = (None, s1)"
    and "no_start i (es1 @ es2)" "EvFire i \<notin> set es1"
    and "os_Now s + oc_WaitMinutes cfg * minute \<le> os_Now (oncall_run w es1 s1)"
    and "os_Now (oncall_run w es1 s1) < os_Now s + (oc_WaitMinutes cfg + 1) * minute"
  shows "pages_of i (oncall_run w (es1 @ EvFire i # es2) s1) =
    pages_of i s + (if EvAck i \<in> set es1 then 0 else 1)"
proof -
  define t where "t = \<lparr>ti_Due = os_Now s + oc_WaitMinutes cfg * minute, ti_Incident = i, ti_Config = cfg\<rparr>"
  define expiry where "expiry = os_Now s + (oc_WaitMinutes cfg + 1) * minute"
  have "s1 = s\<lparr>os_Redis := gm_set (os_Redis s) i expiry, os_Timers := os_Timers s @ [t]\<rparr>"
    using assms(1,3,4) by (auto simp: Start_def healthy_def t_def expiry_def Let_def algebra_simps split: option.splits)
  then have start: "pages_of i s1 = pages_of i s" "timers_of i s1 = [t]" "mark_of i s1 = Some expiry"
    using assms(2) by (simp_all add: pages_of_def timers_of_def mark_of_def t_def gm_simps)
  let ?s = "oncall_run w es1 s1"
  have wait: "pages_of i ?s = pages_of i s1" "timers_of i ?s = [t]" "mark_of i ?s = (if EvAck i \<in> set es1 then None else Some expiry)"
    using run_waiting [OF assms(1) _ assms(6), of s1 expiry] assms(5,8) start by (simp_all add: expiry_def)
  from fire_once [OF assms(1) wait(2)] assms(7,8)
  have fired: "pages_of i (fire_timer w i ?s) = pages_of i s + (if EvAck i \<in> set es1 then 0 else 1)"
    "timers_of i (fire_timer w i ?s) = []"
    by (auto simp: wait start t_def expiry_def split: if_splits)
  from run_idle [OF fired(2), of es2 w] assms(5) fired(1) show ?thesis by simp
qed

definition demo_workflow :: OnCallWorkflow where
  "demo_workflow = \<lparr>wf_Trigger = Some (\<lambda>i cfg. None), wf_Client = True, wf_SetErr = (\<lambda>t i. None),
     wf_ExistsErr = (\<lambda>t i. None), wf_DelErr = (\<lambda>t i. None)\<rparr>"

theorem pages_unless_acknowledged_witness:
  "pages_of ''a'' (oncall_run demo_workflow [EvStart ''b'' \<lparr>oc_Enable = True, oc_WaitMinutes = 0\<rparr>, EvPass (3 * minute), EvFire ''a'']
     (snd (Start (Some demo_workflow) ''a'' \<lparr>oc_Enable = True, oc_WaitMinutes = 3\<rparr>
        \<lparr>os_Now = 7, os_Redis = [], os_Timers = [], os_Pages = []\<rparr>))) = 1"
proof -
  let ?s = "\<lparr>os_Now = 7, os_Redis = [], os_Timers = [], os_Pages = []\<rparr>"
  let ?cfg = "\<lparr>oc_Enable = True, oc_WaitMinutes = 3\<rparr>"
  let ?es = "[EvStart ''b'' \<lparr>oc_Enable = True, oc_WaitMinutes = 0\<rparr>, EvPass (3 * minute)]"
  have h: "healthy demo_workflow" by (simp add: healthy_def demo_workflow_def)
  have st: "Start (Some demo_workflow) ''a'' ?cfg ?s = (None, snd (Start (Some demo_workflow) ''a'' ?cfg ?s))"
    by (simp add: Start_def demo_workflow_def)
  have now: "os_Now (oncall_run demo_workflow ?es (snd (Start (Some demo_workflow) ''a'' ?cfg ?s))) = 7 + 3 * minute"
    by (simp add: Start_def demo_workflow_def triggerProvider_def Let_def minute_def second_def)
  show ?thesis
    using pages_unless_acknowledged [OF h _ _ st, of ?es "[]"] now
    by (simp add: timers_of_def pages_of_def minute_def second_def)
qed

end
