(* ===== verification/Service_Health.thy ===== *)
theory Service_Health
  imports Agent_Types Memory_State "HOL-Library.Product_Lexorder"
begin

text \<open>
  The storage-backed part of Service Health (\<open>pkg/servicehealth/manager.go\<close>): the worker's log
  observations are counted in minute buckets in memory, flushed into one blob per organisation by
  compare-and-swap, and summed over a window; settings and a bounded history of snapshots are blobs too.

  The provider is the in-memory one or absent. \<open>he_sha\<close> gives the 32 hexadecimal digits of the
  first half of a SHA-256 digest, the other functions of the environment encode and decode JSON
  (\<open>None\<close> for an error). A read or swap may fail: \<open>he_readErr\<close> and \<open>he_swapErr\<close> tell at which attempt, a
  failing swap has not changed the store. \<open>he_others\<close> is what other processes do to the store between
  the read and the swap of an attempt. Go iterates over maps in any order; here it is the order of insertion.
\<close>

subsection \<open>Settings\<close>

definition MinIntervalSeconds :: int where "MinIntervalSeconds = 30"
definition MaxIntervalSeconds :: int where "MaxIntervalSeconds = 900"
definition MinWindowSeconds :: int where "MinWindowSeconds = 60"
definition MaxWindowSeconds :: int where "MaxWindowSeconds = 3600"
definition BucketDuration :: duration where "BucketDuration = minute"
definition MaxSnapshots :: nat where "MaxSnapshots = 60"
definition MaxSnapshotAge :: duration where "MaxSnapshotAge = 24 * hour"
definition MaxSnapshotBytes :: nat where "MaxSnapshotBytes = 4194304"
definition MaxStateBytes :: nat where "MaxStateBytes = 4194304"
definition MaxLogBuckets :: nat where "MaxLogBuckets = 100000"
definition MaxPatternIDsPerBucket :: nat where "MaxPatternIDsPerBucket = 256"
definition MaxPatternIDsPerWindow :: nat where "MaxPatternIDsPerWindow = 1024"
definition MaxStateSources :: nat where "MaxStateSources = 1024"
definition MaxLogRetention :: duration where "MaxLogRetention = MaxWindowSeconds * second + 2 * BucketDuration"

text \<open>A revision is a \<open>uint64\<close>.\<close>

record Settings =
  se_IntervalSeconds :: int
  se_WindowSeconds :: int
  se_Revision :: "64 word"
  se_Diagnostic :: string

definition DefaultSettings :: Settings where
  "DefaultSettings = \<lparr>se_IntervalSeconds = 60, se_WindowSeconds = 300, se_Revision = 0, se_Diagnostic = []\<rparr>"

text \<open>The errors by field; no entry for a valid record.\<close>

definition ValidateSettings :: "Settings \<Rightarrow> (string, string) gomap" where
  "ValidateSettings s =
     (let fields = [];
          fields = (if se_IntervalSeconds s < MinIntervalSeconds \<or> se_IntervalSeconds s > MaxIntervalSeconds
                    then gm_set fields ''interval_seconds'' ''must be between 30 and 900'' else fields);
          fields = (if se_WindowSeconds s < MinWindowSeconds \<or> se_WindowSeconds s > MaxWindowSeconds
                    then gm_set fields ''window_seconds'' ''must be between 60 and 3600'' else fields)
      in if se_WindowSeconds s < se_IntervalSeconds s
         then gm_set fields ''window_seconds'' ''must be greater than or equal to interval_seconds'' else fields)"

datatype health_error =
  HConflict | HNoStorage | HBufferFull | HUnsupported | HInvalid "(string, string) gomap"
  | HRead string | HSwap string | HEncode | HDecode | HTooLarge nat | HInvalidState | HSnapshotTooLarge nat | HPanic | HProjection

subsection \<open>Buckets\<close>

type_synonym bucketKey = "string \<times> string \<times> int"

record bucketRecord =
  bu_Service :: string
  bu_SourceID :: string
  bu_Start :: time
  bu_MatchedLogs :: int
  bu_SeverityCounts :: "(string, int) gomap"
  bu_LatestObservation :: time
  bu_PatternIDs :: "string list"
  bu_NewPatternIDs :: "string list"
  bu_UnknownPatternIDs :: "string list"
  bu_SpikingPatternIDs :: "string list"
  bu_PatternsTruncated :: bool

record SourceStatus =
  so_SourceID :: string
  so_LatestAttempt :: time
  so_LatestSuccess :: time
  so_ErrorClass :: string

record pendingState =
  pe_buckets :: "(bucketKey, bucketRecord) gomap"
  pe_sources :: "(string, SourceStatus) gomap"

record persistedState =
  ps_Buckets :: "bucketRecord list"
  ps_Sources :: "(string, SourceStatus) gomap"

record health_env =
  he_now :: time
  he_sha :: "string \<Rightarrow> string"
  he_encState :: "persistedState \<Rightarrow> string option"
  he_decState :: "string \<Rightarrow> persistedState option"
  he_encSettings :: "Settings \<Rightarrow> string option"
  he_decSettings :: "string \<Rightarrow> Settings option"
  he_readErr :: "nat \<Rightarrow> string option"
  he_swapErr :: "nat \<Rightarrow> string option"
  he_others :: "nat \<Rightarrow> memoryProvider \<Rightarrow> memoryProvider"

text \<open>The pending observations by organisation: the only state of a manager that changes.\<close>

type_synonym pending_map = "(string, pendingState) gomap"

definition bucket_key :: "bucketRecord \<Rightarrow> bucketKey" where
  "bucket_key b = (bu_Service b, bu_SourceID b, unix_of (bu_Start b))"

definition truncate_bucket :: "time \<Rightarrow> time" where
  "truncate_bucket t = t - t mod BucketDuration"

definition safeSeverity :: "string \<Rightarrow> string" where
  "safeSeverity value =
     (if to_lower value \<in> {''debug'', ''info'', ''warning'', ''error'', ''critical''} then to_lower value else [])"

definition safeErrorClass :: "string \<Rightarrow> string" where
  "safeErrorClass value =
     (if value \<in> {''authentication'', ''permission'', ''timeout'', ''connection'', ''rate_limit'', ''invalid_response'',
        ''unavailable''} then value else ''unavailable'')"

definition appendUniqueBounded :: "string list \<Rightarrow> string \<Rightarrow> bool \<Rightarrow> string list \<times> bool" where
  "appendUniqueBounded values value truncated =
     (if value \<in> set values then (values, truncated)
      else if length values \<ge> MaxPatternIDsPerBucket then (values, True)
      else (values @ [value], truncated))"

definition mergeUniqueBounded :: "string list \<Rightarrow> string list \<Rightarrow> bool \<Rightarrow> string list \<times> bool" where
  "mergeUniqueBounded target values truncated =
     fold (\<lambda>value (target, truncated). appendUniqueBounded target value truncated) values (target, truncated)"

definition add_counts :: "(string, int) gomap \<Rightarrow> (string, int) gomap \<Rightarrow> (string, int) gomap" where
  "add_counts target delta = fold (\<lambda>(severity, n) m. gm_set m severity (gm_get0 0 m severity + n)) delta target"

definition mergeBucket :: "bucketRecord \<Rightarrow> bucketRecord \<Rightarrow> bucketRecord" where
  "mergeBucket target delta =
     (let (ids, truncated) = mergeUniqueBounded (bu_PatternIDs target) (bu_PatternIDs delta)
            (bu_PatternsTruncated target \<or> bu_PatternsTruncated delta);
          (new, truncated) = mergeUniqueBounded (bu_NewPatternIDs target) (bu_NewPatternIDs delta) truncated;
          (unknown, truncated) = mergeUniqueBounded (bu_UnknownPatternIDs target) (bu_UnknownPatternIDs delta) truncated;
          (spiking, truncated) = mergeUniqueBounded (bu_SpikingPatternIDs target) (bu_SpikingPatternIDs delta) truncated
      in target\<lparr>bu_MatchedLogs := bu_MatchedLogs target + bu_MatchedLogs delta,
           bu_SeverityCounts := add_counts (bu_SeverityCounts target) (bu_SeverityCounts delta),
           bu_LatestObservation := (if bu_LatestObservation target < bu_LatestObservation delta
              then bu_LatestObservation delta else bu_LatestObservation target),
           bu_PatternIDs := ids, bu_NewPatternIDs := new, bu_UnknownPatternIDs := unknown,
           bu_SpikingPatternIDs := spiking, bu_PatternsTruncated := truncated\<rparr>)"

subsection \<open>Recording\<close>

definition pendingFor :: "string \<Rightarrow> pending_map \<Rightarrow> pendingState" where
  "pendingFor orgID p = (case gm_get p orgID of Some state \<Rightarrow> state | None \<Rightarrow> \<lparr>pe_buckets = [], pe_sources = []\<rparr>)"

definition prunePending :: "time \<Rightarrow> pendingState \<Rightarrow> pendingState" where
  "prunePending cutoff state = state\<lparr>pe_buckets := gm_filter (\<lambda>k b. \<not> bu_Start b < cutoff) (pe_buckets state)\<rparr>"

text \<open>One observation added to its bucket.\<close>

definition observe_log :: "health_env \<Rightarrow> LogHealthObservation \<Rightarrow> bucketRecord \<Rightarrow> bucketRecord" where
  "observe_log env ob b =
     (let patternID = he_sha env (lh_PatternID ob);
          (ids, truncated) = appendUniqueBounded (bu_PatternIDs b) patternID (bu_PatternsTruncated b);
          retained = (patternID \<in> set ids);
          (new, truncated) = (if retained \<and> lh_NewPattern ob
             then appendUniqueBounded (bu_NewPatternIDs b) patternID truncated else (bu_NewPatternIDs b, truncated));
          (unknown, truncated) = (if retained \<and> lh_LifecycleClassified ob \<and> lh_LifecycleClass ob = ''unknown''
             then appendUniqueBounded (bu_UnknownPatternIDs b) patternID truncated else (bu_UnknownPatternIDs b, truncated));
          (spiking, truncated) = (if retained \<and> lh_LifecycleClassified ob \<and> lh_LifecycleClass ob = ''spike''
             then appendUniqueBounded (bu_SpikingPatternIDs b) patternID truncated else (bu_SpikingPatternIDs b, truncated));
          severity = safeSeverity (lh_StrongestSeverity ob)
      in b\<lparr>bu_MatchedLogs := bu_MatchedLogs b + lh_Frequency ob, bu_PatternIDs := ids, bu_NewPatternIDs := new,
           bu_UnknownPatternIDs := unknown, bu_SpikingPatternIDs := spiking, bu_PatternsTruncated := truncated,
           bu_SeverityCounts := (if severity \<noteq> []
              then gm_set (bu_SeverityCounts b) severity (gm_get0 0 (bu_SeverityCounts b) severity + lh_Frequency ob)
              else bu_SeverityCounts b),
           bu_LatestObservation := (if bu_LatestObservation b < lh_ObservedAt ob then lh_ObservedAt ob
              else bu_LatestObservation b)\<rparr>)"

definition empty_bucket :: "string \<Rightarrow> string \<Rightarrow> time \<Rightarrow> bucketRecord" where
  "empty_bucket service source start =
     \<lparr>bu_Service = service, bu_SourceID = source, bu_Start = start, bu_MatchedLogs = 0, bu_SeverityCounts = [],
      bu_LatestObservation = zero_time, bu_PatternIDs = [], bu_NewPatternIDs = [], bu_UnknownPatternIDs = [],
      bu_SpikingPatternIDs = [], bu_PatternsTruncated = False\<rparr>"

definition ignored :: "LogHealthObservation \<Rightarrow> bool" where
  "ignored ob \<longleftrightarrow> lh_Frequency ob \<le> 0 \<or> lh_SourceID ob = [] \<or> lh_PatternID ob = [] \<or> lh_ObservedAt ob = zero_time"

definition observation_key :: "LogHealthObservation \<Rightarrow> bucketKey" where
  "observation_key ob = (lh_Service ob, lh_SourceID ob, unix_of (truncate_bucket (lh_ObservedAt ob)))"

definition RecordLogHealth ::
  "health_env \<Rightarrow> LogHealthObservation \<Rightarrow> pending_map \<Rightarrow> health_error option \<times> pending_map" where
  "RecordLogHealth env ob p =
     (if ignored ob then (None, p)
      else
        let orgID = NormalizeOrgID (lh_OrgID ob);
            state = pendingFor orgID p;
            key = observation_key ob
        in case gm_get (pe_buckets state) key of
             Some b \<Rightarrow> (None, gm_set p orgID (state\<lparr>pe_buckets := gm_set (pe_buckets state) key (observe_log env ob b)\<rparr>))
           | None \<Rightarrow>
               let state = prunePending (lh_ObservedAt ob - MaxLogRetention) state
               in if length (pe_buckets state) \<ge> MaxLogBuckets then (Some HBufferFull, gm_set p orgID state)
                  else
                    let b = empty_bucket (lh_Service ob) (lh_SourceID ob) (truncate_bucket (lh_ObservedAt ob))
                    in (None, gm_set p orgID (state\<lparr>pe_buckets := gm_set (pe_buckets state) key (observe_log env ob b)\<rparr>)))"

definition zero_status :: SourceStatus where
  "zero_status = \<lparr>so_SourceID = [], so_LatestAttempt = zero_time, so_LatestSuccess = zero_time, so_ErrorClass = []\<rparr>"

definition RecordSourceHealth :: "SourceHealthObservation \<Rightarrow> pending_map \<Rightarrow> health_error option \<times> pending_map" where
  "RecordSourceHealth ob p =
     (if sh_SourceID ob = [] \<or> sh_AttemptedAt ob = zero_time then (None, p)
      else
        let orgID = NormalizeOrgID (sh_OrgID ob);
            state = pendingFor orgID p
        in if \<not> gm_has (pe_sources state) (sh_SourceID ob) \<and> length (pe_sources state) \<ge> MaxStateSources
           then (Some HBufferFull, gm_set p orgID state)
           else
             let status = (gm_get0 zero_status (pe_sources state) (sh_SourceID ob))\<lparr>so_SourceID := sh_SourceID ob,
                   so_LatestAttempt := sh_AttemptedAt ob\<rparr>;
                 status = (if sh_Succeeded ob then status\<lparr>so_LatestSuccess := sh_AttemptedAt ob, so_ErrorClass := []\<rparr>
                           else status\<lparr>so_ErrorClass := safeErrorClass (sh_ErrorClass ob)\<rparr>)
             in (None, gm_set p orgID (state\<lparr>pe_sources := gm_set (pe_sources state) (sh_SourceID ob) status\<rparr>)))"

subsection \<open>Flushing\<close>

definition restore_bucket :: "bucketKey \<times> bucketRecord \<Rightarrow> pendingState \<Rightarrow> pendingState" where
  "restore_bucket = (\<lambda>(key, delta) current. current\<lparr>pe_buckets := gm_set (pe_buckets current) key
     (case gm_get (pe_buckets current) key of None \<Rightarrow> delta | Some b \<Rightarrow> mergeBucket b delta)\<rparr>)"

definition restore_source :: "string \<times> SourceStatus \<Rightarrow> pendingState \<Rightarrow> pendingState" where
  "restore_source = (\<lambda>(sourceID, status) current.
     if so_LatestAttempt (gm_get0 zero_status (pe_sources current) sourceID) < so_LatestAttempt status
     then current\<lparr>pe_sources := gm_set (pe_sources current) sourceID status\<rparr> else current)"

definition restorePending :: "string \<Rightarrow> pendingState \<Rightarrow> pending_map \<Rightarrow> pending_map" where
  "restorePending orgID pending p =
     gm_set p orgID (fold restore_source (pe_sources pending) (fold restore_bucket (pe_buckets pending) (pendingFor orgID p)))"

definition orgKey :: "health_env \<Rightarrow> string \<Rightarrow> string \<Rightarrow> string" where
  "orgKey env pre orgID = pre @ ''/'' @ he_sha env (NormalizeOrgID orgID)"

definition settingsKey :: "health_env \<Rightarrow> string \<Rightarrow> string" where
  "settingsKey env orgID = orgKey env ''models/settings/service-health'' orgID"

definition stateKey :: "health_env \<Rightarrow> string \<Rightarrow> string" where
  "stateKey env orgID = orgKey env ''models/service-health/state'' orgID"

definition snapshotKey :: "health_env \<Rightarrow> string \<Rightarrow> string" where
  "snapshotKey env orgID = orgKey env ''models/service-health/snapshots'' orgID"

definition hex_text :: "string \<Rightarrow> bool" where
  "hex_text s \<longleftrightarrow> list_all (\<lambda>c. c \<in> set ''0123456789abcdefABCDEF'') s"

definition identity_lists :: "bucketRecord \<Rightarrow> string list list" where
  "identity_lists b = [bu_PatternIDs b, bu_NewPatternIDs b, bu_UnknownPatternIDs b, bu_SpikingPatternIDs b]"

definition bucket_valid :: "bucketRecord \<Rightarrow> bool" where
  "bucket_valid b \<longleftrightarrow> list_all (\<lambda>ids. length ids \<le> MaxPatternIDsPerBucket \<and>
     list_all (\<lambda>identity. length identity = 32 \<and> hex_text identity) ids) (identity_lists b)"

definition decodeState :: "health_env \<Rightarrow> string \<Rightarrow> health_error + persistedState" where
  "decodeState env data =
     (if length data > MaxStateBytes then Inl (HTooLarge (length data))
      else case he_decState env data of
             None \<Rightarrow> Inl HDecode
           | Some state \<Rightarrow>
               if length (ps_Buckets state) > MaxLogBuckets \<or> length (ps_Sources state) > MaxStateSources then Inl HInvalidState
               else if \<not> list_all bucket_valid (ps_Buckets state) then Inl HInvalidState
               else Inr state)"

text \<open>The state of a blob; an empty or missing one is the empty state.\<close>

definition read_state :: "health_env \<Rightarrow> string option \<Rightarrow> health_error + persistedState" where
  "read_state env current =
     (case current of
        None \<Rightarrow> Inr \<lparr>ps_Buckets = [], ps_Sources = []\<rparr>
      | Some data \<Rightarrow> if data = [] then Inr \<lparr>ps_Buckets = [], ps_Sources = []\<rparr> else decodeState env data)"

definition merge_pending_bucket ::
  "time \<Rightarrow> bucketKey \<times> bucketRecord \<Rightarrow> (bucketKey, bucketRecord) gomap \<Rightarrow> (bucketKey, bucketRecord) gomap" where
  "merge_pending_bucket cutoff = (\<lambda>(key, delta) byKey.
     case gm_get byKey key of
       Some target \<Rightarrow> gm_set byKey key (mergeBucket target delta)
     | None \<Rightarrow> if \<not> bu_Start delta < cutoff then gm_set byKey key delta else byKey)"

definition merge_pending_source ::
  "string \<times> SourceStatus \<Rightarrow> (string, SourceStatus) gomap \<Rightarrow> (string, SourceStatus) gomap" where
  "merge_pending_source = (\<lambda>(sourceID, status) sources.
     if so_LatestAttempt (gm_get0 zero_status sources sourceID) < so_LatestAttempt status
     then if \<not> gm_has sources sourceID \<and> length sources \<ge> MaxStateSources then sources
          else gm_set sources sourceID status
     else sources)"

definition retained_buckets :: "time \<Rightarrow> bucketRecord list \<Rightarrow> (bucketKey, bucketRecord) gomap" where
  "retained_buckets cutoff bs =
     fold (\<lambda>b byKey. if \<not> bu_Start b < cutoff then gm_set byKey (bucket_key b) b else byKey) bs []"

definition merged_buckets :: "time \<Rightarrow> pendingState \<Rightarrow> bucketRecord list \<Rightarrow> (bucketKey, bucketRecord) gomap" where
  "merged_buckets cutoff pending bs = fold (merge_pending_bucket cutoff) (pe_buckets pending) (retained_buckets cutoff bs)"

definition merge_state :: "time \<Rightarrow> pendingState \<Rightarrow> persistedState \<Rightarrow> persistedState" where
  "merge_state till pending state =
     (let kept = sort_key bu_Start (map snd (merged_buckets (till - MaxLogRetention) pending (ps_Buckets state)))
      in \<lparr>ps_Buckets = (if length kept > MaxLogBuckets then drop (length kept - MaxLogBuckets) kept else kept),
          ps_Sources = fold merge_pending_source (pe_sources pending) (ps_Sources state)\<rparr>)"

text \<open>
  The attempts of a flush: \<open>n\<close> are left of eight. \<open>Inr ()\<close> when the merged state went in; every other
  way out restores the pending observations.
\<close>

fun flush_attempts ::
  "health_env \<Rightarrow> string \<Rightarrow> time \<Rightarrow> pendingState \<Rightarrow> nat \<Rightarrow> memoryProvider \<Rightarrow> (health_error + unit) \<times> memoryProvider" where
  "flush_attempts env key till pending 0 m = (Inl HConflict, m)"
| "flush_attempts env key till pending (Suc n) m =
     (case he_readErr env (7 - n) of
        Some err \<Rightarrow> (Inl (HRead err), m)
      | None \<Rightarrow>
          let current = ReadBlob m key
          in case read_state env current of
               Inl err \<Rightarrow> (Inl err, m)
             | Inr state \<Rightarrow>
                 (case he_encState env (merge_state till pending state) of
                    None \<Rightarrow> (Inl HEncode, m)
                  | Some replacement \<Rightarrow>
                      if length replacement > MaxStateBytes then (Inl (HTooLarge (length replacement)), m)
                      else
                        let m = he_others env (7 - n) m
                        in case he_swapErr env (7 - n) of
                             Some err \<Rightarrow> (Inl (HSwap err), m)
                           | None \<Rightarrow>
                               let (swapped, m) = CompareAndSwapBlob (he_now env) key current (Some replacement) m
                               in if swapped then (Inr (), m)
                                  else flush_attempts env key till pending n m))"

definition flushPending ::
  "health_env \<Rightarrow> string \<Rightarrow> time \<Rightarrow> pending_map \<Rightarrow> memoryProvider option \<Rightarrow>
   health_error option \<times> pending_map \<times> memoryProvider option" where
  "flushPending env org till p st =
     (case st of
        None \<Rightarrow> (Some HNoStorage, p, st)
      | Some m \<Rightarrow>
          let orgID = NormalizeOrgID org
          in case gm_get p orgID of
               None \<Rightarrow> (None, p, st)
             | Some pending \<Rightarrow>
                 let p = gm_del p orgID
                 in if pe_buckets pending = [] \<and> pe_sources pending = [] then (None, p, st)
                    else
                      let (res, m) = flush_attempts env (stateKey env orgID) till pending 8 m
                      in case res of
                           Inr u \<Rightarrow> (None, p, Some m)
                         | Inl err \<Rightarrow> (Some err, restorePending orgID pending p, Some m))"

subsection \<open>Windows\<close>

record WindowAggregate =
  wa_Service :: string
  wa_SourceID :: string
  wa_MatchedLogs :: int
  wa_UniquePatterns :: int
  wa_NewPatterns :: int
  wa_UnknownPatterns :: int
  wa_SpikingPatterns :: int
  wa_SeverityCounts :: "(string, int) gomap"
  wa_LatestObservation :: time
  wa_Estimated :: bool
  wa_Truncated :: bool
  wa_PartialReason :: string

record aggregateState =
  ag_row :: WindowAggregate
  ag_patterns :: "string list"
  ag_fresh :: "string list"
  ag_unknown :: "string list"
  ag_spikes :: "string list"

definition empty_row :: "string \<Rightarrow> string \<Rightarrow> WindowAggregate" where
  "empty_row service source =
     \<lparr>wa_Service = service, wa_SourceID = source, wa_MatchedLogs = 0, wa_UniquePatterns = 0, wa_NewPatterns = 0,
      wa_UnknownPatterns = 0, wa_SpikingPatterns = 0, wa_SeverityCounts = [], wa_LatestObservation = zero_time,
      wa_Estimated = False, wa_Truncated = False, wa_PartialReason = []\<rparr>"

text \<open>The flag says that the bound was hit.\<close>

definition addWindowPattern :: "string list \<Rightarrow> string \<Rightarrow> bool \<times> string list" where
  "addWindowPattern patterns i =
     (if i \<in> set patterns then (False, patterns)
      else if length patterns \<ge> MaxPatternIDsPerWindow then (True, patterns)
      else (False, patterns @ [i]))"

definition add_patterns :: "string list \<Rightarrow> string list \<Rightarrow> bool \<times> string list" where
  "add_patterns ids patterns =
     fold (\<lambda>i (hit, patterns). let (h, patterns) = addWindowPattern patterns i in (hit \<or> h, patterns)) ids (False, patterns)"

definition aggregate_bucket :: "bucketRecord \<Rightarrow> aggregateState \<Rightarrow> aggregateState" where
  "aggregate_bucket b a =
     (let (h1, patterns) = add_patterns (bu_PatternIDs b) (ag_patterns a);
          (h2, fresh) = add_patterns (bu_NewPatternIDs b) (ag_fresh a);
          (h3, unknown) = add_patterns (bu_UnknownPatternIDs b) (ag_unknown a);
          (h4, spikes) = add_patterns (bu_SpikingPatternIDs b) (ag_spikes a);
          hit = (bu_PatternsTruncated b \<or> h1 \<or> h2 \<or> h3 \<or> h4);
          row = ag_row a;
          row = row\<lparr>wa_MatchedLogs := wa_MatchedLogs row + bu_MatchedLogs b, wa_Estimated := True,
                    wa_LatestObservation := (if wa_LatestObservation row < bu_LatestObservation b
                       then bu_LatestObservation b else wa_LatestObservation row),
                    wa_SeverityCounts := add_counts (wa_SeverityCounts row) (bu_SeverityCounts b)\<rparr>
      in \<lparr>ag_row = (if hit then row\<lparr>wa_Truncated := True, wa_PartialReason := ''pattern_cardinality_limited''\<rparr> else row),
          ag_patterns = patterns, ag_fresh = fresh, ag_unknown = unknown, ag_spikes = spikes\<rparr>)"

definition nul :: string where "nul = [CHR 0x00]"

definition aggregate_step ::
  "time \<Rightarrow> time \<Rightarrow> bucketRecord \<Rightarrow> (string, aggregateState) gomap \<Rightarrow> (string, aggregateState) gomap" where
  "aggregate_step start till b byKey =
     (if bu_Start b < start \<or> \<not> bu_Start b < till then byKey
      else
        let key = bu_Service b @ nul @ bu_SourceID b;
            a = (case gm_get byKey key of
                   Some a \<Rightarrow> a
                 | None \<Rightarrow> \<lparr>ag_row = empty_row (bu_Service b) (bu_SourceID b), ag_patterns = [], ag_fresh = [],
                            ag_unknown = [], ag_spikes = []\<rparr>)
        in gm_set byKey key (aggregate_bucket b a))"

definition finish_row :: "aggregateState \<Rightarrow> WindowAggregate" where
  "finish_row a = (ag_row a)\<lparr>wa_UniquePatterns := int (length (ag_patterns a)), wa_NewPatterns := int (length (ag_fresh a)),
     wa_UnknownPatterns := int (length (ag_unknown a)), wa_SpikingPatterns := int (length (ag_spikes a))\<rparr>"

definition window_rows :: "time \<Rightarrow> duration \<Rightarrow> persistedState \<Rightarrow> WindowAggregate list" where
  "window_rows till window state =
     sort_key (\<lambda>r. (wa_Service r, wa_SourceID r))
       (map (finish_row \<circ> snd) (fold (aggregate_step (till - window) till) (ps_Buckets state) []))"

definition source_rows :: "persistedState \<Rightarrow> SourceStatus list" where
  "source_rows state = sort_key so_SourceID (map snd (ps_Sources state))"

text \<open>The read after the flush fails with the error of attempt 8.\<close>

definition QueryWindow ::
  "health_env \<Rightarrow> string \<Rightarrow> time \<Rightarrow> duration \<Rightarrow> pending_map \<Rightarrow> memoryProvider option \<Rightarrow>
   (health_error + WindowAggregate list \<times> SourceStatus list) \<times> pending_map \<times> memoryProvider option" where
  "QueryWindow env orgID till window p st =
     (case flushPending env orgID till p st of
        (Some err, p, st) \<Rightarrow> (Inl err, p, st)
      | (None, p, st) \<Rightarrow>
          ((case st of
              None \<Rightarrow> Inl HNoStorage
            | Some m \<Rightarrow>
                (case he_readErr env 8 of
                   Some err \<Rightarrow> Inl (HRead err)
                 | None \<Rightarrow>
                     (case ReadBlob m (stateKey env orgID) of
                        None \<Rightarrow> Inr ([], [])
                      | Some data \<Rightarrow>
                          if data = [] then Inr ([], [])
                          else (case decodeState env data of
                                  Inl err \<Rightarrow> Inl err
                                | Inr state \<Rightarrow> Inr (window_rows till window state, source_rows state))))), p, st))"

subsection \<open>Settings in the store\<close>

definition LoadSettings :: "health_env \<Rightarrow> string \<Rightarrow> memoryProvider option \<Rightarrow> health_error + Settings" where
  "LoadSettings env orgID st =
     (case st of
        None \<Rightarrow> Inl HNoStorage
      | Some m \<Rightarrow>
          (case he_readErr env 0 of
             Some err \<Rightarrow> Inl (HRead err)
           | None \<Rightarrow>
               let invalid = DefaultSettings\<lparr>se_Diagnostic := ''stored_settings_invalid''\<rparr>
               in case ReadBlob m (settingsKey env orgID) of
                    None \<Rightarrow> Inr DefaultSettings
                  | Some data \<Rightarrow>
                      if data = [] then Inr DefaultSettings
                      else (case he_decSettings env data of
                              None \<Rightarrow> Inr invalid
                            | Some s \<Rightarrow> Inr (if ValidateSettings s \<noteq> [] then invalid else s))))"

definition UpdateSettings ::
  "health_env \<Rightarrow> string \<Rightarrow> Settings \<Rightarrow> memoryProvider option \<Rightarrow> (health_error + Settings) \<times> memoryProvider option" where
  "UpdateSettings env orgID next st =
     (if ValidateSettings next \<noteq> [] then (Inl (HInvalid (ValidateSettings next)), st)
      else case st of
        None \<Rightarrow> (Inl HNoStorage, st)
      | Some m \<Rightarrow>
          (case he_readErr env 0 of
             Some err \<Rightarrow> (Inl (HRead err), st)
           | None \<Rightarrow>
               let key = settingsKey env orgID;
                   currentBytes = ReadBlob m key;
                   current = (case currentBytes of
                      None \<Rightarrow> DefaultSettings
                    | Some data \<Rightarrow>
                        if data = [] then DefaultSettings
                        else (case he_decSettings env data of
                                None \<Rightarrow> DefaultSettings
                              | Some s \<Rightarrow> if ValidateSettings s \<noteq> [] then DefaultSettings else s))
               in if se_Revision next \<noteq> se_Revision current then (Inl HConflict, st)
                  else
                    let next = next\<lparr>se_Revision := se_Revision next + 1, se_Diagnostic := []\<rparr>
                    in case he_encSettings env next of
                         None \<Rightarrow> (Inl HEncode, st)
                       | Some replacement \<Rightarrow>
                           let m = he_others env 0 m
                           in case he_swapErr env 0 of
                                Some err \<Rightarrow> (Inl (HSwap err), Some m)
                              | None \<Rightarrow>
                                  let (swapped, m) = CompareAndSwapBlob (he_now env) key currentBytes (Some replacement) m
                                  in (if swapped then Inr next else Inl HConflict, Some m)))"

end
