(* ===== verification/Health_Counts.thy ===== *)
theory Health_Counts
  imports Service_Health
begin

text \<open>
  What the counters of \<open>Service_Health\<close> amount to: every accepted observation is counted once, wherever
  its bucket is (pending, persisted, or restored after a failed flush), and a window sums exactly
  the observations whose minute lies in it.
\<close>

subsection \<open>Counts of buckets\<close>

definition count_of :: "(bucketKey, bucketRecord) gomap \<Rightarrow> bucketKey \<Rightarrow> int" where
  "count_of m k = (case gm_get m k of None \<Rightarrow> 0 | Some b \<Rightarrow> bu_MatchedLogs b)"

definition start_of :: "bucketKey \<Rightarrow> time" where
  "start_of k = of_unix (snd (snd k))"

definition keyed :: "bucketRecord list \<Rightarrow> (bucketKey, bucketRecord) gomap" where
  "keyed bs = map (\<lambda>b. (bucket_key b, b)) bs"

text \<open>A bucket starts on a full second and its lists of identities can be read back.\<close>

definition bucket_ok :: "bucketRecord \<Rightarrow> bool" where
  "bucket_ok b \<longleftrightarrow> bucket_valid b \<and> of_unix (unix_of (bu_Start b)) = bu_Start b"

definition buckets_ok :: "(bucketKey, bucketRecord) gomap \<Rightarrow> bool" where
  "buckets_ok m \<longleftrightarrow> gm_ok m \<and> (\<forall>(k, b) \<in> set m. bucket_key b = k \<and> bucket_ok b)"

lemma buckets_ok_Nil [simp]: "buckets_ok []" by (simp add: buckets_ok_def)

lemma buckets_okD: "buckets_ok m \<Longrightarrow> gm_get m k = Some b \<Longrightarrow> bucket_key b = k \<and> bucket_ok b \<and> bu_Start b = start_of k"
  by (auto simp: buckets_ok_def bucket_ok_def start_of_def bucket_key_def dest!: map_of_SomeD)

lemma buckets_ok_set:
  assumes "buckets_ok m" "bucket_key b = k" "bucket_ok b"
  shows "buckets_ok (gm_set m k b)"
proof -
  have "gm_get (gm_set m k b) k' = Some b' \<Longrightarrow> bucket_key b' = k' \<and> bucket_ok b'" for k' b'
    using assms buckets_okD [OF assms(1)] by (auto simp: gm_simps split: if_splits)
  then show ?thesis using assms(1) by (auto simp: buckets_ok_def)
qed

lemma buckets_ok_filter: "buckets_ok m \<Longrightarrow> buckets_ok (gm_filter P m)"
  by (auto simp: buckets_ok_def gm_filter_def intro: distinct_map_filter)

lemma buckets_ok_del: "buckets_ok m \<Longrightarrow> buckets_ok (gm_del m k)"
  by (auto simp: buckets_ok_def AList.delete_eq intro: distinct_map_filter)

lemma count_of_set: "count_of (gm_set m k b) k' = (if k' = k then bu_MatchedLogs b else count_of m k')"
  by (simp add: count_of_def gm_simps)

lemma keyed_ok:
  assumes "buckets_ok m" "mset bs = mset (map snd m)"
  shows "buckets_ok (keyed bs)" "map_of (keyed bs) = map_of m"
proof -
  have "set bs = snd ` set m" using mset_eq_setD [OF assms(2)] by simp
  have eq: "map (\<lambda>b. (bucket_key b, b)) (map snd m) = m"
    using assms(1) by (induction m) (auto simp: buckets_ok_def)
  have perm: "mset (keyed bs) = mset m"
    using arg_cong [OF assms(2), of "image_mset (\<lambda>b. (bucket_key b, b))"] arg_cong [OF eq, of mset]
    by (simp add: keyed_def multiset.map_comp comp_def)
  then have "mset (map fst (keyed bs)) = mset (map fst m)" by (metis mset_map)
  then have d: "gm_ok (keyed bs)" using assms(1) by (metis buckets_ok_def mset_eq_imp_distinct_iff)
  have s: "set (keyed bs) = set m" using mset_eq_setD [OF perm] .
  show "buckets_ok (keyed bs)" using d s assms(1) by (simp add: buckets_ok_def)
  show "map_of (keyed bs) = map_of m"
    using d s assms(1) by (intro map_of_eqI) (auto simp: buckets_ok_def)
qed

subsection \<open>Bounded lists of identities\<close>

definition identities_ok :: "string list \<Rightarrow> bool" where
  "identities_ok ids \<longleftrightarrow> length ids \<le> MaxPatternIDsPerBucket \<and> list_all (\<lambda>i. length i = 32 \<and> hex_text i) ids"

lemma bucket_valid_iff:
  "bucket_valid b \<longleftrightarrow> identities_ok (bu_PatternIDs b) \<and> identities_ok (bu_NewPatternIDs b) \<and>
     identities_ok (bu_UnknownPatternIDs b) \<and> identities_ok (bu_SpikingPatternIDs b)"
  by (simp add: bucket_valid_def identity_lists_def identities_ok_def)

lemma identities_append:
  "identities_ok ids \<Longrightarrow> length i = 32 \<Longrightarrow> hex_text i \<Longrightarrow> identities_ok (fst (appendUniqueBounded ids i t))"
  by (auto simp: appendUniqueBounded_def identities_ok_def)

lemma identities_merge:
  "identities_ok ids \<Longrightarrow> identities_ok vs \<Longrightarrow> identities_ok (fst (mergeUniqueBounded ids vs t))"
proof (induction vs arbitrary: ids t)
  case (Cons v vs)
  obtain ids1 t1 where a: "appendUniqueBounded ids v t = (ids1, t1)" by fastforce
  have v: "length v = 32" "hex_text v" "identities_ok vs" using Cons.prems(2) by (auto simp: identities_ok_def)
  have "identities_ok ids1" using identities_append [OF Cons.prems(1) v(1,2), of t] by (simp add: a)
  then show ?case using Cons.IH [OF _ v(3)] by (simp add: mergeUniqueBounded_def a)
qed (simp add: mergeUniqueBounded_def)

lemma mergeBucket_simps [simp]:
  "bu_MatchedLogs (mergeBucket b d) = bu_MatchedLogs b + bu_MatchedLogs d"
  "bu_Start (mergeBucket b d) = bu_Start b" "bucket_key (mergeBucket b d) = bucket_key b"
  "bu_Service (mergeBucket b d) = bu_Service b" "bu_SourceID (mergeBucket b d) = bu_SourceID b"
  by (simp_all add: mergeBucket_def Let_def split_beta bucket_key_def)

lemma mergeBucket_ok: "bucket_ok b \<Longrightarrow> bucket_ok d \<Longrightarrow> bucket_ok (mergeBucket b d)"
  by (auto simp: bucket_ok_def bucket_valid_iff mergeBucket_def Let_def split_beta intro!: identities_merge)

lemma observe_log_simps [simp]:
  "bu_MatchedLogs (observe_log env ob b) = bu_MatchedLogs b + lh_Frequency ob"
  "bu_Start (observe_log env ob b) = bu_Start b" "bucket_key (observe_log env ob b) = bucket_key b"
  by (simp_all add: observe_log_def Let_def split_beta bucket_key_def)

definition sha_ok :: "health_env \<Rightarrow> bool" where
  "sha_ok env \<longleftrightarrow> (\<forall>s. length (he_sha env s) = 32 \<and> hex_text (he_sha env s))"

lemma observe_log_ok: "sha_ok env \<Longrightarrow> bucket_ok b \<Longrightarrow> bucket_ok (observe_log env ob b)"
  by (auto simp: bucket_ok_def bucket_valid_iff observe_log_def Let_def split_beta sha_ok_def intro!: identities_append)

lemma truncate_second: "of_unix (unix_of (truncate_bucket t)) = truncate_bucket t"
proof -
  have "truncate_bucket t = (t div minute) * minute"
    by (simp add: truncate_bucket_def BucketDuration_def minus_mod_eq_div_mult)
  also have "\<dots> = (t div minute * 60) * second" by (simp add: minute_def)
  finally obtain n where "truncate_bucket t = n * second" by blast
  then show ?thesis by (simp add: of_unix_def unix_of_def second_def)
qed

lemma empty_bucket_ok: "bucket_ok (empty_bucket service source (truncate_bucket t))"
  by (simp add: bucket_ok_def bucket_valid_def identity_lists_def empty_bucket_def truncate_second)

lemma empty_bucket_key: "bucket_key (empty_bucket (lh_Service ob) (lh_SourceID ob) (truncate_bucket (lh_ObservedAt ob))) = observation_key ob"
  by (simp add: bucket_key_def empty_bucket_def observation_key_def)

subsection \<open>Merging\<close>

definition key_set :: "(bucketKey, bucketRecord) gomap \<Rightarrow> bucketKey set" where
  "key_set m = dom (gm_get m)"

lemma key_set_simps [simp]: "key_set [] = {}" "key_set (gm_set m k b) = insert k (key_set m)"
  by (auto simp: key_set_def gm_simps)

lemma fold_retained_get:
  "distinct (map bucket_key bs) \<Longrightarrow>
   gm_get (fold (\<lambda>b byKey. if \<not> bu_Start b < c then gm_set byKey (bucket_key b) b else byKey) bs g) k =
     (case gm_get (keyed bs) k of None \<Rightarrow> gm_get g k | Some b \<Rightarrow> if bu_Start b < c then gm_get g k else Some b)"
proof (induction bs arbitrary: g)
  case (Cons b bs)
  have "bucket_key b = k \<Longrightarrow> gm_get (keyed bs) k = None"
    using Cons.prems by (auto simp: keyed_def map_of_eq_None_iff)
  with Cons show ?case by (auto simp: keyed_def gm_simps split: option.split)
qed (simp add: keyed_def)

lemma keyed_distinct: "buckets_ok (keyed bs) \<Longrightarrow> distinct (map bucket_key bs)"
  by (simp add: buckets_ok_def keyed_def comp_def)

lemma retained_ok:
  assumes "buckets_ok (keyed bs)"
  shows "buckets_ok (retained_buckets c bs)"
proof -
  have "buckets_ok g \<Longrightarrow> list_all bucket_ok bs \<Longrightarrow>
    buckets_ok (fold (\<lambda>b byKey. if \<not> bu_Start b < c then gm_set byKey (bucket_key b) b else byKey) bs g)" for g
    by (induction bs arbitrary: g) (simp_all add: buckets_ok_set)
  moreover have "list_all bucket_ok bs" using assms by (auto simp: buckets_ok_def keyed_def list_all_iff)
  ultimately show ?thesis by (simp add: retained_buckets_def)
qed

lemma retained_get:
  assumes "buckets_ok (keyed bs)"
  shows "gm_get (retained_buckets c bs) k =
    (case gm_get (keyed bs) k of None \<Rightarrow> None | Some b \<Rightarrow> if start_of k < c then None else Some b)"
  using fold_retained_get [OF keyed_distinct [OF assms], of c "[]" k] buckets_okD [OF assms]
  by (auto simp: retained_buckets_def split: option.splits)

lemma fold_pending_get:
  "gm_ok ps \<Longrightarrow> gm_get (fold (merge_pending_bucket c) ps g) k =
     (case gm_get ps k of None \<Rightarrow> gm_get g k
      | Some d \<Rightarrow> (case gm_get g k of Some b \<Rightarrow> Some (mergeBucket b d) | None \<Rightarrow> if bu_Start d < c then None else Some d))"
proof (induction ps arbitrary: g)
  case (Cons p ps)
  obtain key d where p: "p = (key, d)" by (cases p)
  have "key = k \<Longrightarrow> gm_get ps k = None" using Cons.prems by (auto simp: p map_of_eq_None_iff)
  with Cons show ?case by (auto simp: p merge_pending_bucket_def gm_simps split: option.split)
qed simp

lemma fold_pending_ok:
  "buckets_ok g \<Longrightarrow> \<forall>(k, d) \<in> set ps. bucket_key d = k \<and> bucket_ok d \<Longrightarrow> buckets_ok (fold (merge_pending_bucket c) ps g)"
proof (induction ps arbitrary: g)
  case (Cons p ps)
  obtain key d where p: "p = (key, d)" by (cases p)
  have d: "bucket_key d = key" "bucket_ok d" using Cons.prems(2) by (auto simp: p)
  have "gm_get g key = Some b \<Longrightarrow> bucket_key (mergeBucket b d) = key \<and> bucket_ok (mergeBucket b d)" for b
    using buckets_okD [OF Cons.prems(1)] mergeBucket_ok d(2) by simp
  then have "buckets_ok (merge_pending_bucket c p g)"
    using Cons.prems(1) d by (auto simp: p merge_pending_bucket_def intro!: buckets_ok_set split: option.split)
  with Cons show ?case by simp
qed simp

lemma merged_ok:
  assumes "buckets_ok (pe_buckets pending)" "buckets_ok (keyed bs)"
  shows "buckets_ok (merged_buckets c pending bs)"
  unfolding merged_buckets_def
  by (rule fold_pending_ok [OF retained_ok [OF assms(2)]]) (use assms(1) in \<open>auto simp: buckets_ok_def\<close>)

lemma merged_get:
  assumes "buckets_ok (pe_buckets pending)" "buckets_ok (keyed bs)"
  shows "gm_get (merged_buckets c pending bs) k =
    (if start_of k < c then None
     else case (gm_get (pe_buckets pending) k, gm_get (keyed bs) k) of
            (None, old) \<Rightarrow> old
          | (Some d, None) \<Rightarrow> Some d
          | (Some d, Some b) \<Rightarrow> Some (mergeBucket b d))"
proof -
  have d: "gm_get (pe_buckets pending) k = Some d \<Longrightarrow> bu_Start d = start_of k" for d
    using buckets_okD [OF assms(1)] by blast
  have "gm_ok (pe_buckets pending)" using assms(1) by (simp add: buckets_ok_def)
  from fold_pending_get [OF this, of c "retained_buckets c bs" k] show ?thesis
    unfolding merged_buckets_def retained_get [OF assms(2)]
    by (cases "gm_get (pe_buckets pending) k"; cases "gm_get (keyed bs) k"; simp add: d)
qed

lemma merged_count:
  assumes "buckets_ok (pe_buckets pending)" "buckets_ok (keyed bs)"
  shows "count_of (merged_buckets c pending bs) k =
    (if start_of k < c then 0 else count_of (pe_buckets pending) k + count_of (keyed bs) k)"
  unfolding count_of_def merged_get [OF assms]
  by (cases "gm_get (pe_buckets pending) k"; cases "gm_get (keyed bs) k"; simp)

lemma merged_keys:
  assumes "buckets_ok (pe_buckets pending)" "buckets_ok (keyed bs)"
  shows "key_set (merged_buckets c pending bs) \<subseteq> key_set (pe_buckets pending) \<union> key_set (keyed bs)"
proof
  fix k assume "k \<in> key_set (merged_buckets c pending bs)"
  then have "gm_get (merged_buckets c pending bs) k \<noteq> None" by (auto simp: key_set_def)
  then show "k \<in> key_set (pe_buckets pending) \<union> key_set (keyed bs)"
    unfolding merged_get [OF assms] key_set_def
    by (cases "gm_get (pe_buckets pending) k"; cases "gm_get (keyed bs) k"; auto split: if_splits)
qed

lemma length_key_set: "gm_ok m \<Longrightarrow> length m = card (key_set m)"
  by (simp add: key_set_def dom_map_of_conv_image_fst card_image distinct_map flip: distinct_card)

subsection \<open>The state after a flush\<close>

definition state_ok :: "persistedState \<Rightarrow> bool" where
  "state_ok st \<longleftrightarrow> buckets_ok (keyed (ps_Buckets st)) \<and> length (ps_Buckets st) \<le> MaxLogBuckets \<and>
     length (ps_Sources st) \<le> MaxStateSources"

lemma gm_length_set: "length (gm_set g k v) = (if gm_has g k then length g else Suc (length g))"
  by (induction g) auto

lemma fold_sources_bound:
  "length g \<le> MaxStateSources \<Longrightarrow> length (fold merge_pending_source ss g) \<le> MaxStateSources"
proof (induction ss arbitrary: g)
  case (Cons s ss)
  have "length (merge_pending_source s g) \<le> MaxStateSources"
    using Cons.prems by (cases s) (simp add: merge_pending_source_def gm_length_set)
  with Cons.IH show ?case by simp
qed simp

text \<open>Nothing is cut off as long as the keys fit.\<close>

lemma merge_state_spec:
  assumes "buckets_ok (pe_buckets pending)" "state_ok st"
    and "finite K" "card K \<le> MaxLogBuckets" "key_set (pe_buckets pending) \<union> key_set (keyed (ps_Buckets st)) \<subseteq> K"
  shows "state_ok (merge_state till pending st) \<and> key_set (keyed (ps_Buckets (merge_state till pending st))) \<subseteq> K \<and>
    count_of (keyed (ps_Buckets (merge_state till pending st))) k =
      (if start_of k < till - MaxLogRetention then 0
       else count_of (pe_buckets pending) k + count_of (keyed (ps_Buckets st)) k)"
proof -
  let ?m = "merged_buckets (till - MaxLogRetention) pending (ps_Buckets st)"
  let ?kept = "sort_key bu_Start (map snd ?m)"
  have st: "buckets_ok (keyed (ps_Buckets st))" "length (ps_Sources st) \<le> MaxStateSources"
    using assms(2) by (simp_all add: state_ok_def)
  have ok: "buckets_ok ?m" by (rule merged_ok [OF assms(1) st(1)])
  have sub: "key_set ?m \<subseteq> K" using merged_keys [OF assms(1) st(1)] assms(5) by blast
  have "length ?m = card (key_set ?m)" using ok by (intro length_key_set) (simp add: buckets_ok_def)
  also have "\<dots> \<le> card K" by (rule card_mono [OF assms(3) sub])
  finally have len: "length ?kept \<le> MaxLogBuckets" using assms(4) by simp
  then have bs: "ps_Buckets (merge_state till pending st) = ?kept" by (simp add: merge_state_def Let_def)
  have perm: "mset ?kept = mset (map snd ?m)" by simp
  note keyed = keyed_ok [OF ok perm]
  have "length (ps_Sources (merge_state till pending st)) \<le> MaxStateSources"
    using fold_sources_bound [OF st(2)] by (simp add: merge_state_def Let_def)
  moreover have "key_set (keyed ?kept) = key_set ?m" by (simp add: key_set_def keyed(2))
  moreover have "count_of (keyed ?kept) k = count_of ?m k" by (simp add: count_of_def keyed(2))
  ultimately show ?thesis
    using merged_count [OF assms(1) st(1)] len keyed(1) sub by (simp add: state_ok_def bs)
qed

subsection \<open>Recording and restoring\<close>

definition pending_buckets :: "string \<Rightarrow> pending_map \<Rightarrow> (bucketKey, bucketRecord) gomap" where
  "pending_buckets orgID p = pe_buckets (pendingFor orgID p)"

lemma pendingFor_set [simp]: "pendingFor i (gm_set p i st) = st"
  by (simp add: pendingFor_def gm_simps)

lemma prune_ok: "buckets_ok (pe_buckets st) \<Longrightarrow> buckets_ok (pe_buckets (prunePending c st))"
  by (simp add: prunePending_def buckets_ok_filter)

lemma prune_get:
  assumes "buckets_ok (pe_buckets st)"
  shows "gm_get (pe_buckets (prunePending c st)) k =
    (if start_of k < c then None else gm_get (pe_buckets st) k)"
proof -
  have "gm_ok (pe_buckets st)" using assms by (simp add: buckets_ok_def)
  then show ?thesis
    using buckets_okD [OF assms, of k] by (auto simp: prunePending_def gm_get_filter split: option.split)
qed

lemma RecordLogHealth_counts:
  assumes "sha_ok env" "buckets_ok (pending_buckets org p)" "NormalizeOrgID (lh_OrgID ob) = org" "\<not> ignored ob"
    and "RecordLogHealth env ob p = (res, p')"
  shows "buckets_ok (pending_buckets org p') \<and>
    key_set (pending_buckets org p') \<subseteq> insert (observation_key ob) (key_set (pending_buckets org p)) \<and>
    (\<not> start_of k < lh_ObservedAt ob - MaxLogRetention \<longrightarrow>
       count_of (pending_buckets org p') k =
         count_of (pending_buckets org p) k + (if res = None \<and> k = observation_key ob then lh_Frequency ob else 0))"
proof -
  let ?st = "pendingFor org p" and ?key = "observation_key ob"
  have ok: "buckets_ok (pe_buckets ?st)" using assms(2) by (simp add: pending_buckets_def)
  show ?thesis
  proof (cases "gm_get (pe_buckets ?st) ?key")
    case (Some b)
    have b: "bucket_key b = ?key" "bucket_ok b" using buckets_okD [OF ok Some] by simp_all
    have "res = None" "p' = gm_set p org (?st\<lparr>pe_buckets := gm_set (pe_buckets ?st) ?key (observe_log env ob b)\<rparr>)"
      using assms(3-5) Some by (auto simp: RecordLogHealth_def Let_def)
    then show ?thesis
      using b observe_log_ok [OF assms(1) b(2)] ok Some
      by (auto simp: pending_buckets_def count_of_set intro!: buckets_ok_set) (simp add: count_of_def)
  next
    case None
    define st1 where "st1 = prunePending (lh_ObservedAt ob - MaxLogRetention) ?st"
    have ok1: "buckets_ok (pe_buckets st1)" using prune_ok [OF ok] by (simp add: st1_def)
    have get1: "gm_get (pe_buckets st1) k = (if start_of k < lh_ObservedAt ob - MaxLogRetention then None
        else gm_get (pe_buckets ?st) k)" for k
      using prune_get [OF ok] by (simp add: st1_def)
    have sub: "key_set (pe_buckets st1) \<subseteq> key_set (pe_buckets ?st)"
      using get1 by (auto simp: key_set_def split: if_splits)
    show ?thesis
    proof (cases "length (pe_buckets st1) \<ge> MaxLogBuckets")
      case True
      then have "res \<noteq> None" "p' = gm_set p org st1"
        using assms(3-5) None by (auto simp: RecordLogHealth_def Let_def st1_def)
      then show ?thesis using ok1 sub get1 by (auto simp: pending_buckets_def count_of_def)
    next
      case False
      let ?b = "observe_log env ob (empty_bucket (lh_Service ob) (lh_SourceID ob) (truncate_bucket (lh_ObservedAt ob)))"
      have p': "res = None" "p' = gm_set p org (st1\<lparr>pe_buckets := gm_set (pe_buckets st1) ?key ?b\<rparr>)"
        using assms(3-5) None False by (auto simp: RecordLogHealth_def Let_def st1_def)
      have b: "bucket_key ?b = ?key" "bucket_ok ?b" "bu_MatchedLogs ?b = lh_Frequency ob"
        using observe_log_ok [OF assms(1) empty_bucket_ok] by (simp_all add: empty_bucket_key) (simp add: empty_bucket_def)
      have "count_of (pe_buckets ?st) ?key = 0" using None by (simp add: count_of_def)
      moreover have "\<not> start_of k < lh_ObservedAt ob - MaxLogRetention \<Longrightarrow> count_of (pe_buckets st1) k = count_of (pe_buckets ?st) k"
        using get1 [of k] by (simp add: count_of_def)
      ultimately show ?thesis
        using p' sub b(3) buckets_ok_set [OF ok1 b(1,2)] by (auto simp: pending_buckets_def count_of_set)
    qed
  qed
qed

lemma RecordLogHealth_other:
  assumes "NormalizeOrgID (lh_OrgID ob) \<noteq> org"
  shows "pending_buckets org (snd (RecordLogHealth env ob p)) = pending_buckets org p"
  using assms by (auto simp: RecordLogHealth_def Let_def pending_buckets_def pendingFor_def gm_simps split: option.split)

lemma RecordSourceHealth_buckets [simp]:
  "pending_buckets org (snd (RecordSourceHealth ob p)) = pending_buckets org p"
  by (auto simp: RecordSourceHealth_def Let_def pending_buckets_def pendingFor_def gm_simps split: option.split)

lemma fold_restore_get:
  "gm_ok ps \<Longrightarrow> gm_get (pe_buckets (fold restore_bucket ps st)) k =
     (case gm_get ps k of None \<Rightarrow> gm_get (pe_buckets st) k
      | Some d \<Rightarrow> Some (case gm_get (pe_buckets st) k of None \<Rightarrow> d | Some b \<Rightarrow> mergeBucket b d))"
proof (induction ps arbitrary: st)
  case (Cons p ps)
  obtain key d where p: "p = (key, d)" by (cases p)
  have "key = k \<Longrightarrow> gm_get ps k = None" using Cons.prems by (auto simp: p map_of_eq_None_iff)
  with Cons show ?case by (auto simp: p restore_bucket_def gm_simps split: option.split)
qed simp

lemma fold_restore_ok:
  "buckets_ok (pe_buckets st) \<Longrightarrow> \<forall>(k, d) \<in> set ps. bucket_key d = k \<and> bucket_ok d \<Longrightarrow>
   buckets_ok (pe_buckets (fold restore_bucket ps st))"
proof (induction ps arbitrary: st)
  case (Cons p ps)
  obtain key d where p: "p = (key, d)" by (cases p)
  have d: "bucket_key d = key" "bucket_ok d" using Cons.prems(2) by (auto simp: p)
  have "gm_get (pe_buckets st) key = Some b \<Longrightarrow> bucket_key (mergeBucket b d) = key \<and> bucket_ok (mergeBucket b d)" for b
    using buckets_okD [OF Cons.prems(1)] mergeBucket_ok d(2) by simp
  then have "buckets_ok (pe_buckets (restore_bucket p st))"
    using Cons.prems(1) d by (auto simp: p restore_bucket_def intro!: buckets_ok_set split: option.split)
  with Cons show ?case by simp
qed simp

lemma fold_restore_source [simp]: "pe_buckets (fold restore_source ss st) = pe_buckets st"
  by (induction ss arbitrary: st) (auto simp: restore_source_def split: prod.split)

lemma restorePending_counts:
  assumes "buckets_ok (pe_buckets pending)" "buckets_ok (pending_buckets org p)"
  shows "buckets_ok (pending_buckets org (restorePending org pending p)) \<and>
    key_set (pending_buckets org (restorePending org pending p)) = key_set (pe_buckets pending) \<union> key_set (pending_buckets org p) \<and>
    count_of (pending_buckets org (restorePending org pending p)) k =
      count_of (pending_buckets org p) k + count_of (pe_buckets pending) k"
proof -
  have g: "gm_ok (pe_buckets pending)" using assms(1) by (simp add: buckets_ok_def)
  have r: "pending_buckets org (restorePending org pending p) = pe_buckets (fold restore_bucket (pe_buckets pending) (pendingFor org p))"
    by (simp add: restorePending_def pending_buckets_def)
  have "buckets_ok (pending_buckets org (restorePending org pending p))"
    unfolding r using assms by (intro fold_restore_ok) (auto simp: pending_buckets_def buckets_ok_def)
  moreover have "key_set (pending_buckets org (restorePending org pending p)) = key_set (pe_buckets pending) \<union> key_set (pending_buckets org p)"
    unfolding r unfolding key_set_def pending_buckets_def
    by (rule set_eqI) (simp add: domIff fold_restore_get [OF g] split: option.split)
  moreover have "count_of (pending_buckets org (restorePending org pending p)) k =
      count_of (pending_buckets org p) k + count_of (pe_buckets pending) k"
    unfolding r unfolding count_of_def fold_restore_get [OF g] pending_buckets_def by (auto split: option.split)
  ultimately show ?thesis by blast
qed

subsection \<open>One flush among other processes\<close>

text \<open>What an encoder writes, the decoder reads back.\<close>

definition codec_ok :: "health_env \<Rightarrow> bool" where
  "codec_ok env \<longleftrightarrow> (\<forall>st data. he_encState env st = Some data \<longrightarrow> data \<noteq> [] \<and> he_decState env data = Some st)"

text \<open>The store can be read, and the buckets of an organisation have keys in \<open>K\<close>.\<close>

definition readable :: "health_env \<Rightarrow> string \<Rightarrow> bucketKey set \<Rightarrow> memoryProvider \<Rightarrow> bool" where
  "readable env key K m \<longleftrightarrow> blobs_ok m \<and>
     (\<exists>st. read_state env (ReadBlob m key) = Inr st \<and> state_ok st \<and> key_set (keyed (ps_Buckets st)) \<subseteq> K)"

definition persisted :: "health_env \<Rightarrow> string \<Rightarrow> memoryProvider \<Rightarrow> bucketKey \<Rightarrow> int" where
  "persisted env key m k =
     (case read_state env (ReadBlob m key) of Inl e \<Rightarrow> 0 | Inr st \<Rightarrow> count_of (keyed (ps_Buckets st)) k)"

lemma state_ok_valid: "state_ok st \<Longrightarrow> list_all bucket_valid (ps_Buckets st)"
  by (auto simp: state_ok_def buckets_ok_def keyed_def bucket_ok_def list_all_iff)

lemma read_written:
  assumes "codec_ok env" "he_encState env st = Some data" "length data \<le> MaxStateBytes" "state_ok st"
  shows "read_state env (Some data) = Inr st"
  using assms state_ok_valid [OF assms(4)]
  by (auto simp: codec_ok_def read_state_def decodeState_def state_ok_def)

lemma flush_attempts_counts:
  assumes "codec_ok env" "buckets_ok (pe_buckets pending)" "finite K" "card K \<le> MaxLogBuckets"
    and "key_set (pe_buckets pending) \<subseteq> K" "\<And>i m. readable env key K m \<Longrightarrow> readable env key K (he_others env i m)"
    and "readable env key K m" "flush_attempts env key till pending n m = (res, m')"
  shows "readable env key K m' \<and> (\<exists>is. case res of
       Inl e \<Rightarrow> m' = fold (he_others env) is m
     | Inr u \<Rightarrow> \<forall>k. persisted env key m' k = (if start_of k < till - MaxLogRetention then 0
         else persisted env key (fold (he_others env) is m) k + count_of (pe_buckets pending) k))"
  using assms(7,8)
proof (induction n arbitrary: m)
  case 0
  then show ?case by (auto intro: exI [of _ "[]"])
next
  case (Suc n)
  obtain st where st: "read_state env (ReadBlob m key) = Inr st" "state_ok st" "key_set (keyed (ps_Buckets st)) \<subseteq> K" "blobs_ok m"
    using Suc.prems(1) by (auto simp: readable_def)
  have unchanged: ?case if "res = Inl e" "m' = m" for e
    using that Suc.prems(1) by (auto intro: exI [of _ "[]"])
  let ?merged = "merge_state till pending st"
  let ?m1 = "he_others env (7 - n) m"
  have merged: "state_ok ?merged" "key_set (keyed (ps_Buckets ?merged)) \<subseteq> K"
    "count_of (keyed (ps_Buckets ?merged)) k = (if start_of k < till - MaxLogRetention then 0
       else count_of (pe_buckets pending) k + count_of (keyed (ps_Buckets st)) k)" for k
    using merge_state_spec [OF assms(2) st(2) assms(3,4)] assms(5) st(3) by auto
  have m1: "readable env key K ?m1" using assms(6) [OF Suc.prems(1)] .
  then have ok1: "blobs_ok ?m1" by (simp add: readable_def)
  show ?case
  proof (cases "he_readErr env (7 - n)")
    case (Some e)
    then show ?thesis using Suc.prems(2) unchanged by auto
  next
    case None
    note read = None
    show ?thesis
    proof (cases "he_encState env ?merged")
      case None
      then show ?thesis using Suc.prems(2) unchanged read st(1) by (auto simp: Let_def)
    next
      case (Some data)
      note enc = Some
      show ?thesis
      proof (cases "length data > MaxStateBytes")
        case True
        then show ?thesis using Suc.prems(2) unchanged read st(1) enc by (auto simp: Let_def)
      next
        case False
        note size = False
        show ?thesis
        proof (cases "he_swapErr env (7 - n)")
          case (Some e)
          then have "res = Inl (HSwap e)" "m' = ?m1"
            using Suc.prems(2) read st(1) enc size by (auto simp: Let_def)
          then show ?thesis using m1 by (auto intro: exI [of _ "[7 - n]"])
        next
          case None
          obtain swapped m2 where cas: "CompareAndSwapBlob (he_now env) key (ReadBlob m key) (Some data) ?m1 = (swapped, m2)"
            by (meson surj_pair)
          have run: "(if swapped then (Inr (), m2) else flush_attempts env key till pending n m2) = (res, m')"
            using Suc.prems(2) read st(1) enc size None cas by (simp add: Let_def)
          show ?thesis
          proof (cases swapped)
            case False
            have "m2 = ?m1" using mem_cas.cas_lost [OF ok1, of "he_now env" key "ReadBlob m key" "Some data"] cas False by simp
            then have "readable env key K m' \<and> (\<exists>is. case res of
               Inl e \<Rightarrow> m' = fold (he_others env) is ?m1
             | Inr u \<Rightarrow> \<forall>k. persisted env key m' k = (if start_of k < till - MaxLogRetention then 0
                 else persisted env key (fold (he_others env) is ?m1) k + count_of (pe_buckets pending) k))"
              using Suc.IH [OF m1] run False by simp
            then obtain "is" where i: "readable env key K m'" "case res of
               Inl e \<Rightarrow> m' = fold (he_others env) is ?m1
             | Inr u \<Rightarrow> \<forall>k. persisted env key m' k = (if start_of k < till - MaxLogRetention then 0
                 else persisted env key (fold (he_others env) is ?m1) k + count_of (pe_buckets pending) k)" by blast
            have "fold (he_others env) is ?m1 = fold (he_others env) ((7 - n) # is) m" by simp
            from i(2) [unfolded this] show ?thesis using i(1) by blast
          next
            case True
            have won: "fst (CompareAndSwapBlob (he_now env) key (ReadBlob m key) (Some data) ?m1)" using cas True by simp
            have now: "ReadBlob ?m1 key = ReadBlob m key" using mem_cas.cas_won [OF ok1] won by blast
            have new: "ReadBlob m2 key = Some data" using mem_cas.read_cas [OF ok1 won, of key] cas by simp
            have ok2: "blobs_ok m2" using mem_cas.cas_invar [OF ok1, of "he_now env" key "ReadBlob m key" "Some data"] cas by simp
            have r: "read_state env (Some data) = Inr ?merged" using read_written [OF assms(1) enc _ merged(1)] size by simp
            have "readable env key K m2" using ok2 r merged(1,2) by (auto simp: readable_def new)
            moreover have "persisted env key m2 k = (if start_of k < till - MaxLogRetention then 0
                else persisted env key ?m1 k + count_of (pe_buckets pending) k)" for k
              using merged(3) [of k] st(1) by (simp add: persisted_def new r now)
            ultimately show ?thesis using run True by (auto intro: exI [of _ "[7 - n]"])
          qed
        qed
      qed
    qed
  qed
qed

lemma pending_buckets_del: "pending_buckets i (gm_del p i) = []"
  by (simp add: pending_buckets_def pendingFor_def gm_simps)

lemma flushPending_counts:
  assumes "codec_ok env" "finite K" "card K \<le> MaxLogBuckets" "org = NormalizeOrgID orgID" "key = stateKey env org"
    and "buckets_ok (pending_buckets org p)" "key_set (pending_buckets org p) \<subseteq> K"
    and "\<And>i m. readable env key K m \<Longrightarrow> readable env key K (he_others env i m)"
    and "readable env key K m" "flushPending env orgID till p (Some m) = (res, p', st)"
  shows "\<exists>m' is. st = Some m' \<and> readable env key K m' \<and> buckets_ok (pending_buckets org p') \<and>
     key_set (pending_buckets org p') \<subseteq> K \<and>
     (if res = None
      then pending_buckets org p' = [] \<and> (\<forall>k. \<not> start_of k < till - MaxLogRetention \<longrightarrow>
         persisted env key m' k = persisted env key (fold (he_others env) is m) k + count_of (pending_buckets org p) k)
      else m' = fold (he_others env) is m \<and> (\<forall>k. count_of (pending_buckets org p') k = count_of (pending_buckets org p) k))"
proof (cases "gm_get p org")
  case None
  then have "pending_buckets org p = []" by (simp add: pending_buckets_def pendingFor_def)
  moreover have "res = None" "p' = p" "st = Some m" using assms(4,10) None by (simp_all add: flushPending_def Let_def)
  ultimately show ?thesis using assms(9) by (auto simp: key_set_def count_of_def intro: exI [of _ "[]"])
next
  case (Some pending)
  have pend: "pending_buckets org p = pe_buckets pending" by (simp add: pending_buckets_def pendingFor_def Some)
  show ?thesis
  proof (cases "pe_buckets pending = [] \<and> pe_sources pending = []")
    case True
    then have "res = None" "p' = gm_del p org" "st = Some m"
      using assms(4,10) Some by (simp_all add: flushPending_def Let_def)
    then show ?thesis using assms(9) True by (auto simp: pend pending_buckets_del count_of_def intro: exI [of _ "[]"])
  next
    case False
    obtain r m' where run: "flush_attempts env key till pending 8 m = (r, m')" by (meson surj_pair)
    have ok: "buckets_ok (pe_buckets pending)" "key_set (pe_buckets pending) \<subseteq> K" using assms(6,7) by (simp_all add: pend)
    from flush_attempts_counts [OF assms(1) ok(1) assms(2,3) ok(2) assms(8,9) run]
    obtain "is" where f: "readable env key K m'" "case r of
       Inl e \<Rightarrow> m' = fold (he_others env) is m
     | Inr u \<Rightarrow> \<forall>k. persisted env key m' k = (if start_of k < till - MaxLogRetention then 0
         else persisted env key (fold (he_others env) is m) k + count_of (pe_buckets pending) k)" by blast
    have out: "(res, p', st) = (case r of Inr u \<Rightarrow> (None, gm_del p org, Some m')
        | Inl err \<Rightarrow> (Some err, restorePending org pending (gm_del p org), Some m'))"
      using assms(4,5,10) Some False run by (auto simp: flushPending_def Let_def)
    show ?thesis
    proof (cases r)
      case (Inr u)
      then have "\<not> start_of k < till - MaxLogRetention \<Longrightarrow> persisted env key m' k =
          persisted env key (fold (he_others env) is m) k + count_of (pe_buckets pending) k" for k
        using f(2) by (simp del: split_paired_All)
      then show ?thesis using Inr out f(1) by (auto simp: pend pending_buckets_del intro!: exI [of _ "is"])
    next
      case (Inl e)
      have "buckets_ok (pending_buckets org (gm_del p org))" by (simp add: pending_buckets_del)
      from restorePending_counts [OF ok(1) this] show ?thesis
        using Inl out f ok(2) by (auto simp: pend pending_buckets_del count_of_def intro!: exI [of _ "is"])
    qed
  qed
qed

subsection \<open>Runs\<close>

datatype health_op = HObserve LogHealthObservation | HSource SourceHealthObservation | HFlush time

text \<open>The observations that were accepted, beside the state at the end.\<close>

fun health_run ::
  "health_env \<Rightarrow> string \<Rightarrow> health_op list \<Rightarrow> pending_map \<Rightarrow> memoryProvider option \<Rightarrow>
   LogHealthObservation list \<times> pending_map \<times> memoryProvider option" where
  "health_run env orgID [] p st = ([], p, st)"
| "health_run env orgID (HObserve ob # ops) p st =
     (let (err, p) = RecordLogHealth env ob p; (acc, rest) = health_run env orgID ops p st
      in (if err = None \<and> \<not> ignored ob then ob # acc else acc, rest))"
| "health_run env orgID (HSource ob # ops) p st = health_run env orgID ops (snd (RecordSourceHealth ob p)) st"
| "health_run env orgID (HFlush till # ops) p st =
     (let (err, p, st) = flushPending env orgID till p st in health_run env orgID ops p st)"

text \<open>Which part of the observations an organisation's key counts.\<close>

definition recorded :: "string \<Rightarrow> (bucketKey \<Rightarrow> bool) \<Rightarrow> LogHealthObservation list \<Rightarrow> int" where
  "recorded org P obs =
     sum_list (map lh_Frequency (filter (\<lambda>ob. NormalizeOrgID (lh_OrgID ob) = org \<and> P (observation_key ob)) obs))"

lemma recorded_simps [simp]:
  "recorded org P [] = 0"
  "recorded org P (ob # obs) =
     (if NormalizeOrgID (lh_OrgID ob) = org \<and> P (observation_key ob) then lh_Frequency ob else 0) + recorded org P obs"
  by (simp_all add: recorded_def)

text \<open>No operation is later than \<open>T\<close>, and the keys of the organisation lie in \<open>K\<close>.\<close>

fun op_within :: "string \<Rightarrow> time \<Rightarrow> bucketKey set \<Rightarrow> health_op \<Rightarrow> bool" where
  "op_within org T K (HObserve ob) \<longleftrightarrow> lh_ObservedAt ob \<le> T \<and> (NormalizeOrgID (lh_OrgID ob) = org \<longrightarrow> observation_key ob \<in> K)"
| "op_within org T K (HSource ob) \<longleftrightarrow> True"
| "op_within org T K (HFlush till) \<longleftrightarrow> till \<le> T"

definition health_inv :: "health_env \<Rightarrow> string \<Rightarrow> bucketKey set \<Rightarrow> pending_map \<Rightarrow> memoryProvider \<Rightarrow> bool" where
  "health_inv env org K p m \<longleftrightarrow> buckets_ok (pending_buckets org p) \<and> key_set (pending_buckets org p) \<subseteq> K \<and>
     readable env (stateKey env org) K m"

definition counted :: "health_env \<Rightarrow> string \<Rightarrow> pending_map \<Rightarrow> memoryProvider \<Rightarrow> bucketKey \<Rightarrow> int" where
  "counted env org p m k = persisted env (stateKey env org) m k + count_of (pending_buckets org p) k"

definition alone :: "health_env \<Rightarrow> bool" where
  "alone env \<longleftrightarrow> (\<forall>i m. he_others env i m = m)"

lemma alone_fold: "alone env \<Longrightarrow> fold (he_others env) is m = m"
  by (induction "is" arbitrary: m) (simp_all add: alone_def)

lemma flush_alone:
  assumes "codec_ok env" "alone env" "finite K" "card K \<le> MaxLogBuckets" "org = NormalizeOrgID orgID"
    and "health_inv env org K p m" "flushPending env orgID till p (Some m) = (err, p', st)"
  shows "\<exists>m'. st = Some m' \<and> health_inv env org K p' m' \<and> (err = None \<longrightarrow> pending_buckets org p' = []) \<and>
    (\<forall>k. \<not> start_of k < till - MaxLogRetention \<longrightarrow> counted env org p' m' k = counted env org p m k)"
proof -
  have "readable env (stateKey env org) K m1 \<Longrightarrow> readable env (stateKey env org) K (he_others env i m1)" for i m1
    using assms(2) by (simp add: alone_def)
  from flushPending_counts [OF assms(1,3,4,5) refl _ _ this _ assms(7)] assms(6)
  obtain m' "is" where f: "st = Some m'" "readable env (stateKey env org) K m'" "buckets_ok (pending_buckets org p')"
      "key_set (pending_buckets org p') \<subseteq> K"
      "if err = None
       then pending_buckets org p' = [] \<and> (\<forall>k. \<not> start_of k < till - MaxLogRetention \<longrightarrow>
         persisted env (stateKey env org) m' k =
           persisted env (stateKey env org) (fold (he_others env) is m) k + count_of (pending_buckets org p) k)
       else m' = fold (he_others env) is m \<and> (\<forall>k. count_of (pending_buckets org p') k = count_of (pending_buckets org p) k)"
    unfolding health_inv_def by blast
  have "\<not> start_of k < till - MaxLogRetention \<Longrightarrow> counted env org p' m' k = counted env org p m k" for k
    using f(5) by (cases "err = None") (simp_all add: counted_def alone_fold [OF assms(2)] count_of_def del: split_paired_All)
  then show ?thesis using f by (auto simp: health_inv_def)
qed

lemma run_counts:
  assumes "codec_ok env" "sha_ok env" "alone env" "finite K" "card K \<le> MaxLogBuckets" "org = NormalizeOrgID orgID"
    and "list_all (op_within org T K) ops" "health_inv env org K p m"
    and "health_run env orgID ops p (Some m) = (acc, p', st)"
  shows "\<exists>m'. st = Some m' \<and> health_inv env org K p' m' \<and> (\<forall>ob \<in> set acc. \<not> ignored ob) \<and>
    (\<forall>ob \<in> set acc. NormalizeOrgID (lh_OrgID ob) = org \<longrightarrow> observation_key ob \<in> K) \<and>
    (\<forall>k. \<not> start_of k < T - MaxLogRetention \<longrightarrow>
       counted env org p' m' k = counted env org p m k + recorded org (\<lambda>k'. k' = k) acc)"
  using assms(7-9)
proof (induction ops arbitrary: p m acc)
  case Nil
  then show ?case by auto
next
  case (Cons op ops)
  show ?case
  proof (cases op)
    case (HFlush till)
    obtain err p1 st1 where fl: "flushPending env orgID till p (Some m) = (err, p1, st1)" by (metis prod_cases3)
    from flush_alone [OF assms(1,3,4,5,6) Cons.prems(2) fl]
    obtain m1 where m1: "st1 = Some m1" "health_inv env org K p1 m1"
      "\<And>k. \<not> start_of k < till - MaxLogRetention \<Longrightarrow> counted env org p1 m1 k = counted env org p m k" by blast
    have "health_run env orgID ops p1 (Some m1) = (acc, p', st)" using Cons.prems(3) HFlush fl m1(1) by simp
    from Cons.IH [OF _ m1(2) this] Cons.prems(1) HFlush m1(3) show ?thesis by (auto simp del: split_paired_All split_paired_Ex)
  next
    case (HSource ob)
    have "health_run env orgID ops (snd (RecordSourceHealth ob p)) (Some m) = (acc, p', st)" using Cons.prems(3) HSource by simp
    moreover have "health_inv env org K (snd (RecordSourceHealth ob p)) m" using Cons.prems(2) by (simp add: health_inv_def)
    moreover have "counted env org (snd (RecordSourceHealth ob p)) m k = counted env org p m k" for k by (simp add: counted_def)
    ultimately show ?thesis using Cons.IH [of "snd (RecordSourceHealth ob p)" m acc] Cons.prems(1) by simp
  next
    case (HObserve ob)
    obtain err p1 where rec: "RecordLogHealth env ob p = (err, p1)" by fastforce
    obtain acc1 where acc1: "health_run env orgID ops p1 (Some m) = (acc1, p', st)"
      "acc = (if err = None \<and> \<not> ignored ob then ob # acc1 else acc1)"
      using Cons.prems(3) HObserve rec by (auto split: prod.splits)
    have within: "lh_ObservedAt ob \<le> T" "NormalizeOrgID (lh_OrgID ob) = org \<Longrightarrow> observation_key ob \<in> K" "list_all (op_within org T K) ops"
      using Cons.prems(1) HObserve by auto
    have step: "health_inv env org K p1 m \<and> (\<not> start_of k < T - MaxLogRetention \<longrightarrow> counted env org p1 m k = counted env org p m k +
        (if err = None \<and> \<not> ignored ob \<and> NormalizeOrgID (lh_OrgID ob) = org \<and> observation_key ob = k then lh_Frequency ob else 0))" for k
    proof (cases "\<not> ignored ob \<and> NormalizeOrgID (lh_OrgID ob) = org")
      case True
      with RecordLogHealth_counts [OF assms(2) _ _ _ rec, of org k] Cons.prems(2) within show ?thesis
        by (auto simp: health_inv_def counted_def)
    next
      case False
      have "pending_buckets org p1 = pending_buckets org p"
        using False RecordLogHealth_other [of ob org env p] rec by (cases "ignored ob") (auto simp: RecordLogHealth_def)
      then show ?thesis using False Cons.prems(2) by (auto simp: health_inv_def counted_def)
    qed
    from Cons.IH [OF within(3) _ acc1(1)] step within(2) show ?thesis
      by (auto simp: acc1(2) simp del: split_paired_All split_paired_Ex)
  qed
qed

subsection \<open>Windows\<close>

definition matched :: "string \<Rightarrow> string \<Rightarrow> WindowAggregate list \<Rightarrow> int" where
  "matched service source rows =
     sum_list (map wa_MatchedLogs (filter (\<lambda>r. wa_Service r = service \<and> wa_SourceID r = source) rows))"

lemma matched_simps [simp]:
  "matched service source [] = 0"
  "matched service source (r # rows) =
     (if wa_Service r = service \<and> wa_SourceID r = source then wa_MatchedLogs r else 0) + matched service source rows"
  by (simp_all add: matched_def)

lemma matched_sort [simp]: "matched service source (sort_key f rows) = matched service source rows"
proof -
  have "sum_list xs = sum_mset (mset xs)" for xs :: "int list" by (simp add: sum_mset_sum_list)
  then show ?thesis by (simp add: matched_def mset_filter)
qed

abbreviation no_nul :: "string \<Rightarrow> bool" where
  "no_nul s \<equiv> CHR 0x00 \<notin> set s"

lemma nul_key:
  assumes "no_nul s" "no_nul s'"
  shows "s @ nul @ r = s' @ nul @ r' \<longleftrightarrow> s = s' \<and> r = r'"
proof
  assume eq: "s @ nul @ r = s' @ nul @ r'"
  have "takeWhile (\<lambda>c. c \<noteq> CHR 0x00) (s @ nul @ r) = s" "takeWhile (\<lambda>c. c \<noteq> CHR 0x00) (s' @ nul @ r') = s'"
    using assms by (auto simp: nul_def takeWhile_append)
  with eq show "s = s' \<and> r = r'" by (metis append_same_eq same_append_eq)
qed simp

definition rows_inv :: "(string, aggregateState) gomap \<Rightarrow> bool" where
  "rows_inv g \<longleftrightarrow> gm_ok g \<and> (\<forall>(k, a) \<in> set g. no_nul (wa_Service (ag_row a)) \<and>
     k = wa_Service (ag_row a) @ nul @ wa_SourceID (ag_row a))"

definition row_count :: "(string, aggregateState) gomap \<Rightarrow> string \<Rightarrow> string \<Rightarrow> int" where
  "row_count g service source =
     (case gm_get g (service @ nul @ source) of None \<Rightarrow> 0 | Some a \<Rightarrow> wa_MatchedLogs (ag_row a))"

lemma aggregate_bucket_simps [simp]:
  "wa_Service (ag_row (aggregate_bucket b a)) = wa_Service (ag_row a)"
  "wa_SourceID (ag_row (aggregate_bucket b a)) = wa_SourceID (ag_row a)"
  "wa_MatchedLogs (ag_row (aggregate_bucket b a)) = wa_MatchedLogs (ag_row a) + bu_MatchedLogs b"
  by (simp_all add: aggregate_bucket_def Let_def split_beta)

lemma finish_row_simps [simp]:
  "wa_Service (finish_row a) = wa_Service (ag_row a)" "wa_SourceID (finish_row a) = wa_SourceID (ag_row a)"
  "wa_MatchedLogs (finish_row a) = wa_MatchedLogs (ag_row a)"
  by (simp_all add: finish_row_def)

lemma aggregate_step_counts:
  assumes "rows_inv g" "no_nul (bu_Service b)" "no_nul service"
  shows "rows_inv (aggregate_step start till b g) \<and>
    row_count (aggregate_step start till b g) service source = row_count g service source +
      (if bu_Service b = service \<and> bu_SourceID b = source \<and> start \<le> bu_Start b \<and> bu_Start b < till then bu_MatchedLogs b else 0)"
proof (cases "bu_Start b < start \<or> \<not> bu_Start b < till")
  case True
  then show ?thesis using assms(1) by (auto simp: aggregate_step_def)
next
  case False
  let ?key = "bu_Service b @ nul @ bu_SourceID b"
  define a where "a = (case gm_get g ?key of Some a \<Rightarrow> a
     | None \<Rightarrow> \<lparr>ag_row = empty_row (bu_Service b) (bu_SourceID b), ag_patterns = [], ag_fresh = [], ag_unknown = [], ag_spikes = []\<rparr>)"
  have step: "aggregate_step start till b g = gm_set g ?key (aggregate_bucket b a)"
    using False by (simp add: aggregate_step_def a_def Let_def)
  have row: "wa_Service (ag_row a) = bu_Service b \<and> wa_SourceID (ag_row a) = bu_SourceID b \<and>
      wa_MatchedLogs (ag_row a) = row_count g (bu_Service b) (bu_SourceID b)"
  proof (cases "gm_get g ?key")
    case None
    then show ?thesis by (simp add: a_def empty_row_def row_count_def)
  next
    case (Some a')
    then have "(?key, a') \<in> set g" by (rule map_of_SomeD)
    then have k: "no_nul (wa_Service (ag_row a'))" "?key = wa_Service (ag_row a') @ nul @ wa_SourceID (ag_row a')"
      using assms(1) unfolding rows_inv_def by blast+
    from nul_key [OF assms(2) k(1)] k(2) have "bu_Service b = wa_Service (ag_row a') \<and> bu_SourceID b = wa_SourceID (ag_row a')" by blast
    then show ?thesis using Some by (simp add: a_def row_count_def)
  qed
  have ok: "gm_ok g" using assms(1) by (simp add: rows_inv_def)
  have "(k, a') \<in> set (gm_set g ?key (aggregate_bucket b a)) \<Longrightarrow> (k, a') \<in> set g \<or> k = ?key \<and> a' = aggregate_bucket b a" for k a'
    using gm_set_subset [where m=g and k="?key" and v="aggregate_bucket b a"] by auto
  then have "rows_inv (gm_set g ?key (aggregate_bucket b a))"
    using assms(1,2) row gm_ok_set [OF ok] unfolding rows_inv_def by fastforce
  then show ?thesis
    using False row nul_key [OF assms(3,2)] by (auto simp: step row_count_def gm_simps)
qed

lemma window_sum:
  assumes "list_all (\<lambda>b. no_nul (bu_Service b)) bs" "rows_inv g" "no_nul service"
  shows "rows_inv (fold (aggregate_step start till) bs g) \<and>
    row_count (fold (aggregate_step start till) bs g) service source = row_count g service source +
      sum_list (map bu_MatchedLogs (filter (\<lambda>b. bu_Service b = service \<and> bu_SourceID b = source \<and>
        start \<le> bu_Start b \<and> bu_Start b < till) bs))"
  using assms(1,2)
proof (induction bs arbitrary: g)
  case (Cons b bs)
  from aggregate_step_counts [OF Cons.prems(2) _ assms(3), of b start till source] Cons.prems(1)
  have step: "rows_inv (aggregate_step start till b g)" "row_count (aggregate_step start till b g) service source =
      row_count g service source + (if bu_Service b = service \<and> bu_SourceID b = source \<and> start \<le> bu_Start b \<and> bu_Start b < till
        then bu_MatchedLogs b else 0)" by auto
  from Cons.IH [OF _ step(1)] Cons.prems(1) step(2) show ?case by auto
qed simp

lemma matched_rows:
  assumes "rows_inv g" "no_nul service"
  shows "matched service source (map (finish_row \<circ> snd) g) = row_count g service source"
  using assms(1)
proof (induction g)
  case (Cons ka g)
  obtain k a where ka: "ka = (k, a)" by (cases ka)
  have k: "no_nul (wa_Service (ag_row a))" "k = wa_Service (ag_row a) @ nul @ wa_SourceID (ag_row a)" "rows_inv g" "k \<notin> fst ` set g"
    using Cons.prems by (auto simp: rows_inv_def ka)
  have none: "gm_get g k = None" using k(4) by (simp add: map_of_eq_None_iff)
  from nul_key [OF k(1) assms(2), of "wa_SourceID (ag_row a)" source] Cons.IH [OF k(3)] none show ?case
    by (auto simp: ka row_count_def k(2))
qed (simp add: row_count_def)

lemma window_rows_matched:
  assumes "list_all (\<lambda>b. no_nul (bu_Service b)) (ps_Buckets st)" "no_nul service"
  shows "matched service source (window_rows till window st) =
    sum_list (map bu_MatchedLogs (filter (\<lambda>b. bu_Service b = service \<and> bu_SourceID b = source \<and>
      till - window \<le> bu_Start b \<and> bu_Start b < till) (ps_Buckets st)))"
proof -
  have inv: "rows_inv []" by (simp add: rows_inv_def)
  from window_sum [OF assms(1) inv assms(2)] matched_rows [OF _ assms(2)] show ?thesis
    by (simp add: window_rows_def row_count_def)
qed

text \<open>Both sides as sums over the keys.\<close>

lemma recorded_as_sum:
  assumes "finite K" "\<forall>ob \<in> set obs. NormalizeOrgID (lh_OrgID ob) = org \<longrightarrow> observation_key ob \<in> K"
  shows "recorded org P obs = (\<Sum>k | k \<in> K \<and> P k. recorded org (\<lambda>k'. k' = k) obs)"
  using assms(2)
proof (induction obs)
  case (Cons ob obs)
  have fin: "finite {k \<in> K. P k}" using assms(1) by simp
  have "(\<Sum>k | k \<in> K \<and> P k. (if NormalizeOrgID (lh_OrgID ob) = org \<and> observation_key ob = k then lh_Frequency ob else 0)) =
     (if NormalizeOrgID (lh_OrgID ob) = org \<and> P (observation_key ob) then lh_Frequency ob else 0)"
    using fin Cons.prems by (cases "NormalizeOrgID (lh_OrgID ob) = org") (auto simp: sum.delta')
  with Cons show ?case by (simp add: sum.distrib)
qed simp

lemma buckets_as_sum:
  assumes "finite K" "buckets_ok (keyed bs)" "key_set (keyed bs) \<subseteq> K"
  shows "sum_list (map bu_MatchedLogs (filter (P \<circ> bucket_key) bs)) = (\<Sum>k | k \<in> K \<and> P k. count_of (keyed bs) k)"
  using assms(2,3)
proof (induction bs)
  case Nil
  then show ?case by (simp add: keyed_def count_of_def)
next
  case (Cons b bs)
  have sub: "buckets_ok (keyed bs)" "key_set (keyed bs) \<subseteq> K" "bucket_key b \<in> K" "gm_get (keyed bs) (bucket_key b) = None"
    using Cons.prems by (auto simp: buckets_ok_def keyed_def key_set_def map_of_eq_None_iff split: if_splits)
  have fin: "finite {k \<in> K. P k}" using assms(1) by simp
  have "count_of (keyed (b # bs)) k = count_of (keyed bs) k + (if bucket_key b = k then bu_MatchedLogs b else 0)" for k
    using sub(4) by (auto simp: count_of_def keyed_def)
  then have "(\<Sum>k | k \<in> K \<and> P k. count_of (keyed (b # bs)) k) = (\<Sum>k | k \<in> K \<and> P k. count_of (keyed bs) k) +
      (if P (bucket_key b) then bu_MatchedLogs b else 0)"
    using fin sub(3) by (simp add: sum.distrib sum.delta')
  with Cons.IH [OF sub(1,2)] show ?case by simp
qed

subsection \<open>Properties\<close>


text \<open>
  C37: A window counts what was recorded. After any sequence of observations, source reports and
  flushes (failed ones included) on an empty store, the matched logs a query reports for a service and a
  source are the frequencies of exactly those accepted observations whose minute lies in the window,
  and the rows come sorted by service and source.
\<close>

theorem window_counts_what_was_recorded:
  assumes "codec_ok env" "sha_ok env" "alone env" "org = NormalizeOrgID orgID"
    and "blobs_ok m" "ReadBlob m (stateKey env org) = None"
    and "finite K" "card K \<le> MaxLogBuckets" "\<forall>k \<in> K. no_nul (fst k)" "no_nul service"
    and "list_all (op_within org till K) ops" "health_run env orgID ops [] (Some m) = (acc, p, st)"
    and "window \<le> MaxLogRetention" "QueryWindow env orgID till window p st = (Inr (rows, sources), p', st')"
  shows "matched service source rows =
      recorded org (\<lambda>k. fst k = service \<and> fst (snd k) = source \<and> till - window \<le> start_of k \<and> start_of k < till) acc \<and>
    sorted (map (\<lambda>r. (wa_Service r, wa_SourceID r)) rows)"
proof -
  let ?P = "\<lambda>k. fst k = service \<and> fst (snd k) = source \<and> till - window \<le> start_of k \<and> start_of k < till"
  let ?key = "stateKey env org"
  have start: "health_inv env org K [] m"
    using assms(5,6) by (simp add: health_inv_def pending_buckets_def pendingFor_def readable_def read_state_def state_ok_def
        keyed_def MaxStateSources_def)
  have zero: "counted env org [] m k = 0" for k
    using assms(6) by (simp add: counted_def persisted_def read_state_def keyed_def count_of_def pending_buckets_def pendingFor_def)
  from run_counts [OF assms(1,2,3,7,8,4,11) start assms(12)]
  obtain m1 where m1: "st = Some m1" "health_inv env org K p m1"
      "\<forall>ob \<in> set acc. NormalizeOrgID (lh_OrgID ob) = org \<longrightarrow> observation_key ob \<in> K"
      "\<And>k. \<not> start_of k < till - MaxLogRetention \<Longrightarrow> counted env org p m1 k = recorded org (\<lambda>k'. k' = k) acc"
    using zero by (auto simp del: split_paired_All split_paired_Ex)
  obtain p2 st2 where fl: "flushPending env orgID till p (Some m1) = (None, p2, st2)"
    using assms(14) m1(1) by (auto simp: QueryWindow_def split: prod.splits option.splits)
  from flush_alone [OF assms(1,3,7,8,4) m1(2) fl]
  obtain m2 where m2: "st2 = Some m2" "health_inv env org K p2 m2" "pending_buckets org p2 = []"
      "\<And>k. \<not> start_of k < till - MaxLogRetention \<Longrightarrow> counted env org p2 m2 k = counted env org p m1 k" by blast
  have key: "stateKey env orgID = ?key" by (simp add: stateKey_def orgKey_def assms(4))
  obtain s where s: "read_state env (ReadBlob m2 ?key) = Inr s" "state_ok s" "key_set (keyed (ps_Buckets s)) \<subseteq> K"
    using m2(2) by (auto simp: health_inv_def readable_def)
  have rows: "rows = window_rows till window s"
    using assms(14) m1(1) m2(1) s(1)
    by (auto simp: QueryWindow_def fl key read_state_def window_rows_def split: option.splits if_splits sum.splits)
  have ok: "buckets_ok (keyed (ps_Buckets s))" using s(2) by (simp add: state_ok_def)
  have bucket: "bu_Service b = fst (bucket_key b)" "bu_SourceID b = fst (snd (bucket_key b))" for b by (simp_all add: bucket_key_def)
  have starts: "bu_Start b = start_of (bucket_key b) \<and> bucket_key b \<in> K" if "b \<in> set (ps_Buckets s)" for b
  proof
    have mem: "(bucket_key b, b) \<in> set (keyed (ps_Buckets s))" using that by (simp add: keyed_def)
    show "bu_Start b = start_of (bucket_key b)" using ok mem by (fastforce simp: buckets_ok_def bucket_ok_def start_of_def bucket_key_def)
    have "bucket_key b \<in> key_set (keyed (ps_Buckets s))"
      using mem by (force simp: key_set_def dom_map_of_conv_image_fst)
    then show "bucket_key b \<in> K" using s(3) by blast
  qed
  have plain: "list_all (\<lambda>b. no_nul (bu_Service b)) (ps_Buckets s)"
    using starts assms(9) by (simp add: list_all_iff bucket)
  have "matched service source rows = sum_list (map bu_MatchedLogs (filter (?P \<circ> bucket_key) (ps_Buckets s)))"
    unfolding rows window_rows_matched [OF plain assms(10)]
    by (intro arg_cong [where f="\<lambda>xs. sum_list (map bu_MatchedLogs xs)"] filter_cong) (auto simp: starts bucket)
  also have "\<dots> = (\<Sum>k | k \<in> K \<and> ?P k. count_of (keyed (ps_Buckets s)) k)"
    by (rule buckets_as_sum [OF assms(7) ok s(3)])
  also have "\<dots> = (\<Sum>k | k \<in> K \<and> ?P k. recorded org (\<lambda>k'. k' = k) acc)"
  proof (rule sum.cong [OF refl])
    fix k assume "k \<in> {k \<in> K. ?P k}"
    then have "\<not> start_of k < till - MaxLogRetention" using assms(13) by auto
    then have "counted env org p2 m2 k = recorded org (\<lambda>k'. k' = k) acc" using m1(4) m2(4) by simp
    then show "count_of (keyed (ps_Buckets s)) k = recorded org (\<lambda>k'. k' = k) acc"
      by (simp add: counted_def persisted_def s(1) m2(3) count_of_def)
  qed
  also have "\<dots> = recorded org ?P acc" by (rule recorded_as_sum [OF assms(7) m1(3), symmetric])
  finally show ?thesis by (simp add: rows window_rows_def)
qed

subsection \<open>Witnesses\<close>

text \<open>
  A codec that knows three states, and another process that counts two lines of the same bucket between
  the first read and the first swap.
\<close>

definition hwit_observation :: "string \<Rightarrow> int \<Rightarrow> LogHealthObservation" where
  "hwit_observation severity n =
     \<lparr>lh_OrgID = [], lh_SourceID = ''loki'', lh_Service = ''api'', lh_PatternID = ''p1'', lh_ObservedAt = 5 * minute + second,
      lh_Frequency = n, lh_StrongestSeverity = severity, lh_NewPattern = True, lh_InGrace = False, lh_ExpectedRate = 0,
      lh_ExpectedSpread = 0, lh_LifecycleClass = [], lh_LifecycleClassified = False\<rparr>"

definition hwit_sha :: "string \<Rightarrow> string" where
  "hwit_sha s = replicate 32 CHR ''a''"

definition hwit_bucket :: "(string, int) gomap \<Rightarrow> int \<Rightarrow> bucketRecord" where
  "hwit_bucket severities n =
     (empty_bucket ''api'' ''loki'' (5 * minute))\<lparr>bu_MatchedLogs := n, bu_SeverityCounts := severities,
       bu_LatestObservation := 5 * minute + second, bu_PatternIDs := [hwit_sha []], bu_NewPatternIDs := [hwit_sha []]\<rparr>"

definition hwit_state :: "(string, int) gomap \<Rightarrow> int \<Rightarrow> persistedState" where
  "hwit_state severities n = \<lparr>ps_Buckets = [hwit_bucket severities n], ps_Sources = []\<rparr>"

definition hwit_env :: "(nat \<Rightarrow> memoryProvider \<Rightarrow> memoryProvider) \<Rightarrow> health_env" where
  "hwit_env others =
     \<lparr>he_now = 6 * minute, he_sha = hwit_sha,
      he_encState = (\<lambda>st. if st = hwit_state [(''error'', 3)] 3 then Some ''own''
         else if st = hwit_state [(''info'', 2)] 2 then Some ''other''
         else if st = hwit_state [(''info'', 2), (''error'', 3)] 5 then Some ''both'' else None),
      he_decState = (\<lambda>data. if data = ''own'' then Some (hwit_state [(''error'', 3)] 3)
         else if data = ''other'' then Some (hwit_state [(''info'', 2)] 2)
         else if data = ''both'' then Some (hwit_state [(''info'', 2), (''error'', 3)] 5) else None),
      he_encSettings = (\<lambda>s. None), he_decSettings = (\<lambda>s. None), he_readErr = (\<lambda>i. None), he_swapErr = (\<lambda>i. None),
      he_others = others\<rparr>"

definition hwit_key :: string where
  "hwit_key = stateKey (hwit_env (\<lambda>i m. m)) []"


definition hwit_pending :: pending_map where
  "hwit_pending = snd (RecordLogHealth (hwit_env (\<lambda>i m. m)) (hwit_observation ''error'' 3) [])"

definition hwit_keys :: "bucketKey set" where
  "hwit_keys = {observation_key (hwit_observation [] 0)}"

lemma hwit_codec_ok: "codec_ok (hwit_env others)"
  by (auto simp: codec_ok_def hwit_env_def)

lemma hwit_sha_ok: "sha_ok (hwit_env others)"
  by (simp add: sha_ok_def hwit_env_def hwit_sha_def hex_text_def list_all_iff)

lemma hwit_keys_ok: "finite hwit_keys" "card hwit_keys \<le> MaxLogBuckets"
  by (simp_all add: hwit_keys_def MaxLogBuckets_def)

lemma hwit_org: "NormalizeOrgID [] = ''default''"
  by code_simp

lemma hwit_severity: "safeSeverity ''error'' = ''error''" "safeSeverity ''info'' = ''info''"
  by code_simp+

lemma hwit_start: "truncate_bucket (5 * minute + second) = 5 * minute"
  by code_simp

lemma hwit_observe:
  "observe_log (hwit_env others) (hwit_observation ''error'' 3) (empty_bucket ''api'' ''loki'' (5 * minute)) = hwit_bucket [(''error'', 3)] 3"
  by (simp add: observe_log_def hwit_observation_def hwit_env_def hwit_bucket_def empty_bucket_def appendUniqueBounded_def
      MaxPatternIDsPerBucket_def hwit_severity hwit_sha_def Let_def gm_get0_def minute_def second_def)

lemma hwit_pending_eq: "hwit_pending =
    [(''default'', \<lparr>pe_buckets = [((''api'', ''loki'', unix_of (5 * minute)), hwit_bucket [(''error'', 3)] 3)], pe_sources = []\<rparr>)]"
proof -
  have "hwit_observation ''error'' 3 = hwit_observation ''error'' 3\<lparr>lh_OrgID := [], lh_Service := ''api'', lh_SourceID := ''loki'',
      lh_ObservedAt := 5 * minute + second\<rparr>" by (simp add: hwit_observation_def)
  have "\<not> ignored (hwit_observation ''error'' 3)" by code_simp
  then show ?thesis
    by (simp add: hwit_pending_def RecordLogHealth_def pendingFor_def prunePending_def gm_filter_def MaxLogBuckets_def Let_def hwit_org
        hwit_start observation_key_def hwit_observe del: One_nat_def)
       (simp add: hwit_observation_def hwit_org hwit_start hwit_observe [unfolded hwit_observation_def])
qed

lemma hwit_merged:
  "merge_state (6 * minute) (snd (hd hwit_pending)) \<lparr>ps_Buckets = [], ps_Sources = []\<rparr> = hwit_state [(''error'', 3)] 3"
  "merge_state (6 * minute) (snd (hd hwit_pending)) (hwit_state [(''info'', 2)] 2) = hwit_state [(''info'', 2), (''error'', 3)] 5"
  by (simp_all add: merge_state_def merged_buckets_def retained_buckets_def merge_pending_bucket_def hwit_pending_eq hwit_state_def
      bucket_key_def hwit_bucket_def empty_bucket_def mergeBucket_def mergeUniqueBounded_def appendUniqueBounded_def
      add_counts_def gm_get0_def MaxLogBuckets_def MaxPatternIDsPerBucket_def MaxLogRetention_def MaxWindowSeconds_def BucketDuration_def
      minute_def second_def Let_def)

lemma hwit_stateKey: "stateKey (hwit_env others) orgID = hwit_key"
  by (simp add: hwit_key_def stateKey_def orgKey_def hwit_env_def hwit_sha_def)

lemma hwit_bucket_ok: "bucket_ok (hwit_bucket severities n)"
  by (simp add: bucket_ok_def bucket_valid_def identity_lists_def hwit_bucket_def empty_bucket_def hwit_sha_def hex_text_def
      list_all_iff MaxPatternIDsPerBucket_def unix_of_def of_unix_def minute_def second_def)


lemma hwit_read:
  "read_state (hwit_env others) None = Inr \<lparr>ps_Buckets = [], ps_Sources = []\<rparr>"
  "read_state (hwit_env others) (Some ''own'') = Inr (hwit_state [(''error'', 3)] 3)"
  "read_state (hwit_env others) (Some ''other'') = Inr (hwit_state [(''info'', 2)] 2)"
  "read_state (hwit_env others) (Some ''both'') = Inr (hwit_state [(''info'', 2), (''error'', 3)] 5)"
  using hwit_bucket_ok
  by (simp_all add: read_state_def decodeState_def MaxStateBytes_def hwit_env_def hwit_state_def MaxLogBuckets_def MaxStateSources_def
      bucket_ok_def)

lemma hwit_encode:
  "he_encState (hwit_env others) (hwit_state [(''error'', 3)] 3) = Some ''own''"
  "he_encState (hwit_env others) (hwit_state [(''info'', 2), (''error'', 3)] 5) = Some ''both''"
  by (simp_all add: hwit_env_def hwit_state_def hwit_bucket_def empty_bucket_def)

lemma hwit_fields:
  "he_readErr (hwit_env others) i = None" "he_swapErr (hwit_env others) i = None" "he_now (hwit_env others) = 6 * minute"
  "he_others (hwit_env others) = others"
  by (simp_all add: hwit_env_def)



lemma hwit_new: "ReadBlob NewMemory name = None"
  by (simp add: ReadBlob_def NewMemory_def)

lemma cas_current: "CompareAndSwapBlob now key (ReadBlob m key) (Some data) m = (True, WriteBlob now key data m)"
  by (simp add: CompareAndSwapBlob_def ReadBlob_def WriteBlob_def Let_def split: option.split)




definition hwit_alone :: health_env where
  "hwit_alone = hwit_env (\<lambda>i m. m)"

definition hwit_rows :: "WindowAggregate list" where
  "hwit_rows = [(empty_row ''api'' ''loki'')\<lparr>wa_MatchedLogs := 3, wa_UniquePatterns := 1, wa_NewPatterns := 1,
     wa_SeverityCounts := [(''error'', 3)], wa_LatestObservation := 5 * minute + second, wa_Estimated := True\<rparr>]"

lemma hwit_query: "QueryWindow hwit_alone [] (6 * minute) (5 * minute) hwit_pending (Some NewMemory) =
    (Inr (hwit_rows, []), [], Some (WriteBlob (6 * minute) hwit_key ''own'' NewMemory))"
proof -
  let ?pend = "snd (hd hwit_pending)"
  have "flush_attempts hwit_alone hwit_key (6 * minute) ?pend (Suc 7) NewMemory =
      (Inr (), WriteBlob (6 * minute) hwit_key ''own'' NewMemory)"
    using cas_current [of _ hwit_key NewMemory]
    by (subst flush_attempts.simps(2))
       (simp add: hwit_alone_def hwit_fields hwit_new hwit_read hwit_merged hwit_encode MaxStateBytes_def Let_def)
  then have "flushPending hwit_alone [] (6 * minute) hwit_pending (Some NewMemory) =
      (None, [], Some (WriteBlob (6 * minute) hwit_key ''own'' NewMemory))"
    by (simp add: hwit_alone_def flushPending_def Let_def hwit_org hwit_stateKey hwit_pending_eq)
  moreover have "decodeState hwit_alone ''own'' = Inr (hwit_state [(''error'', 3)] 3)"
    using hwit_read(2) [of "\<lambda>i m. m"] by (simp add: read_state_def hwit_alone_def)
  moreover have "window_rows (6 * minute) (5 * minute) (hwit_state [(''error'', 3)] 3) = hwit_rows"
    by (simp add: window_rows_def hwit_state_def aggregate_step_def hwit_bucket_def empty_bucket_def aggregate_bucket_def
        add_patterns_def addWindowPattern_def MaxPatternIDsPerWindow_def add_counts_def gm_get0_def finish_row_def hwit_rows_def
        empty_row_def Let_def minute_def second_def)
  ultimately show ?thesis
    by (simp add: QueryWindow_def hwit_stateKey hwit_fields ReadBlob_Write source_rows_def hwit_state_def hwit_alone_def)
qed

theorem window_counts_what_was_recorded_witness:
  "matched ''api'' ''loki'' hwit_rows = 3 \<and> sorted (map (\<lambda>r. (wa_Service r, wa_SourceID r)) hwit_rows)"
proof -
  have run: "health_run hwit_alone [] [HObserve (hwit_observation ''error'' 3)] [] (Some NewMemory) =
      ([hwit_observation ''error'' 3], hwit_pending, Some NewMemory)"
  proof -
    have "RecordLogHealth hwit_alone (hwit_observation ''error'' 3) [] = (None, hwit_pending)"
      by (simp add: hwit_pending_def hwit_alone_def RecordLogHealth_def prunePending_def pendingFor_def gm_filter_def MaxLogBuckets_def Let_def)
    moreover have "\<not> ignored (hwit_observation ''error'' 3)" by code_simp
    ultimately show ?thesis by simp
  qed
  have "matched ''api'' ''loki'' hwit_rows =
      recorded (NormalizeOrgID []) (\<lambda>k. fst k = ''api'' \<and> fst (snd k) = ''loki'' \<and> 6 * minute - 5 * minute \<le> start_of k \<and>
        start_of k < 6 * minute) [hwit_observation ''error'' 3] \<and> sorted (map (\<lambda>r. (wa_Service r, wa_SourceID r)) hwit_rows)"
    using hwit_codec_ok hwit_sha_ok
    by (intro window_counts_what_was_recorded [OF _ _ _ refl blobs_ok_New _ hwit_keys_ok _ _ _ run _ hwit_query])
       (simp_all add: hwit_alone_def alone_def hwit_fields hwit_new hwit_keys_def observation_key_def hwit_observation_def
         MaxLogRetention_def MaxWindowSeconds_def BucketDuration_def minute_def second_def)
  moreover have "observation_key (hwit_observation ''error'' 3) = (''api'', ''loki'', unix_of (5 * minute))"
    by (simp add: observation_key_def hwit_observation_def hwit_start)
  ultimately show ?thesis
    by (simp add: hwit_org) (simp add: hwit_observation_def hwit_org start_of_def of_unix_def unix_of_def minute_def second_def)
qed

end
