(* ===== verification/Health_Snapshots.thy ===== *)
theory Health_Snapshots
  imports Service_Health History_Store
begin

text \<open>
  The snapshots of Service Health: their types (\<open>pkg/servicehealth/manager.go\<close>, \<open>pkg/core/service_health.go\<close>),
  the bounded history a manager keeps per organisation in one blob, the reads with the marks of stale
  data, and the projection through which an access-control layer may add to a snapshot.

  A projection is a function of the organisation and the snapshot; \<open>None\<close> is an error or a panic. The
  functions of \<open>pkg/servicehealth/collector.go\<close> that the reads use are here, too. A Go float is a
  rational number or one of the three values that are none.
\<close>

subsection \<open>Measures\<close>

abbreviation (input) HealthReady :: string where "HealthReady \<equiv> ''ready''"
abbreviation (input) HealthPartial :: string where "HealthPartial \<equiv> ''partial''"
abbreviation (input) HealthNotConfigured :: string where "HealthNotConfigured \<equiv> ''not_configured''"
abbreviation (input) HealthCollecting :: string where "HealthCollecting \<equiv> ''collecting''"
abbreviation (input) HealthNoData :: string where "HealthNoData \<equiv> ''no_data''"
abbreviation (input) HealthUnsupported :: string where "HealthUnsupported \<equiv> ''unsupported''"
abbreviation (input) HealthError :: string where "HealthError \<equiv> ''error''"
abbreviation (input) HealthStale :: string where "HealthStale \<equiv> ''stale''"
abbreviation (input) HealthRestricted :: string where "HealthRestricted \<equiv> ''restricted''"

datatype go_float = Finite rat | NaN | PosInf | NegInf

record MeasureAvailability =
  av_State :: string
  av_ReasonCode :: string
  av_ActionID :: string

type_synonym availability = "(string, MeasureAvailability) gomap"

definition no_availability :: MeasureAvailability where
  "no_availability = \<lparr>av_State = [], av_ReasonCode = [], av_ActionID = []\<rparr>"

definition measure_state :: "string \<Rightarrow> string \<Rightarrow> MeasureAvailability" where
  "measure_state state reason = \<lparr>av_State = state, av_ReasonCode = reason, av_ActionID = []\<rparr>"

record SignalEvidence =
  ev_OrgID :: string
  ev_Service :: string
  ev_Operation :: string
  ev_Family :: string
  ev_Measure :: string
  ev_Value :: "go_float option"
  ev_Unit :: string
  ev_Numerator :: "go_float option"
  ev_Denominator :: "go_float option"
  ev_Availability :: MeasureAvailability
  ev_SourceRef :: string
  ev_SignalRef :: string
  ev_ObservedAt :: time
  ev_WindowStart :: time
  ev_WindowEnd :: time
  ev_FreshUntil :: time
  ev_Provenance :: string

record HealthCapability =
  ca_Family :: string
  ca_Measures :: availability

record AssessmentDriver =
  dr_Family :: string
  dr_Measure :: string
  dr_Operation :: string
  dr_Weight :: go_float

record HealthAssessment =
  as_OrgID :: string
  as_Service :: string
  as_RegressionScore :: "go_float option"
  as_Regressing :: bool
  as_Silent :: "bool option"
  as_Confidence :: go_float
  as_ReasonCode :: string
  as_Drivers :: "AssessmentDriver list"
  as_IncludedFamilies :: "string list"
  as_AlgorithmVersion :: string
  as_BaselineReference :: string
  as_AssessedAt :: time
  as_FreshUntil :: time
  as_Severity :: string
  as_RaiseSeverity :: bool
  as_AlertStateKnown :: bool

subsection \<open>Snapshots\<close>

text \<open>\<open>sv_Availability\<close> is \<open>None\<close> for a nil map.\<close>

record ServiceSnapshot =
  sv_OrgID :: string
  sv_Service :: string
  sv_Domain :: string
  sv_Kind :: string
  sv_Severity :: string
  sv_BaseSeverity :: string
  sv_AssessmentBasis :: string
  sv_Logs :: WindowAggregate
  sv_Availability :: "availability option"
  sv_ActiveIncidents :: "int option"
  sv_Evidence :: "SignalEvidence list"
  sv_Assessment :: "HealthAssessment option"

record DomainSnapshot =
  dm_Name :: string
  dm_Severity :: string
  dm_ServiceCount :: int
  dm_ObservedCount :: int
  dm_AffectedCount :: int

record CoverageSummary =
  cv_TotalServices :: int
  cv_ObservedServices :: int
  cv_Partial :: bool

record SnapshotEnvelope =
  sn_SnapshotID :: string
  sn_GeneratedAt :: time
  sn_LatestAttempt :: time
  sn_LatestSuccess :: time
  sn_NextCollectionAt :: time
  sn_SettingsRevision :: "64 word"
  sn_WindowSeconds :: int
  sn_Services :: "ServiceSnapshot list"
  sn_Domains :: "DomainSnapshot list"
  sn_Facets :: "(string, int) gomap"
  sn_Coverage :: CoverageSummary
  sn_Capabilities :: "HealthCapability list"
  sn_PendingSettings :: "Settings option"

record history_codec =
  hc_enc :: "SnapshotEnvelope list \<Rightarrow> string option"
  hc_dec :: "string \<Rightarrow> SnapshotEnvelope list option"

definition avail :: "ServiceSnapshot \<Rightarrow> availability" where
  "avail s = (case sv_Availability s of None \<Rightarrow> [] | Some m \<Rightarrow> m)"

definition avail_state :: "ServiceSnapshot \<Rightarrow> string \<Rightarrow> string" where
  "avail_state s family = av_State (gm_get0 no_availability (avail s) family)"

definition defaultAvailability :: availability where
  "defaultAvailability = [(''logs'', measure_state HealthCollecting ''awaiting_first_collection''),
     (''internal'', measure_state HealthCollecting ''awaiting_first_collection'')]"

definition enterprise_only :: MeasureAvailability where
  "enterprise_only = \<lparr>av_State = HealthRestricted, av_ReasonCode = ''enterprise_required'',
     av_ActionID = ''review_enterprise_capability''\<rparr>"

definition capabilities :: "bool \<Rightarrow> HealthCapability list" where
  "capabilities logsConfigured =
     (let logState = (if logsConfigured then measure_state HealthCollecting ''availability_is_service_scoped''
            else \<lparr>av_State = HealthNotConfigured, av_ReasonCode = ''source_not_configured'', av_ActionID = ''connect_log_source''\<rparr>)
      in [\<lparr>ca_Family = ''logs'', ca_Measures = [(''activity'', logState), (''patterns'', logState), (''anomalies'', logState)]\<rparr>,
          \<lparr>ca_Family = ''internal'', ca_Measures = [(''incidents'', measure_state HealthReady []), (''patterns'', measure_state HealthReady [])]\<rparr>,
          \<lparr>ca_Family = ''metrics'', ca_Measures = [(''latency'', enterprise_only), (''request_error_ratio'', enterprise_only),
             (''throughput'', enterprise_only)]\<rparr>,
          \<lparr>ca_Family = ''traces'', ca_Measures = [(''request_context'', enterprise_only)]\<rparr>])"

definition severityRank :: "string \<Rightarrow> nat" where
  "severityRank value =
     (let v = to_lower value
      in if v = ''degraded'' then 5 else if v = ''critical'' then 4 else if v = ''creeping'' then 3
         else if v = ''pressure'' then 2 else if v = ''nominal'' then 1 else 0)"

definition domain_step :: "ServiceSnapshot \<Rightarrow> (string, DomainSnapshot) gomap \<Rightarrow> (string, DomainSnapshot) gomap" where
  "domain_step s byName =
     (let d = gm_get0 \<lparr>dm_Name = sv_Domain s, dm_Severity = ''unknown'', dm_ServiceCount = 0, dm_ObservedCount = 0,
            dm_AffectedCount = 0\<rparr> byName (sv_Domain s);
          d = d\<lparr>dm_ServiceCount := dm_ServiceCount d + 1,
            dm_ObservedCount := (if avail_state s ''logs'' = HealthReady \<or> avail_state s ''internal'' = HealthReady
               then dm_ObservedCount d + 1 else dm_ObservedCount d),
            dm_AffectedCount := (if sv_Severity s \<noteq> ''unknown'' \<and> sv_Severity s \<noteq> ''nominal''
               then dm_AffectedCount d + 1 else dm_AffectedCount d),
            dm_Severity := (if severityRank (sv_Severity s) > severityRank (dm_Severity d)
               then sv_Severity s else dm_Severity d)\<rparr>
      in gm_set byName (sv_Domain s) d)"

definition aggregateDomains :: "ServiceSnapshot list \<Rightarrow> DomainSnapshot list" where
  "aggregateDomains services = sort_key dm_Name (map snd (fold domain_step services []))"

definition severity_facets :: "ServiceSnapshot list \<Rightarrow> (string, int) gomap" where
  "severity_facets services =
     fold (\<lambda>s facets. gm_set facets (sv_Severity s) (gm_get0 0 facets (sv_Severity s) + 1)) services []"

subsection \<open>The history\<close>

text \<open>
  The oldest snapshots go until the text fits; a text that is too long without any snapshot would be a
  slice out of range.
\<close>

fun fit_history :: "history_codec \<Rightarrow> SnapshotEnvelope list \<Rightarrow> health_error + string" where
  "fit_history codec [] =
     (case hc_enc codec [] of
        None \<Rightarrow> Inl HEncode
      | Some replacement \<Rightarrow> if length replacement \<le> MaxSnapshotBytes then Inr replacement else Inl HPanic)"
| "fit_history codec (s # ss) =
     (case hc_enc codec (s # ss) of
        None \<Rightarrow> Inl HEncode
      | Some replacement \<Rightarrow>
          if length replacement \<le> MaxSnapshotBytes then Inr replacement
          else if ss = [] then Inl (HSnapshotTooLarge (length replacement))
          else fit_history codec ss)"

definition last_n :: "nat \<Rightarrow> 'a list \<Rightarrow> 'a list" where
  "last_n n xs = (if length xs > n then drop (length xs - n) xs else xs)"

definition extend_history :: "time \<Rightarrow> SnapshotEnvelope \<Rightarrow> SnapshotEnvelope list \<Rightarrow> SnapshotEnvelope list" where
  "extend_history now snapshot history =
     last_n MaxSnapshots (filter (\<lambda>s. \<not> sn_GeneratedAt s < now - MaxSnapshotAge) (history @ [snapshot]))"

text \<open>An empty or missing blob is an empty history.\<close>

definition read_history :: "history_codec \<Rightarrow> string option \<Rightarrow> SnapshotEnvelope list option" where
  "read_history codec current =
     (case current of None \<Rightarrow> Some [] | Some data \<Rightarrow> if data = [] then Some [] else hc_dec codec data)"

text \<open>\<open>n\<close> of eight attempts are left; attempt \<open>i\<close> reads with the error of \<open>i + 1\<close>.\<close>

fun save_attempts ::
  "health_env \<Rightarrow> history_codec \<Rightarrow> string \<Rightarrow> SnapshotEnvelope \<Rightarrow> nat \<Rightarrow> memoryProvider \<Rightarrow>
   health_error option \<times> memoryProvider" where
  "save_attempts env codec key snapshot 0 m = (Some HConflict, m)"
| "save_attempts env codec key snapshot (Suc n) m =
     (case he_readErr env (8 - n) of
        Some err \<Rightarrow> (Some (HRead err), m)
      | None \<Rightarrow>
          let current = ReadBlob m key
          in case read_history codec current of
               None \<Rightarrow> (Some HDecode, m)
             | Some history \<Rightarrow>
                 if sn_SnapshotID snapshot \<in> set (map sn_SnapshotID history) then (None, m)
                 else
                   (case fit_history codec (extend_history (he_now env) snapshot history) of
                      Inl err \<Rightarrow> (Some err, m)
                    | Inr replacement \<Rightarrow>
                        let m = he_others env (8 - n) m
                        in case he_swapErr env (8 - n) of
                             Some err \<Rightarrow> (Some (HSwap err), m)
                           | None \<Rightarrow>
                               let (swapped, m) = CompareAndSwapBlob (he_now env) key current (Some replacement) m
                               in if swapped then (None, m) else save_attempts env codec key snapshot n m))"

definition SaveSnapshot ::
  "health_env \<Rightarrow> history_codec \<Rightarrow> string \<Rightarrow> SnapshotEnvelope \<Rightarrow> memoryProvider option \<Rightarrow>
   health_error option \<times> memoryProvider option" where
  "SaveSnapshot env codec orgID snapshot st =
     (case LoadSettings env orgID st of
        Inl err \<Rightarrow> (Some err, st)
      | Inr settings \<Rightarrow>
          if sn_SettingsRevision snapshot \<noteq> se_Revision settings then (Some HConflict, st)
          else case st of
            None \<Rightarrow> (Some HNoStorage, st)
          | Some m \<Rightarrow>
              let (err, m) = save_attempts env codec (snapshotKey env orgID) snapshot 8 m in (err, Some m))"

text \<open>The read fails with the error of attempt 1, as the settings are read first.\<close>

definition LoadSnapshot ::
  "health_env \<Rightarrow> history_codec \<Rightarrow> string \<Rightarrow> memoryProvider option \<Rightarrow> health_error + SnapshotEnvelope option" where
  "LoadSnapshot env codec orgID st =
     (case st of
        None \<Rightarrow> Inl HNoStorage
      | Some m \<Rightarrow>
          (case he_readErr env 1 of
             Some err \<Rightarrow> Inl (HRead err)
           | None \<Rightarrow>
               (case ReadBlob m (snapshotKey env orgID) of
                  None \<Rightarrow> Inr None
                | Some data \<Rightarrow>
                    if data = [] then Inr None
                    else (case hc_dec codec data of
                            None \<Rightarrow> Inl HDecode
                          | Some history \<Rightarrow> Inr (if history = [] then None else Some (List.last history))))))"

subsection \<open>Reads\<close>

definition mark_measure :: "string \<Rightarrow> string \<times> MeasureAvailability \<Rightarrow> string \<times> MeasureAvailability" where
  "mark_measure reason = (\<lambda>(measure, availability).
     (measure, if av_State availability \<in> {HealthNotConfigured, HealthUnsupported, HealthRestricted} then availability
               else measure_state HealthStale reason))"

definition markSnapshotStale :: "string \<Rightarrow> SnapshotEnvelope \<Rightarrow> SnapshotEnvelope" where
  "markSnapshotStale reason snapshot = snapshot\<lparr>
     sn_Services := map (\<lambda>s. s\<lparr>sv_Availability := map_option (map (mark_measure reason)) (sv_Availability s)\<rparr>) (sn_Services snapshot),
     sn_Capabilities := map (\<lambda>c. c\<lparr>ca_Measures := map (mark_measure reason) (ca_Measures c)\<rparr>) (sn_Capabilities snapshot)\<rparr>"

definition settings_changed :: "health_env \<Rightarrow> Settings \<Rightarrow> SnapshotEnvelope \<Rightarrow> SnapshotEnvelope" where
  "settings_changed env settings snapshot = snapshot\<lparr>
     sn_PendingSettings := Some settings, sn_NextCollectionAt := he_now env,
     sn_Services := map (\<lambda>s. s\<lparr>sv_Availability := Some (gm_set
        (case sv_Availability s of None \<Rightarrow> defaultAvailability | Some a \<Rightarrow> a)
        ''logs'' (measure_state HealthStale ''settings_changed''))\<rparr>) (sn_Services snapshot),
     sn_Capabilities := map (\<lambda>c. if ca_Family c = ''logs''
        then c\<lparr>ca_Measures := map (\<lambda>(measure, a). (measure, measure_state HealthStale ''settings_changed'')) (ca_Measures c)\<rparr>
        else c) (sn_Capabilities snapshot)\<rparr>"

definition empty_snapshot :: "health_env \<Rightarrow> Settings \<Rightarrow> SnapshotEnvelope" where
  "empty_snapshot env settings =
     \<lparr>sn_SnapshotID = [], sn_GeneratedAt = he_now env, sn_LatestAttempt = zero_time, sn_LatestSuccess = zero_time,
      sn_NextCollectionAt = zero_time, sn_SettingsRevision = se_Revision settings, sn_WindowSeconds = se_WindowSeconds settings,
      sn_Services = [], sn_Domains = [], sn_Facets = [],
      sn_Coverage = \<lparr>cv_TotalServices = 0, cv_ObservedServices = 0, cv_Partial = False\<rparr>,
      sn_Capabilities = capabilities False, sn_PendingSettings = None\<rparr>"

definition snapshotOrEmpty ::
  "health_env \<Rightarrow> history_codec \<Rightarrow> string \<Rightarrow> memoryProvider option \<Rightarrow> health_error + SnapshotEnvelope" where
  "snapshotOrEmpty env codec orgID st =
     (case LoadSettings env orgID st of
        Inl err \<Rightarrow> Inl err
      | Inr settings \<Rightarrow>
          (case LoadSnapshot env codec orgID st of
             Inl err \<Rightarrow> Inl err
           | Inr None \<Rightarrow> Inr (empty_snapshot env settings)
           | Inr (Some snapshot) \<Rightarrow>
               if sn_SettingsRevision snapshot = se_Revision settings
               then Inr (if he_now env > sn_GeneratedAt snapshot + 2 * (se_IntervalSeconds settings * second)
                         then markSnapshotStale ''snapshot_stale'' snapshot else snapshot)
               else Inr (settings_changed env settings snapshot)))"

subsection \<open>Projections\<close>

type_synonym SnapshotProjection = "string \<Rightarrow> SnapshotEnvelope \<Rightarrow> SnapshotEnvelope option"

definition service_in_scope :: "string \<Rightarrow> ServiceSnapshot \<Rightarrow> bool" where
  "service_in_scope orgID s \<longleftrightarrow> NormalizeOrgID (sv_OrgID s) = orgID \<and>
     list_all (\<lambda>e. NormalizeOrgID (ev_OrgID e) = orgID \<and> ev_Service e = sv_Service s) (sv_Evidence s) \<and>
     (case sv_Assessment s of None \<Rightarrow> True | Some a \<Rightarrow> NormalizeOrgID (as_OrgID a) = orgID \<and> as_Service a = sv_Service s)"

definition applySnapshotProjection ::
  "SnapshotProjection \<Rightarrow> string \<Rightarrow> SnapshotEnvelope \<Rightarrow> health_error + SnapshotEnvelope" where
  "applySnapshotProjection projection orgID snapshot =
     (case projection orgID snapshot of
        None \<Rightarrow> Inl HProjection
      | Some projected \<Rightarrow>
          if list_all (service_in_scope orgID) (sn_Services projected) then Inr projected else Inl HProjection)"

text \<open>\<open>strings.Split\<close> and \<open>strings.Join\<close> with a separator of more than one character.\<close>

fun split_at :: "string \<Rightarrow> string \<Rightarrow> string \<Rightarrow> string list" where
  "split_at sep acc [] = [rev acc]"
| "split_at sep acc (c # s) =
     (if prefix sep (c # s) \<and> sep \<noteq> [] then rev acc # split_at sep [] (drop (length sep) (c # s))
      else split_at sep (c # acc) s)"

definition plus_sep :: string where "plus_sep = '' + ''"

definition stripPremiumAssessmentBasis :: "string \<Rightarrow> string" where
  "stripPremiumAssessmentBasis basis =
     join_with plus_sep (filter (\<lambda>p. p \<noteq> ''Metrics'' \<and> p \<noteq> ''Traces'') (split_at plus_sep [] basis))"

definition premium_key :: "string \<Rightarrow> bool" where
  "premium_key key \<longleftrightarrow> prefix ''metrics.'' key \<or> prefix ''traces.'' key \<or> prefix ''assessment.'' key"

definition strip_service :: "ServiceSnapshot \<Rightarrow> ServiceSnapshot" where
  "strip_service s = s\<lparr>sv_Evidence := [], sv_Assessment := None,
     sv_AssessmentBasis := stripPremiumAssessmentBasis (sv_AssessmentBasis s),
     sv_Severity := (if sv_BaseSeverity s \<noteq> [] then sv_BaseSeverity s else sv_Severity s), sv_BaseSeverity := [],
     sv_Availability := map_option (gm_filter (\<lambda>key a. \<not> premium_key key)) (sv_Availability s)\<rparr>"

definition service_partial :: "ServiceSnapshot \<Rightarrow> bool" where
  "service_partial s \<longleftrightarrow> wa_Truncated (sv_Logs s) \<or>
     list_ex (\<lambda>family. avail_state s family \<in> {HealthPartial, HealthError, HealthStale}) [''logs'', ''internal'']"

definition baseCoveragePartial :: "SnapshotEnvelope \<Rightarrow> bool" where
  "baseCoveragePartial snapshot \<longleftrightarrow>
     cv_TotalServices (sn_Coverage snapshot) > int (length (sn_Services snapshot)) \<or> list_ex service_partial (sn_Services snapshot)"

definition stripAccessControlledSnapshot :: "SnapshotEnvelope \<Rightarrow> SnapshotEnvelope" where
  "stripAccessControlledSnapshot snapshot =
     (let services = map strip_service (sn_Services snapshot);
          snapshot = snapshot\<lparr>sn_Services := services,
            sn_Capabilities := filter (\<lambda>c. ca_Family c \<notin> {''metrics'', ''traces'', ''assessment''}) (sn_Capabilities snapshot) @
              filter (\<lambda>c. ca_Family c \<in> {''metrics'', ''traces''}) (capabilities False)\<rparr>
      in snapshot\<lparr>sn_Coverage := (sn_Coverage snapshot)\<lparr>cv_Partial := baseCoveragePartial snapshot\<rparr>,
           sn_Domains := aggregateDomains services, sn_Facets := severity_facets services\<rparr>)"

definition SnapshotFor ::
  "health_env \<Rightarrow> history_codec \<Rightarrow> SnapshotProjection option \<Rightarrow> string \<Rightarrow> memoryProvider option \<Rightarrow>
   health_error + SnapshotEnvelope" where
  "SnapshotFor env codec projection orgID st =
     (case snapshotOrEmpty env codec orgID st of
        Inl err \<Rightarrow> Inl err
      | Inr snapshot \<Rightarrow>
          (case projection of
             None \<Rightarrow> Inr snapshot
           | Some projection \<Rightarrow>
               (case applySnapshotProjection projection (NormalizeOrgID orgID) snapshot of
                  Inl err \<Rightarrow> Inr (stripAccessControlledSnapshot snapshot)
                | Inr projected \<Rightarrow> Inr projected)))"

end
