(* ===== verification/Health_Collector.thy ===== *)
theory Health_Collector
  imports Health_Snapshots Calendar Go_Format
begin

text \<open>
  The collector of Service Health (\<open>pkg/servicehealth/collector.go\<close>): one snapshot per organisation from
  the window of log counters, the service and pattern catalogs and the open incidents; then the
  evidence of external providers, checked and merged, and the assessments made of it.

  Providers, the assessor and the access check are functions; \<open>None\<close> stands for an error or a panic, a
  missing provider is \<open>None\<close> in the list. Each is asked at most once per snapshot. \<open>cl_pageErr\<close> tells which
  page of the incidents cannot be read, \<open>cl_deadline\<close> the deadline of a context with a given timeout.
\<close>

subsection \<open>Inputs\<close>

definition maxIncidentJoinRows :: nat where "maxIncidentJoinRows = 2000"
definition MaxEvidencePerService :: nat where "MaxEvidencePerService = 64"
definition maxEvidenceIdentityBytes :: nat where "maxEvidenceIdentityBytes = 512"
definition MaxServicesPerSnapshot :: nat where "MaxServicesPerSnapshot = 500"
definition MaxPremiumSources :: int where "MaxPremiumSources = 16"
definition MaxExternalRequests :: int where "MaxExternalRequests = 64"
definition MaxRequestsPerSource :: int where "MaxRequestsPerSource = 8"
definition MaxRowsPerSource :: int where "MaxRowsPerSource = 10000"
definition MaxResponseBytes :: int where "MaxResponseBytes = 1048576"
definition MaxCumulativeBytes :: int where "MaxCumulativeBytes = 16777216"
definition MaxConcurrency :: int where "MaxConcurrency = 2"

record ServiceMetadata =
  md_OrgID :: string
  md_Name :: string
  md_Domain :: string
  md_Kind :: string

record PatternMetadata =
  pm_OrgID :: string
  pm_Service :: string
  pm_LastSeen :: time

record HealthBudget =
  hb_Requests :: int
  hb_RequestsPerSource :: int
  hb_Rows :: int
  hb_ResponseBytes :: int
  hb_CumulativeBytes :: int
  hb_Concurrency :: int

record HealthUsage =
  us_Sources :: int
  us_Requests :: int
  us_Rows :: int
  us_ResponseBytes :: int
  us_LargestResponseBytes :: int

record HealthCollectRequest =
  rq_OrgID :: string
  rq_SourceIDs :: "string list"
  rq_ServiceIDs :: "string list"
  rq_WindowStart :: time
  rq_WindowEnd :: time
  rq_Deadline :: time
  rq_Budget :: HealthBudget

record HealthAssessmentInput =
  ai_OrgID :: string
  ai_Service :: string
  ai_Operation :: string
  ai_Family :: string
  ai_Measure :: string
  ai_SourceRef :: string
  ai_SignalRef :: string
  ai_ExpectedMean :: go_float
  ai_ExpectedStd :: go_float
  ai_ObservationCount :: int
  ai_MaturityThreshold :: int

record HealthCollection =
  hc_Evidence :: "SignalEvidence list"
  hc_AssessmentInputs :: "HealthAssessmentInput list"
  hc_Usage :: HealthUsage
  hc_Partial :: bool

record HealthProvider =
  pr_Capabilities :: "string \<Rightarrow> HealthCapability list option"
  pr_Collect :: "HealthCollectRequest \<Rightarrow> HealthCollection option"

record AssessmentRequest =
  aq_OrgID :: string
  aq_WindowStart :: time
  aq_WindowEnd :: time
  aq_Evidence :: "SignalEvidence list"
  aq_Inputs :: "HealthAssessmentInput list"
  aq_Services :: "ServiceSnapshot list"

record Collector =
  cl_services :: "ServiceMetadata list"
  cl_patterns :: "PatternMetadata list"
  cl_sourceIDs :: "string list"
  cl_providers :: "HealthProvider option list"
  cl_providerSourceIDs :: "string list"
  cl_assessor :: "(AssessmentRequest \<Rightarrow> HealthAssessment list option) option"
  cl_enrichmentAccess :: "(string \<Rightarrow> bool option) option"
  cl_now :: time
  cl_deadline :: "duration \<Rightarrow> time"
  cl_pageErr :: "nat \<Rightarrow> bool"

subsection \<open>Building a snapshot\<close>

definition normalizeService :: "string \<Rightarrow> string" where
  "normalizeService service = (if service = [] then ''_unknown'' else service)"

definition new_service :: "string \<Rightarrow> string \<Rightarrow> ServiceSnapshot" where
  "new_service orgID name =
     \<lparr>sv_OrgID = orgID, sv_Service = name, sv_Domain = ''Ungrouped'', sv_Kind = ''unknown'', sv_Severity = ''unknown'',
      sv_BaseSeverity = [], sv_AssessmentBasis = ''Internal data only'', sv_Logs = empty_row name [],
      sv_Availability = Some defaultAvailability, sv_ActiveIncidents = None, sv_Evidence = [], sv_Assessment = None\<rparr>"

type_synonym service_map = "(string, ServiceSnapshot) gomap"

text \<open>\<open>ensure\<close> and what the caller does to the service it returns.\<close>

definition ensure :: "string \<Rightarrow> string \<Rightarrow> (ServiceSnapshot \<Rightarrow> ServiceSnapshot) \<Rightarrow> service_map \<Rightarrow> service_map" where
  "ensure orgID name f services =
     (let name = normalizeService name
      in gm_set services name (f (gm_get0 (new_service orgID name) services name)))"

definition add_metadata :: "string \<Rightarrow> ServiceMetadata \<Rightarrow> service_map \<Rightarrow> service_map" where
  "add_metadata orgID md services =
     (if NormalizeOrgID (md_OrgID md) \<noteq> orgID then services
      else ensure orgID (md_Name md) (\<lambda>s. s\<lparr>
        sv_Domain := (if md_Domain md \<noteq> [] then md_Domain md else sv_Domain s),
        sv_Kind := (if md_Kind md \<noteq> [] then md_Kind md else sv_Kind s)\<rparr>) services)"

definition pattern_counts :: "string \<Rightarrow> PatternMetadata \<Rightarrow> bool" where
  "pattern_counts orgID pm \<longleftrightarrow> NormalizeOrgID (pm_OrgID pm) = orgID \<and> pm_Service pm \<noteq> []"

definition add_pattern ::
  "string \<Rightarrow> PatternMetadata \<Rightarrow> service_map \<times> (string, int) gomap \<Rightarrow> service_map \<times> (string, int) gomap" where
  "add_pattern orgID pm = (\<lambda>(services, internal).
     if pattern_counts orgID pm
     then (ensure orgID (pm_Service pm) (\<lambda>s. s) services,
           gm_set internal (pm_Service pm) (gm_get0 0 internal (pm_Service pm) + 1))
     else (services, internal))"

definition add_row_logs :: "WindowAggregate \<Rightarrow> WindowAggregate \<Rightarrow> WindowAggregate" where
  "add_row_logs row logs = logs\<lparr>wa_MatchedLogs := wa_MatchedLogs logs + wa_MatchedLogs row,
     wa_UniquePatterns := wa_UniquePatterns logs + wa_UniquePatterns row,
     wa_NewPatterns := wa_NewPatterns logs + wa_NewPatterns row,
     wa_UnknownPatterns := wa_UnknownPatterns logs + wa_UnknownPatterns row,
     wa_SpikingPatterns := wa_SpikingPatterns logs + wa_SpikingPatterns row,
     wa_Estimated := (wa_Estimated logs \<or> wa_Estimated row),
     wa_Truncated := (wa_Truncated logs \<or> wa_Truncated row),
     wa_PartialReason := (if wa_Truncated row then wa_PartialReason row else wa_PartialReason logs),
     wa_LatestObservation := (if wa_LatestObservation logs < wa_LatestObservation row
       then wa_LatestObservation row else wa_LatestObservation logs),
     wa_SeverityCounts := add_counts (wa_SeverityCounts logs) (wa_SeverityCounts row)\<rparr>"

definition add_row ::
  "string \<Rightarrow> WindowAggregate \<Rightarrow> service_map \<times> (string, string list) gomap \<Rightarrow> service_map \<times> (string, string list) gomap" where
  "add_row orgID row = (\<lambda>(services, sources).
     let service = normalizeService (wa_Service row);
         ids = gm_get0 [] sources service
     in (ensure orgID service (\<lambda>s. s\<lparr>sv_Logs := add_row_logs row (sv_Logs s)\<rparr>) services,
         gm_set sources service (if wa_SourceID row \<in> set ids then ids else ids @ [wa_SourceID row])))"

subsection \<open>Incidents\<close>

text \<open>The pages of 500 from page \<open>i\<close> on, \<open>n\<close> at most; \<open>None\<close> when one cannot be read.\<close>

fun incident_pages :: "Collector \<Rightarrow> memoryProvider \<Rightarrow> nat \<Rightarrow> nat \<Rightarrow> IncidentRecord list option" where
  "incident_pages cl m i 0 = Some []"
| "incident_pages cl m i (Suc n) =
     (if cl_pageErr cl i then None
      else
        let page = ListIncidentsPage m [] (int (500 * i)) 500
        in if length page < 500 then Some page
           else map_option (append page) (incident_pages cl m (Suc i) n))"

definition open_incident :: "string \<Rightarrow> IncidentRecord \<Rightarrow> bool" where
  "open_incident orgID r \<longleftrightarrow> NormalizeOrgID (ir_OrgID r) = orgID \<and> ir_Service r \<noteq> [] \<and> \<not> ir_Resolved r"

definition incident_counts :: "string \<Rightarrow> IncidentRecord list \<Rightarrow> (string, int) gomap" where
  "incident_counts orgID records =
     fold (\<lambda>r counts. gm_set counts (ir_Service r) (gm_get0 0 counts (ir_Service r) + 1))
       (filter (open_incident orgID) records) []"

definition serviceListForIncidents :: "Collector \<Rightarrow> string \<Rightarrow> ServiceMetadata list" where
  "serviceListForIncidents cl orgID = filter (\<lambda>md. NormalizeOrgID (md_OrgID md) = orgID) (cl_services cl)"

text \<open>Whether the read went well, whether it is partial, and the services.\<close>

definition joinIncidents ::
  "Collector \<Rightarrow> memoryProvider option \<Rightarrow> string \<Rightarrow> service_map \<Rightarrow> bool \<times> bool \<times> service_map" where
  "joinIncidents cl st orgID services =
     (case st of
        None \<Rightarrow> (False, True, services)
      | Some m \<Rightarrow>
          (case incident_pages cl m 0 4 of
             None \<Rightarrow> (False, True, services)
           | Some records \<Rightarrow>
               if length records \<ge> maxIncidentJoinRows then (True, True, services)
               else
                 let services = fold (\<lambda>(service, n). ensure orgID service (\<lambda>s. s\<lparr>sv_ActiveIncidents := Some n\<rparr>))
                       (incident_counts orgID records) services;
                     services = fold (\<lambda>md services. if md_Name md = [] then services
                         else ensure orgID (md_Name md) (\<lambda>s. if sv_ActiveIncidents s = None
                           then s\<lparr>sv_ActiveIncidents := Some 0\<rparr> else s) services)
                       (serviceListForIncidents cl orgID) services
                 in (True, False, services)))"

subsection \<open>Availability and severity\<close>

definition sourceAvailability ::
  "string list \<Rightarrow> (string, SourceStatus) gomap \<Rightarrow> time \<Rightarrow> duration \<Rightarrow> MeasureAvailability" where
  "sourceAvailability sourceIDs statuses now window =
     (let known = List.map_filter (gm_get statuses) sourceIDs;
          haveSuccess = list_ex (\<lambda>s. so_LatestSuccess s \<noteq> zero_time) known;
          stale = list_ex (\<lambda>s. so_LatestSuccess s \<noteq> zero_time \<and> now - so_LatestSuccess s > window) known;
          haveError = list_ex (\<lambda>s. so_ErrorClass s \<noteq> []) known
      in if haveSuccess \<and> stale
         then \<lparr>av_State = HealthStale, av_ReasonCode = ''source_stale'', av_ActionID = ''review_log_source''\<rparr>
         else if haveError \<and> haveSuccess
         then \<lparr>av_State = HealthPartial, av_ReasonCode = ''source_partial'', av_ActionID = ''review_log_source''\<rparr>
         else if haveError
         then \<lparr>av_State = HealthError, av_ReasonCode = ''source_error'', av_ActionID = ''review_log_source''\<rparr>
         else if known \<noteq> [] then measure_state HealthNoData ''no_observations_in_window''
         else measure_state HealthCollecting ''awaiting_first_collection'')"

definition logSeverity :: "WindowAggregate \<Rightarrow> string" where
  "logSeverity logs =
     (if gm_get0 0 (wa_SeverityCounts logs) ''critical'' > 0 then ''critical''
      else if wa_SpikingPatterns logs > 0 \<or> wa_UnknownPatterns logs > 0 \<or> gm_get0 0 (wa_SeverityCounts logs) ''error'' > 0 \<or>
        gm_get0 0 (wa_SeverityCounts logs) ''warning'' > 0 then ''pressure''
      else ''nominal'')"

definition set_avail :: "string \<Rightarrow> MeasureAvailability \<Rightarrow> ServiceSnapshot \<Rightarrow> ServiceSnapshot" where
  "set_avail key a s = s\<lparr>sv_Availability := Some (gm_set (avail s) key a)\<rparr>"

definition assess_logs ::
  "string list \<Rightarrow> (string, string list) gomap \<Rightarrow> (string, SourceStatus) gomap \<Rightarrow> time \<Rightarrow> duration \<Rightarrow> ServiceSnapshot \<Rightarrow> ServiceSnapshot" where
  "assess_logs configured sources statuses now window s =
     (if wa_MatchedLogs (sv_Logs s) > 0
      then
        let availability = sourceAvailability (gm_get0 [] sources (sv_Service s)) statuses now window
        in (set_avail ''logs''
              (if wa_Truncated (sv_Logs s) then measure_state HealthPartial (wa_PartialReason (sv_Logs s))
               else if av_State availability = HealthError \<or> av_State availability = HealthPartial
               then \<lparr>av_State = HealthPartial, av_ReasonCode = ''source_partial'', av_ActionID = ''review_log_source''\<rparr>
               else if av_State availability = HealthStale then availability
               else measure_state HealthReady []) s)
             \<lparr>sv_AssessmentBasis := ''Logs + incidents'', sv_Severity := logSeverity (sv_Logs s)\<rparr>
      else if configured = []
      then set_avail ''logs'' \<lparr>av_State = HealthNotConfigured, av_ReasonCode = ''source_not_configured'',
             av_ActionID = ''connect_log_source''\<rparr> s
      else set_avail ''logs'' (sourceAvailability configured statuses now window) s)"

definition assess_internal :: "bool \<Rightarrow> bool \<Rightarrow> (string, int) gomap \<Rightarrow> ServiceSnapshot \<Rightarrow> ServiceSnapshot" where
  "assess_internal readOK partial internal s =
     (let evidence = gm_get0 0 internal (sv_Service s) > 0;
          incidents = (case sv_ActiveIncidents s of None \<Rightarrow> False | Some n \<Rightarrow> n > 0);
          s = (if evidence
               then s\<lparr>sv_AssessmentBasis := (if wa_MatchedLogs (sv_Logs s) > 0 then ''Logs + patterns + incidents''
                      else ''Patterns + incidents'')\<rparr> else s);
          s = set_avail ''internal''
                (if \<not> readOK then measure_state HealthError ''internal_read_failed''
                 else if partial then measure_state HealthPartial ''join_truncated''
                 else if evidence \<or> incidents then measure_state HealthReady []
                 else measure_state HealthNoData ''no_internal_evidence'') s
      in if incidents then s\<lparr>sv_Severity := ''degraded''\<rparr> else s)"

definition latestSourceTimes :: "SourceStatus list \<Rightarrow> time \<times> time" where
  "latestSourceTimes statuses =
     fold (\<lambda>s (attempt, success).
        (if attempt < so_LatestAttempt s then so_LatestAttempt s else attempt,
         if success < so_LatestSuccess s then so_LatestSuccess s else success)) statuses (zero_time, zero_time)"

text \<open>The services by name before they are assessed; the sources of each; the patterns of each; how the incidents were read.\<close>

definition gather_services ::
  "Collector \<Rightarrow> memoryProvider option \<Rightarrow> string \<Rightarrow> WindowAggregate list \<Rightarrow>
   service_map \<times> (string, string list) gomap \<times> (string, int) gomap \<times> bool \<times> bool" where
  "gather_services cl st orgID rows =
     (let services = fold (add_metadata orgID) (cl_services cl) [];
          (services, internal) = fold (add_pattern orgID) (cl_patterns cl) (services, []);
          (services, sources) = fold (add_row orgID) rows (services, []);
          (readOK, partial, services) = joinIncidents cl st orgID services
      in (services, sources, internal, readOK, partial))"

definition snapshot_id :: "health_env \<Rightarrow> string \<Rightarrow> Settings \<Rightarrow> time \<Rightarrow> string" where
  "snapshot_id env orgID settings now =
     he_sha env (orgID @ '':'' @ show_int (uint (se_Revision settings)) @ '':'' @ show_int (unix_of now) @ '':'' @
       show_int (se_WindowSeconds settings))"

definition build ::
  "Collector \<Rightarrow> health_env \<Rightarrow> memoryProvider option \<Rightarrow> string \<Rightarrow> Settings \<Rightarrow> time \<Rightarrow> WindowAggregate list \<Rightarrow> SourceStatus list \<Rightarrow>
   SnapshotEnvelope" where
  "build cl env st org settings now rows statuses =
     (let orgID = NormalizeOrgID org;
          (services, sources, internal, readOK, incidentPartial) = gather_services cl st orgID rows;
          statusBySource = fold (\<lambda>s m. gm_set m (so_SourceID s) s) statuses [];
          configured = sort (if cl_sourceIDs cl = [] then map fst statusBySource else cl_sourceIDs cl);
          window = se_WindowSeconds settings * second;
          assessed = map (assess_internal readOK incidentPartial internal \<circ> assess_logs configured sources statusBySource now window \<circ> snd)
            services;
          listed = sort_key sv_Service assessed;
          state = av_State (sourceAvailability configured statusBySource now window);
          partial = (incidentPartial \<or> list_ex (\<lambda>s. wa_Truncated (sv_Logs s)) listed \<or> length listed > MaxServicesPerSnapshot \<or>
            state = HealthPartial \<or> state = HealthError \<or> state = HealthStale);
          listed = take MaxServicesPerSnapshot listed;
          observed = filter (\<lambda>s. avail_state s ''logs'' = HealthReady \<or> avail_state s ''internal'' = HealthReady) listed;
          (attempt, success) = latestSourceTimes statuses
      in \<lparr>sn_SnapshotID = snapshot_id env orgID settings now, sn_GeneratedAt = now, sn_LatestAttempt = attempt,
          sn_LatestSuccess = success, sn_NextCollectionAt = now + se_IntervalSeconds settings * second,
          sn_SettingsRevision = se_Revision settings, sn_WindowSeconds = se_WindowSeconds settings, sn_Services = listed,
          sn_Domains = aggregateDomains listed, sn_Facets = severity_facets listed,
          sn_Coverage = \<lparr>cv_TotalServices = int (length services), cv_ObservedServices = int (length observed), cv_Partial = partial\<rparr>,
          sn_Capabilities = capabilities (configured \<noteq> []), sn_PendingSettings = None\<rparr>)"

end
