(* ===== verification/Health_Enrichment.thy ===== *)
theory Health_Enrichment
  imports Health_Collector
begin

text \<open>
  The second half of \<open>pkg/servicehealth/collector.go\<close>: the evidence of the providers is checked against the
  budget, the organisation, the services and the window, the best item per measure is kept, and the
  assessor's results are checked and merged; then the collection as a whole.
\<close>

subsection \<open>Floats and times\<close>

definition float_less :: "go_float \<Rightarrow> go_float \<Rightarrow> bool" where
  "float_less x y =
     (case x of
        NaN \<Rightarrow> False
      | PosInf \<Rightarrow> False
      | NegInf \<Rightarrow> y \<noteq> NaN \<and> y \<noteq> NegInf
      | Finite a \<Rightarrow> (case y of Finite b \<Rightarrow> a < b | PosInf \<Rightarrow> True | _ \<Rightarrow> False))"

definition float_le :: "go_float \<Rightarrow> go_float \<Rightarrow> bool" where
  "float_le x y \<longleftrightarrow> float_less x y \<or> x = y \<and> x \<noteq> NaN"

definition is_finite :: "go_float \<Rightarrow> bool" where
  "is_finite x \<longleftrightarrow> x \<noteq> NaN \<and> x \<noteq> PosInf \<and> x \<noteq> NegInf"

definition nonFinite :: "go_float option \<Rightarrow> bool" where
  "nonFinite v = (case v of None \<Rightarrow> False | Some x \<Rightarrow> \<not> is_finite x)"

text \<open>The format of \<open>time.RFC3339Nano\<close> in UTC.\<close>

definition format_nano :: "time \<Rightarrow> string" where
  "format_nano t =
     (case civil t of
        (y, m, d, h) \<Rightarrow>
          let ns = t mod second;
              frac = (if ns = 0 then [] else ''.'' @ rev (dropWhile (\<lambda>c. c = CHR ''0'') (rev (zero_pad 9 (show_nat (nat ns))))))
          in pad4 y @ ''-'' @ pad2 m @ ''-'' @ pad2 d @ ''T'' @ pad2 h @ '':'' @ pad2 (t mod hour div minute) @ '':'' @
             pad2 (t mod minute div second) @ frac @ ''Z'')"

subsection \<open>Checks\<close>

definition supportedEvidenceMeasure :: "string \<Rightarrow> string \<Rightarrow> bool" where
  "supportedEvidenceMeasure family gauge \<longleftrightarrow>
     (if family = ''metrics'' then gauge \<in> {''latency'', ''request_error_ratio'', ''throughput'', ''apdex''}
      else if family = ''traces'' then gauge \<in> {''latency'', ''request_error_ratio'', ''throughput'', ''request_context''}
      else if family = ''assessment'' then gauge \<in> {''regression_score'', ''silent''} else False)"

definition validHealthState :: "string \<Rightarrow> bool" where
  "validHealthState state \<longleftrightarrow> state \<in> {HealthReady, HealthPartial, HealthNotConfigured, HealthCollecting, HealthNoData,
     HealthUnsupported, HealthError, HealthStale, HealthRestricted}"

definition allowedActionID :: "string \<Rightarrow> string" where
  "allowedActionID a =
     (if a \<in> {''connect_metric_source'', ''review_metric_source'', ''connect_trace_source'', ''review_trace_source'',
        ''review_enterprise_capability''} then a else [])"

definition safeProviderReason :: "string \<Rightarrow> string" where
  "safeProviderReason reason =
     (if reason = [] then []
      else if reason \<in> {''authentication'', ''entitlement'', ''insufficient_baseline'', ''missing_distribution'',
        ''missing_service_attribution'', ''missing_target'', ''no_observations_in_window'', ''permission'', ''sampled_data'',
        ''source_not_configured'', ''stale_baseline'', ''timeout'', ''unsupported_measure'', ''zero_traffic''} then reason
      else ''provider_status_unavailable'')"

definition usageWithinBudget :: "HealthUsage \<Rightarrow> HealthBudget \<Rightarrow> bool" where
  "usageWithinBudget usage budget \<longleftrightarrow>
     us_Sources usage \<ge> 0 \<and> us_Requests usage \<ge> 0 \<and> us_Rows usage \<ge> 0 \<and> us_ResponseBytes usage \<ge> 0 \<and>
     us_LargestResponseBytes usage \<ge> 0 \<and> us_Sources usage \<le> MaxPremiumSources \<and> us_Requests usage \<le> hb_Requests budget \<and>
     us_Rows usage \<le> hb_Rows budget \<and> us_ResponseBytes usage \<le> hb_CumulativeBytes budget \<and>
     us_LargestResponseBytes usage \<le> hb_ResponseBytes budget \<and> us_LargestResponseBytes usage \<le> us_ResponseBytes usage \<and>
     (let sources = (if us_Sources usage = 0 then 1 else us_Sources usage)
      in us_Requests usage \<le> sources * hb_RequestsPerSource budget \<and> us_Rows usage \<le> sources * MaxRowsPerSource)"

definition usageCoversEvidence :: "HealthUsage \<Rightarrow> SignalEvidence list \<Rightarrow> bool" where
  "usageCoversEvidence usage evidence \<longleftrightarrow> evidence = [] \<or>
     us_Requests usage > 0 \<and> us_Rows usage \<ge> int (length evidence) \<and>
     us_Sources usage \<ge> int (length (remdups (map ev_SourceRef evidence)))"

definition evidenceWithinSourceBounds :: "SignalEvidence list \<Rightarrow> bool" where
  "evidenceWithinSourceBounds evidence \<longleftrightarrow>
     int (length (remdups (map ev_SourceRef evidence))) \<le> MaxPremiumSources \<and>
     list_all (\<lambda>e. int (count_list (map ev_SourceRef evidence) (ev_SourceRef e)) \<le> MaxRowsPerSource) evidence"

definition ratio_ok :: "SignalEvidence \<Rightarrow> bool" where
  "ratio_ok e \<longleftrightarrow>
     (if ev_Measure e = ''request_error_ratio'' \<and> ev_Numerator e = None \<and> ev_Denominator e = None
      then (case ev_Value e of None \<Rightarrow> True | Some v \<Rightarrow> \<not> float_less v (Finite 0) \<and> \<not> float_less (Finite 1) v)
      else
        case (ev_Numerator e, ev_Denominator e) of
          (None, None) \<Rightarrow> True
        | (Some n, Some d) \<Rightarrow> \<not> float_le d (Finite 0) \<and> \<not> float_less n (Finite 0) \<and> \<not> float_less d n
        | _ \<Rightarrow> False)"

definition validEvidence :: "SignalEvidence \<Rightarrow> string \<Rightarrow> (string, nat) gomap \<Rightarrow> time \<Rightarrow> time \<Rightarrow> bool" where
  "validEvidence e orgID services windowStart windowEnd \<longleftrightarrow>
     NormalizeOrgID (ev_OrgID e) = orgID \<and> ev_Service e \<noteq> [] \<and> length (ev_Service e) \<le> maxEvidenceIdentityBytes \<and>
     gm_has services (ev_Service e) \<and> length (ev_Operation e) \<le> maxEvidenceIdentityBytes \<and> ev_SourceRef e \<noteq> [] \<and>
     length (ev_SourceRef e) \<le> maxEvidenceIdentityBytes \<and> length (ev_SignalRef e) \<le> maxEvidenceIdentityBytes \<and>
     (ev_Family e = ''metrics'' \<or> ev_Family e = ''traces'') \<and> supportedEvidenceMeasure (ev_Family e) (ev_Measure e) \<and>
     validHealthState (av_State (ev_Availability e)) \<and>
     ev_WindowStart e = windowStart \<and> ev_WindowEnd e = windowEnd \<and> \<not> ev_ObservedAt e > windowEnd \<and>
     (av_State (ev_Availability e) \<noteq> HealthStale \<longrightarrow> \<not> ev_ObservedAt e < windowStart) \<and>
     \<not> nonFinite (ev_Value e) \<and> \<not> nonFinite (ev_Numerator e) \<and> \<not> nonFinite (ev_Denominator e) \<and>
     \<not> (av_State (ev_Availability e) = HealthReady \<and> ev_Value e = None \<and> (ev_Numerator e = None \<or> ev_Denominator e = None)) \<and>
     ratio_ok e"

definition evidenceKey :: "SignalEvidence \<Rightarrow> string" where
  "evidenceKey e = join_with nul [NormalizeOrgID (ev_OrgID e), ev_Service e, ev_Operation e, ev_Family e, ev_Measure e,
     format_nano (ev_WindowStart e), format_nano (ev_WindowEnd e)]"

definition assessmentInputKey :: "string \<Rightarrow> string \<Rightarrow> string \<Rightarrow> string \<Rightarrow> string \<Rightarrow> string \<Rightarrow> string \<Rightarrow> string" where
  "assessmentInputKey org service operation family gauge source signal =
     join_with nul [NormalizeOrgID org, service, operation, family, gauge, source, signal]"

definition evidence_input_key :: "SignalEvidence \<Rightarrow> string" where
  "evidence_input_key e = assessmentInputKey (ev_OrgID e) (ev_Service e) (ev_Operation e) (ev_Family e) (ev_Measure e)
     (ev_SourceRef e) (ev_SignalRef e)"

definition input_key :: "HealthAssessmentInput \<Rightarrow> string" where
  "input_key i = assessmentInputKey (ai_OrgID i) (ai_Service i) (ai_Operation i) (ai_Family i) (ai_Measure i)
     (ai_SourceRef i) (ai_SignalRef i)"

definition validAssessmentInputs ::
  "HealthAssessmentInput list \<Rightarrow> SignalEvidence list \<Rightarrow> string \<Rightarrow> (string, HealthAssessmentInput) gomap" where
  "validAssessmentInputs inputs evidence orgID =
     fold (\<lambda>i validated.
        if NormalizeOrgID (ai_OrgID i) \<noteq> orgID \<or> \<not> is_finite (ai_ExpectedMean i) \<or> \<not> is_finite (ai_ExpectedStd i) \<or>
           float_less (ai_ExpectedStd i) (Finite 0) \<or> ai_ObservationCount i < 0 \<or> ai_MaturityThreshold i < 0 then validated
        else if input_key i \<notin> set (map evidence_input_key evidence) then validated
        else if gm_has validated (input_key i) then validated
        else gm_set validated (input_key i) i) inputs []"

record evidenceCandidate =
  cd_evidence :: SignalEvidence
  cd_input :: "HealthAssessmentInput option"
  cd_providerOrder :: nat

definition preferEvidence :: "evidenceCandidate \<Rightarrow> evidenceCandidate \<Rightarrow> bool" where
  "preferEvidence candidate current =
     (let a = cd_evidence candidate; b = cd_evidence current;
          readyA = (av_State (ev_Availability a) = HealthReady); readyB = (av_State (ev_Availability b) = HealthReady)
      in if readyA \<noteq> readyB then readyA
         else if ev_FreshUntil a \<noteq> ev_FreshUntil b then ev_FreshUntil a > ev_FreshUntil b
         else if ev_ObservedAt a \<noteq> ev_ObservedAt b then ev_ObservedAt a > ev_ObservedAt b
         else if cd_providerOrder candidate \<noteq> cd_providerOrder current then cd_providerOrder candidate < cd_providerOrder current
         else ev_SourceRef a < ev_SourceRef b)"

subsection \<open>Capabilities\<close>

definition sanitize_measures :: "string \<Rightarrow> availability \<Rightarrow> availability" where
  "sanitize_measures family gauges =
     map (\<lambda>(measure, a). (measure, a\<lparr>av_ActionID := allowedActionID (av_ActionID a), av_ReasonCode := safeProviderReason (av_ReasonCode a)\<rparr>))
       (gm_filter (\<lambda>measure a. supportedEvidenceMeasure family measure \<and> validHealthState (av_State a)) gauges)"

definition sanitizeCapabilities :: "HealthCapability list \<Rightarrow> HealthCapability list" where
  "sanitizeCapabilities caps =
     filter (\<lambda>c. ca_Measures c \<noteq> [])
       (map (\<lambda>c. c\<lparr>ca_Measures := sanitize_measures (ca_Family c) (ca_Measures c)\<rparr>)
          (filter (\<lambda>c. ca_Family c = ''metrics'' \<or> ca_Family c = ''traces'') caps))"

definition combineCapabilityAvailability :: "MeasureAvailability \<Rightarrow> MeasureAvailability \<Rightarrow> MeasureAvailability" where
  "combineCapabilityAvailability current next =
     (if av_State current = av_State next then (if av_ReasonCode current = [] then current else next)
      else if av_State current = HealthReady \<and> (av_State next = HealthError \<or> av_State next = HealthPartial) \<or>
        av_State next = HealthReady \<and> (av_State current = HealthError \<or> av_State current = HealthPartial)
      then measure_state HealthPartial ''provider_partial''
      else next)"

definition merge_measure :: "string \<times> MeasureAvailability \<Rightarrow> availability \<Rightarrow> availability" where
  "merge_measure = (\<lambda>(measure, a) gauges.
     case gm_get gauges measure of
       None \<Rightarrow> gm_set gauges measure a
     | Some current \<Rightarrow> gm_set gauges measure
         (if av_State current = HealthRestricted then a else combineCapabilityAvailability current a))"

text \<open>An addition goes into the first capability of its family, or a new one.\<close>

fun merge_capability :: "HealthCapability \<Rightarrow> HealthCapability list \<Rightarrow> HealthCapability list" where
  "merge_capability addition [] = [\<lparr>ca_Family = ca_Family addition, ca_Measures = fold merge_measure (ca_Measures addition) []\<rparr>]"
| "merge_capability addition (c # cs) =
     (if ca_Family c = ca_Family addition
      then c\<lparr>ca_Measures := fold merge_measure (ca_Measures addition) (ca_Measures c)\<rparr> # cs
      else c # merge_capability addition cs)"

definition mergeCapabilities :: "HealthCapability list \<Rightarrow> SnapshotEnvelope \<Rightarrow> SnapshotEnvelope" where
  "mergeCapabilities additions snapshot =
     snapshot\<lparr>sn_Capabilities := sort_key ca_Family (fold merge_capability additions (sn_Capabilities snapshot))\<rparr>"

definition markProviderCapabilities :: "HealthCapability list \<Rightarrow> string \<Rightarrow> string \<Rightarrow> SnapshotEnvelope \<Rightarrow> SnapshotEnvelope" where
  "markProviderCapabilities caps state reason =
     mergeCapabilities (map (\<lambda>c. c\<lparr>ca_Measures := map (\<lambda>(measure, a). (measure,
       \<lparr>av_State = state, av_ReasonCode = reason,
        av_ActionID = (if ca_Family c = ''traces'' then ''review_trace_source'' else ''review_metric_source'')\<rparr>)) (ca_Measures c)\<rparr>) caps)"

definition set_partial :: "SnapshotEnvelope \<Rightarrow> SnapshotEnvelope" where
  "set_partial snapshot = snapshot\<lparr>sn_Coverage := (sn_Coverage snapshot)\<lparr>cv_Partial := True\<rparr>\<rparr>"

subsection \<open>Evidence\<close>

type_synonym candidates = "(string, evidenceCandidate) gomap"

text \<open>The window and the services the evidence is checked against.\<close>

record evidence_scope =
  es_OrgID :: string
  es_services :: "(string, nat) gomap"
  es_windowStart :: time
  es_windowEnd :: time

definition safe_evidence :: "SignalEvidence \<Rightarrow> SignalEvidence" where
  "safe_evidence e = e\<lparr>ev_Availability := (ev_Availability e)\<lparr>av_ActionID := allowedActionID (av_ActionID (ev_Availability e)),
     av_ReasonCode := safeProviderReason (av_ReasonCode (ev_Availability e))\<rparr>\<rparr>"

definition add_evidence ::
  "evidence_scope \<Rightarrow> (string, HealthAssessmentInput) gomap \<Rightarrow> nat \<Rightarrow> SignalEvidence \<Rightarrow> SnapshotEnvelope \<times> candidates \<Rightarrow>
   SnapshotEnvelope \<times> candidates" where
  "add_evidence scope inputs order e = (\<lambda>(snapshot, candidates).
     if \<not> validEvidence e (es_OrgID scope) (es_services scope) (es_windowStart scope) (es_windowEnd scope)
     then (set_partial snapshot, candidates)
     else
       let e = safe_evidence e; key = evidenceKey e;
           candidate = \<lparr>cd_evidence = e, cd_input = gm_get inputs (evidence_input_key e), cd_providerOrder = order\<rparr>
       in case gm_get candidates key of
            Some current \<Rightarrow> (snapshot, if preferEvidence candidate current then gm_set candidates key candidate else candidates)
          | None \<Rightarrow> (snapshot, gm_set candidates key candidate))"

definition charge :: "HealthUsage \<Rightarrow> HealthBudget \<Rightarrow> HealthBudget" where
  "charge usage budget = budget\<lparr>hb_Requests := hb_Requests budget - us_Requests usage, hb_Rows := hb_Rows budget - us_Rows usage,
     hb_CumulativeBytes := hb_CumulativeBytes budget - us_ResponseBytes usage\<rparr>"

definition provider_step ::
  "evidence_scope \<Rightarrow> (HealthBudget \<Rightarrow> HealthCollectRequest) \<Rightarrow> nat \<times> HealthProvider option \<Rightarrow>
   SnapshotEnvelope \<times> HealthBudget \<times> candidates \<Rightarrow> SnapshotEnvelope \<times> HealthBudget \<times> candidates" where
  "provider_step scope request = (\<lambda>(order, provider) (snapshot, remaining, candidates).
     case provider of
       None \<Rightarrow> (set_partial snapshot, remaining, candidates)
     | Some p \<Rightarrow>
         if hb_Requests remaining = 0 \<or> hb_Rows remaining = 0 \<or> hb_CumulativeBytes remaining = 0
         then (set_partial snapshot, remaining, candidates)
         else
           let caps = (case pr_Capabilities p (es_OrgID scope) of None \<Rightarrow> [] | Some cs \<Rightarrow> sanitizeCapabilities cs)
           in case pr_Collect p (request remaining) of
                None \<Rightarrow> (set_partial (markProviderCapabilities caps HealthError ''provider_error'' snapshot), remaining, candidates)
              | Some collection \<Rightarrow>
                  let usage = hc_Usage collection; evidence = hc_Evidence collection
                  in if \<not> usageWithinBudget usage remaining \<or> \<not> usageCoversEvidence usage evidence
                     then (set_partial (markProviderCapabilities caps HealthPartial ''provider_budget_exceeded'' snapshot),
                           remaining, candidates)
                     else
                       let snapshot = (if hc_Partial collection then set_partial snapshot else snapshot);
                           inputs = validAssessmentInputs (hc_AssessmentInputs collection) evidence (es_OrgID scope);
                           remaining = charge usage remaining
                       in if int (length evidence) > hb_Rows remaining + us_Rows usage \<or> \<not> evidenceWithinSourceBounds evidence
                          then (set_partial (markProviderCapabilities caps HealthPartial ''provider_budget_exceeded'' snapshot),
                                remaining, candidates)
                          else
                            let snapshot = mergeCapabilities caps snapshot;
                                (snapshot, candidates) = fold (add_evidence scope inputs order) evidence (snapshot, candidates)
                            in (snapshot, remaining, candidates))"

definition appendAssessmentBasis :: "string \<Rightarrow> string \<Rightarrow> string" where
  "appendAssessmentBasis basis family =
     (let label = (if family = ''metrics'' then ''Metrics'' else if family = ''traces'' then ''Traces'' else [])
      in if label = [] then basis
         else if label \<in> set (split_at plus_sep [] basis) then basis
         else if basis = [] then label
         else basis @ plus_sep @ label)"

definition update_service :: "nat \<Rightarrow> (ServiceSnapshot \<Rightarrow> ServiceSnapshot) \<Rightarrow> SnapshotEnvelope \<Rightarrow> SnapshotEnvelope" where
  "update_service i f snapshot = snapshot\<lparr>sn_Services := (sn_Services snapshot)[i := f (sn_Services snapshot ! i)]\<rparr>"

record selection =
  sl_snapshot :: SnapshotEnvelope
  sl_perService :: "(string, nat) gomap"
  sl_capabilities :: "(string, availability) gomap"
  sl_validated :: "SignalEvidence list"
  sl_inputs :: "HealthAssessmentInput list"

text \<open>The service of a candidate is known: its evidence was valid.\<close>

definition attach_evidence :: "SignalEvidence \<Rightarrow> ServiceSnapshot \<Rightarrow> ServiceSnapshot" where
  "attach_evidence e s = (set_avail (ev_Family e @ ''.'' @ ev_Measure e) (ev_Availability e) s)
     \<lparr>sv_Evidence := sv_Evidence s @ [e], sv_AssessmentBasis := appendAssessmentBasis (sv_AssessmentBasis s) (ev_Family e)\<rparr>"

definition select_evidence :: "evidence_scope \<Rightarrow> evidenceCandidate \<Rightarrow> selection \<Rightarrow> selection" where
  "select_evidence scope candidate sel =
     (let e = cd_evidence candidate
      in if gm_get0 0 (sl_perService sel) (ev_Service e) \<ge> MaxEvidencePerService
         then sel\<lparr>sl_snapshot := set_partial (sl_snapshot sel)\<rparr>
         else
           sel\<lparr>sl_perService := gm_set (sl_perService sel) (ev_Service e) (gm_get0 0 (sl_perService sel) (ev_Service e) + 1),
             sl_snapshot := update_service (gm_get0 0 (es_services scope) (ev_Service e)) (attach_evidence e) (sl_snapshot sel),
             sl_capabilities := gm_set (sl_capabilities sel) (ev_Family e)
               (gm_set (gm_get0 [] (sl_capabilities sel) (ev_Family e)) (ev_Measure e) (ev_Availability e)),
             sl_validated := sl_validated sel @ [e],
             sl_inputs := sl_inputs sel @ (case cd_input candidate of None \<Rightarrow> [] | Some i \<Rightarrow> [i])\<rparr>)"

subsection \<open>Assessments\<close>

definition supportedAssessmentDriver :: "string \<Rightarrow> string \<Rightarrow> bool" where
  "supportedAssessmentDriver family gauge \<longleftrightarrow>
     (if family = ''logs'' then gauge \<in> {''activity'', ''patterns'', ''anomalies''}
      else if family = ''internal'' then gauge \<in> {''incidents'', ''patterns''}
      else supportedEvidenceMeasure family gauge \<and> family \<noteq> ''assessment'')"

definition silent_ok :: "HealthAssessment \<Rightarrow> ServiceSnapshot \<Rightarrow> bool" where
  "silent_ok a s \<longleftrightarrow>
     (case as_Silent a of
        None \<Rightarrow> True
      | Some silent \<Rightarrow>
          (case sv_ActiveIncidents s of
             None \<Rightarrow> False
           | Some n \<Rightarrow> \<not> (silent \<and> (n \<noteq> 0 \<or> \<not> as_AlertStateKnown a)) \<and> \<not> (\<not> silent \<and> n = 0 \<and> \<not> as_AlertStateKnown a)))"

definition validAssessment :: "HealthAssessment \<Rightarrow> string \<Rightarrow> ServiceSnapshot \<Rightarrow> time \<Rightarrow> bool" where
  "validAssessment a orgID s windowEnd \<longleftrightarrow>
     NormalizeOrgID (as_OrgID a) = orgID \<and> as_Service a = sv_Service s \<and> as_AlgorithmVersion a \<noteq> [] \<and>
     is_finite (as_Confidence a) \<and> \<not> float_less (as_Confidence a) (Finite 0) \<and> \<not> float_less (Finite 1) (as_Confidence a) \<and>
     \<not> nonFinite (as_RegressionScore a) \<and>
     (case as_RegressionScore a of None \<Rightarrow> True | Some v \<Rightarrow> \<not> float_less v (Finite 0) \<and> \<not> float_less (Finite 100) v) \<and>
     \<not> ((as_RegressionScore a = None \<or> as_Silent a = None) \<and> as_ReasonCode a = []) \<and>
     (as_ReasonCode a = [] \<or> as_ReasonCode a \<in> {''alert_state_unknown'', ''baseline_regression'', ''incident_state_unknown'',
        ''incompatible_baseline'', ''insufficient_baseline'', ''low_confidence'', ''no_regression'', ''score_withheld'', ''stale_baseline''}) \<and>
     as_AssessedAt a \<noteq> zero_time \<and> \<not> as_AssessedAt a > windowEnd \<and>
     \<not> (as_FreshUntil a \<noteq> zero_time \<and> as_FreshUntil a < as_AssessedAt a) \<and> silent_ok a s \<and>
     \<not> (as_Severity a \<noteq> [] \<and> severityRank (as_Severity a) = 0) \<and>
     list_all (\<lambda>family. family \<in> {''logs'', ''internal'', ''metrics'', ''traces''}) (as_IncludedFamilies a) \<and>
     list_all (\<lambda>d. supportedAssessmentDriver (dr_Family d) (dr_Measure d) \<and> is_finite (dr_Weight d)) (as_Drivers a)"

definition apply_assessment :: "HealthAssessment \<Rightarrow> ServiceSnapshot \<Rightarrow> ServiceSnapshot" where
  "apply_assessment a s =
     (let s = s\<lparr>sv_Assessment := Some a\<rparr>
      in if as_RaiseSeverity a \<and> severityRank (as_Severity a) > severityRank (sv_Severity s)
         then s\<lparr>sv_BaseSeverity := sv_Severity s, sv_Severity := as_Severity a\<rparr> else s)"

definition assessment_step :: "evidence_scope \<Rightarrow> HealthAssessment \<Rightarrow> SnapshotEnvelope \<Rightarrow> SnapshotEnvelope" where
  "assessment_step scope a snapshot =
     (case gm_get (es_services scope) (as_Service a) of
        None \<Rightarrow> set_partial snapshot
      | Some i \<Rightarrow>
          if \<not> validAssessment a (es_OrgID scope) (sn_Services snapshot ! i) (es_windowEnd scope) then set_partial snapshot
          else update_service i (apply_assessment a) snapshot)"

definition assessment_capability :: "MeasureAvailability \<Rightarrow> MeasureAvailability \<Rightarrow> HealthCapability" where
  "assessment_capability score silent = \<lparr>ca_Family = ''assessment'', ca_Measures = [(''regression_score'', score), (''silent'', silent)]\<rparr>"

definition mergeAssessmentCapabilities :: "SnapshotEnvelope \<Rightarrow> SnapshotEnvelope" where
  "mergeAssessmentCapabilities snapshot =
     (let assessments = List.map_filter sv_Assessment (sn_Services snapshot);
          withheld = measure_state HealthNoData ''assessment_withheld'';
          ready = measure_state HealthReady []
      in mergeCapabilities [assessment_capability (if list_ex (\<lambda>a. as_RegressionScore a \<noteq> None) assessments then ready else withheld)
           (if list_ex (\<lambda>a. as_Silent a \<noteq> None) assessments then ready else withheld)] snapshot)"

definition bump :: "string \<Rightarrow> (string, int) gomap \<Rightarrow> (string, int) gomap" where
  "bump key facets = gm_set facets key (gm_get0 0 facets key + 1)"

definition count_facets :: "ServiceSnapshot \<Rightarrow> (string, int) gomap \<Rightarrow> (string, int) gomap" where
  "count_facets s facets =
     (let facets = bump (sv_Severity s) facets
      in case sv_Assessment s of
           None \<Rightarrow> facets
         | Some a \<Rightarrow>
             let facets = (if as_Regressing a then bump ''regressing'' facets else facets)
             in if as_Silent a = Some True then bump ''silent_regressions'' facets else facets)"

definition recomputeDerived :: "SnapshotEnvelope \<Rightarrow> SnapshotEnvelope" where
  "recomputeDerived snapshot = snapshot\<lparr>sn_Domains := aggregateDomains (sn_Services snapshot),
     sn_Facets := fold count_facets (sn_Services snapshot) []\<rparr>"

definition assess ::
  "Collector \<Rightarrow> evidence_scope \<Rightarrow> SignalEvidence list \<Rightarrow> HealthAssessmentInput list \<Rightarrow> SnapshotEnvelope \<Rightarrow> SnapshotEnvelope" where
  "assess cl scope evidence inputs snapshot =
     (case cl_assessor cl of
        None \<Rightarrow> snapshot
      | Some assessor \<Rightarrow>
          (case assessor \<lparr>aq_OrgID = es_OrgID scope, aq_WindowStart = es_windowStart scope, aq_WindowEnd = es_windowEnd scope,
                 aq_Evidence = evidence, aq_Inputs = inputs, aq_Services = sn_Services snapshot\<rparr> of
             None \<Rightarrow>
               let failed = measure_state HealthError ''assessor_error''
               in set_partial (mergeCapabilities [assessment_capability failed failed] snapshot)
           | Some assessments \<Rightarrow>
               recomputeDerived (mergeAssessmentCapabilities (fold (assessment_step scope) assessments snapshot))))"

subsection \<open>Collecting\<close>

definition service_index :: "ServiceSnapshot list \<Rightarrow> (string, nat) gomap" where
  "service_index services = fold (\<lambda>(i, s) m. gm_set m (sv_Service s) i) (zip [0..<length services] services) []"

definition start_budget :: HealthBudget where
  "start_budget = \<lparr>hb_Requests = MaxExternalRequests, hb_RequestsPerSource = MaxRequestsPerSource,
     hb_Rows = MaxRowsPerSource * MaxPremiumSources, hb_ResponseBytes = MaxResponseBytes,
     hb_CumulativeBytes = MaxCumulativeBytes, hb_Concurrency = MaxConcurrency\<rparr>"

definition provider_timeout :: "Settings \<Rightarrow> duration" where
  "provider_timeout settings =
     (let limit = se_IntervalSeconds settings * second - 5 * second in if limit < 25 * second then limit else 25 * second)"

definition enrich :: "Collector \<Rightarrow> string \<Rightarrow> Settings \<Rightarrow> SnapshotEnvelope \<Rightarrow> SnapshotEnvelope" where
  "enrich cl orgID settings snapshot =
     (if cl_providers cl = [] \<and> cl_assessor cl = None then snapshot
      else
        let windowEnd = sn_GeneratedAt snapshot;
            windowStart = windowEnd - se_WindowSeconds settings * second;
            scope = \<lparr>es_OrgID = orgID, es_services = service_index (sn_Services snapshot), es_windowStart = windowStart,
              es_windowEnd = windowEnd\<rparr>;
            serviceIDs = map sv_Service (sn_Services snapshot)
        in if serviceIDs = [] then snapshot
           else
             let tooMany = int (length (cl_providerSourceIDs cl)) > MaxPremiumSources;
                 sourceIDs = take (nat MaxPremiumSources) (cl_providerSourceIDs cl);
                 request = (\<lambda>remaining. \<lparr>rq_OrgID = orgID, rq_SourceIDs = sourceIDs, rq_ServiceIDs = serviceIDs,
                   rq_WindowStart = windowStart, rq_WindowEnd = windowEnd, rq_Deadline = cl_deadline cl (provider_timeout settings),
                   rq_Budget = remaining\<rparr>);
                 (snapshot, remaining, candidates) = fold (provider_step scope request)
                   (zip [0..<length (cl_providers cl)] (cl_providers cl))
                   (if tooMany then set_partial snapshot else snapshot, start_budget, []);
                 selected = sort_key (\<lambda>c. evidenceKey (cd_evidence c) @ nul @ ev_SourceRef (cd_evidence c)) (map snd candidates);
                 sel = fold (select_evidence scope) selected
                   \<lparr>sl_snapshot = snapshot, sl_perService = [], sl_capabilities = [], sl_validated = [], sl_inputs = []\<rparr>;
                 additions = map (\<lambda>(family, gauges). \<lparr>ca_Family = family, ca_Measures = gauges\<rparr>) (sl_capabilities sel)
             in assess cl scope (sl_validated sel) (sl_inputs sel) (mergeCapabilities additions (sl_snapshot sel)))"

definition access_granted :: "Collector \<Rightarrow> string \<Rightarrow> bool" where
  "access_granted cl orgID =
     (case cl_enrichmentAccess cl of None \<Rightarrow> True | Some access \<Rightarrow> (case access orgID of None \<Rightarrow> False | Some granted \<Rightarrow> granted))"

definition make_snapshot ::
  "Collector \<Rightarrow> health_env \<Rightarrow> memoryProvider option \<Rightarrow> string \<Rightarrow> Settings \<Rightarrow> time \<Rightarrow> WindowAggregate list \<Rightarrow> SourceStatus list \<Rightarrow>
   SnapshotEnvelope" where
  "make_snapshot cl env st orgID settings windowEnd rows statuses =
     (let snapshot = enrich cl orgID settings (build cl env st orgID settings windowEnd rows statuses)
      in if access_granted cl orgID then snapshot else stripAccessControlledSnapshot snapshot)"

text \<open>The environments are those of the three operations on the store, one after the other.\<close>

definition Collect ::
  "Collector \<Rightarrow> health_env \<times> health_env \<times> health_env \<Rightarrow> history_codec \<Rightarrow> string \<Rightarrow> pending_map \<Rightarrow> memoryProvider option \<Rightarrow>
   (health_error + SnapshotEnvelope) \<times> pending_map \<times> memoryProvider option" where
  "Collect cl envs codec orgID p st =
     (case envs of
        (env1, env2, env3) \<Rightarrow>
          (case LoadSettings env1 orgID st of
             Inl err \<Rightarrow> (Inl err, p, st)
           | Inr settings \<Rightarrow>
               let interval = se_IntervalSeconds settings * second;
                   windowEnd = (if interval \<le> 0 then cl_now cl else cl_now cl - cl_now cl mod interval)
               in case QueryWindow env2 orgID windowEnd (se_WindowSeconds settings * second) p st of
                    (Inl err, p, st) \<Rightarrow> (Inl err, p, st)
                  | (Inr (rows, statuses), p, st) \<Rightarrow>
                      let snapshot = make_snapshot cl env2 st orgID settings windowEnd rows statuses
                      in case SaveSnapshot env3 codec orgID snapshot st of
                           (Some err, st) \<Rightarrow> (Inl err, p, st)
                         | (None, st) \<Rightarrow> (Inr snapshot, p, st)))"

subsection \<open>The scheduled job\<close>

text \<open>
  The organisations to collect (\<open>organizations.go\<close>): the lister is missing, fails, or lists some. The job
  (\<open>runtime.go\<close>) collects one after the other, each in environments of its own, and goes on after an error.
\<close>

definition add_organization :: "string \<Rightarrow> string list \<Rightarrow> string list" where
  "add_organization org orgs = (let org = NormalizeOrgID org in if org \<in> set orgs then orgs else orgs @ [org])"

definition Organizations :: "string list option option \<Rightarrow> string list option" where
  "Organizations lister =
     (case lister of
        None \<Rightarrow> Some [DefaultOrgID]
      | Some None \<Rightarrow> None
      | Some (Some listed) \<Rightarrow> Some (fold add_organization listed [DefaultOrgID]))"

definition ResolveInterval :: "health_env \<Rightarrow> string list option option \<Rightarrow> memoryProvider option \<Rightarrow> duration" where
  "ResolveInterval env lister st =
     (case Organizations lister of
        None \<Rightarrow> se_IntervalSeconds DefaultSettings * second
      | Some orgs \<Rightarrow>
          fold (\<lambda>org interval.
             case LoadSettings env org st of
               Inl err \<Rightarrow> interval
             | Inr settings \<Rightarrow> if se_IntervalSeconds settings * second < interval then se_IntervalSeconds settings * second else interval)
            orgs (se_IntervalSeconds DefaultSettings * second))"

fun collect_all ::
  "Collector \<Rightarrow> (string \<Rightarrow> health_env \<times> health_env \<times> health_env) \<Rightarrow> history_codec \<Rightarrow> string list \<Rightarrow> pending_map \<Rightarrow>
   memoryProvider option \<Rightarrow> (string \<times> health_error) list \<times> pending_map \<times> memoryProvider option" where
  "collect_all cl envs codec [] p st = ([], p, st)"
| "collect_all cl envs codec (org # orgs) p st =
     (let (res, p, st) = Collect cl (envs org) codec org p st;
          (errs, rest) = collect_all cl envs codec orgs p st
      in (case res of Inl err \<Rightarrow> (org, err) # errs | Inr s \<Rightarrow> errs, rest))"

definition run_job ::
  "Collector \<Rightarrow> (string \<Rightarrow> health_env \<times> health_env \<times> health_env) \<Rightarrow> history_codec \<Rightarrow> string list option option \<Rightarrow> pending_map \<Rightarrow>
   memoryProvider option \<Rightarrow> (string \<times> health_error) list option \<times> pending_map \<times> memoryProvider option" where
  "run_job cl envs codec lister p st =
     (case Organizations lister of
        None \<Rightarrow> (None, p, st)
      | Some orgs \<Rightarrow> (case collect_all cl envs codec orgs p st of (errs, p, st) \<Rightarrow> (Some errs, p, st)))"

lemma Organizations_distinct:
  assumes "Organizations lister = Some orgs"
  shows "distinct orgs \<and> DefaultOrgID \<in> set orgs"
proof -
  have "distinct orgs' \<Longrightarrow> distinct (fold add_organization listed orgs') \<and> set orgs' \<subseteq> set (fold add_organization listed orgs')"
    for listed orgs'
  proof (induction listed arbitrary: orgs')
    case (Cons a listed)
    have "distinct (add_organization a orgs') \<and> set orgs' \<subseteq> set (add_organization a orgs')"
      using Cons.prems by (auto simp: add_organization_def Let_def)
    with Cons.IH [of "add_organization a orgs'"] show ?case by auto
  qed simp
  from this [of "[DefaultOrgID]"] assms show ?thesis by (auto simp: Organizations_def split: option.splits)
qed

end
