(* ===== verification/Health_Access.thy ===== *)
theory Health_Access
  imports Health_Enrichment "HOL-Library.Multiset"
begin

text \<open>
  What a snapshot shows to whom: without access to the enrichment a snapshot is the one that would have
  been collected without providers and assessor; a read through a projection shows the organisation's
  own rows; and what is saved is what the next read finds.
\<close>

subsection \<open>Splitting and joining\<close>

lemma prefix_plus: "prefix plus_sep (c # s) \<Longrightarrow> c = CHR '' ''"
  by (simp add: plus_sep_def)

definition no_plus :: "string \<Rightarrow> bool" where
  "no_plus s \<longleftrightarrow> CHR ''+'' \<notin> set s"






definition basis_ok :: "string \<Rightarrow> bool" where
  "basis_ok basis \<longleftrightarrow> (\<exists>parts. parts \<noteq> [] \<and> list_all no_plus parts \<and> basis = join_with plus_sep parts)"


lemma join_eq_Nil: "list_all no_plus parts \<Longrightarrow> parts \<noteq> [] \<Longrightarrow> join_with plus_sep parts = [] \<Longrightarrow> parts = [[]]"
  by (induction plus_sep parts rule: join_with.induct) (auto simp: plus_sep_def)


subsection \<open>What stripping leaves\<close>

text \<open>The services as stripped, the capabilities of the base families in any order, and the other fields.\<close>

definition base_family :: "HealthCapability \<Rightarrow> bool" where
  "base_family c \<longleftrightarrow> ca_Family c \<notin> {''metrics'', ''traces'', ''assessment''}"

definition frame :: "SnapshotEnvelope \<Rightarrow> SnapshotEnvelope" where
  "frame s = s\<lparr>sn_Services := [], sn_Domains := [], sn_Facets := [], sn_Capabilities := [],
     sn_Coverage := (sn_Coverage s)\<lparr>cv_Partial := False\<rparr>\<rparr>"

definition same_base :: "SnapshotEnvelope \<Rightarrow> SnapshotEnvelope \<Rightarrow> bool" where
  "same_base s s' \<longleftrightarrow> map strip_service (sn_Services s) = map strip_service (sn_Services s') \<and>
     mset (filter base_family (sn_Capabilities s)) = mset (filter base_family (sn_Capabilities s')) \<and> frame s = frame s'"


lemma same_base_refl [simp]: "same_base s s"
  by (simp add: same_base_def)

lemma same_base_trans: "same_base s s' \<Longrightarrow> same_base s' s'' \<Longrightarrow> same_base s s''"
  by (simp add: same_base_def)


subsection \<open>Enrichment changes nothing that is left\<close>

definition plain_service :: "ServiceSnapshot \<Rightarrow> bool" where
  "plain_service s \<longleftrightarrow> basis_ok (sv_AssessmentBasis s) \<and> sv_Availability s \<noteq> None \<and> sv_Severity s \<noteq> [] \<and> sv_BaseSeverity s = []"


definition names :: "SnapshotEnvelope \<Rightarrow> string list" where
  "names s = map sv_Service (sn_Services s)"

text \<open>What a step that only adds enrichment keeps.\<close>

definition adds_only :: "SnapshotEnvelope \<Rightarrow> SnapshotEnvelope \<Rightarrow> bool" where
  "adds_only s s' \<longleftrightarrow> same_base s' s \<and> names s' = names s \<and> (list_all plain_service (sn_Services s) \<longrightarrow> list_all plain_service (sn_Services s'))"

lemma adds_only_refl [simp]: "adds_only s s"
  by (simp add: adds_only_def)

lemma adds_only_trans: "adds_only s s' \<Longrightarrow> adds_only s' s'' \<Longrightarrow> adds_only s s''"
  by (auto simp: adds_only_def intro: same_base_trans)

lemma fold_adds_only:
  assumes "\<And>x acc. x \<in> set xs \<Longrightarrow> adds_only (f acc) (f (step x acc))"
  shows "adds_only (f acc) (f (fold step xs acc))"
  using assms
proof (induction xs arbitrary: acc)
  case (Cons x xs)
  have "adds_only (f acc) (f (step x acc))" using Cons.prems by simp
  moreover have "adds_only (f (step x acc)) (f (fold step xs (step x acc)))" using Cons.prems by (intro Cons.IH) auto
  ultimately show ?case using adds_only_trans by simp
qed simp

text \<open>A step that only marks the coverage and the capabilities.\<close>

definition notes_only :: "SnapshotEnvelope \<Rightarrow> SnapshotEnvelope \<Rightarrow> bool" where
  "notes_only s s' \<longleftrightarrow> same_base s' s \<and> sn_Services s' = sn_Services s"

lemma notes_only_refl [simp]: "notes_only s s"
  by (simp add: notes_only_def)

















lemma safe_evidence_simps [simp]:
  "ev_OrgID (safe_evidence e) = ev_OrgID e" "ev_Service (safe_evidence e) = ev_Service e"
  "ev_Family (safe_evidence e) = ev_Family e" "ev_SourceRef (safe_evidence e) = ev_SourceRef e"
  by (simp_all add: safe_evidence_def)





subsection \<open>Selection and assessment\<close>










lemma apply_assessment_service [simp]: "sv_Service (apply_assessment a s) = sv_Service s"
  by (simp add: apply_assessment_def Let_def)











subsection \<open>What a build makes\<close>
















subsection \<open>Scope\<close>

definition scoped :: "string \<Rightarrow> SnapshotEnvelope \<Rightarrow> bool" where
  "scoped orgID s \<longleftrightarrow> list_all (service_in_scope orgID) (sn_Services s)"

lemma scoped_simps [simp]:
  "scoped orgID (set_partial s) = scoped orgID s" "scoped orgID (mergeCapabilities adds s) = scoped orgID s"
  "scoped orgID (markProviderCapabilities caps state reason s) = scoped orgID s"
  "scoped orgID (recomputeDerived s) = scoped orgID s" "scoped orgID (mergeAssessmentCapabilities s) = scoped orgID s"
  by (simp_all add: scoped_def set_partial_def mergeCapabilities_def markProviderCapabilities_def recomputeDerived_def
      mergeAssessmentCapabilities_def Let_def)





lemma names_simps [simp]:
  "names (set_partial s) = names s" "names (mergeCapabilities adds s) = names s"
  by (simp_all add: names_def set_partial_def mergeCapabilities_def)









subsection \<open>Saving\<close>

definition history_codec_ok :: "history_codec \<Rightarrow> bool" where
  "history_codec_ok codec \<longleftrightarrow> (\<forall>h data. hc_enc codec h = Some data \<longrightarrow> data \<noteq> [] \<and> hc_dec codec data = Some h)"

lemma fit_history_suffix:
  "fit_history codec hs = Inr data \<Longrightarrow>
    \<exists>h. suffix h hs \<and> hc_enc codec h = Some data \<and> length data \<le> MaxSnapshotBytes \<and> (hs \<noteq> [] \<longrightarrow> h \<noteq> [])"
proof (induction codec hs rule: fit_history.induct)
  case (1 codec)
  then show ?case by (auto split: option.splits if_splits)
next
  case (2 codec s ss)
  show ?case
  proof (cases "hc_enc codec (s # ss)")
    case (Some whole)
    show ?thesis
    proof (cases "length whole \<le> MaxSnapshotBytes")
      case True
      then show ?thesis using 2(2) Some by (intro exI [of _ "s # ss"]) simp
    next
      case False
      then have "fit_history codec ss = Inr data" "ss \<noteq> []" using 2(2) Some by (simp_all split: if_splits)
      then show ?thesis using 2(1) [OF Some False] by (meson suffix_ConsI)
    qed
  next
    case None
    then show ?thesis using 2(2) by simp
  qed
qed

lemma cas_set:
  "CompareAndSwapBlob now key (ReadBlob m key) (Some data) m = (True, WriteBlob now key data m)"
  by (simp add: CompareAndSwapBlob_def ReadBlob_def WriteBlob_def Let_def split: option.split)

lemma cas_some:
  assumes "CompareAndSwapBlob now key expected (Some data) m = (swapped, m')"
  shows "if swapped then expected = ReadBlob m key \<and> m' = WriteBlob now key data m else m' = m"
proof (cases swapped)
  case True
  then have "ReadBlob m key = expected" using assms CAS_success [of now key expected "Some data" m] by simp
  then show ?thesis using assms cas_set [of now key m data] True by auto
next
  case False
  then show ?thesis using assms CAS_fail [of now key expected "Some data" m] by simp
qed

text \<open>A save leaves the store to the others, or it extends the history it finds there.\<close>

definition saved :: "health_env \<Rightarrow> history_codec \<Rightarrow> string \<Rightarrow> SnapshotEnvelope \<Rightarrow> memoryProvider \<Rightarrow> memoryProvider \<Rightarrow> bool" where
  "saved env codec key s m m' \<longleftrightarrow>
     (\<exists>h h' data. read_history codec (ReadBlob m key) = Some h \<and> sn_SnapshotID s \<notin> set (map sn_SnapshotID h) \<and>
        suffix h' (extend_history (he_now env) s h) \<and> (extend_history (he_now env) s h \<noteq> [] \<longrightarrow> h' \<noteq> []) \<and>
        hc_enc codec h' = Some data \<and> length data \<le> MaxSnapshotBytes \<and> m' = WriteBlob (he_now env) key data m)"

lemma save_attempts_effect:
  assumes "save_attempts env codec key s n m = (err, m')"
  shows "\<exists>is. let mb = fold (he_others env) is m in
    (err = None \<longrightarrow> m' = mb \<and> (\<exists>h. read_history codec (ReadBlob mb key) = Some h \<and> sn_SnapshotID s \<in> set (map sn_SnapshotID h)) \<or>
       saved env codec key s mb m') \<and>
    (err \<noteq> None \<longrightarrow> m' = mb)"
  using assms
proof (induction n arbitrary: m)
  case 0
  then show ?case by (auto intro!: exI [of _ "[]"])
next
  case (Suc n)
  show ?case
  proof (cases "he_readErr env (8 - n)")
    case (Some e)
    then show ?thesis using Suc.prems by (auto intro!: exI [of _ "[]"])
  next
    case None
    note noerr = None
    show ?thesis
    proof (cases "read_history codec (ReadBlob m key)")
      case None
      then show ?thesis using Suc.prems noerr by (auto intro!: exI [of _ "[]"])
    next
      case (Some h)
      note hist = Some
      show ?thesis
      proof (cases "sn_SnapshotID s \<in> set (map sn_SnapshotID h)")
        case True
        then show ?thesis using Suc.prems noerr hist by (auto intro!: exI [of _ "[]"])
      next
        case False
        show ?thesis
        proof (cases "fit_history codec (extend_history (he_now env) s h)")
          case (Inl e)
          then show ?thesis using Suc.prems noerr hist False by (auto intro!: exI [of _ "[]"])
        next
          case (Inr data)
          let ?m = "he_others env (8 - n) m"
          show ?thesis
          proof (cases "he_swapErr env (8 - n)")
            case (Some e)
            then show ?thesis using Suc.prems noerr hist False Inr by (auto intro!: exI [of _ "[8 - n]"])
          next
            case None
            obtain swapped m1 where cas: "CompareAndSwapBlob (he_now env) key (ReadBlob m key) (Some data) ?m = (swapped, m1)"
              by (meson surj_pair)
            note eff = cas_some [OF cas]
            have res: "(err, m') = (if swapped then (None, m1) else save_attempts env codec key s n m1)"
              using Suc.prems noerr hist False Inr None cas by (simp add: Let_def)
            show ?thesis
            proof (cases swapped)
              case True
              then have "saved env codec key s ?m m'"
                using eff res hist False fit_history_suffix [OF Inr] unfolding saved_def by auto
              then show ?thesis using True res by (intro exI [of _ "[8 - n]"]) simp
            next
              case False
              then obtain "is" where "let mb = fold (he_others env) is ?m in
                  (err = None \<longrightarrow> m' = mb \<and> (\<exists>h. read_history codec (ReadBlob mb key) = Some h \<and> sn_SnapshotID s \<in> set (map sn_SnapshotID h)) \<or>
                     saved env codec key s mb m') \<and> (err \<noteq> None \<longrightarrow> m' = mb)"
                using Suc.IH [of ?m] eff res by auto
              then show ?thesis by (intro exI [of _ "(8 - n) # is"]) simp
            qed
          qed
        qed
      qed
    qed
  qed
qed











subsection \<open>Properties\<close>



text \<open>
  C40: A saved snapshot is what the next read finds. When a save succeeds, then either a snapshot with its
  identity is in the history already and the save changes nothing, or, unless it is older than a day,
  it is the last of a history that is the end of the one the other processes left, with at most 60
  snapshots of the last day and within the size limit; no other blob changes.
\<close>

theorem saved_snapshot_is_read_next:
  assumes "history_codec_ok codec" "\<not> sn_GeneratedAt s < he_now env - MaxSnapshotAge"
    and "SaveSnapshot env codec orgID s (Some m) = (None, Some m')"
  shows "\<exists>is h h'. read_history codec (ReadBlob (fold (he_others env) is m) (snapshotKey env orgID)) = Some h \<and>
     read_history codec (ReadBlob m' (snapshotKey env orgID)) = Some h' \<and>
     (if sn_SnapshotID s \<in> set (map sn_SnapshotID h) then m' = fold (he_others env) is m
      else h' \<noteq> [] \<and> List.last h' = s \<and> suffix h' (filter (\<lambda>x. \<not> sn_GeneratedAt x < he_now env - MaxSnapshotAge) h @ [s]) \<and>
        length h' \<le> MaxSnapshots \<and> length (the (ReadBlob m' (snapshotKey env orgID))) \<le> MaxSnapshotBytes \<and>
        list_all (\<lambda>name. ReadBlob m' name = ReadBlob (fold (he_others env) is m) name)
          (removeAll (snapshotKey env orgID) (mp_blobNames m')))"
proof -
  let ?key = "snapshotKey env orgID"
  obtain e m1 where at: "save_attempts env codec ?key s 8 m = (e, m1)" by (meson surj_pair)
  have e: "e = None" "m1 = m'" using assms(3) at by (auto simp: SaveSnapshot_def split: sum.splits if_splits)
  obtain "is" where eff: "m' = fold (he_others env) is m \<and> (\<exists>h. read_history codec (ReadBlob (fold (he_others env) is m) ?key) = Some h \<and>
        sn_SnapshotID s \<in> set (map sn_SnapshotID h)) \<or> saved env codec ?key s (fold (he_others env) is m) m'"
    using save_attempts_effect [OF at] e by (auto simp: Let_def)
  then show ?thesis
  proof (elim disjE exE conjE)
    fix h
    assume "m' = fold (he_others env) is m" "read_history codec (ReadBlob (fold (he_others env) is m) ?key) = Some h"
      "sn_SnapshotID s \<in> set (map sn_SnapshotID h)"
    then show ?thesis by (intro exI [of _ "is"] exI [of _ h]) simp
  next
    let ?f = "\<lambda>x. \<not> sn_GeneratedAt x < he_now env - MaxSnapshotAge"
    assume "saved env codec ?key s (fold (he_others env) is m) m'"
    then obtain h h' data where h: "read_history codec (ReadBlob (fold (he_others env) is m) ?key) = Some h"
        "sn_SnapshotID s \<notin> set (map sn_SnapshotID h)" "suffix h' (extend_history (he_now env) s h)"
        "extend_history (he_now env) s h \<noteq> [] \<longrightarrow> h' \<noteq> []" "hc_enc codec h' = Some data" "length data \<le> MaxSnapshotBytes"
        "m' = WriteBlob (he_now env) ?key data (fold (he_others env) is m)" by (auto simp: saved_def)
    have data: "data \<noteq> []" "hc_dec codec data = Some h'" using assms(1) h(5) by (auto simp: history_codec_ok_def)
    have ext: "extend_history (he_now env) s h = last_n MaxSnapshots (filter ?f h @ [s])"
      using assms(2) by (simp add: extend_history_def)
    have last: "suffix (extend_history (he_now env) s h) (filter ?f h @ [s])" "extend_history (he_now env) s h \<noteq> []"
        "length (extend_history (he_now env) s h) \<le> MaxSnapshots"
      by (auto simp: ext last_n_def suffix_drop MaxSnapshots_def)
    have suf: "suffix h' (filter ?f h @ [s])" "h' \<noteq> []" using h(3,4) last suffix_order.trans by blast+
    then obtain ys where "filter ?f h @ [s] = ys @ h'" by (auto simp: suffix_def)
    then have "List.last h' = s" using suf(2) by (metis last_appendR last_snoc)
    moreover have "length h' \<le> MaxSnapshots" using h(3) last(3) suffix_length_le order_trans by blast
    ultimately show ?thesis
      using h data suf
      by (intro exI [of _ "is"] exI [of _ h] exI [of _ h']) (simp add: read_history_def ReadBlob_Write list_all_iff)
  qed
qed

text \<open>
  Two assessments of one service that both raise its severity: the severity that stripping restores is
  the one the first assessment raised it to.
\<close>

lemma second_raise_survives_stripping:
  assumes "as_RaiseSeverity a" "as_RaiseSeverity b" "severityRank (sv_Severity s) < severityRank (as_Severity a)"
    and "severityRank (as_Severity a) < severityRank (as_Severity b)"
  shows "sv_Severity (strip_service (apply_assessment b (apply_assessment a s))) = as_Severity a"
proof -
  have "severityRank [] = 0" by (simp add: severityRank_def)
  then have "as_Severity a \<noteq> []" using assms(3) by auto
  then show ?thesis using assms by (simp add: apply_assessment_def strip_service_def Let_def)
qed

subsection \<open>Witnesses\<close>

text \<open>A collector with one service, a provider with evidence for it and an assessor that raises its severity.\<close>

definition awit_env :: health_env where
  "awit_env = \<lparr>he_now = 6 * minute, he_sha = (\<lambda>s. ''aa''), he_encState = (\<lambda>st. None), he_decState = (\<lambda>d. None),
     he_encSettings = (\<lambda>s. None), he_decSettings = (\<lambda>s. None), he_readErr = (\<lambda>i. None), he_swapErr = (\<lambda>i. None),
     he_others = (\<lambda>i m. m)\<rparr>"

text \<open>A codec that knows two histories.\<close>

definition two_codec :: "SnapshotEnvelope \<Rightarrow> SnapshotEnvelope \<Rightarrow> history_codec" where
  "two_codec s s' = \<lparr>hc_enc = (\<lambda>h. if h = [s] then Some ''x'' else if h = [s'] then Some ''y'' else None),
     hc_dec = (\<lambda>d. if d = ''x'' then Some [s] else if d = ''y'' then Some [s'] else None)\<rparr>"

lemma two_codec_ok: "history_codec_ok (two_codec s s')"
  by (simp add: history_codec_ok_def two_codec_def)



lemma new_memory_blob: "ReadBlob NewMemory name = None"
  by (simp add: ReadBlob_def NewMemory_def)

lemma awit_simps [simp]:
  "he_now awit_env = 6 * minute" "he_readErr awit_env i = None" "he_swapErr awit_env i = None" "he_others awit_env i m = m"
  by (simp_all add: awit_env_def)

lemma save_first:
  assumes "sn_SettingsRevision s = 0" "\<not> sn_GeneratedAt s < 6 * minute - MaxSnapshotAge"
    and "hc_enc codec [s] = Some data" "length data \<le> MaxSnapshotBytes"
  shows "SaveSnapshot awit_env codec orgID s (Some NewMemory) =
    (None, Some (WriteBlob (6 * minute) (snapshotKey awit_env orgID) data NewMemory))"
proof -
  have "extend_history (6 * minute) s [] = [s]" using assms(2) by (simp add: extend_history_def last_n_def MaxSnapshots_def)
  then have "save_attempts awit_env codec (snapshotKey awit_env orgID) s (Suc 7) NewMemory =
      (None, WriteBlob (6 * minute) (snapshotKey awit_env orgID) data NewMemory)"
    using cas_set [of "6 * minute" "snapshotKey awit_env orgID" NewMemory data] assms(3,4)
    by (subst save_attempts.simps(2)) (simp add: new_memory_blob read_history_def Let_def)
  moreover have "LoadSettings awit_env orgID (Some NewMemory) = Inr DefaultSettings"
    by (simp add: LoadSettings_def new_memory_blob Let_def)
  ultimately show ?thesis using assms(1) by (simp add: SaveSnapshot_def DefaultSettings_def)
qed







definition awit_saved :: SnapshotEnvelope where
  "awit_saved = (empty_snapshot awit_env DefaultSettings)\<lparr>sn_SnapshotID := ''a''\<rparr>"

theorem saved_snapshot_is_read_next_witness:
  "\<exists>h'. read_history (two_codec awit_saved awit_saved) (Some ''x'') = Some h' \<and> h' \<noteq> [] \<and> List.last h' = awit_saved"
proof -
  let ?codec = "two_codec awit_saved awit_saved"
  have enc: "hc_enc ?codec [awit_saved] = Some ''x''" "length ''x'' \<le> MaxSnapshotBytes" by (simp_all add: two_codec_def MaxSnapshotBytes_def)
  have fields: "sn_SettingsRevision awit_saved = 0" "\<not> sn_GeneratedAt awit_saved < 6 * minute - MaxSnapshotAge"
    by (simp_all add: awit_saved_def empty_snapshot_def DefaultSettings_def MaxSnapshotAge_def minute_def hour_def second_def)
  note save = save_first [OF fields enc, of "''default''"]
  have alone: "fold (he_others awit_env) is m = m" for "is" m by (induction "is" arbitrary: m) simp_all
  show ?thesis
    using saved_snapshot_is_read_next [OF two_codec_ok _ save] fields(2)
    by (auto simp: alone new_memory_blob read_history_def ReadBlob_Write)
qed

end
