(* ===== verification/Spec2Isabelle.thy ===== *)
theory Spec2Isabelle
  imports Provider_Runs Model_Store Rate_Limit Miner Team_Store Tail_Dedup Ack_Token Detect_Log
    Agent_Filters Shadow_Log Log_Brain Worker_Flush Finding_Delivery On_Call Health_Counts Health_Access
begin

text \<open>skeleton\<close>

end
